(* ===== verification/Prelude.thy ===== *)
theory Prelude
  imports Main "HOL-Library.List_Lexorder" "HOL-Library.Char_ord"
begin

text \<open>
  Shared foundations of the development: the Python values the toolkit handles, the exceptions it
  raises, and the small part of Python's built-in behaviour that the modelled modules rely on.

  \<^item> \<open>json\<close> is a value as \<open>yaml.safe_load\<close> or \<open>Response.json()\<close> produces it, with string keys and
    without floats (no modelled function reads a float from such a value). A \<open>dict\<close> is an
    association list with distinct keys in insertion order; \<open>None\<close> is \<open>JNull\<close>.
  \<^item> \<open>py_eq\<close>, \<open>truthy\<close>, \<open>py_iter\<close>, \<open>py_str\<close>, \<open>py_repr\<close>, \<open>py_sorted\<close> are Python's \<open>==\<close>,
    \<open>bool\<close>, iteration, \<open>str\<close>, \<open>repr\<close> and \<open>sorted\<close> on such values, raising where Python raises.
  \<^item> An exception is a value of \<open>exn\<close>; fallible pure code returns \<open>exn + 'a\<close> and is sequenced by
    \<open>ebind\<close>.
  \<^item> A Python \<open>set\<close> of strings is a list that enumerates it; code never observes its order, and
    \<open>sorted_set\<close> is proved to depend on the elements only.
\<close>

named_theorems exn_simps \<open>equations that run the exception monad\<close>
named_theorems py_simps \<open>equations of the Python built-ins on known values\<close>

section \<open>Exceptions\<close>

text \<open>
  The argument of an exception identifies the raising statement; it stands for the message text.
  \<open>GiteaError\<close> carries the \<open>status_code\<close> attribute callers branch on.
\<close>

datatype exn =
    ValueError string
  | KeyError string
  | TypeError string
  | AttributeError string
  | RuntimeError string
  | RequestsError string
  | JSONDecodeError string
  | GiteaError string "int option"
  | TeamPermissionError string
  | RepoSettingsError string
  | WebhookError string
  | CollaboratorError string
  | WindowError string
  | WindowHeldError string
  | CalledProcessError string
  | ApplicationNotFoundError string
  | RevisionHeldError string
  | HubUnreachableError string
  | StatusFetchError string
  | KubectlError string
  | CronJobRunTeardownError string
  | HashSourceMissing "string list"
  | RotationRefused string
  | OSError string
  | YAMLError string
  | DeclarationError string
  | BranchProtectionError string
  | PushTokenError string
  | ReclaimRefused string
  | DockerUnavailableError string
  | MintError string "int option"
  | KumaException string
  | OverflowError string
  | TimeoutExpired string
  | RevokeError string

definition ebind :: "'e + 'a \<Rightarrow> ('a \<Rightarrow> 'e + 'b) \<Rightarrow> 'e + 'b" where
  "ebind m f = (case m of Inl e \<Rightarrow> Inl e | Inr x \<Rightarrow> f x)"

lemma ebind_simps [simp, exn_simps]:
  "ebind (Inl e) f = Inl e"
  "ebind (Inr x) f = f x"
  by (simp_all add: ebind_def)

lemma ebind_eq_Inr [simp]: "ebind m f = Inr y \<longleftrightarrow> (\<exists>x. m = Inr x \<and> f x = Inr y)"
  by (cases m) auto

lemma ebind_assoc: "ebind (ebind m f) g = ebind m (\<lambda>x. ebind (f x) g)"
  by (cases m) auto

lemma ebind_cong [fundef_cong]:
  "m = m' \<Longrightarrow> (\<And>x. m' = Inr x \<Longrightarrow> f x = f' x) \<Longrightarrow> ebind m f = ebind m' f'"
  by (cases m') auto

fun emap :: "('a \<Rightarrow> 'e + 'b) \<Rightarrow> 'a list \<Rightarrow> 'e + 'b list" where
  "emap f [] = Inr []"
| "emap f (x # xs) = ebind (f x) (\<lambda>y. ebind (emap f xs) (\<lambda>ys. Inr (y # ys)))"

fun efilter :: "('a \<Rightarrow> 'e + bool) \<Rightarrow> 'a list \<Rightarrow> 'e + 'a list" where
  "efilter f [] = Inr []"
| "efilter f (x # xs) =
     ebind (f x) (\<lambda>b. ebind (efilter f xs) (\<lambda>ys. Inr (if b then x # ys else ys)))"

lemma emap_eq_Inr_iff: "emap f xs = Inr ys \<longleftrightarrow> list_all2 (\<lambda>x y. f x = Inr y) xs ys"
proof (induction xs arbitrary: ys)
  case Nil
  then show ?case by auto
next
  case (Cons x xs)
  then show ?case by (cases ys) auto
qed

lemma emap_total: "(\<And>x. x \<in> set xs \<Longrightarrow> f x = Inr (g x)) \<Longrightarrow> emap f xs = Inr (map g xs)"
  by (induction xs) auto

lemma efilter_total: "(\<And>x. x \<in> set xs \<Longrightarrow> f x = Inr (P x)) \<Longrightarrow> efilter f xs = Inr (filter P xs)"
  by (induction xs) auto

lemma emap_eq_Inr_set: "emap f xs = Inr ys \<Longrightarrow> y \<in> set ys \<longleftrightarrow> (\<exists>x\<in>set xs. f x = Inr y)"
proof (induction xs arbitrary: ys)
  case Nil
  then show ?case by simp
next
  case (Cons x xs)
  then show ?case by (auto 4 3)
qed

lemma emap_elem:
  assumes "emap f xs = Inr ys" and "y \<in> set ys"
  obtains x where "x \<in> set xs" and "f x = Inr y"
  using emap_eq_Inr_set [OF assms(1)] assms(2) by blast

lemma emap_image:
  assumes "emap f xs = Inr ys" and "x \<in> set xs"
  obtains y where "y \<in> set ys" and "f x = Inr y"
  using assms by (auto simp: emap_eq_Inr_iff list_all2_conv_all_nth in_set_conv_nth) (metis nth_mem)

lemma efilter_eq_Inr:
  "efilter f xs = Inr ys \<Longrightarrow>
     ys = filter (\<lambda>x. f x = Inr True) xs \<and> (\<forall>x\<in>set xs. \<exists>b. f x = Inr b)"
  by (induction xs arbitrary: ys) auto

lemma efilter_None:
  "efilter f xs = Inr [] \<longleftrightarrow> (\<forall>x\<in>set xs. f x = Inr False)"
  by (induction xs) (auto split: if_splits)

section \<open>Values\<close>

datatype json =
    JNull
  | JBool bool
  | JInt int
  | JStr string
  | JArr "json list"
  | JObj "(string \<times> json) list"

type_synonym obj = "(string \<times> json) list"

text \<open>\<open>d.get(k)\<close>, \<open>d[k]\<close> and \<open>k in d\<close> on a \<open>dict\<close>.\<close>

definition oget :: "obj \<Rightarrow> string \<Rightarrow> json" where
  "oget kvs k = (case map_of kvs k of None \<Rightarrow> JNull | Some v \<Rightarrow> v)"

definition oget_or :: "obj \<Rightarrow> string \<Rightarrow> json \<Rightarrow> json" where
  "oget_or kvs k d = (case map_of kvs k of None \<Rightarrow> d | Some v \<Rightarrow> v)"

definition lookup_or :: "exn \<Rightarrow> (string \<times> 'v) list \<Rightarrow> string \<Rightarrow> exn + 'v" where
  "lookup_or e kvs k = (case map_of kvs k of None \<Rightarrow> Inl e | Some v \<Rightarrow> Inr v)"

abbreviation index :: "(string \<times> 'v) list \<Rightarrow> string \<Rightarrow> exn + 'v" where
  "index kvs k \<equiv> lookup_or (KeyError k) kvs k"

lemma oget_simps [simp]:
  "oget [] k = JNull"
  "oget ((k', v) # kvs) k = (if k' = k then v else oget kvs k)"
  by (simp_all add: oget_def)

lemma oget_or_simps [simp]:
  "oget_or [] k d = d"
  "oget_or ((k', v) # kvs) k d = (if k' = k then v else oget_or kvs k d)"
  by (simp_all add: oget_or_def)

text \<open>\<open>d[k] = v\<close>: an existing key keeps its position, a new one goes last.\<close>

fun oset :: "(string \<times> 'v) list \<Rightarrow> string \<Rightarrow> 'v \<Rightarrow> (string \<times> 'v) list" where
  "oset [] k v = [(k, v)]"
| "oset ((k', v') # kvs) k v = (if k' = k then (k, v) # kvs else (k', v') # oset kvs k v)"

lemma map_of_oset [simp]: "map_of (oset kvs k v) = (map_of kvs)(k \<mapsto> v)"
  by (induction kvs k v rule: oset.induct) auto

lemma set_fst_oset [simp]: "fst ` set (oset kvs k v) = insert k (fst ` set kvs)"
  by (induction kvs k v rule: oset.induct) auto

lemma set_oset: "set (oset kvs k v) \<subseteq> insert (k, v) (set kvs)"
  by (induction kvs k v rule: oset.induct) auto

lemma distinct_oset [simp]: "distinct (map fst kvs) \<Longrightarrow> distinct (map fst (oset kvs k v))"
  by (induction kvs k v rule: oset.induct) auto

lemma lookup_or_eq_Inr [simp]: "lookup_or e kvs k = Inr v \<longleftrightarrow> map_of kvs k = Some v"
  by (auto simp: lookup_or_def split: option.splits)

lemma lookup_or_eq_Inl [simp]: "lookup_or e kvs k = Inl e' \<longleftrightarrow> map_of kvs k = None \<and> e' = e"
  by (auto simp: lookup_or_def split: option.splits)

lemma lookup_or_Some: "map_of kvs k = Some v \<Longrightarrow> lookup_or e kvs k = Inr v"
  by simp

text \<open>\<open>x.get(k)\<close>, \<open>x[k]\<close> on a value of unknown type.\<close>

fun py_get :: "json \<Rightarrow> string \<Rightarrow> exn + json" where
  "py_get (JObj kvs) k = Inr (oget kvs k)"
| "py_get _ k = Inl (AttributeError ''get'')"

fun py_get_or :: "json \<Rightarrow> string \<Rightarrow> json \<Rightarrow> exn + json" where
  "py_get_or (JObj kvs) k d = Inr (oget_or kvs k d)"
| "py_get_or _ k d = Inl (AttributeError ''get'')"

fun py_index :: "json \<Rightarrow> string \<Rightarrow> exn + json" where
  "py_index (JObj kvs) k = index kvs k"
| "py_index _ k = Inl (TypeError ''subscript'')"

text \<open>\<open>x.get(a, {}).get(b, {})...\<close>.\<close>

fun get_path :: "json \<Rightarrow> string list \<Rightarrow> exn + json" where
  "get_path x [] = Inr x"
| "get_path x (k # ks) = ebind (py_get_or x k (JObj [])) (\<lambda>y. get_path y ks)"

text \<open>\<open>x[a][b]...\<close>.\<close>

fun index_path :: "json \<Rightarrow> string list \<Rightarrow> exn + json" where
  "index_path x [] = Inr x"
| "index_path x (k # ks) = ebind (py_index x k) (\<lambda>y. index_path y ks)"

fun py_items :: "json \<Rightarrow> exn + obj" where
  "py_items (JObj kvs) = Inr kvs"
| "py_items _ = Inl (AttributeError ''items'')"

fun is_mapping :: "json \<Rightarrow> bool" where
  "is_mapping (JObj _) = True"
| "is_mapping _ = False"

fun truthy :: "json \<Rightarrow> bool" where
  "truthy JNull = False"
| "truthy (JBool b) = b"
| "truthy (JInt n) = (n \<noteq> 0)"
| "truthy (JStr s) = (s \<noteq> [])"
| "truthy (JArr xs) = (xs \<noteq> [])"
| "truthy (JObj kvs) = (kvs \<noteq> [])"

text \<open>\<open>x or y\<close>.\<close>

definition py_or :: "json \<Rightarrow> json \<Rightarrow> json" where
  "py_or x y = (if truthy x then x else y)"

fun num_of :: "json \<Rightarrow> int option" where
  "num_of (JBool b) = Some (if b then 1 else 0)"
| "num_of (JInt n) = Some n"
| "num_of _ = None"

text \<open>\<open>==\<close>: \<open>True == 1\<close>, and dictionaries compare without regard to order.\<close>

fun py_eq :: "json \<Rightarrow> json \<Rightarrow> bool"
  and py_eq_list :: "json list \<Rightarrow> json list \<Rightarrow> bool"
  and py_eq_obj :: "obj \<Rightarrow> obj \<Rightarrow> bool" where
  "py_eq JNull y = (y = JNull)"
| "py_eq (JBool b) y = (num_of y = Some (if b then 1 else 0))"
| "py_eq (JInt n) y = (num_of y = Some n)"
| "py_eq (JStr s) y = (y = JStr s)"
| "py_eq (JArr xs) y = (case y of JArr ys \<Rightarrow> py_eq_list xs ys | _ \<Rightarrow> False)"
| "py_eq (JObj kvs) y = (case y of JObj kws \<Rightarrow> length kvs = length kws \<and> py_eq_obj kvs kws | _ \<Rightarrow> False)"
| "py_eq_list [] ys = (ys = [])"
| "py_eq_list (x # xs) ys = (case ys of [] \<Rightarrow> False | y # ys' \<Rightarrow> py_eq x y \<and> py_eq_list xs ys')"
| "py_eq_obj [] kws = True"
| "py_eq_obj ((k, v) # kvs) kws =
     ((case map_of kws k of None \<Rightarrow> False | Some w \<Rightarrow> py_eq v w) \<and> py_eq_obj kvs kws)"


lemma py_eq_JStr [simp, py_simps]: "py_eq (JStr s) (JStr t) \<longleftrightarrow> s = t"
  by auto

lemma py_eq_text: "py_eq x (JStr s) \<longleftrightarrow> x = JStr s"
  by (cases x) auto

lemma py_eq_JBool [simp, py_simps]: "py_eq (JBool a) (JBool b) \<longleftrightarrow> a = b"
  by auto

lemma map_of_Cons_dom: "distinct (map fst ((k, v) # kvs)) \<Longrightarrow> kw \<in> fst ` set kvs \<Longrightarrow> kw \<noteq> k"
  by auto

text \<open>
  Well-formed values: every dictionary at every depth has distinct keys, as Python's do.
\<close>

fun json_wf :: "json \<Rightarrow> bool" where
  "json_wf (JArr xs) = list_all json_wf xs"
| "json_wf (JObj kvs) = (distinct (map fst kvs) \<and> list_all (\<lambda>kv. json_wf (snd kv)) kvs)"
| "json_wf _ = True"

lemma py_eq_obj_iff:
  "py_eq_obj kvs kws \<longleftrightarrow>
     (\<forall>(k, v) \<in> set kvs. \<exists>w. map_of kws k = Some w \<and> py_eq v w)"
  by (induction kvs) (auto split: option.splits)

text \<open>Equality is reflexive on well-formed values.\<close>

lemma py_eq_refl: "json_wf x \<Longrightarrow> py_eq x x"
proof (induction x rule: json_wf.induct)
  case (1 xs)
  have "list_all json_wf ys \<Longrightarrow> set ys \<subseteq> set xs \<Longrightarrow> py_eq_list ys ys" for ys
    by (induction ys) (use 1 in \<open>auto simp: list_all_iff\<close>)
  with 1 show ?case by (auto simp: list_all_iff)
next
  case (2 kvs)
  then show ?case
    by (force simp: py_eq_obj_iff list_all_iff map_of_is_SomeI)
qed auto

section \<open>Text\<close>

fun show_nat :: "nat \<Rightarrow> string" where
  "show_nat n =
     (if n < 10 then [''0123456789'' ! n] else show_nat (n div 10) @ [''0123456789'' ! (n mod 10)])"

declare show_nat.simps [simp del]

definition show_int :: "int \<Rightarrow> string" where
  "show_int i = (if i < 0 then CHR ''-'' # show_nat (nat (- i)) else show_nat (nat i))"

fun join :: "string \<Rightarrow> string list \<Rightarrow> string" where
  "join sep [] = []"
| "join sep [x] = x"
| "join sep (x # y # zs) = x @ sep @ join sep (y # zs)"

text \<open>\<open>s.partition(c)\<close> without its middle component, and \<open>s.split(c)\<close>.\<close>

fun str_partition :: "char \<Rightarrow> string \<Rightarrow> string \<times> string" where
  "str_partition c [] = ([], [])"
| "str_partition c (x # xs) =
     (if x = c then ([], xs) else let (a, b) = str_partition c xs in (x # a, b))"

fun split_on :: "char \<Rightarrow> string \<Rightarrow> string list" where
  "split_on c [] = [[]]"
| "split_on c (x # xs) =
     (if x = c then [] # split_on c xs
      else case split_on c xs of [] \<Rightarrow> [[x]] | y # ys \<Rightarrow> (x # y) # ys)"

definition is_space :: "char \<Rightarrow> bool" where
  "is_space c = (let n = (of_char c :: nat) in (9 \<le> n \<and> n \<le> 13) \<or> (28 \<le> n \<and> n \<le> 32))"

definition strip :: "string \<Rightarrow> string" where
  "strip s = rev (dropWhile is_space (rev (dropWhile is_space s)))"

text \<open>\<open>s.split()\<close>: the maximal runs of non-blank characters.\<close>

fun words_of :: "string \<Rightarrow> string \<Rightarrow> string list" where
  "words_of acc [] = (if acc = [] then [] else [rev acc])"
| "words_of acc (c # cs) =
     (if is_space c then (if acc = [] then words_of [] cs else rev acc # words_of [] cs)
      else words_of (c # acc) cs)"

definition lower_char :: "char \<Rightarrow> char" where
  "lower_char c = (let n = (of_char c :: nat) in if 65 \<le> n \<and> n \<le> 90 then char_of (n + 32) else c)"

definition lower :: "string \<Rightarrow> string" where
  "lower s = map lower_char s"

definition starts_with :: "string \<Rightarrow> string \<Rightarrow> bool" where
  "starts_with p s = (take (length p) s = p)"

definition remove_prefix :: "string \<Rightarrow> string \<Rightarrow> string" where
  "remove_prefix p s = (if starts_with p s then drop (length p) s else s)"

definition ends_with :: "string \<Rightarrow> string \<Rightarrow> bool" where
  "ends_with suffix s = starts_with (rev suffix) (rev s)"

text \<open>\<open>s.rpartition(c)\<close> without its middle component.\<close>

definition str_rpartition :: "char \<Rightarrow> string \<Rightarrow> string \<times> string" where
  "str_rpartition c s =
     (if c \<in> set s then (let (a, b) = str_partition c (rev s) in (rev b, rev a)) else ([], s))"

text \<open>\<open>needle in s\<close> on strings.\<close>

fun str_contains :: "string \<Rightarrow> string \<Rightarrow> bool" where
  "str_contains needle [] = (needle = [])"
| "str_contains needle (c # cs) = (starts_with needle (c # cs) \<or> str_contains needle cs)"

lemma starts_with_append [simp]: "starts_with p (p @ s)"
  by (simp add: starts_with_def)

lemma remove_prefix_append [simp]: "remove_prefix p (p @ s) = s"
  by (simp add: remove_prefix_def)

lemma starts_with_iff: "starts_with p s \<longleftrightarrow> (\<exists>t. s = p @ t)"
  unfolding starts_with_def by (metis append_eq_conv_conj)

lemma str_partition_no_sep: "c \<notin> set s \<Longrightarrow> str_partition c s = (s, [])"
  by (induction s) auto

lemma str_partition_append: "c \<notin> set s \<Longrightarrow> str_partition c (s @ c # t) = (s, t)"
  by (induction s) auto

lemma str_partition_fst_no_sep: "c \<notin> set (fst (str_partition c s))"
  by (induction s) (auto simp: case_prod_beta)

lemma str_partition_rejoin:
  "str_partition c s = (a, b) \<Longrightarrow> c \<in> set s \<Longrightarrow> s = a @ c # b"
  by (induction s arbitrary: a) (auto split: if_splits prod.splits)

lemma str_partition_snd_nonempty: "snd (str_partition c s) \<noteq> [] \<Longrightarrow> c \<in> set s"
  by (induction s) (auto simp: case_prod_beta split: if_splits)

lemma split_on_not_Nil [simp]: "split_on c s \<noteq> []"
  by (induction s) (auto split: list.splits)

lemma join_split_on: "join [c] (split_on c s) = s"
proof (induction s)
  case Nil
  then show ?case by simp
next
  case (Cons x xs)
  obtain y ys where "split_on c xs = y # ys"
    by (meson neq_Nil_conv split_on_not_Nil)
  with Cons show ?case by (cases ys) auto
qed

text \<open>\<open>repr\<close> and \<open>str\<close>. Text is ASCII; control characters are escaped as CPython does.\<close>

text \<open>Splitting undoes joining, and stripping and lower-casing settle after one application.\<close>

lemma split_on_no_sep: "c \<notin> set x \<Longrightarrow> split_on c x = [x]"
  by (induction x) auto

lemma split_on_append: "c \<notin> set x \<Longrightarrow> split_on c (x @ c # s) = x # split_on c s"
  by (induction x) auto

lemma split_on_join:
  "xs \<noteq> [] \<Longrightarrow> (\<And>x. x \<in> set xs \<Longrightarrow> c \<notin> set x) \<Longrightarrow> split_on c (join [c] xs) = xs"
  by (induction "[c]" xs rule: join.induct) (auto simp: split_on_no_sep split_on_append)

lemma split_on_parts: "x \<in> set (split_on c s) \<Longrightarrow> c \<notin> set x"
  by (induction c s arbitrary: x rule: split_on.induct) (auto split: if_splits list.splits)

lemma strip_set: "set (strip s) \<subseteq> set s"
  unfolding strip_def by (auto dest!: set_dropWhileD)

lemma dropWhile_idem [simp]: "dropWhile P (dropWhile P s) = dropWhile P s"
  by (induction s) auto

lemma dropWhile_rev_dropWhile:
  "dropWhile P (rev (dropWhile P (rev (dropWhile P s)))) = rev (dropWhile P (rev (dropWhile P s)))"
proof (cases "dropWhile P s")
  case (Cons x xs)
  then have x: "\<not> P x" using hd_dropWhile [of P s] by simp
  have "rev (dropWhile P (rev xs @ [x])) = x # rev (dropWhile P (rev xs))"
    using x by (induction xs rule: rev_induct) (auto simp: dropWhile_append)
  with Cons x show ?thesis by simp
next
  case Nil
  show ?thesis unfolding Nil by simp
qed

lemma strip_strip [simp]: "strip (strip s) = strip s"
  unfolding strip_def by (simp add: dropWhile_rev_dropWhile)

definition hex_digit :: "nat \<Rightarrow> char" where
  "hex_digit n = ''0123456789abcdef'' ! n"

definition repr_char :: "char \<Rightarrow> char \<Rightarrow> string" where
  "repr_char q c =
     (let n = (of_char c :: nat) in
      if c = q \<or> n = 92 then [CHR 0x5C, c]
      else if n = 9 then [CHR 0x5C, CHR ''t'']
      else if n = 10 then [CHR 0x5C, CHR ''n'']
      else if n = 13 then [CHR 0x5C, CHR ''r'']
      else if n < 32 \<or> n = 127 then [CHR 0x5C, CHR ''x'', hex_digit (n div 16), hex_digit (n mod 16)]
      else [c])"

definition repr_str :: "string \<Rightarrow> string" where
  "repr_str s =
     (let q = (if CHR 0x27 \<in> set s \<and> CHR 0x22 \<notin> set s then CHR 0x22 else CHR 0x27)
      in [q] @ concat (map (repr_char q) s) @ [q])"

fun py_repr :: "json \<Rightarrow> string" where
  "py_repr JNull = ''None''"
| "py_repr (JBool b) = (if b then ''True'' else ''False'')"
| "py_repr (JInt n) = show_int n"
| "py_repr (JStr s) = repr_str s"
| "py_repr (JArr xs) = ''['' @ join '', '' (map py_repr xs) @ '']''"
| "py_repr (JObj kvs) =
     ''{'' @ join '', '' (map (\<lambda>kv. repr_str (fst kv) @ '': '' @ py_repr (snd kv)) kvs) @ ''}''"

fun py_str :: "json \<Rightarrow> string" where
  "py_str (JStr s) = s"
| "py_str v = py_repr v"

text \<open>\<open>int(x)\<close>, and \<open>dict(x)\<close>. No modelled call passes \<open>dict\<close> a list of pairs,
  so every non-empty list raises.\<close>

fun digits_val :: "nat \<Rightarrow> string \<Rightarrow> nat option" where
  "digits_val acc [] = Some acc"
| "digits_val acc (c # cs) =
     (let n = (of_char c :: nat)
      in if 48 \<le> n \<and> n \<le> 57 then digits_val (10 * acc + (n - 48)) cs else None)"

definition parse_int :: "string \<Rightarrow> int option" where
  "parse_int s =
     (case strip s of
        [] \<Rightarrow> None
      | c # cs \<Rightarrow>
          if c = CHR ''-'' then (if cs = [] then None else map_option (\<lambda>n. - int n) (digits_val 0 cs))
          else if c = CHR ''+'' then (if cs = [] then None else map_option int (digits_val 0 cs))
          else map_option int (digits_val 0 (c # cs)))"

text \<open>Decimal notation reads back, so distinct numbers have distinct notations.\<close>

lemma digits_val_append:
  "digits_val acc (xs @ ys) = (case digits_val acc xs of None \<Rightarrow> None | Some a \<Rightarrow> digits_val a ys)"
  by (induction acc xs rule: digits_val.induct) (simp_all add: Let_def)

lemma of_char_digit: "i < 10 \<Longrightarrow> (of_char (''0123456789'' ! i) :: nat) = 48 + i"
  by (auto simp: numeral_eq_Suc less_Suc_eq)

lemma digits_val_show_nat: "digits_val 0 (show_nat n) = Some n"
proof (induction n rule: show_nat.induct)
  case (1 n)
  show ?case
  proof (cases "n < 10")
    case True
    then show ?thesis by (simp add: show_nat.simps of_char_digit)
  next
    case False
    with 1 have "digits_val 0 (show_nat (n div 10)) = Some (n div 10)" by simp
    moreover have "n mod 10 < 10" by simp
    ultimately show ?thesis
      using False by (subst show_nat.simps) (simp add: digits_val_append of_char_digit Let_def)
  qed
qed

lemma show_nat_inj [simp]: "show_nat m = show_nat n \<longleftrightarrow> m = n"
  by (metis digits_val_show_nat option.inject)

lemma show_int_inj_nonneg: "0 \<le> i \<Longrightarrow> 0 \<le> j \<Longrightarrow> show_int i = show_int j \<longleftrightarrow> i = j"
  by (auto simp: show_int_def)

fun py_int :: "json \<Rightarrow> exn + int" where
  "py_int (JInt n) = Inr n"
| "py_int (JBool b) = Inr (if b then 1 else 0)"
| "py_int (JStr s) =
     (case parse_int s of None \<Rightarrow> Inl (ValueError ''int'') | Some n \<Rightarrow> Inr n)"
| "py_int _ = Inl (TypeError ''int'')"

fun py_dict :: "json \<Rightarrow> exn + obj" where
  "py_dict (JObj kvs) = Inr kvs"
| "py_dict (JArr []) = Inr []"
| "py_dict (JStr []) = Inr []"
| "py_dict (JArr (x # xs)) = Inl (ValueError ''dict'')"
| "py_dict (JStr (c # cs)) = Inl (ValueError ''dict'')"
| "py_dict _ = Inl (TypeError ''dict'')"

section \<open>Iteration, sets and sorting\<close>

text \<open>Iterating a value: a string yields its characters, a dictionary its keys.\<close>

fun py_iter :: "json \<Rightarrow> exn + json list" where
  "py_iter (JArr xs) = Inr xs"
| "py_iter (JStr s) = Inr (map (\<lambda>c. JStr [c]) s)"
| "py_iter (JObj kvs) = Inr (map (\<lambda>kv. JStr (fst kv)) kvs)"
| "py_iter _ = Inl (TypeError ''not iterable'')"

fun hashable :: "json \<Rightarrow> bool" where
  "hashable (JArr _) = False"
| "hashable (JObj _) = False"
| "hashable _ = True"

definition py_mem :: "json \<Rightarrow> json list \<Rightarrow> bool" where
  "py_mem x xs = list_ex (py_eq x) xs"

text \<open>\<open>set(xs)\<close>: an enumeration of the elements, or the error an unhashable one raises.\<close>

definition py_set :: "json list \<Rightarrow> exn + json list" where
  "py_set xs = (if list_all hashable xs then Inr xs else Inl (TypeError ''unhashable''))"

text \<open>\<open>list(dict.fromkeys(xs))\<close>: each element once, at its first position.\<close>

definition dedup :: "'a list \<Rightarrow> 'a list" where
  "dedup xs = rev (remdups (rev xs))"

lemma set_dedup [simp]: "set (dedup xs) = set xs"
  and distinct_dedup [simp]: "distinct (dedup xs)"
  by (simp_all add: dedup_def)

text \<open>Set difference, each element once.\<close>

fun py_remdups :: "json list \<Rightarrow> json list" where
  "py_remdups [] = []"
| "py_remdups (x # xs) = (if py_mem x xs then py_remdups xs else x # py_remdups xs)"

definition py_diff :: "json list \<Rightarrow> json list \<Rightarrow> json list" where
  "py_diff xs ys = py_remdups (filter (\<lambda>x. \<not> py_mem x ys) xs)"

fun str_of :: "json \<Rightarrow> string option" where
  "str_of (JStr s) = Some s"
| "str_of _ = None"

text \<open>\<open>sorted\<close> on a list: strings and numbers have an order, mixtures raise.\<close>

definition py_sorted :: "json list \<Rightarrow> exn + json list" where
  "py_sorted xs =
     (if length xs \<le> 1 then Inr xs
      else if list_all (\<lambda>x. str_of x \<noteq> None) xs then Inr (sort_key (\<lambda>x. the (str_of x)) xs)
      else if list_all (\<lambda>x. num_of x \<noteq> None) xs then Inr (sort_key (\<lambda>x. the (num_of x)) xs)
      else Inl (TypeError ''unorderable''))"

definition sorted_set :: "string list \<Rightarrow> string list" where
  "sorted_set xs = sort (remdups xs)"

lemma set_sorted_set [simp]: "set (sorted_set xs) = set xs"
  by (simp add: sorted_set_def)

lemma sorted_sorted_set [simp]: "sorted (sorted_set xs)"
  by (simp add: sorted_set_def)

lemma distinct_sorted_set [simp]: "distinct (sorted_set xs)"
  by (simp add: sorted_set_def)

lemma sorted_set_eq_Nil [simp]: "sorted_set xs = [] \<longleftrightarrow> xs = []"
  by (metis set_empty set_sorted_set)

text \<open>The enumeration a set is given by does not show in its sorted listing.\<close>

lemma sorted_set_cong: "set xs = set ys \<Longrightarrow> sorted_set xs = sorted_set ys"
  by (rule sorted_distinct_set_unique) simp_all

lemma py_sorted_set: "py_sorted xs = Inr ys \<Longrightarrow> set ys = set xs"
  by (auto simp: py_sorted_def split: if_splits)

lemma py_sorted_strings:
  "list_all (\<lambda>x. str_of x \<noteq> None) xs \<Longrightarrow>
     py_sorted xs = Inr (sort_key (\<lambda>x. the (str_of x)) xs)"
  by (cases xs; cases "tl xs") (auto simp: py_sorted_def)

lemma insort_texts: "insort_key (\<lambda>x. the (str_of x)) (JStr s) (map JStr ss) = map JStr (insort s ss)"
  by (induction ss) simp_all

lemma py_sorted_texts: "py_sorted (map JStr ss) = Inr (map JStr (sort ss))"
proof -
  have "sort_key (\<lambda>x. the (str_of x)) (map JStr ss) = map JStr (sort ss)"
    by (induction ss) (simp_all add: insort_texts)
  then show ?thesis by (simp add: py_sorted_strings list_all_iff)
qed

lemma py_sorted_Nil [simp]: "py_sorted xs = Inr [] \<longleftrightarrow> xs = []"
  using py_sorted_set [of xs "[]"] by (auto simp: py_sorted_def)

lemma py_remdups_Nil [simp]: "py_remdups xs = [] \<longleftrightarrow> xs = []"
  by (induction xs rule: py_remdups.induct) (auto simp: py_mem_def list_ex_iff)

lemma py_diff_Nil: "py_diff xs ys = [] \<longleftrightarrow> list_all (\<lambda>x. py_mem x ys) xs"
  by (auto simp: py_diff_def filter_empty_conv list_all_iff)

end
