(* ===== verification/Effects.thy ===== *)
theory Effects
  imports Prelude
begin

text \<open>
  Programs that talk to something outside the repository: the Gitea server, \<open>kubectl\<close>, a store.

  An action takes the world and returns an outcome and the world after it. The world is the log of
  everything sent so far (\<open>sent\<close>), the state of the outside party (\<open>world\<close>, of any type) and a
  bound on the iterations of one loop (\<open>budget\<close>). The outside party is a parameter: a function
  from a request and its state to a reply and its next state (\<open>call\<close>).

  \<^item> \<open>Exn e\<close> is a raised exception, and \<open>attempt\<close> is \<open>try ... except Exception\<close>.
  \<^item> \<open>Stuck\<close> is a loop that has used its whole budget; no handler catches it. A statement about
    \<open>sent\<close> for every budget is therefore a statement about every prefix of a run that never ends,
    and a statement that an action returns says the outcome is not \<open>Stuck\<close>.

  \<open>emits P m\<close> says that everything \<open>m\<close> sends satisfies \<open>P\<close>, on every path, failing ones included;
  the collection \<open>emits_intros\<close> proves such statements compositionally. \<open>sends\<close> names what an
  action sent, and \<open>answers\<close> that it does not get stuck.
\<close>

named_theorems emits_intros \<open>rules for what an action sends\<close>
named_theorems act_simps \<open>equations that run an action\<close>
named_theorems answers_intros \<open>rules for an action that always returns or raises\<close>

section \<open>Actions\<close>

datatype 'a outcome = Val 'a | Exn exn | Stuck

record ('q, 's) net =
  sent :: "'q list"
  world :: 's
  budget :: nat

type_synonym ('q, 's, 'a) act = "('q, 's) net \<Rightarrow> 'a outcome \<times> ('q, 's) net"

definition ret :: "'a \<Rightarrow> ('q, 's, 'a) act" where
  "ret x n = (Val x, n)"

definition throw :: "exn \<Rightarrow> ('q, 's, 'a) act" where
  "throw e n = (Exn e, n)"

definition stuck :: "('q, 's, 'a) act" where
  "stuck n = (Stuck, n)"

definition abind :: "('q, 's, 'a) act \<Rightarrow> ('a \<Rightarrow> ('q, 's, 'b) act) \<Rightarrow> ('q, 's, 'b) act" where
  "abind m f n =
     (case m n of (Val x, n') \<Rightarrow> f x n' | (Exn e, n') \<Rightarrow> (Exn e, n') | (Stuck, n') \<Rightarrow> (Stuck, n'))"

definition attempt :: "('q, 's, 'a) act \<Rightarrow> (exn \<Rightarrow> ('q, 's, 'a) act) \<Rightarrow> ('q, 's, 'a) act" where
  "attempt m h n = (case m n of (Exn e, n') \<Rightarrow> h e n' | r \<Rightarrow> r)"

text \<open>\<open>try: m finally: f\<close>.\<close>

definition finally_do :: "('q, 's, 'a) act \<Rightarrow> ('q, 's, unit) act \<Rightarrow> ('q, 's, 'a) act" where
  "finally_do m f n =
     (case m n of
        (Val x, n') \<Rightarrow> abind f (\<lambda>_. ret x) n'
      | (Exn e, n') \<Rightarrow> abind f (\<lambda>_. throw e) n'
      | (Stuck, n') \<Rightarrow> (Stuck, n'))"

text \<open>Pure code inside an action, and the iteration bound of a loop.\<close>

definition lift :: "exn + 'a \<Rightarrow> ('q, 's, 'a) act" where
  "lift r = (case r of Inl e \<Rightarrow> throw e | Inr x \<Rightarrow> ret x)"

definition with_budget :: "(nat \<Rightarrow> ('q, 's, 'a) act) \<Rightarrow> ('q, 's, 'a) act" where
  "with_budget f n = f (budget n) n"

definition call :: "('q \<Rightarrow> 's \<Rightarrow> 'r \<times> 's) \<Rightarrow> 'q \<Rightarrow> ('q, 's, 'r) act" where
  "call srv q n =
     (let (r, w) = srv q (world n) in (Val r, n\<lparr>sent := sent n @ [q], world := w\<rparr>))"

text \<open>A call whose answer may be an exception.\<close>

definition ask :: "('q \<Rightarrow> 's \<Rightarrow> (exn + 'r) \<times> 's) \<Rightarrow> 'q \<Rightarrow> ('q, 's, 'r) act" where
  "ask srv q = abind (call srv q) lift"

text \<open>\<open>for x in xs: ...\<close> over a local state, and a comprehension that calls per element.\<close>

fun foreach :: "('x \<Rightarrow> 'st \<Rightarrow> ('q, 's, 'st) act) \<Rightarrow> 'x list \<Rightarrow> 'st \<Rightarrow> ('q, 's, 'st) act" where
  "foreach f [] st = ret st"
| "foreach f (x # xs) st = abind (f x st) (foreach f xs)"

fun amap :: "('x \<Rightarrow> ('q, 's, 'y) act) \<Rightarrow> 'x list \<Rightarrow> ('q, 's, 'y list) act" where
  "amap f [] = ret []"
| "amap f (x # xs) = abind (f x) (\<lambda>y. abind (amap f xs) (\<lambda>ys. ret (y # ys)))"

lemma run_simps [act_simps]:
  "ret x n = (Val x, n)"
  "throw e n = (Exn e, n)"
  "stuck n = (Stuck, n)"
  "lift (Inl e) = throw e"
  "lift (Inr x) = ret x"
  "with_budget f n = f (budget n) n"
  by (simp_all add: ret_def throw_def stuck_def lift_def with_budget_def)

lemma abind_simps [act_simps]:
  "m n = (Val x, n') \<Longrightarrow> abind m f n = f x n'"
  "m n = (Exn e, n') \<Longrightarrow> abind m f n = (Exn e, n')"
  "m n = (Stuck, n') \<Longrightarrow> abind m f n = (Stuck, n')"
  by (simp_all add: abind_def)

lemma abind_ret [simp, act_simps]: "abind (ret x) f = f x"
  and abind_throw [simp, act_simps]: "abind (throw e) f = throw e"
  and abind_stuck [simp, act_simps]: "abind stuck f = stuck"
  by (simp_all add: fun_eq_iff abind_def ret_def throw_def stuck_def)

lemma abind_assoc: "abind (abind m f) g = abind m (\<lambda>x. abind (f x) g)"
  by (simp add: fun_eq_iff abind_def split: prod.split outcome.split)

lemma attempt_simps [simp, act_simps]:
  "attempt (ret x) h = ret x"
  "attempt (throw e) h = h e"
  "attempt stuck h = stuck"
  by (simp_all add: fun_eq_iff attempt_def ret_def throw_def stuck_def)

lemma abind_Val:
  "abind m f n = (Val y, n'') \<longleftrightarrow> (\<exists>x n'. m n = (Val x, n') \<and> f x n' = (Val y, n''))"
  by (auto simp: abind_def split: prod.splits outcome.splits)

lemma abind_Exn:
  "abind m f n = (Exn e, n'') \<longleftrightarrow>
     m n = (Exn e, n'') \<or> (\<exists>x n'. m n = (Val x, n') \<and> f x n' = (Exn e, n''))"
  by (auto simp: abind_def split: prod.splits outcome.splits)

lemma abind_Stuck:
  "abind m f n = (Stuck, n'') \<longleftrightarrow>
     m n = (Stuck, n'') \<or> (\<exists>x n'. m n = (Val x, n') \<and> f x n' = (Stuck, n''))"
  by (auto simp: abind_def split: prod.splits outcome.splits)

lemma attempt_Val:
  "attempt m h n = (Val y, n'') \<longleftrightarrow>
     m n = (Val y, n'') \<or> (\<exists>e n'. m n = (Exn e, n') \<and> h e n' = (Val y, n''))"
  by (auto simp: attempt_def split: prod.splits outcome.splits)

lemma attempt_Exn:
  "attempt m h n = (Exn e, n'') \<longleftrightarrow> (\<exists>e' n'. m n = (Exn e', n') \<and> h e' n' = (Exn e, n''))"
  by (auto simp: attempt_def split: prod.splits outcome.splits)

lemma lift_Val [simp]: "lift r n = (Val x, n') \<longleftrightarrow> r = Inr x \<and> n' = n"
  by (cases r) (auto simp: act_simps)

lemma lift_Exn [simp]: "lift r n = (Exn e, n') \<longleftrightarrow> r = Inl e \<and> n' = n"
  by (cases r) (auto simp: act_simps)

lemma ret_Val [simp]: "ret x n = (Val y, n') \<longleftrightarrow> y = x \<and> n' = n"
  by (auto simp: ret_def)

lemma ret_not_Exn [simp]: "ret x n \<noteq> (Exn e, n')"
  by (simp add: ret_def)

lemma throw_not_Val [simp]: "throw e n \<noteq> (Val x, n')"
  by (simp add: throw_def)

lemma throw_Exn [simp]: "throw e n = (Exn e', n') \<longleftrightarrow> e' = e \<and> n' = n"
  by (auto simp: throw_def)

lemma foreach_append: "foreach f (xs @ ys) st = abind (foreach f xs st) (foreach f ys)"
proof (induction xs arbitrary: st)
  case (Cons x xs)
  then have "foreach f (xs @ ys) = (\<lambda>st. abind (foreach f xs st) (foreach f ys))" by (rule ext)
  then show ?case by (simp add: abind_assoc)
qed simp

section \<open>What an action sends\<close>

definition emits :: "('q \<Rightarrow> bool) \<Rightarrow> ('q, 's, 'a) act \<Rightarrow> bool" where
  "emits P m \<longleftrightarrow>
     (\<forall>n. budget (snd (m n)) = budget n \<and>
          (\<exists>qs. sent (snd (m n)) = sent n @ qs \<and> list_all P qs))"

text \<open>What one run of an action sent.\<close>

definition sends :: "('q, 's, 'a) act \<Rightarrow> ('q, 's) net \<Rightarrow> 'q list" where
  "sends m n = drop (length (sent n)) (sent (snd (m n)))"

lemma emitsI:
  assumes "\<And>n. budget (snd (m n)) = budget n"
    and "\<And>n. \<exists>qs. sent (snd (m n)) = sent n @ qs \<and> list_all P qs"
  shows "emits P m"
  using assms by (simp add: emits_def)

lemma emits_log: "emits P m \<Longrightarrow> \<exists>qs. sent (snd (m n)) = sent n @ qs \<and> list_all P qs"
  by (simp add: emits_def)

lemma emitsD:
  assumes "emits P m" and "m n = (r, n')"
  shows "budget n' = budget n" and "\<exists>qs. sent n' = sent n @ qs \<and> list_all P qs"
  using assms unfolding emits_def by (metis snd_conv)+

lemma emits_sends: "emits P m \<Longrightarrow> list_all P (sends m n)"
  unfolding emits_def sends_def by (metis append_eq_conv_conj)

lemma emits_mono: "emits P m \<Longrightarrow> (\<And>q. P q \<Longrightarrow> Q q) \<Longrightarrow> emits Q m"
  unfolding emits_def by (meson list.pred_mono_strong)

lemma emits_ret [simp, emits_intros]: "emits P (ret x)"
  and emits_throw [simp, emits_intros]: "emits P (throw e)"
  and emits_stuck [simp, emits_intros]: "emits P stuck"
  by (simp_all add: emits_def ret_def throw_def stuck_def)

lemma emits_lift [simp, emits_intros]: "emits P (lift r)"
  by (cases r) (simp_all add: act_simps)

lemma emits_call [emits_intros]: "P q \<Longrightarrow> emits P (call srv q)"
  by (simp add: emits_def call_def case_prod_beta)

lemma emits_chain:
  assumes "\<exists>qs. sent b = sent a @ qs \<and> list_all P qs"
    and "\<exists>qs. sent c = sent b @ qs \<and> list_all P qs"
  shows "\<exists>qs. sent c = sent a @ qs \<and> list_all P qs"
  using assms by (metis append_assoc list_all_append)

lemma emits_abind_strong:
  assumes m: "emits P m"
    and f: "\<And>x n n'. m n = (Val x, n') \<Longrightarrow>
      budget (snd (f x n')) = budget n' \<and> (\<exists>qs. sent (snd (f x n')) = sent n' @ qs \<and> list_all P qs)"
  shows "emits P (abind m f)"
proof (rule emitsI)
  fix n
  obtain r n' where mn: "m n = (r, n')" by fastforce
  note b = emitsD(1) [OF m mn] and q = emitsD(2) [OF m mn]
  show "budget (snd (abind m f n)) = budget n"
    using mn b f [of n _ n'] by (cases r) (auto simp: act_simps)
  show "\<exists>qs. sent (snd (abind m f n)) = sent n @ qs \<and> list_all P qs"
  proof (cases r)
    case (Val x)
    with mn f have "\<exists>qs. sent (snd (f x n')) = sent n' @ qs \<and> list_all P qs" by blast
    with Val mn q show ?thesis by (simp add: act_simps emits_chain)
  qed (use mn q in \<open>simp_all add: act_simps\<close>)
qed

lemma emits_abind [emits_intros]:
  "emits P m \<Longrightarrow> (\<And>x. emits P (f x)) \<Longrightarrow> emits P (abind m f)"
  by (rule emits_abind_strong) (auto simp: emits_def)

lemma emits_attempt [emits_intros]:
  assumes m: "emits P m" and h: "\<And>e. emits P (h e)"
  shows "emits P (attempt m h)"
proof (rule emitsI)
  fix n
  obtain r n' where mn: "m n = (r, n')" by fastforce
  note b = emitsD(1) [OF m mn] and q = emitsD(2) [OF m mn]
  show "budget (snd (attempt m h n)) = budget n"
    using mn b h by (cases r) (auto simp: attempt_def emits_def)
  show "\<exists>qs. sent (snd (attempt m h n)) = sent n @ qs \<and> list_all P qs"
  proof (cases r)
    case (Exn e)
    with h have "\<exists>qs. sent (snd (h e n')) = sent n' @ qs \<and> list_all P qs"
      by (auto simp: emits_def)
    with Exn mn q show ?thesis by (simp add: attempt_def emits_chain)
  qed (use mn q in \<open>simp_all add: attempt_def\<close>)
qed

lemma emits_abind_lift: "(\<And>x. r = Inr x \<Longrightarrow> emits P (f x)) \<Longrightarrow> emits P (abind (lift r) f)"
  by (cases r) (simp_all add: act_simps)

lemma emits_ask [emits_intros]: "P q \<Longrightarrow> emits P (ask srv q)"
  unfolding ask_def by (intro emits_abind emits_call emits_lift)

lemma emits_with_budget [emits_intros]: "(\<And>b. emits P (f b)) \<Longrightarrow> emits P (with_budget f)"
  by (simp add: emits_def with_budget_def)

lemma emits_foreach [emits_intros]:
  "(\<And>x st. x \<in> set xs \<Longrightarrow> emits P (f x st)) \<Longrightarrow> emits P (foreach f xs st)"
  by (induction xs arbitrary: st) (auto intro!: emits_abind)

lemma emits_amap [emits_intros]:
  "(\<And>x. x \<in> set xs \<Longrightarrow> emits P (f x)) \<Longrightarrow> emits P (amap f xs)"
  by (induction xs) (auto intro!: emits_abind)

lemma emits_if [emits_intros]:
  "(c \<Longrightarrow> emits P a) \<Longrightarrow> (\<not> c \<Longrightarrow> emits P b) \<Longrightarrow> emits P (if c then a else b)"
  by simp

lemma emits_case_option [emits_intros]:
  "(x = None \<Longrightarrow> emits P a) \<Longrightarrow> (\<And>y. x = Some y \<Longrightarrow> emits P (b y)) \<Longrightarrow>
     emits P (case x of None \<Rightarrow> a | Some y \<Rightarrow> b y)"
  by (cases x) auto

lemma emits_case_sum [emits_intros]:
  "(\<And>y. x = Inl y \<Longrightarrow> emits P (a y)) \<Longrightarrow> (\<And>y. x = Inr y \<Longrightarrow> emits P (b y)) \<Longrightarrow>
     emits P (case x of Inl y \<Rightarrow> a y | Inr y \<Rightarrow> b y)"
  by (cases x) auto

lemma emits_case_prod [emits_intros]:
  "(\<And>y z. x = (y, z) \<Longrightarrow> emits P (a y z)) \<Longrightarrow> emits P (case x of (y, z) \<Rightarrow> a y z)"
  by (cases x) auto

lemma emits_Let [emits_intros]: "emits P (f x) \<Longrightarrow> emits P (let y = x in f y)"
  by simp

text \<open>A loop under an invariant of its local state.\<close>

lemma foreach_inv:
  assumes "foreach f xs st n = (Val st', n')" and "I st"
    and "\<And>x st n st' n'. x \<in> set xs \<Longrightarrow> I st \<Longrightarrow> f x st n = (Val st', n') \<Longrightarrow> I st'"
  shows "I st'"
  using assms
proof (induction xs arbitrary: st n)
  case (Cons x xs)
  from Cons.prems(1) obtain st1 n1 where x: "f x st n = (Val st1, n1)"
    and xs: "foreach f xs st1 n1 = (Val st', n')" by (auto simp: abind_Val)
  from Cons.prems(3) [OF _ Cons.prems(2) x] have "I st1" by simp
  then show ?case
    by (rule Cons.IH [OF xs]) (erule Cons.prems(3) [OF list.set_intros(2)])
qed simp

lemma emits_foreach_inv:
  assumes "I st"
    and "\<And>x st. x \<in> set xs \<Longrightarrow> I st \<Longrightarrow> emits P (f x st)"
    and "\<And>x st n st' n'. x \<in> set xs \<Longrightarrow> I st \<Longrightarrow> f x st n = (Val st', n') \<Longrightarrow> I st'"
  shows "emits P (foreach f xs st)"
  using assms
proof (induction xs arbitrary: st)
  case (Cons x xs)
  have "emits P (foreach f xs st1)" if "f x st n = (Val st1, n1)" for st1 n n1
  proof (rule Cons.IH)
    show "I st1" using Cons.prems(1) Cons.prems(3) [OF _ _ that] by simp
    show "emits P (f x st)" if "x \<in> set xs" and "I st" for x st
      using that by (intro Cons.prems(2)) simp_all
  qed (erule Cons.prems(3) [OF list.set_intros(2)])
  then show ?case
    unfolding foreach.simps using Cons.prems(1)
    by (intro emits_abind_strong Cons.prems(2)) (simp_all add: emits_def)
qed simp

section \<open>Actions that raise nothing, and actions that return\<close>

definition no_raise :: "('q, 's, 'a) act \<Rightarrow> bool" where
  "no_raise m \<longleftrightarrow> (\<forall>n e n'. m n \<noteq> (Exn e, n'))"

lemma no_raise_intros:
  "no_raise (ret x)"
  "no_raise m \<Longrightarrow> (\<And>x. no_raise (f x)) \<Longrightarrow> no_raise (abind m f)"
  "(\<And>e. no_raise (h e)) \<Longrightarrow> no_raise (attempt m h)"
  "(\<And>x st. x \<in> set xs \<Longrightarrow> no_raise (g x st)) \<Longrightarrow> no_raise (foreach g xs st)"
proof -
  show "(\<And>x st. x \<in> set xs \<Longrightarrow> no_raise (g x st)) \<Longrightarrow> no_raise (foreach g xs st)"
    by (induction xs arbitrary: st) (auto simp: no_raise_def abind_Exn)
qed (auto simp: no_raise_def abind_Exn attempt_Exn)

definition answers :: "(('q, 's) net \<Rightarrow> bool) \<Rightarrow> ('q, 's, 'a) act \<Rightarrow> bool" where
  "answers I m \<longleftrightarrow> (\<forall>n. I n \<longrightarrow> fst (m n) \<noteq> Stuck \<and> I (snd (m n)))"

lemma answersD:
  assumes "answers I m" and "I n" and "m n = (r, n')"
  shows "r \<noteq> Stuck" and "I n'"
  using assms unfolding answers_def by (metis fst_conv snd_conv)+

lemma answers_ret [answers_intros]: "answers I (ret x)"
  and answers_throw [answers_intros]: "answers I (throw e)"
  by (simp_all add: answers_def ret_def throw_def)

lemma answers_lift [answers_intros]: "answers I (lift r)"
  by (cases r) (simp_all add: act_simps answers_intros)

lemma answers_abind [answers_intros]:
  assumes "answers I m" and "\<And>x. answers I (f x)"
  shows "answers I (abind m f)"
  unfolding answers_def
proof (intro allI impI)
  fix n
  assume "I n"
  obtain r n' where mn: "m n = (r, n')" by fastforce
  note r = answersD [OF assms(1) \<open>I n\<close> mn]
  with mn assms(2) show "fst (abind m f n) \<noteq> Stuck \<and> I (snd (abind m f n))"
    by (cases r) (auto simp: act_simps answers_def)
qed

lemma answers_attempt [answers_intros]:
  assumes "answers I m" and "\<And>e. answers I (h e)"
  shows "answers I (attempt m h)"
  unfolding answers_def
proof (intro allI impI)
  fix n
  assume "I n"
  obtain r n' where mn: "m n = (r, n')" by fastforce
  note r = answersD [OF assms(1) \<open>I n\<close> mn]
  with mn assms(2) show "fst (attempt m h n) \<noteq> Stuck \<and> I (snd (attempt m h n))"
    by (cases r) (auto simp: attempt_def answers_def)
qed

lemma answers_foreach [answers_intros]:
  "(\<And>x st. answers I (f x st)) \<Longrightarrow> answers I (foreach f xs st)"
  by (induction xs arbitrary: st) (auto intro!: answers_intros)

lemma answers_amap [answers_intros]: "(\<And>x. answers I (f x)) \<Longrightarrow> answers I (amap f xs)"
  by (induction xs) (auto intro!: answers_intros)

lemma answers_case_option [answers_intros]:
  "answers I a \<Longrightarrow> (\<And>y. answers I (b y)) \<Longrightarrow> answers I (case x of None \<Rightarrow> a | Some y \<Rightarrow> b y)"
  by (cases x) auto

lemma answers_if [answers_intros]:
  "answers I a \<Longrightarrow> answers I b \<Longrightarrow> answers I (if c then a else b)"
  by simp

end
