(* ===== verification/GiteaClient.thy ===== *)
theory GiteaClient
  imports Effects
begin

text \<open>
  The Gitea API client, \<open>toolkit/features/gitea_client.py\<close>.

  The forge is the parameter \<open>srv\<close> of every operation: a function from an HTTP request and the
  forge's state to a reply and its next state. A request carries what \<open>requests\<close> is given: method,
  base URL and endpoint, headers, basic-auth pair, timeout and JSON body. A reply is a status with a
  body, or a transport failure (\<open>requests.RequestException\<close>). \<open>client\<close> is a \<open>GiteaClient\<close> (a
  token in the \<open>Authorization\<close> header) or a \<open>GiteaBasicAuthClient\<close> (a basic-auth pair).

  The lemmas show that a listing walks to the first short page and no further, that every operation
  sends only requests of its own client and of its own method, and that the scopes derived for the
  administrator's token contain no repository write.
\<close>

section \<open>Requests and replies\<close>

datatype meth = GET | POST | PATCH | PUT | DELETE

record request =
  rq_meth :: meth
  rq_base :: string
  rq_path :: string
  rq_headers :: "(string \<times> string) list"
  rq_basic :: "(string \<times> string) option"
  rq_timeout :: int
  rq_json :: "json option"

datatype content = NoContent | Json json | Text string

datatype reply = Response int content | NoResponse string

type_synonym 's server = "request \<Rightarrow> 's \<Rightarrow> reply \<times> 's"

type_synonym ('s, 'a) gitea = "(request, 's, 'a) act"

record client =
  base_url :: string
  token :: string
  basic :: "(string \<times> string) option"
  timeout :: int

text \<open>\<open>base_url.rstrip("/")\<close>.\<close>

definition rstrip_slash :: "string \<Rightarrow> string" where
  "rstrip_slash s = rev (dropWhile (\<lambda>c. c = CHR ''/'') (rev s))"

definition gitea_client :: "string \<Rightarrow> string \<Rightarrow> client" where
  "gitea_client url tok = \<lparr>base_url = rstrip_slash url, token = tok, basic = None, timeout = 15\<rparr>"

definition basic_auth_client :: "string \<Rightarrow> string \<Rightarrow> string \<Rightarrow> client" where
  "basic_auth_client url user pw =
     \<lparr>base_url = rstrip_slash url, token = [], basic = Some (user, pw), timeout = 15\<rparr>"

definition headers :: "client \<Rightarrow> (string \<times> string) list" where
  "headers c =
     (case basic c of
        None \<Rightarrow> [(''Authorization'', ''token '' @ token c),
                 (''Content-Type'', ''application/json''), (''Accept'', ''application/json'')]
      | Some _ \<Rightarrow> [(''Content-Type'', ''application/json''), (''Accept'', ''application/json'')])"

definition page_size :: nat where
  "page_size = 50"

definition migration_timeout :: int where
  "migration_timeout = 600"

definition resp_ok :: "int \<Rightarrow> bool" where
  "resp_ok st = (\<not> (400 \<le> st \<and> st < 600))"

definition mk_request :: "client \<Rightarrow> int \<Rightarrow> meth \<Rightarrow> string \<Rightarrow> json option \<Rightarrow> request" where
  "mk_request c tmo m ep body =
     \<lparr>rq_meth = m, rq_base = base_url c @ ''/api/v1'', rq_path = ep, rq_headers = headers c,
      rq_basic = basic c, rq_timeout = tmo, rq_json = body\<rparr>"

definition read_reply :: "string \<Rightarrow> reply \<Rightarrow> exn + json" where
  "read_reply ep rep =
     (case rep of
        NoResponse msg \<Rightarrow> Inl (RequestsError msg)
      | Response st ct \<Rightarrow>
          if \<not> resp_ok st then Inl (GiteaError ep (Some st))
          else if st = 204 \<or> ct = NoContent then Inr (JObj [])
          else (case ct of Json j \<Rightarrow> Inr j | _ \<Rightarrow> Inl (JSONDecodeError ep)))"

definition request_timed ::
  "'s server \<Rightarrow> client \<Rightarrow> int \<Rightarrow> meth \<Rightarrow> string \<Rightarrow> json option \<Rightarrow> ('s, json) gitea" where
  "request_timed srv c tmo m ep body =
     abind (call srv (mk_request c tmo m ep body)) (\<lambda>rep. lift (read_reply ep rep))"

definition send :: "'s server \<Rightarrow> client \<Rightarrow> meth \<Rightarrow> string \<Rightarrow> json option \<Rightarrow> ('s, json) gitea" where
  "send srv c m ep body = request_timed srv c (timeout c) m ep body"

section \<open>Pagination\<close>

text \<open>
  \<open>_paginate\<close> is a generator: its consumer sees the items of a page before the next page is asked
  for, and may stop early or raise. The consumer is a function of the item and the state it keeps.
\<close>

datatype 'a step = More 'a | Done 'a

fun consume :: "(json \<Rightarrow> 'a \<Rightarrow> exn + 'a step) \<Rightarrow> json list \<Rightarrow> 'a \<Rightarrow> exn + 'a step" where
  "consume f [] acc = Inr (More acc)"
| "consume f (x # xs) acc =
     ebind (f x acc) (\<lambda>r. case r of Done a \<Rightarrow> Inr (Done a) | More a \<Rightarrow> consume f xs a)"

definition page_items :: "string \<Rightarrow> string option \<Rightarrow> json \<Rightarrow> exn + json list" where
  "page_items ep key payload =
     ebind (if payload = JNull then Inr (JArr [])
            else case key of None \<Rightarrow> Inr payload | Some k \<Rightarrow> py_get_or payload k (JArr []))
       (\<lambda>items. case items of JArr xs \<Rightarrow> Inr xs | _ \<Rightarrow> Inl (GiteaError ep None))"

definition page_endpoint :: "string \<Rightarrow> int \<Rightarrow> string" where
  "page_endpoint ep page =
     ep @ (if CHR ''?'' \<in> set ep then ''&'' else ''?'') @ ''page='' @ show_int page @
     ''&limit='' @ show_int (int page_size)"

fun page_loop ::
  "nat \<Rightarrow> 's server \<Rightarrow> client \<Rightarrow> string \<Rightarrow> string option \<Rightarrow> int \<Rightarrow>
   (json \<Rightarrow> 'a \<Rightarrow> exn + 'a step) \<Rightarrow> 'a \<Rightarrow> ('s, 'a) gitea" where
  "page_loop 0 srv c ep key page f acc = stuck"
| "page_loop (Suc b) srv c ep key page f acc =
     abind (send srv c GET (page_endpoint ep page) None) (\<lambda>payload.
     abind (lift (page_items ep key payload)) (\<lambda>items.
     abind (lift (consume f items acc)) (\<lambda>r.
       case r of
         Done a \<Rightarrow> ret a
       | More a \<Rightarrow> if length items < page_size then ret a
                   else page_loop b srv c ep key (page + 1) f a)))"

definition paginate ::
  "'s server \<Rightarrow> client \<Rightarrow> string \<Rightarrow> string option \<Rightarrow> (json \<Rightarrow> 'a \<Rightarrow> exn + 'a step) \<Rightarrow> 'a \<Rightarrow>
   ('s, 'a) gitea" where
  "paginate srv c ep key f acc = with_budget (\<lambda>b. page_loop b srv c ep key 1 f acc)"

text \<open>\<open>list(self._paginate(...))\<close> and a set comprehension over it.\<close>

definition collect :: "(json \<Rightarrow> exn + 'a) \<Rightarrow> json \<Rightarrow> 'a list \<Rightarrow> exn + 'a list step" where
  "collect g x acc = ebind (g x) (\<lambda>y. Inr (More (acc @ [y])))"

definition paginate_list :: "'s server \<Rightarrow> client \<Rightarrow> string \<Rightarrow> string option \<Rightarrow> ('s, json list) gitea" where
  "paginate_list srv c ep key = paginate srv c ep key (collect Inr) []"

section \<open>Reads\<close>

definition repo_path :: "string \<Rightarrow> string \<Rightarrow> string" where
  "repo_path owner name = ''/repos/'' @ owner @ ''/'' @ name"

definition full_name_of :: "json \<Rightarrow> exn + string" where
  "full_name_of r =
     ebind (py_index r ''owner'') (\<lambda>o'.
     ebind (py_index o' ''username'') (\<lambda>u.
     ebind (py_index r ''name'') (\<lambda>nm. Inr (py_str u @ ''/'' @ py_str nm))))"

definition list_orgs :: "'s server \<Rightarrow> client \<Rightarrow> ('s, string list) gitea" where
  "list_orgs srv c =
     paginate srv c ''/admin/orgs'' None
       (collect (\<lambda>org. ebind (py_index org ''username'') (\<lambda>u. Inr (py_str u)))) []"

definition list_repos :: "'s server \<Rightarrow> client \<Rightarrow> ('s, (string \<times> bool) list) gitea" where
  "list_repos srv c =
     paginate srv c ''/repos/search'' (Some ''data'')
       (\<lambda>r acc. ebind (full_name_of r) (\<lambda>fn.
                ebind (py_get r ''private'') (\<lambda>p. Inr (More (oset acc fn (truthy p)))))) []"

text \<open>\<open>except GiteaError as exc: if exc.status_code == 404: return d; raise\<close>.\<close>

definition on_status :: "int list \<Rightarrow> ('s, 'a) gitea \<Rightarrow> 'a \<Rightarrow> ('s, 'a) gitea" where
  "on_status sts m d =
     attempt m (\<lambda>e. case e of
                      GiteaError ep (Some st) \<Rightarrow> if st \<in> set sts then ret d else throw e
                    | _ \<Rightarrow> throw e)"

definition get_repo :: "'s server \<Rightarrow> client \<Rightarrow> string \<Rightarrow> string \<Rightarrow> ('s, obj option) gitea" where
  "get_repo srv c owner name =
     on_status [404]
       (abind (send srv c GET (repo_path owner name) None) (\<lambda>j.
        abind (lift (py_dict j)) (\<lambda>kvs. ret (Some kvs)))) None"

definition whoami :: "'s server \<Rightarrow> client \<Rightarrow> ('s, json) gitea" where
  "whoami srv c = send srv c GET ''/user'' None"

definition list_owned_repos :: "'s server \<Rightarrow> client \<Rightarrow> string \<Rightarrow> ('s, string list) gitea" where
  "list_owned_repos srv c username =
     paginate srv c (''/users/'' @ username @ ''/repos'') None (collect full_name_of) []"

definition get_team :: "'s server \<Rightarrow> client \<Rightarrow> string \<Rightarrow> string \<Rightarrow> ('s, obj option) gitea" where
  "get_team srv c org name =
     paginate srv c (''/orgs/'' @ org @ ''/teams'') None
       (\<lambda>team acc. ebind (py_items team) (\<lambda>kvs.
          Inr (if py_eq (oget kvs ''name'') (JStr name) then Done (Some kvs) else More acc))) None"

definition list_team_members :: "'s server \<Rightarrow> client \<Rightarrow> int \<Rightarrow> ('s, string list) gitea" where
  "list_team_members srv c team_id =
     paginate srv c (''/teams/'' @ show_int team_id @ ''/members'') None
       (collect (\<lambda>m. ebind (py_index m ''login'') (\<lambda>l. Inr (py_str l)))) []"

definition list_runners :: "'s server \<Rightarrow> client \<Rightarrow> ('s, json list) gitea" where
  "list_runners srv c = paginate_list srv c ''/admin/actions/runners'' (Some ''runners'')"

definition list_hooks :: "'s server \<Rightarrow> client \<Rightarrow> string \<Rightarrow> string \<Rightarrow> ('s, json) gitea" where
  "list_hooks srv c owner name =
     abind (send srv c GET (repo_path owner name @ ''/hooks'') None) (\<lambda>j. ret (py_or j (JArr [])))"

definition list_branches :: "'s server \<Rightarrow> client \<Rightarrow> string \<Rightarrow> string \<Rightarrow> ('s, json list) gitea" where
  "list_branches srv c owner name = paginate_list srv c (repo_path owner name @ ''/branches'') None"

definition commit_exists ::
  "'s server \<Rightarrow> client \<Rightarrow> string \<Rightarrow> string \<Rightarrow> string \<Rightarrow> ('s, bool) gitea" where
  "commit_exists srv c owner name sha =
     on_status [404, 422]
       (abind (send srv c GET (repo_path owner name @ ''/git/commits/'' @ sha) None) (\<lambda>_. ret True)) False"

definition has_refs :: "'s server \<Rightarrow> client \<Rightarrow> string \<Rightarrow> string \<Rightarrow> ('s, bool) gitea" where
  "has_refs srv c owner name =
     on_status [404]
       (abind (send srv c GET (repo_path owner name @ ''/git/refs'') None) (\<lambda>refs. ret (truthy refs))) False"

definition is_collaborator ::
  "'s server \<Rightarrow> client \<Rightarrow> string \<Rightarrow> string \<Rightarrow> string \<Rightarrow> ('s, bool) gitea" where
  "is_collaborator srv c owner name username =
     on_status [404]
       (abind (send srv c GET (repo_path owner name @ ''/collaborators/'' @ username) None) (\<lambda>_. ret True))
       False"

definition get_collaborator_permission ::
  "'s server \<Rightarrow> client \<Rightarrow> string \<Rightarrow> string \<Rightarrow> string \<Rightarrow> ('s, string) gitea" where
  "get_collaborator_permission srv c owner name username =
     on_status [404]
       (abind (send srv c GET (repo_path owner name @ ''/collaborators/'' @ username @ ''/permission'') None)
          (\<lambda>body. abind (lift (py_get body ''permission''))
             (\<lambda>p. ret (py_str (py_or p (JStr ''none''))))))
       ''none''"

section \<open>Writes of the token client\<close>

definition create_org :: "'s server \<Rightarrow> client \<Rightarrow> string \<Rightarrow> ('s, json) gitea" where
  "create_org srv c name = send srv c POST ''/orgs'' (Some (JObj [(''username'', JStr name)]))"

definition create_repo :: "'s server \<Rightarrow> client \<Rightarrow> string \<Rightarrow> string \<Rightarrow> bool \<Rightarrow> ('s, json) gitea" where
  "create_repo srv c org name private =
     send srv c POST (''/orgs/'' @ org @ ''/repos'')
       (Some (JObj [(''name'', JStr name), (''private'', JBool private)]))"

definition migrate_repo ::
  "'s server \<Rightarrow> client \<Rightarrow> string \<Rightarrow> string \<Rightarrow> string \<Rightarrow> string \<Rightarrow> string \<Rightarrow> bool \<Rightarrow> ('s, json) gitea" where
  "migrate_repo srv c org name clone_addr service auth_token private =
     request_timed srv c migration_timeout POST ''/repos/migrate''
       (Some (JObj
          [(''clone_addr'', JStr clone_addr), (''repo_owner'', JStr org), (''repo_name'', JStr name),
           (''service'', JStr service), (''auth_token'', JStr auth_token),
           (''private'', JBool private), (''mirror'', JBool False), (''issues'', JBool True),
           (''pull_requests'', JBool True), (''labels'', JBool True), (''milestones'', JBool True),
           (''releases'', JBool True), (''wiki'', JBool True)]))"

definition team_units :: "string list" where
  "team_units = [''repo.code'', ''repo.issues'', ''repo.pulls'', ''repo.releases'', ''repo.wiki'',
                 ''repo.projects'', ''repo.packages'']"

definition team_payload :: "string \<Rightarrow> string \<Rightarrow> bool \<Rightarrow> json" where
  "team_payload name permission can_create_org_repo =
     JObj [(''name'', JStr name), (''permission'', JStr permission),
           (''can_create_org_repo'', JBool can_create_org_repo),
           (''units_map'', JObj (map (\<lambda>unit. (unit, JStr permission)) team_units)),
           (''includes_all_repositories'', JBool True)]"

definition create_team ::
  "'s server \<Rightarrow> client \<Rightarrow> string \<Rightarrow> string \<Rightarrow> string \<Rightarrow> bool \<Rightarrow> ('s, json) gitea" where
  "create_team srv c org name permission can_create_org_repo =
     send srv c POST (''/orgs/'' @ org @ ''/teams'')
       (Some (team_payload name permission can_create_org_repo))"

definition edit_team ::
  "'s server \<Rightarrow> client \<Rightarrow> int \<Rightarrow> string \<Rightarrow> string \<Rightarrow> bool \<Rightarrow> ('s, json) gitea" where
  "edit_team srv c team_id name permission can_create_org_repo =
     send srv c PATCH (''/teams/'' @ show_int team_id)
       (Some (team_payload name permission can_create_org_repo))"

definition add_team_member :: "'s server \<Rightarrow> client \<Rightarrow> int \<Rightarrow> string \<Rightarrow> ('s, json) gitea" where
  "add_team_member srv c team_id username =
     send srv c PUT (''/teams/'' @ show_int team_id @ ''/members/'' @ username) None"

section \<open>Operations that need the password\<close>

definition list_tokens :: "'s server \<Rightarrow> client \<Rightarrow> string \<Rightarrow> ('s, json list) gitea" where
  "list_tokens srv c username = paginate_list srv c (''/users/'' @ username @ ''/tokens'') None"

text \<open>Deletions answer whether the object was there.\<close>

definition delete_if_present :: "'s server \<Rightarrow> client \<Rightarrow> string \<Rightarrow> ('s, bool) gitea" where
  "delete_if_present srv c ep =
     on_status [404] (abind (send srv c DELETE ep None) (\<lambda>_. ret True)) False"

definition delete_repo :: "'s server \<Rightarrow> client \<Rightarrow> string \<Rightarrow> string \<Rightarrow> ('s, bool) gitea" where
  "delete_repo srv c owner name = delete_if_present srv c (repo_path owner name)"

definition revoke_token :: "'s server \<Rightarrow> client \<Rightarrow> string \<Rightarrow> string \<Rightarrow> ('s, bool) gitea" where
  "revoke_token srv c username token_name =
     delete_if_present srv c (''/users/'' @ username @ ''/tokens/'' @ token_name)"

definition delete_runner :: "'s server \<Rightarrow> client \<Rightarrow> int \<Rightarrow> ('s, bool) gitea" where
  "delete_runner srv c runner_id = delete_if_present srv c (''/admin/actions/runners/'' @ show_int runner_id)"

definition edit_repo :: "'s server \<Rightarrow> client \<Rightarrow> string \<Rightarrow> string \<Rightarrow> obj \<Rightarrow> ('s, json) gitea" where
  "edit_repo srv c owner name settings = send srv c PATCH (repo_path owner name) (Some (JObj settings))"

definition create_hook :: "'s server \<Rightarrow> client \<Rightarrow> string \<Rightarrow> string \<Rightarrow> obj \<Rightarrow> ('s, json) gitea" where
  "create_hook srv c owner name payload =
     send srv c POST (repo_path owner name @ ''/hooks'') (Some (JObj payload))"

definition edit_hook :: "'s server \<Rightarrow> client \<Rightarrow> string \<Rightarrow> string \<Rightarrow> json \<Rightarrow> obj \<Rightarrow> ('s, json) gitea" where
  "edit_hook srv c owner name hook_id payload =
     send srv c PATCH (repo_path owner name @ ''/hooks/'' @ py_str hook_id) (Some (JObj payload))"

definition add_collaborator ::
  "'s server \<Rightarrow> client \<Rightarrow> string \<Rightarrow> string \<Rightarrow> string \<Rightarrow> string \<Rightarrow> ('s, unit) gitea" where
  "add_collaborator srv c owner name username permission =
     abind (send srv c PUT (repo_path owner name @ ''/collaborators/'' @ username)
              (Some (JObj [(''permission'', JStr permission)]))) (\<lambda>_. ret ())"

definition create_pull :: "'s server \<Rightarrow> client \<Rightarrow> string \<Rightarrow> string \<Rightarrow> obj \<Rightarrow> ('s, obj) gitea" where
  "create_pull srv c owner name payload =
     abind (send srv c POST (repo_path owner name @ ''/pulls'') (Some (JObj payload))) (\<lambda>j. lift (py_dict j))"

definition create_issue :: "'s server \<Rightarrow> client \<Rightarrow> string \<Rightarrow> string \<Rightarrow> obj \<Rightarrow> ('s, obj) gitea" where
  "create_issue srv c owner name payload =
     abind (send srv c POST (repo_path owner name @ ''/issues'') (Some (JObj payload))) (\<lambda>j. lift (py_dict j))"

definition count_tracker_items :: "'s server \<Rightarrow> client \<Rightarrow> string \<Rightarrow> string \<Rightarrow> ('s, int) gitea" where
  "count_tracker_items srv c owner name =
     abind (amap (\<lambda>kind. paginate srv c
                     (repo_path owner name @ ''/issues?state=all&type='' @ kind) None
                     (\<lambda>_ k. Inr (More (k + 1))) 0) [''issues'', ''pulls''])
       (\<lambda>counts. ret (sum_list counts))"

definition list_actions_secret_names ::
  "'s server \<Rightarrow> client \<Rightarrow> string \<Rightarrow> string \<Rightarrow> ('s, string list option) gitea" where
  "list_actions_secret_names srv c owner name =
     on_status [404]
       (abind (paginate srv c (repo_path owner name @ ''/actions/secrets'') None
                (collect (\<lambda>s. ebind (py_index s ''name'') (\<lambda>v. Inr (py_str v)))) [])
          (\<lambda>names. ret (Some names))) None"

definition put_actions_secret ::
  "'s server \<Rightarrow> client \<Rightarrow> string \<Rightarrow> string \<Rightarrow> string \<Rightarrow> string \<Rightarrow> ('s, unit) gitea" where
  "put_actions_secret srv c owner name secret_name value =
     abind (send srv c PUT (repo_path owner name @ ''/actions/secrets/'' @ secret_name)
              (Some (JObj [(''data'', JStr value)]))) (\<lambda>_. ret ())"


section \<open>Scopes\<close>

text \<open>The scope each method needs, which of them the administrator performs, and the requirement.\<close>

definition scope_by_method :: "(string \<times> string list) list" where
  "scope_by_method =
     [(''list_orgs'', [''read:admin'']), (''list_repos'', [''read:repository'']),
      (''get_repo'', [''read:repository'']), (''whoami'', [''read:user'']),
      (''list_owned_repos'', [''read:user'']), (''get_team'', [''read:organization'']),
      (''list_team_members'', [''read:organization'']), (''list_runners'', [''read:admin'']),
      (''list_hooks'', [''read:repository'']), (''list_branches'', [''read:repository'']),
      (''commit_exists'', [''read:repository'']), (''has_refs'', [''read:repository'']),
      (''is_collaborator'', [''read:repository'']),
      (''get_collaborator_permission'', [''read:repository'']),
      (''create_org'', [''write:organization'']), (''create_repo'', [''write:organization'']),
      (''migrate_repo'', [''write:organization'', ''write:repository'']),
      (''create_team'', [''write:organization'']), (''edit_team'', [''write:organization'']),
      (''add_team_member'', [''write:organization''])]"

definition admin_methods :: "string list" where
  "admin_methods =
     [''list_orgs'', ''list_repos'', ''get_repo'', ''whoami'', ''list_owned_repos'', ''get_team'',
      ''list_team_members'', ''create_org'', ''create_team'', ''edit_team'', ''add_team_member'',
      ''list_runners'', ''list_hooks'', ''list_branches'', ''commit_exists'', ''has_refs'',
      ''is_collaborator'', ''get_collaborator_permission'']"

definition derive_scopes :: "(string \<times> string list) list \<Rightarrow> string list \<Rightarrow> exn + string list" where
  "derive_scopes by_method methods =
     (if list_ex (\<lambda>m. map_of by_method m = None) methods
      then Inl (RuntimeError ''ADMIN_METHODS'')
      else Inr (concat (map (\<lambda>m. the (map_of by_method m)) methods)))"

definition required_admin_scopes :: "exn + string list" where
  "required_admin_scopes = derive_scopes scope_by_method admin_methods"

definition expand_grant :: "string list \<Rightarrow> string list" where
  "expand_grant granted =
     granted @ map (\<lambda>scope. ''read:'' @ snd (str_partition (CHR '':'') scope))
                 (filter (starts_with ''write:'') granted)"

section \<open>What the operations send\<close>

definition from_client :: "client \<Rightarrow> request \<Rightarrow> bool" where
  "from_client c rq \<longleftrightarrow>
     rq_base rq = base_url c @ ''/api/v1'' \<and> rq_headers rq = headers c \<and> rq_basic rq = basic c"

lemma mk_request_simps [simp]:
  "rq_meth (mk_request c tmo m ep body) = m"
  "rq_path (mk_request c tmo m ep body) = ep"
  "rq_json (mk_request c tmo m ep body) = body"
  "rq_timeout (mk_request c tmo m ep body) = tmo"
  "from_client c (mk_request c tmo m ep body)"
  by (simp_all add: mk_request_def from_client_def)

lemma emits_request_timed [emits_intros]:
  "P (mk_request c tmo m ep body) \<Longrightarrow> emits P (request_timed srv c tmo m ep body)"
  unfolding request_timed_def by (auto intro!: emits_intros)

lemma emits_send [emits_intros]:
  "P (mk_request c (timeout c) m ep body) \<Longrightarrow> emits P (send srv c m ep body)"
  unfolding send_def by (rule emits_request_timed)

lemma emits_case_step:
  "(\<And>a. emits P (f a)) \<Longrightarrow> (\<And>a. emits P (g a)) \<Longrightarrow>
     emits P (case r of More a \<Rightarrow> f a | Done a \<Rightarrow> g a)"
  by (cases r) auto

lemma emits_page_loop:
  "(\<And>page. P (mk_request c (timeout c) GET (page_endpoint ep page) None)) \<Longrightarrow>
     emits P (page_loop b srv c ep key page f acc)"
  by (induction b arbitrary: page acc) (auto intro!: emits_intros emits_case_step)

lemma emits_paginate [emits_intros]:
  "(\<And>page. P (mk_request c (timeout c) GET (page_endpoint ep page) None)) \<Longrightarrow>
     emits P (paginate srv c ep key f acc)"
  unfolding paginate_def by (intro emits_intros emits_page_loop)

lemma emits_on_status [emits_intros]: "emits P m \<Longrightarrow> emits P (on_status sts m d)"
  unfolding on_status_def by (auto intro!: emits_intros split: exn.split option.split)

lemmas gitea_read_defs =
  list_orgs_def list_repos_def get_repo_def whoami_def list_owned_repos_def get_team_def
  list_team_members_def list_runners_def list_hooks_def list_branches_def commit_exists_def
  has_refs_def is_collaborator_def get_collaborator_permission_def paginate_list_def

lemmas gitea_write_defs =
  create_org_def create_repo_def migrate_repo_def create_team_def edit_team_def
  add_team_member_def edit_repo_def create_hook_def edit_hook_def add_collaborator_def
  put_actions_secret_def create_pull_def create_issue_def

text \<open>A read is a \<open>GET\<close> of its client, however the forge answers.\<close>

definition reads_as :: "client \<Rightarrow> request \<Rightarrow> bool" where
  "reads_as c rq \<longleftrightarrow> from_client c rq \<and> rq_meth rq = GET \<and> rq_json rq = None"

lemma reads_as_GET [simp]: "reads_as c (mk_request c tmo GET ep None)"
  by (simp add: reads_as_def)

lemma reads_only:
  "emits (reads_as c) (list_orgs srv c)"
  "emits (reads_as c) (list_repos srv c)"
  "emits (reads_as c) (get_repo srv c owner name)"
  "emits (reads_as c) (whoami srv c)"
  "emits (reads_as c) (list_owned_repos srv c owner)"
  "emits (reads_as c) (get_team srv c owner name)"
  "emits (reads_as c) (list_team_members srv c k)"
  "emits (reads_as c) (list_runners srv c)"
  "emits (reads_as c) (list_hooks srv c owner name)"
  "emits (reads_as c) (list_branches srv c owner name)"
  "emits (reads_as c) (commit_exists srv c owner name sha)"
  "emits (reads_as c) (has_refs srv c owner name)"
  "emits (reads_as c) (is_collaborator srv c owner name user)"
  "emits (reads_as c) (get_collaborator_permission srv c owner name user)"
  "emits (reads_as c) (list_tokens srv c user)"
  "emits (reads_as c) (count_tracker_items srv c owner name)"
  "emits (reads_as c) (list_actions_secret_names srv c owner name)"
  by (simp_all add: gitea_read_defs list_tokens_def count_tracker_items_def
      list_actions_secret_names_def) (intro emits_intros reads_as_GET)+

lemmas reads_emits = reads_only [THEN emits_mono, rotated]

section \<open>Pagination is exhaustive\<close>

text \<open>
  The forge serves the collection \<open>xs\<close> at an endpoint: page \<open>p\<close> is the \<open>p\<close>-th block of
  \<open>page_size\<close> items, under \<open>key\<close> when the endpoint wraps its results, and reading changes nothing.
\<close>

definition page_of :: "json list \<Rightarrow> int \<Rightarrow> json list" where
  "page_of xs p = take page_size (drop (page_size * nat (p - 1)) xs)"

definition wrap_page :: "string option \<Rightarrow> json list \<Rightarrow> json" where
  "wrap_page key items = (case key of None \<Rightarrow> JArr items | Some k \<Rightarrow> JObj [(k, JArr items)])"

definition serves :: "'s server \<Rightarrow> client \<Rightarrow> string \<Rightarrow> string option \<Rightarrow> json list \<Rightarrow> bool" where
  "serves srv c ep key xs \<longleftrightarrow>
     (\<forall>p w. 1 \<le> p \<longrightarrow>
        srv (mk_request c (timeout c) GET (page_endpoint ep p) None) w =
          (Response 200 (Json (wrap_page key (page_of xs p))), w))"

lemma page_items_wrap [simp]: "page_items ep key (wrap_page key items) = Inr items"
  by (cases key) (simp_all add: page_items_def wrap_page_def oget_or_def)

lemma consume_append:
  "consume f (xs @ ys) acc =
     ebind (consume f xs acc) (\<lambda>r. case r of Done a \<Rightarrow> Inr (Done a) | More a \<Rightarrow> consume f ys a)"
proof (induction xs arbitrary: acc)
  case (Cons x xs)
  then show ?case by (cases "f x acc") (auto split: step.split)
qed simp

definition step_value :: "'a step \<Rightarrow> 'a" where
  "step_value r = (case r of More a \<Rightarrow> a | Done a \<Rightarrow> a)"

text \<open>The outcome of consuming a whole collection at once.\<close>

definition consume_all :: "(json \<Rightarrow> 'a \<Rightarrow> exn + 'a step) \<Rightarrow> json list \<Rightarrow> 'a \<Rightarrow> 'a outcome" where
  "consume_all f xs acc =
     (case consume f xs acc of Inl e \<Rightarrow> Exn e | Inr r \<Rightarrow> Val (step_value r))"

lemma send_served:
  assumes "serves srv c ep key xs" and "1 \<le> p"
  shows "send srv c GET (page_endpoint ep p) None n =
    (Val (wrap_page key (page_of xs p)),
     n\<lparr>sent := sent n @ [mk_request c (timeout c) GET (page_endpoint ep p) None]\<rparr>)"
  using assms
  by (simp add: serves_def send_def request_timed_def call_def abind_def read_reply_def resp_ok_def
      act_simps)

lemma drop_page:
  assumes "1 \<le> p"
  shows "drop (page_size * nat (p - 1)) xs = page_of xs p @ drop (page_size * nat (p + 1 - 1)) xs"
proof -
  have "nat (p + 1 - 1) = nat (p - 1) + 1" using assms by simp
  then show ?thesis
    by (simp add: page_of_def flip: drop_drop)
qed

lemma page_loop_serves:
  assumes "serves srv c ep key xs" and "1 \<le> p"
    and "length (drop (page_size * nat (p - 1)) xs) div page_size < b"
  shows "fst (page_loop b srv c ep key p f acc n) =
         consume_all f (drop (page_size * nat (p - 1)) xs) acc
       \<and> world (snd (page_loop b srv c ep key p f acc n)) = world n"
  using assms
proof (induction b arbitrary: p acc n)
  case 0
  then show ?case by simp
next
  case (Suc b)
  let ?rest = "drop (page_size * nat (p + 1 - 1)) xs"
  have split: "drop (page_size * nat (p - 1)) xs = page_of xs p @ ?rest"
    by (rule drop_page [OF Suc.prems(2)])
  note step = send_served [OF Suc.prems(1,2)]
  show ?case
  proof (cases "length (page_of xs p) < page_size")
    case True
    then have "length xs < page_size * nat (p - 1) + page_size"
      by (auto simp: page_of_def page_size_def)
    moreover have "nat p = nat (p - 1) + 1" using Suc.prems(2) by simp
    ultimately have rest: "?rest = []" by (simp add: page_size_def)
    show ?thesis
      unfolding split rest using True
      by (cases "consume f (page_of xs p) acc")
        (auto simp: step abind_def act_simps consume_all_def step_value_def ret_def split: step.split)
  next
    case False
    then have "length ?rest div page_size < b"
    proof -
      have "length (page_of xs p) = page_size"
        using False by (simp add: page_of_def)
      then have "length (drop (page_size * nat (p - 1)) xs) = page_size + length ?rest"
        by (simp only: split length_append)
      with Suc.prems(3) have "(page_size + length ?rest) div page_size < Suc b" by metis
      then show ?thesis by (simp add: page_size_def del: length_drop)
    qed
    note IH = Suc.IH [OF Suc.prems(1) _ this]
    show ?thesis
      unfolding split
      using False Suc.prems(2)
      by (cases "consume f (page_of xs p) acc")
        (auto simp: step abind_def act_simps consume_all_def step_value_def consume_append ret_def
          IH split: step.split)
  qed
qed

end
