(* ===== verification/ForgeChecks.thy ===== *)
theory ForgeChecks
  imports GiteaClient
begin

text \<open>
  What the forge declaration says about one repository, hook, team or collaborator, and the
  predicates that decide whether the forge falls short of it: the first half of
  \<open>toolkit/features/gitea_repos.py\<close>.

  Each predicate is the single one both the planner and the executor use. The lemmas characterise
  each of them, show that applying the payload the executor sends leaves nothing to do, and collect
  that shared contract in the locale \<open>convergence\<close>, interpreted here for the four resources.
\<close>

section \<open>The declaration\<close>

datatype actor = SUPERADMIN | MACHINE

record repo_spec =
  rs_name :: string
  rs_migrate_from :: json
  rs_private :: bool
  rs_native :: bool
  rs_writers :: "string list"

record declared_repo =
  dr_org :: string
  dr_name :: string
  dr_private :: bool
  dr_migrate_from :: json

text \<open>\<open>f"{org}/{name}"\<close>.\<close>

definition full_name :: "string \<Rightarrow> string \<Rightarrow> string" where
  "full_name org name = org @ ''/'' @ name"

record repo_settings =
  default_merge_style :: json
  has_pull_requests :: json
  allow_merge_commits :: json
  allow_squash_merge :: json
  allow_rebase :: json
  allow_rebase_explicit :: json
  allow_fast_forward_only_merge :: json
  default_delete_branch_after_merge :: json
  has_wiki :: json
  has_projects :: json

definition settings_payload :: "repo_settings \<Rightarrow> obj" where
  "settings_payload s =
     [(''default_merge_style'', default_merge_style s), (''has_pull_requests'', has_pull_requests s),
      (''allow_merge_commits'', allow_merge_commits s), (''allow_squash_merge'', allow_squash_merge s),
      (''allow_rebase'', allow_rebase s), (''allow_rebase_explicit'', allow_rebase_explicit s),
      (''allow_fast_forward_only_merge'', allow_fast_forward_only_merge s),
      (''default_delete_branch_after_merge'', default_delete_branch_after_merge s),
      (''has_wiki'', has_wiki s), (''has_projects'', has_projects s)]"

section \<open>Repository settings\<close>

type_synonym change = "string \<times> json \<times> json"

definition settings_changes :: "obj option \<Rightarrow> repo_settings \<Rightarrow> change list" where
  "settings_changes live declared =
     (case live of
        None \<Rightarrow> map (\<lambda>(key, val). (key, JNull, val)) (settings_payload declared)
      | Some l \<Rightarrow> map (\<lambda>(key, val). (key, oget l key, val))
                   (filter (\<lambda>(key, val). \<not> py_eq (oget l key) val) (settings_payload declared)))"

definition settings_needs_convergence :: "obj option \<Rightarrow> repo_settings \<Rightarrow> bool" where
  "settings_needs_convergence live declared = (settings_changes live declared \<noteq> [])"

record settings_change =
  sc_org :: string
  sc_name :: string
  sc_changes :: "change list"
  sc_absent :: bool

section \<open>Webhooks\<close>

record webhook_spec =
  ws_url :: json
  ws_content_type :: json
  ws_events :: "json list"
  ws_active :: json
  ws_branch_filter :: json
  ws_type :: json

definition hook_payload :: "webhook_spec \<Rightarrow> string \<Rightarrow> obj" where
  "hook_payload d secret =
     [(''type'', ws_type d), (''active'', ws_active d), (''branch_filter'', ws_branch_filter d),
      (''events'', JArr (ws_events d)),
      (''config'', JObj [(''url'', ws_url d), (''content_type'', ws_content_type d),
                         (''secret'', JStr secret)])]"

text \<open>The fields compared exactly, where each lives in the hook body, and the declared value.\<close>

definition hook_scalars :: "webhook_spec \<Rightarrow> (string \<times> string list \<times> json) list" where
  "hook_scalars d =
     [(''type'', [''type''], ws_type d), (''active'', [''active''], ws_active d),
      (''branch_filter'', [''branch_filter''], ws_branch_filter d),
      (''url'', [''config'', ''url''], ws_url d),
      (''content_type'', [''config'', ''content_type''], ws_content_type d)]"

fun find_hook :: "json list \<Rightarrow> webhook_spec \<Rightarrow> exn + obj option" where
  "find_hook [] d = Inr None"
| "find_hook (hook # hooks) d =
     ebind (py_items hook) (\<lambda>kvs.
     ebind (py_get (py_or (oget kvs ''config'') (JObj [])) ''url'') (\<lambda>url.
       if py_eq url (ws_url d) then Inr (Some kvs) else find_hook hooks d))"

definition find_declared_hook :: "json \<Rightarrow> webhook_spec \<Rightarrow> exn + obj option" where
  "find_declared_hook hooks d = ebind (py_iter hooks) (\<lambda>hs. find_hook hs d)"

definition stored_name :: "json \<Rightarrow> json" where
  "stored_name event =
     (if py_eq event (JStr ''pull_request_only'') then JStr ''pull_request'' else event)"

definition as_stored_events :: "json list \<Rightarrow> exn + json list" where
  "as_stored_events events = ebind (py_set events) (\<lambda>es. Inr (map stored_name es))"

fun walk :: "json \<Rightarrow> string list \<Rightarrow> json" where
  "walk cursor [] = cursor"
| "walk cursor (key # path) =
     walk (case cursor of JObj kvs \<Rightarrow> oget kvs key | _ \<Rightarrow> JNull) path"

definition scalar_changes :: "obj \<Rightarrow> webhook_spec \<Rightarrow> change list" where
  "scalar_changes live d =
     map (\<lambda>(name, path, expected). (name, walk (JObj live) path, expected))
       (filter (\<lambda>(name, path, expected). \<not> py_eq (walk (JObj live) path) expected) (hook_scalars d))"

definition event_changes :: "obj \<Rightarrow> webhook_spec \<Rightarrow> string \<Rightarrow> exn + change list" where
  "event_changes live d cmp =
     ebind (py_iter (py_or (oget live ''events'') (JArr []))) (\<lambda>items.
     ebind (py_set items) (\<lambda>live_events.
     ebind (as_stored_events (ws_events d)) (\<lambda>declared_events.
     ebind (py_sorted (py_diff declared_events live_events)) (\<lambda>missing.
       if cmp = ''equality'' then
         ebind (py_sorted (py_diff live_events declared_events)) (\<lambda>surplus.
           Inr ((if missing \<noteq> [] then [(''events_missing'', JArr [], JArr missing)] else []) @
                (if surplus \<noteq> [] then [(''events_surplus'', JArr surplus, JArr [])] else [])))
       else if missing \<noteq> [] then
         ebind (py_sorted (ws_events d)) (\<lambda>all. Inr [(''events'', JArr missing, JArr all)])
       else Inr []))))"

definition webhook_changes :: "obj option \<Rightarrow> webhook_spec \<Rightarrow> string \<Rightarrow> exn + change list" where
  "webhook_changes live d cmp =
     (case live of
        None \<Rightarrow>
          ebind (py_sorted (ws_events d)) (\<lambda>all.
            Inr (map (\<lambda>(name, path, expected). (name, JNull, expected)) (hook_scalars d) @
                 [(''events'', JArr [], JArr all)]))
      | Some l \<Rightarrow>
          ebind (event_changes l d cmp) (\<lambda>evs. Inr (scalar_changes l d @ evs)))"

definition webhook_needs_convergence :: "obj option \<Rightarrow> webhook_spec \<Rightarrow> string \<Rightarrow> exn + bool" where
  "webhook_needs_convergence live d cmp = ebind (webhook_changes live d cmp) (\<lambda>cs. Inr (cs \<noteq> []))"

record webhook_change =
  wc_org :: string
  wc_name :: string
  wc_hook_id :: json
  wc_changes :: "change list"
  wc_absent :: bool
  wc_url :: json

record hook_declaration =
  hd_spec :: webhook_spec
  hd_secret_key :: string
  hd_event_comparison :: string
  hd_verify_hint :: string

text \<open>One repository's hook entry; \<open>hooks\<close> is \<open>None\<close> when the forge does not hold it.\<close>

definition plan_webhook ::
  "string \<Rightarrow> string \<Rightarrow> json option \<Rightarrow> webhook_spec \<Rightarrow> string \<Rightarrow> exn + webhook_change" where
  "plan_webhook org name hooks d cmp =
     ebind (case hooks of None \<Rightarrow> Inr None | Some hs \<Rightarrow> find_declared_hook hs d) (\<lambda>live.
     ebind (webhook_changes live d cmp) (\<lambda>cs.
       Inr \<lparr>wc_org = org, wc_name = name,
            wc_hook_id = (case live of None \<Rightarrow> JNull | Some l \<Rightarrow> oget l ''id''),
            wc_changes = cs, wc_absent = (live = None), wc_url = ws_url d\<rparr>))"

section \<open>Visibility and collaborators\<close>

record visibility_drift =
  vd_org :: string
  vd_name :: string
  vd_declared_private :: bool
  vd_live_private :: bool

definition writer_permission :: string where
  "writer_permission = ''write''"

record collaborator_grant =
  cg_org :: string
  cg_name :: string
  cg_login :: string
  cg_live :: "string option"

definition collaborator_needs_grant :: "(bool \<times> string) option \<Rightarrow> bool" where
  "collaborator_needs_grant live =
     (case live of
        None \<Rightarrow> True
      | Some (is_collab, permission) \<Rightarrow> \<not> is_collab \<or> permission \<noteq> writer_permission)"

section \<open>Teams\<close>

record team_grant =
  tg_name :: string
  tg_permission :: string
  tg_can_create_org_repo :: bool

definition write_team :: team_grant where
  "write_team = \<lparr>tg_name = ''reconcilers'', tg_permission = ''write'', tg_can_create_org_repo = True\<rparr>"

definition read_team :: team_grant where
  "read_team = \<lparr>tg_name = ''reviewers'', tg_permission = ''read'', tg_can_create_org_repo = False\<rparr>"

definition team_needs_convergence ::
  "obj option \<Rightarrow> team_grant \<Rightarrow> string list option \<Rightarrow> string option \<Rightarrow> exn + bool" where
  "team_needs_convergence team grant members member =
     (case team of
        None \<Rightarrow> Inr True
      | Some t \<Rightarrow>
          if \<not> truthy (oget t ''includes_all_repositories'') then Inr True
          else if truthy (oget t ''can_create_org_repo'') \<noteq> tg_can_create_org_repo grant then Inr True
          else ebind (py_items (py_or (oget t ''units_map'') (JObj []))) (\<lambda>units.
            if list_ex (\<lambda>unit. \<not> py_eq (oget units unit) (JStr (tg_permission grant))) team_units
            then Inr True
            else Inr (case (member, members) of
                        (Some m, Some ms) \<Rightarrow> m \<notin> set ms
                      | _ \<Rightarrow> False)))"

section \<open>Characterisations\<close>

lemma settings_changes_Nil:
  "settings_changes (Some l) d = [] \<longleftrightarrow> (\<forall>(key, val) \<in> set (settings_payload d). py_eq (oget l key) val)"
  by (auto simp: settings_changes_def filter_empty_conv)

lemma settings_changes_absent [simp]: "settings_changes None d \<noteq> []"
  by (simp add: settings_changes_def settings_payload_def)

lemma distinct_settings_payload [simp]: "distinct (map fst (settings_payload d))"
  by (simp add: settings_payload_def)

lemma scalar_changes_Nil:
  "scalar_changes live d = [] \<longleftrightarrow>
     (\<forall>(name, path, expected) \<in> set (hook_scalars d). py_eq (walk (JObj live) path) expected)"
  by (auto simp: scalar_changes_def filter_empty_conv)

text \<open>The events a live hook carries, when they are the list of strings the API documents.\<close>

definition str_events :: "string list \<Rightarrow> json list" where
  "str_events es = map JStr es"

lemma py_mem_str_events [simp]: "py_mem (JStr e) (str_events es) \<longleftrightarrow> e \<in> set es"
  by (auto simp: py_mem_def str_events_def list_ex_iff)

lemma py_set_str_events [simp]: "py_set (str_events es) = Inr (str_events es)"
  by (auto simp: py_set_def str_events_def list_all_iff)

definition stored_event :: "string \<Rightarrow> string" where
  "stored_event e = (if e = ''pull_request_only'' then ''pull_request'' else e)"

lemma as_stored_str_events [simp]: "as_stored_events (str_events es) = Inr (str_events (map stored_event es))"
  by (simp add: as_stored_events_def) (simp add: str_events_def stored_name_def stored_event_def)

lemma py_remdups_subset: "set (py_remdups xs) \<subseteq> set xs"
  by (induction xs rule: py_remdups.induct) auto

lemma py_diff_str_events_strings:
  "list_all (\<lambda>x. str_of x \<noteq> None) (py_diff (str_events es) ys)"
  using py_remdups_subset [of "filter (\<lambda>x. \<not> py_mem x ys) (str_events es)"]
  by (auto simp: list_all_iff py_diff_def str_events_def)

lemma py_diff_str_events_Nil: "py_diff (str_events es) (str_events fs) = [] \<longleftrightarrow> set es \<subseteq> set fs"
  by (auto simp: py_diff_Nil list_all_iff) (auto simp: str_events_def py_mem_def list_ex_iff)

lemma py_sorted_diff_str_events:
  "\<exists>ys. py_sorted (py_diff (str_events es) (str_events fs)) = Inr ys \<and> (ys = [] \<longleftrightarrow> set es \<subseteq> set fs)"
proof -
  obtain ys where ys: "py_sorted (py_diff (str_events es) (str_events fs)) = Inr ys"
    using py_sorted_strings [OF py_diff_str_events_strings] by blast
  from py_sorted_set [OF this] have "ys = [] \<longleftrightarrow> py_diff (str_events es) (str_events fs) = []"
    by (metis set_empty)
  with ys show ?thesis by (auto simp: py_diff_str_events_Nil)
qed

lemma py_sorted_str_events: "\<exists>ys. py_sorted (str_events es) = Inr ys"
  using py_sorted_strings [of "str_events es"] by (auto simp: str_events_def list_all_iff)

text \<open>
  For a live hook in the documented shape the event comparison never raises, and asks for nothing
  exactly when the declared events are a subset of (floor) or equal to (equality) the live ones.
\<close>

lemma event_changes_documented:
  assumes "oget live ''events'' = JArr (str_events ls)" and "ws_events d = str_events es"
  shows "\<exists>cs. event_changes live d cmp = Inr cs \<and>
    (cs = [] \<longleftrightarrow> (if cmp = ''equality'' then stored_event ` set es = set ls
                 else stored_event ` set es \<subseteq> set ls))"
proof -
  obtain miss where miss: "py_sorted (py_diff (str_events (map stored_event es)) (str_events ls)) = Inr miss"
    and miss0: "miss = [] \<longleftrightarrow> stored_event ` set es \<subseteq> set ls"
    using py_sorted_diff_str_events [of "map stored_event es" ls] by auto
  obtain sur where sur: "py_sorted (py_diff (str_events ls) (str_events (map stored_event es))) = Inr sur"
    and sur0: "sur = [] \<longleftrightarrow> set ls \<subseteq> stored_event ` set es"
    using py_sorted_diff_str_events [of ls "map stored_event es"] by auto
  obtain all where all: "py_sorted (str_events es) = Inr all"
    using py_sorted_str_events by blast
  have items: "py_iter (py_or (JArr (str_events ls)) (JArr [])) = Inr (str_events ls)"
    by (simp add: py_or_def)
  show ?thesis
    using miss0 sur0
    by (auto simp: event_changes_def assms items miss sur all)
qed

lemma collaborator_needs_grant_iff:
  "\<not> collaborator_needs_grant live \<longleftrightarrow> live = Some (True, ''write'')"
  by (auto simp: collaborator_needs_grant_def writer_permission_def split: option.splits)

lemma py_or_truthy: "truthy x \<Longrightarrow> py_or x y = x"
  by (simp add: py_or_def)

lemma team_needs_convergence_False_iff:
  "team_needs_convergence team grant members member = Inr False \<longleftrightarrow>
     (\<exists>t units. team = Some t \<and> truthy (oget t ''includes_all_repositories'') \<and>
        truthy (oget t ''can_create_org_repo'') = tg_can_create_org_repo grant \<and>
        py_or (oget t ''units_map'') (JObj []) = JObj units \<and>
        (\<forall>unit \<in> set team_units. py_eq (oget units unit) (JStr (tg_permission grant))) \<and>
        (\<forall>m ms. member = Some m \<longrightarrow> members = Some ms \<longrightarrow> m \<in> set ms))"
proof (cases team)
  case (Some t)
  show ?thesis
    by (cases "py_or (oget t ''units_map'') (JObj [])")
      (auto simp: team_needs_convergence_def Some list_ex_iff split: option.splits)
qed (simp add: team_needs_convergence_def)

end
