(* ===== verification/Convergence.thy ===== *)
theory Convergence
  imports ForgeChecks
begin

text \<open>
  The contract the reconciler's resources share: a predicate that says whether a live resource
  falls short of its declaration, and the state a repair leaves behind, which the predicate accepts.
  The locale proves once that one round of repairs, applied to exactly what was scheduled, leaves
  nothing scheduled; it is interpreted for settings, webhooks, teams and collaborators.

  The state after a repair is the documented effect of the request the executor sends: a \<open>PATCH\<close> or
  \<open>POST\<close> sets the fields its body names and keeps the others (\<open>overlay\<close>); a stored webhook carries
  the stored event names and no secret; a collaborator or member that was put is there.
\<close>

definition overlay :: "obj \<Rightarrow> obj \<Rightarrow> obj" where
  "overlay live body = fold (\<lambda>(k, v) kvs. oset kvs k v) body live"

lemma map_of_overlay:
  "distinct (map fst body) \<Longrightarrow>
     map_of (overlay live body) k = (case map_of body k of None \<Rightarrow> map_of live k | Some v \<Rightarrow> Some v)"
proof (induction body arbitrary: live)
  case (Cons kv body)
  obtain k' v where "kv = (k', v)" by fastforce
  moreover have "map_of body k' = None" if "k' \<notin> fst ` set body"
    using that by (simp add: map_of_eq_None_iff)
  ultimately show ?case using Cons by (auto simp: overlay_def split: option.splits)
qed (simp add: overlay_def)

lemma oget_overlay:
  assumes "distinct (map fst body)" and "(k, v) \<in> set body"
  shows "oget (overlay live body) k = v"
  using assms by (simp add: oget_def map_of_overlay)

lemma oget_overlay_simps:
  "distinct (map fst body) \<Longrightarrow> map_of body k = Some v \<Longrightarrow> oget (overlay live body) k = v"
  by (simp add: oget_def map_of_overlay)

locale convergence =
  fixes wf :: "'decl \<Rightarrow> bool"
    and needs :: "'decl \<Rightarrow> 'live option \<Rightarrow> exn + bool"
    and settle :: "'decl \<Rightarrow> 'live option \<Rightarrow> 'live"
  assumes absent_needs: "wf d \<Longrightarrow> needs d None = Inr True"
    and settled: "wf d \<Longrightarrow> needs d (Some (settle d live)) = Inr False"
begin

text \<open>What a run schedules, and the reads the next run makes once that has been carried out.\<close>

lemma repaired_not_scheduled:
  "wf d \<Longrightarrow> needs d (Some (settle d live)) \<noteq> Inr True"
  by (simp add: settled)

lemma one_round:
  assumes todo: "efilter (\<lambda>k. needs (decl k) (look k)) ks = Inr todo"
    and wfs: "\<And>k. k \<in> set ks \<Longrightarrow> wf (decl k)"
  shows "efilter (\<lambda>k. needs (decl k) (if k \<in> set todo then Some (settle (decl k) (look k)) else look k)) ks
    = Inr []"
proof -
  have "needs (decl k) (look k) = Inr (k \<in> set todo)" if "k \<in> set ks" for k
    using efilter_eq_Inr [OF todo] that by fastforce
  then show ?thesis
    by (auto simp: efilter_None settled wfs)
qed

end

section \<open>Settings\<close>

definition settings_wf :: "repo_settings \<Rightarrow> bool" where
  "settings_wf d = list_all (\<lambda>(key, val). json_wf val) (settings_payload d)"

definition settings_settle :: "repo_settings \<Rightarrow> obj option \<Rightarrow> obj" where
  "settings_settle d live = overlay (case live of None \<Rightarrow> [] | Some l \<Rightarrow> l) (settings_payload d)"

interpretation settings: convergence settings_wf
    "\<lambda>d live. Inr (settings_needs_convergence live d)" settings_settle
proof unfold_locales
  fix d live
  assume "settings_wf d"
  then show "Inr (settings_needs_convergence (Some (settings_settle d live)) d) = Inr False"
    by (auto simp: settings_needs_convergence_def settings_changes_Nil settings_settle_def settings_wf_def
        list_all_iff oget_overlay py_eq_refl)
qed (simp add: settings_needs_convergence_def)

section \<open>Webhooks\<close>

definition hook_wf :: "hook_declaration \<Rightarrow> bool" where
  "hook_wf h \<longleftrightarrow>
     (\<exists>es. ws_events (hd_spec h) = str_events es) \<and>
     list_all (\<lambda>(name, path, expected). json_wf expected) (hook_scalars (hd_spec h))"

definition stored_hook :: "webhook_spec \<Rightarrow> obj" where
  "stored_hook d =
     [(''type'', ws_type d), (''active'', ws_active d), (''branch_filter'', ws_branch_filter d),
      (''events'', JArr (map stored_name (ws_events d))),
      (''config'', JObj [(''url'', ws_url d), (''content_type'', ws_content_type d)])]"

definition hook_settle :: "hook_declaration \<Rightarrow> obj option \<Rightarrow> obj" where
  "hook_settle h live = overlay (case live of None \<Rightarrow> [] | Some l \<Rightarrow> l) (stored_hook (hd_spec h))"

lemma distinct_stored_hook [simp]: "distinct (map fst (stored_hook d))"
  by (simp add: stored_hook_def)

lemma oget_stored_hook:
  "oget (overlay live (stored_hook d)) ''type'' = ws_type d"
  "oget (overlay live (stored_hook d)) ''active'' = ws_active d"
  "oget (overlay live (stored_hook d)) ''branch_filter'' = ws_branch_filter d"
  "oget (overlay live (stored_hook d)) ''events'' = JArr (map stored_name (ws_events d))"
  "oget (overlay live (stored_hook d)) ''config'' =
     JObj [(''url'', ws_url d), (''content_type'', ws_content_type d)]"
  by (rule oget_overlay_simps; simp add: stored_hook_def)+

lemma map_stored_name_str: "map stored_name (str_events es) = str_events (map stored_event es)"
  by (simp add: str_events_def stored_name_def stored_event_def)

lemma webhook_changes_documented:
  assumes "oget live ''events'' = JArr (str_events ls)" and "ws_events d = str_events es"
  shows "\<exists>cs. webhook_changes (Some live) d cmp = Inr cs \<and>
    (cs = [] \<longleftrightarrow> scalar_changes live d = [] \<and>
       (if cmp = ''equality'' then stored_event ` set es = set ls else stored_event ` set es \<subseteq> set ls))"
  using event_changes_documented [OF assms, of cmp] by (auto simp: webhook_changes_def)

lemma scalar_changes_settled:
  assumes "list_all (\<lambda>(name, path, expected). json_wf expected) (hook_scalars d)"
  shows "scalar_changes (overlay live (stored_hook d)) d = []"
proof -
  have "json_wf (ws_type d)" and "json_wf (ws_active d)" and "json_wf (ws_branch_filter d)"
    and "json_wf (ws_url d)" and "json_wf (ws_content_type d)"
    using assms by (simp_all add: hook_scalars_def)
  then show ?thesis
    unfolding scalar_changes_Nil
    by (simp add: hook_scalars_def oget_stored_hook py_eq_refl)
qed

interpretation hooks: convergence hook_wf
    "\<lambda>h live. webhook_needs_convergence live (hd_spec h) (hd_event_comparison h)" hook_settle
proof unfold_locales
  fix h
  assume "hook_wf h"
  then obtain es all where "ws_events (hd_spec h) = str_events es" and "py_sorted (str_events es) = Inr all"
    using py_sorted_str_events by (auto simp: hook_wf_def) metis
  then show "webhook_needs_convergence None (hd_spec h) (hd_event_comparison h) = Inr True"
    by (simp add: webhook_needs_convergence_def webhook_changes_def)
next
  fix h live
  assume wf: "hook_wf h"
  then obtain es where es: "ws_events (hd_spec h) = str_events es" by (auto simp: hook_wf_def)
  have "oget (hook_settle h live) ''events'' = JArr (str_events (map stored_event es))"
    by (simp add: hook_settle_def oget_stored_hook es map_stored_name_str)
  from webhook_changes_documented [OF this es, of "hd_event_comparison h"]
  have "webhook_changes (Some (hook_settle h live)) (hd_spec h) (hd_event_comparison h) = Inr []"
    using wf by (auto simp: hook_settle_def scalar_changes_settled hook_wf_def split: if_splits)
  then show "webhook_needs_convergence (Some (hook_settle h live)) (hd_spec h) (hd_event_comparison h) = Inr False"
    by (simp add: webhook_needs_convergence_def)
qed

section \<open>Teams with their members\<close>

definition team_needs :: "team_grant \<times> string option \<Rightarrow> (obj \<times> string list) option \<Rightarrow> exn + bool" where
  "team_needs d live =
     (case live of
        None \<Rightarrow> team_needs_convergence None (fst d) (Some []) (snd d)
      | Some (t, ms) \<Rightarrow> team_needs_convergence (Some t) (fst d) (Some ms) (snd d))"

definition team_body :: "team_grant \<Rightarrow> obj" where
  "team_body g =
     [(''name'', JStr (tg_name g)), (''permission'', JStr (tg_permission g)),
      (''can_create_org_repo'', JBool (tg_can_create_org_repo g)),
      (''units_map'', JObj (map (\<lambda>unit. (unit, JStr (tg_permission g))) team_units)),
      (''includes_all_repositories'', JBool True)]"

lemma team_payload_body:
  "team_payload (tg_name g) (tg_permission g) (tg_can_create_org_repo g) = JObj (team_body g)"
  by (simp add: team_payload_def team_body_def)

definition team_settle :: "team_grant \<times> string option \<Rightarrow> (obj \<times> string list) option \<Rightarrow> obj \<times> string list" where
  "team_settle d live =
     (let (t, ms) = (case live of None \<Rightarrow> ([], []) | Some l \<Rightarrow> l)
      in (overlay t (team_body (fst d)), (case snd d of None \<Rightarrow> ms | Some m \<Rightarrow> m # ms)))"

lemma oget_team_body:
  "oget (overlay t (team_body g)) ''includes_all_repositories'' = JBool True"
  "oget (overlay t (team_body g)) ''can_create_org_repo'' = JBool (tg_can_create_org_repo g)"
  "oget (overlay t (team_body g)) ''units_map'' =
     JObj (map (\<lambda>unit. (unit, JStr (tg_permission g))) team_units)"
  by (rule oget_overlay_simps; simp add: team_body_def)+

lemma oget_units:
  "unit \<in> set team_units \<Longrightarrow> oget (map (\<lambda>u. (u, JStr p)) team_units) unit = JStr p"
  by (auto simp: oget_def map_of_map_restrict restrict_map_def)

lemma team_units_nonempty [simp]: "team_units \<noteq> []"
  by (simp add: team_units_def)

interpretation teams: convergence "\<lambda>_. True" team_needs team_settle
proof unfold_locales
  fix d :: "team_grant \<times> string option" and live
  show "team_needs d (Some (team_settle d live)) = Inr False"
    by (auto simp: team_needs_def team_settle_def team_needs_convergence_False_iff oget_team_body
        py_or_def oget_units split: prod.splits option.splits)
qed (simp add: team_needs_def team_needs_convergence_def)

section \<open>Collaborators\<close>

interpretation collaborators: convergence "\<lambda>_ :: unit. True"
    "\<lambda>_ live. Inr (collaborator_needs_grant live)" "\<lambda>_ _. (True, writer_permission)"
  by unfold_locales (auto simp: collaborator_needs_grant_def)

end
