(* ===== verification/ForgeDecl.thy ===== *)
theory ForgeDecl
  imports ForgeChecks
begin

text \<open>
  Reading the declaration out of the merged configuration: \<open>load_declaration\<close>, \<open>load_settings\<close>,
  \<open>load_webhook\<close>, \<open>load_webhooks\<close> and their helpers in \<open>toolkit/features/gitea_repos.py\<close>.

  The argument is the parsed YAML. Every \<open>raise\<close> is an \<open>Inl\<close>, in the order the code reaches it, and
  so are the \<open>KeyError\<close>, \<open>TypeError\<close> and \<open>AttributeError\<close> a malformed document makes Python raise.
  The lemmas state what a successful load guarantees.
\<close>

definition gitea_path :: "string list" where
  "gitea_path = [''apps'', ''services'', ''core'', ''gitea'']"

section \<open>Organizations and repositories\<close>

definition non_writer_identities :: "string list" where
  "non_writer_identities = [''reviewer'', ''superadmin'']"

definition resolve_writer :: "json \<Rightarrow> json \<Rightarrow> exn + string" where
  "resolve_writer identities key =
     (if \<not> hashable key then Inl (TypeError ''unhashable'')
      else if py_mem key (map JStr non_writer_identities) then Inl (ValueError ''writers: may not be a writer'')
      else ebind (case key of JStr k \<Rightarrow> py_get identities k | _ \<Rightarrow> py_get identities [])
        (\<lambda>found. let login = (case key of JStr _ \<Rightarrow> found | _ \<Rightarrow> JNull) in
           if \<not> truthy login then Inl (ValueError ''writers: not an identity'')
           else Inr (py_str login)))"

definition resolve_writers :: "obj \<Rightarrow> json \<Rightarrow> exn + string list" where
  "resolve_writers entry identities =
     (case py_or (oget entry ''writers'') (JArr []) of
        JArr keys \<Rightarrow> emap (resolve_writer identities) keys
      | _ \<Rightarrow> Inl (ValueError ''writers: not a list''))"

definition load_entry :: "json \<Rightarrow> json \<Rightarrow> exn + repo_spec" where
  "load_entry identities entry =
     (case entry of
        JObj e \<Rightarrow>
          (let origin = oget e ''origin''; source = oget e ''migrate_from'';
               native = py_eq origin (JStr ''native'')
           in if \<not> (origin = JNull \<or> native) \<or> (native \<and> truthy source)
              then Inl (ValueError ''repositories: origin'')
              else ebind (index e ''name'') (\<lambda>name.
                   ebind (resolve_writers e identities) (\<lambda>writers.
                     Inr \<lparr>rs_name = py_str name, rs_migrate_from = source,
                          rs_private = truthy (oget_or e ''private'' (JBool True)),
                          rs_native = native, rs_writers = writers\<rparr>)))
      | _ \<Rightarrow> Inl (ValueError ''repositories: bare name''))"

definition load_org :: "json \<Rightarrow> string \<times> json \<Rightarrow> exn + string \<times> repo_spec list" where
  "load_org identities = (\<lambda>(org, spec).
     ebind (py_get_or (py_or spec (JObj [])) ''repositories'' (JArr [])) (\<lambda>entries.
     ebind (py_iter (py_or entries (JArr []))) (\<lambda>items.
     ebind (emap (load_entry identities) items) (\<lambda>specs. Inr (org, specs)))))"

definition load_declaration :: "json \<Rightarrow> exn + (string \<times> repo_spec list) list" where
  "load_declaration common =
     ebind (get_path common (gitea_path @ [''organizations''])) (\<lambda>orgs.
     ebind (get_path common [''apps'', ''auth'', ''identities'']) (\<lambda>ids.
     ebind (py_items (py_or orgs (JObj []))) (\<lambda>items.
       emap (load_org (py_or ids (JObj []))) items)))"

definition declared_full_names :: "(string \<times> repo_spec list) list \<Rightarrow> string list" where
  "declared_full_names declaration =
     concat (map (\<lambda>(org, specs). map (\<lambda>spec. full_name org (rs_name spec)) specs) declaration)"

definition native_full_names :: "(string \<times> repo_spec list) list \<Rightarrow> string list" where
  "native_full_names declaration =
     concat (map (\<lambda>(org, specs).
       map (\<lambda>spec. full_name org (rs_name spec)) (filter rs_native specs)) declaration)"

section \<open>Settings\<close>

definition settings_fields :: "string list" where
  "settings_fields =
     [''default_merge_style'', ''has_pull_requests'', ''allow_merge_commits'', ''allow_squash_merge'',
      ''allow_rebase'', ''allow_rebase_explicit'', ''allow_fast_forward_only_merge'',
      ''default_delete_branch_after_merge'', ''has_wiki'', ''has_projects'']"

text \<open>
  The check \<open>load_settings\<close> and \<open>_parse_webhook_block\<close> share: exactly the known keys. \<open>label\<close> names
  the block in the error.
\<close>

definition exact_keys :: "string \<Rightarrow> string list \<Rightarrow> json \<Rightarrow> exn + unit" where
  "exact_keys label known block =
     ebind (py_iter block) (\<lambda>items.
     ebind (py_set items) (\<lambda>keys.
     ebind (py_sorted (py_diff keys (map JStr known))) (\<lambda>unknown.
       if unknown \<noteq> [] then Inl (ValueError (label @ '': unknown key''))
       else if py_diff (map JStr known) keys \<noteq> [] then Inl (ValueError (label @ '': missing key''))
       else Inr ())))"

definition settings_of :: "json \<Rightarrow> exn + repo_settings" where
  "settings_of block =
     ebind (emap (py_index block) settings_fields) (\<lambda>vs.
       Inr \<lparr>default_merge_style = vs ! 0, has_pull_requests = vs ! 1, allow_merge_commits = vs ! 2,
            allow_squash_merge = vs ! 3, allow_rebase = vs ! 4, allow_rebase_explicit = vs ! 5,
            allow_fast_forward_only_merge = vs ! 6, default_delete_branch_after_merge = vs ! 7,
            has_wiki = vs ! 8, has_projects = vs ! 9\<rparr>)"

definition load_settings :: "json \<Rightarrow> exn + repo_settings" where
  "load_settings common =
     ebind (get_path common gitea_path) (\<lambda>g.
     ebind (py_get (py_or g (JObj [])) ''repository_settings'') (\<lambda>block.
       if \<not> truthy block then Inl (ValueError ''repository_settings: absent'')
       else ebind (exact_keys ''repository_settings'' settings_fields block) (\<lambda>_. settings_of block)))"

section \<open>Webhooks\<close>

definition webhook_fields :: "string list" where
  "webhook_fields = [''url'', ''content_type'', ''events'', ''active'', ''branch_filter'', ''type'']"

definition parse_webhook_block :: "json \<Rightarrow> string \<Rightarrow> exn + webhook_spec" where
  "parse_webhook_block block label =
     ebind (exact_keys label webhook_fields block) (\<lambda>_.
     ebind (py_dict block) (\<lambda>values.
     ebind (index values ''events'') (\<lambda>evs.
     ebind (py_iter evs) (\<lambda>events.
     ebind (emap (index values) [''url'', ''content_type'', ''active'', ''branch_filter'', ''type''])
       (\<lambda>vs. Inr \<lparr>ws_url = vs ! 0, ws_content_type = vs ! 1, ws_events = events, ws_active = vs ! 2,
                  ws_branch_filter = vs ! 3, ws_type = vs ! 4\<rparr>)))))"

definition load_webhook :: "json \<Rightarrow> exn + webhook_spec" where
  "load_webhook common =
     ebind (get_path common gitea_path) (\<lambda>g.
     ebind (py_get (py_or g (JObj [])) ''webhook'') (\<lambda>block.
       if \<not> truthy block then Inl (ValueError ''webhook: absent'')
       else parse_webhook_block block ''webhook''))"

definition legacy_webhook_secret_key :: string where
  "legacy_webhook_secret_key = ''apps.services.automation.n8n.forge_webhook_secret''"

text \<open>The constructor, with the check of \<open>__post_init__\<close>.\<close>

definition mk_hook_declaration ::
  "webhook_spec \<Rightarrow> string \<Rightarrow> string \<Rightarrow> string \<Rightarrow> exn + hook_declaration" where
  "mk_hook_declaration spec secret_key cmp hint =
     (if cmp \<notin> set [''floor'', ''equality''] then Inl (ValueError ''event_comparison'')
      else Inr \<lparr>hd_spec = spec, hd_secret_key = secret_key, hd_event_comparison = cmp,
                hd_verify_hint = hint\<rparr>)"

definition hook_extra_fields :: "string list" where
  "hook_extra_fields = [''secret_key'', ''event_comparison'', ''verify_hint'']"

text \<open>One entry of the list; \<open>seen\<close> holds the URLs of the entries before it.\<close>

definition load_hook_entry :: "json \<Rightarrow> json list \<Rightarrow> exn + hook_declaration" where
  "load_hook_entry block seen =
     (case block of
        JObj kvs \<Rightarrow>
          (if map_of kvs ''secret_key'' = None then Inl (ValueError ''webhooks: no secret_key'')
           else
             (let secret_key = py_str (oget kvs ''secret_key'');
                  cmp = py_str (oget_or kvs ''event_comparison'' (JStr ''floor''));
                  hint = join '' '' (words_of [] (py_str (oget_or kvs ''verify_hint'' (JStr []))));
                  spec_block = filter (\<lambda>kv. fst kv \<notin> set hook_extra_fields) kvs
              in ebind (parse_webhook_block (JObj spec_block) ''webhooks'') (\<lambda>spec.
                   if \<not> hashable (ws_url spec) then Inl (TypeError ''unhashable'')
                   else if py_mem (ws_url spec) seen then Inl (ValueError ''webhooks: duplicate url'')
                   else mk_hook_declaration spec secret_key cmp hint)))
      | JArr xs \<Rightarrow>
          Inl (if py_mem (JStr ''secret_key'') xs then TypeError ''subscript'' else AttributeError ''get'')
      | JStr s \<Rightarrow>
          Inl (if str_contains ''secret_key'' s then TypeError ''subscript'' else AttributeError ''get'')
      | _ \<Rightarrow> Inl (TypeError ''not iterable''))"

fun load_hook_entries :: "json list \<Rightarrow> json list \<Rightarrow> exn + hook_declaration list" where
  "load_hook_entries [] seen = Inr []"
| "load_hook_entries (block # blocks) seen =
     ebind (load_hook_entry block seen) (\<lambda>h.
     ebind (load_hook_entries blocks (seen @ [ws_url (hd_spec h)])) (\<lambda>hs. Inr (h # hs)))"

definition load_webhooks :: "json \<Rightarrow> exn + hook_declaration list" where
  "load_webhooks common =
     ebind (get_path common gitea_path) (\<lambda>g.
     ebind (py_get (py_or g (JObj [])) ''webhooks'') (\<lambda>blocks.
       if blocks = JNull then
         ebind (load_webhook common) (\<lambda>spec.
         ebind (mk_hook_declaration spec legacy_webhook_secret_key ''floor'' []) (\<lambda>h. Inr [h]))
       else if \<not> truthy blocks then Inl (ValueError ''webhooks: empty'')
       else ebind (py_iter blocks) (\<lambda>items. load_hook_entries items [])))"

definition verify_hints :: "(string \<times> json) list \<Rightarrow> hook_declaration list \<Rightarrow> string list" where
  "verify_hints hooked declared =
     dedup (map hd_verify_hint
       (filter (\<lambda>h. py_mem (ws_url (hd_spec h)) (map snd hooked) \<and> hd_verify_hint h \<noteq> []) declared))"

section \<open>What a successful load guarantees\<close>

lemma set_declared_full_names:
  "set (declared_full_names D) = {full_name org (rs_name spec) | org spec specs. (org, specs) \<in> set D \<and> spec \<in> set specs}"
  by (force simp: declared_full_names_def)

lemma set_native_full_names:
  "set (native_full_names D) =
     {full_name org (rs_name spec) | org spec specs. (org, specs) \<in> set D \<and> spec \<in> set specs \<and> rs_native spec}"
  by (force simp: native_full_names_def)

lemma native_declared: "set (native_full_names D) \<subseteq> set (declared_full_names D)"
  by (auto simp: set_declared_full_names set_native_full_names)

lemma load_entry_Inr:
  assumes "load_entry ids entry = Inr spec"
  obtains e where "entry = JObj e" and "rs_migrate_from spec = oget e ''migrate_from''"
    and "rs_native spec \<longleftrightarrow> oget e ''origin'' = JStr ''native''"
    and "rs_native spec \<Longrightarrow> \<not> truthy (rs_migrate_from spec)"
    and "resolve_writers e ids = Inr (rs_writers spec)"
    and "rs_private spec \<longleftrightarrow> truthy (oget_or e ''private'' (JBool True))"
proof -
  have native: "py_eq v (JStr s) \<longleftrightarrow> v = JStr s" for v s
    by (cases v) auto
  show ?thesis
  proof (cases entry)
    case (JObj e)
    show ?thesis
      by (rule that [of e])
        (use assms JObj in \<open>auto simp: load_entry_def Let_def native split: if_splits\<close>)
  qed (use assms in \<open>simp_all add: load_entry_def\<close>)
qed

lemma load_declaration_entry:
  assumes "load_declaration common = Inr D" and "(org, specs) \<in> set D" and "spec \<in> set specs"
  obtains ids entry where "get_path common [''apps'', ''auth'', ''identities''] = Inr ids"
    and "load_entry (py_or ids (JObj [])) entry = Inr spec"
proof -
  from assms(1) obtain orgs ids items where
    ids: "get_path common [''apps'', ''auth'', ''identities''] = Inr ids"
    and D: "emap (load_org (py_or ids (JObj []))) items = Inr D"
    by (auto simp: load_declaration_def)
  from assms(2) emap_eq_Inr_set [OF D] obtain item
    where "load_org (py_or ids (JObj [])) item = Inr (org, specs)" by blast
  then obtain entries where "emap (load_entry (py_or ids (JObj []))) entries = Inr specs"
    by (auto simp: load_org_def split: prod.splits)
  from assms(3) emap_eq_Inr_set [OF this] obtain entry
    where "load_entry (py_or ids (JObj [])) entry = Inr spec" by blast
  with ids show ?thesis by (rule that)
qed

lemma resolve_writer_Inr:
  assumes "resolve_writer ids key = Inr login"
  obtains k where "key = JStr k" and "k \<notin> set non_writer_identities"
    and "\<exists>v. py_get ids k = Inr v \<and> truthy v \<and> login = py_str v"
proof (cases key)
  case (JStr k)
  have "py_mem (JStr k) (map JStr xs) \<longleftrightarrow> k \<in> set xs" for xs
    by (auto simp: py_mem_def list_ex_iff)
  with assms JStr have "k \<notin> set non_writer_identities"
    and "\<exists>v. py_get ids k = Inr v \<and> truthy v \<and> login = py_str v"
    by (auto simp: resolve_writer_def Let_def split: if_splits)
  with JStr show ?thesis by (rule that)
qed (use assms in \<open>auto simp: resolve_writer_def Let_def split: if_splits\<close>)

lemma load_hook_entries_Inr:
  "load_hook_entries blocks seen = Inr hs \<Longrightarrow>
     length hs = length blocks \<and>
     (\<forall>h \<in> set hs. hd_event_comparison h \<in> {''floor'', ''equality''} \<and> \<not> py_mem (ws_url (hd_spec h)) seen) \<and>
     sorted_wrt (\<lambda>h h'. \<not> py_eq (ws_url (hd_spec h')) (ws_url (hd_spec h))) hs"
proof (induction blocks arbitrary: seen hs)
  case (Cons block blocks)
  then obtain h hs' where h: "load_hook_entry block seen = Inr h"
    and hs': "load_hook_entries blocks (seen @ [ws_url (hd_spec h)]) = Inr hs'" and "hs = h # hs'"
    by auto
  from h have "hd_event_comparison h \<in> {''floor'', ''equality''} \<and> \<not> py_mem (ws_url (hd_spec h)) seen"
    by (auto simp: load_hook_entry_def mk_hook_declaration_def Let_def split: json.splits if_splits)
  with Cons.IH [OF hs'] \<open>hs = h # hs'\<close> show ?case
    by (auto simp: py_mem_def)
qed simp

end
