(* ===== verification/ForgePlan.thy ===== *)
theory ForgePlan
  imports Convergence ForgeDecl "HOL-Library.Product_Lexorder"
begin

text \<open>
  \<open>plan_reconcile\<close> of \<open>toolkit/features/gitea_repos.py\<close>: the declaration and the reads of the forge
  in, a plan out. One definition per field of the plan, composed by \<open>plan_reconcile\<close> in the order
  the code computes them, so that a missing read raises where it raises in the code.

  The lemmas say when a plan exists, that it acts on declared names only, that an absent repository
  is scheduled in exactly one way, that the order of the declaration does not show in the plan, and
  that a plan is a no-op exactly when the forge matches the declaration.
\<close>

type_synonym decls = "(string \<times> repo_spec list) list"

record forge_reads =
  existing_orgs :: "string list"
  existing_repos :: "(string \<times> bool) list"
  existing_teams :: "(string \<times> obj option) list"
  existing_repo_settings :: "(string \<times> obj option) list"
  existing_repo_hooks :: "(string \<times> json option) list"
  existing_repo_refs :: "(string \<times> bool) list"
  existing_review_teams :: "(string \<times> obj option \<times> string list) list option"
  existing_collaborators :: "(string \<times> (string \<times> bool \<times> string) list option) list"

record reconcile_plan =
  orgs_to_create :: "string list"
  repos_to_create :: "declared_repo list"
  repos_to_migrate :: "declared_repo list"
  teams_to_converge :: "string list"
  review_teams_to_converge :: "string list"
  reviewer :: "string option"
  repos_to_configure :: "settings_change list"
  repos_to_hook :: "webhook_change list"
  collaborators_to_grant :: "collaborator_grant list"
  undeclared_orgs :: "string list"
  undeclared_repos :: "string list"
  visibility_drifts :: "visibility_drift list"
  unfilled_migrations :: "declared_repo list"
  absent_native_repos :: "declared_repo list"
  emptied_native_repos :: "declared_repo list"
  lost_content_repos :: "declared_repo list"

definition is_noop :: "reconcile_plan \<Rightarrow> bool" where
  "is_noop p \<longleftrightarrow>
     orgs_to_create p = [] \<and> repos_to_create p = [] \<and> repos_to_migrate p = [] \<and>
     teams_to_converge p = [] \<and> review_teams_to_converge p = [] \<and> repos_to_configure p = [] \<and>
     repos_to_hook p = [] \<and> collaborators_to_grant p = []"

definition actor_for_org_creation :: actor where
  "actor_for_org_creation = SUPERADMIN"

definition actor_for_repo_creation :: actor where
  "actor_for_repo_creation = MACHINE"

section \<open>The declaration as a list of repositories\<close>

definition held :: "forge_reads \<Rightarrow> string \<Rightarrow> bool" where
  "held r fn \<longleftrightarrow> map_of (existing_repos r) fn \<noteq> None"

definition repo_fn :: "string \<times> repo_spec \<Rightarrow> string" where
  "repo_fn = (\<lambda>(org, spec). full_name org (rs_name spec))"

text \<open>\<open>for org, specs in declared.items() for spec in specs\<close>, as written and sorted.\<close>

definition declared_items :: "decls \<Rightarrow> (string \<times> repo_spec) list" where
  "declared_items D = concat (map (\<lambda>(org, specs). map (Pair org) specs) D)"

definition sorted_items :: "decls \<Rightarrow> (string \<times> repo_spec) list" where
  "sorted_items D =
     concat (map (\<lambda>(org, specs). map (Pair org) (sort_key rs_name specs)) (sort_key fst D))"

section \<open>The fields of the plan\<close>

definition plan_orgs :: "decls \<Rightarrow> forge_reads \<Rightarrow> string list" where
  "plan_orgs D r = sorted_set (filter (\<lambda>org. org \<notin> set (existing_orgs r)) (map fst D))"

definition plan_missing :: "decls \<Rightarrow> forge_reads \<Rightarrow> (string \<times> repo_spec) list" where
  "plan_missing D r =
     sort_key (\<lambda>(org, spec). (org, rs_name spec)) (filter (\<lambda>i. \<not> held r (repo_fn i)) (declared_items D))"

definition mk_declared :: "bool \<Rightarrow> string \<times> repo_spec \<Rightarrow> declared_repo" where
  "mk_declared with_source = (\<lambda>(org, spec).
     \<lparr>dr_org = org, dr_name = rs_name spec, dr_private = rs_private spec,
      dr_migrate_from = (if with_source then rs_migrate_from spec else JNull)\<rparr>)"

definition dr_full_name :: "declared_repo \<Rightarrow> string" where
  "dr_full_name d = full_name (dr_org d) (dr_name d)"

definition has_source :: "repo_spec \<Rightarrow> bool" where
  "has_source spec = truthy (rs_migrate_from spec)"

definition plan_create :: "decls \<Rightarrow> forge_reads \<Rightarrow> declared_repo list" where
  "plan_create D r =
     map (mk_declared False)
       (filter (\<lambda>(org, spec). \<not> has_source spec \<and> \<not> rs_native spec) (plan_missing D r))"

definition plan_absent_native :: "decls \<Rightarrow> forge_reads \<Rightarrow> declared_repo list" where
  "plan_absent_native D r =
     map (mk_declared False) (filter (\<lambda>(org, spec). rs_native spec) (plan_missing D r))"

definition plan_migrate :: "decls \<Rightarrow> forge_reads \<Rightarrow> declared_repo list" where
  "plan_migrate D r =
     map (mk_declared True) (filter (\<lambda>(org, spec). has_source spec) (plan_missing D r))"

definition plan_teams :: "decls \<Rightarrow> forge_reads \<Rightarrow> exn + string list" where
  "plan_teams D r =
     ebind (efilter (\<lambda>org. ebind (index (existing_teams r) org)
                       (\<lambda>team. team_needs_convergence team write_team None None)) (map fst D))
       (\<lambda>orgs. Inr (sorted_set orgs))"

definition plan_review_teams :: "decls \<Rightarrow> forge_reads \<Rightarrow> string option \<Rightarrow> exn + string list" where
  "plan_review_teams D r rvw =
     (case (rvw, existing_review_teams r) of
        (Some (c # cs), Some reads) \<Rightarrow>
          ebind (efilter (\<lambda>org. ebind (index reads org)
                            (\<lambda>(team, members).
                               team_needs_convergence team read_team (Some members) (Some (c # cs))))
                   (map fst D))
            (\<lambda>orgs. Inr (sorted_set orgs))
      | _ \<Rightarrow> Inr [])"

text \<open>The repositories this run can act on: all but the absent native ones.\<close>

definition actionable :: "decls \<Rightarrow> forge_reads \<Rightarrow> (string \<times> repo_spec) list" where
  "actionable D r =
     (let not_created = map dr_full_name (plan_absent_native D r)
      in filter (\<lambda>i. repo_fn i \<notin> set not_created) (sorted_items D))"

definition plan_configure :: "decls \<Rightarrow> forge_reads \<Rightarrow> repo_settings \<Rightarrow> exn + settings_change list" where
  "plan_configure D r d =
     ebind (emap (\<lambda>(org, spec).
              ebind (index (existing_repo_settings r) (full_name org (rs_name spec))) (\<lambda>live.
                Inr \<lparr>sc_org = org, sc_name = rs_name spec, sc_changes = settings_changes live d,
                     sc_absent = (live = None)\<rparr>)) (actionable D r))
       (\<lambda>cs. Inr (filter (\<lambda>c. sc_changes c \<noteq> []) cs))"

definition plan_hooks :: "decls \<Rightarrow> forge_reads \<Rightarrow> hook_declaration list \<Rightarrow> exn + webhook_change list" where
  "plan_hooks D r hs =
     ebind (emap (\<lambda>((org, spec), h).
              ebind (index (existing_repo_hooks r) (full_name org (rs_name spec))) (\<lambda>live_hooks.
                plan_webhook org (rs_name spec) live_hooks (hd_spec h) (hd_event_comparison h)))
              (List.product (actionable D r) hs))
       (\<lambda>cs. Inr (filter (\<lambda>c. wc_changes c \<noteq> []) cs))"

definition plan_writer ::
  "string \<Rightarrow> string \<Rightarrow> (string \<times> bool \<times> string) list option \<Rightarrow> string \<Rightarrow> exn + collaborator_grant list" where
  "plan_writer org name live_repo login =
     (case live_repo of
        None \<Rightarrow> Inr [\<lparr>cg_org = org, cg_name = name, cg_login = login, cg_live = None\<rparr>]
      | Some logins \<Rightarrow>
          ebind (index logins login) (\<lambda>live.
            Inr (if collaborator_needs_grant (Some live)
                 then [\<lparr>cg_org = org, cg_name = name, cg_login = login,
                        cg_live = (if \<not> fst live then None else Some (snd live))\<rparr>]
                 else [])))"

definition plan_collaborators :: "decls \<Rightarrow> forge_reads \<Rightarrow> exn + collaborator_grant list" where
  "plan_collaborators D r =
     ebind (emap (\<lambda>(org, spec).
              ebind (index (existing_collaborators r) (full_name org (rs_name spec))) (\<lambda>live_repo.
              ebind (emap (plan_writer org (rs_name spec) live_repo) (rs_writers spec)) (\<lambda>gs.
                Inr (concat gs))))
              (filter (\<lambda>(org, spec). rs_writers spec \<noteq> []) (actionable D r)))
       (\<lambda>gs. Inr (concat gs))"

definition plan_undeclared_orgs :: "decls \<Rightarrow> forge_reads \<Rightarrow> string list" where
  "plan_undeclared_orgs D r = sorted_set (filter (\<lambda>org. org \<notin> set (map fst D)) (existing_orgs r))"

definition plan_undeclared_repos :: "decls \<Rightarrow> forge_reads \<Rightarrow> string list" where
  "plan_undeclared_repos D r =
     sorted_set (filter (\<lambda>fn. fn \<notin> set (map repo_fn (declared_items D))) (map fst (existing_repos r)))"

definition plan_drift :: "decls \<Rightarrow> forge_reads \<Rightarrow> visibility_drift list" where
  "plan_drift D r =
     concat (map (\<lambda>(org, spec).
       (case map_of (existing_repos r) (full_name org (rs_name spec)) of
          None \<Rightarrow> []
        | Some live \<Rightarrow>
            if live \<noteq> rs_private spec
            then [\<lparr>vd_org = org, vd_name = rs_name spec, vd_declared_private = rs_private spec,
                   vd_live_private = live\<rparr>]
            else [])) (sorted_items D))"

text \<open>\<open>(existing_repo_settings[fn] or {}).get("empty") is True\<close>.\<close>

definition empty_flag :: "forge_reads \<Rightarrow> string \<Rightarrow> exn + bool" where
  "empty_flag r fn =
     ebind (index (existing_repo_settings r) fn) (\<lambda>live.
       Inr (oget (case live of None \<Rightarrow> [] | Some l \<Rightarrow> l) ''empty'' = JBool True))"

definition plan_unfilled :: "decls \<Rightarrow> forge_reads \<Rightarrow> exn + declared_repo list" where
  "plan_unfilled D r =
     ebind (efilter (\<lambda>i. if has_source (snd i) \<and> held r (repo_fn i) then empty_flag r (repo_fn i)
                         else Inr False) (sorted_items D))
       (\<lambda>is. Inr (map (mk_declared True) is))"

definition plan_emptied_native :: "decls \<Rightarrow> forge_reads \<Rightarrow> exn + declared_repo list" where
  "plan_emptied_native D r =
     ebind (efilter (\<lambda>i. if rs_native (snd i) \<and> held r (repo_fn i) then empty_flag r (repo_fn i)
                         else Inr False) (sorted_items D))
       (\<lambda>is. Inr (map (mk_declared False) is))"

definition plan_lost :: "decls \<Rightarrow> forge_reads \<Rightarrow> exn + declared_repo list" where
  "plan_lost D r =
     ebind (efilter (\<lambda>i. if held r (repo_fn i)
                         then ebind (empty_flag r (repo_fn i)) (\<lambda>flag.
                           if flag then Inr False
                           else ebind (index (existing_repo_refs r) (repo_fn i)) (\<lambda>refs. Inr (\<not> refs)))
                         else Inr False) (sorted_items D))
       (\<lambda>is. Inr (map (mk_declared True) is))"

definition reviewer_unread :: "string option \<Rightarrow> forge_reads \<Rightarrow> bool" where
  "reviewer_unread rvw r =
     ((case rvw of None \<Rightarrow> False | Some login \<Rightarrow> login \<noteq> []) \<and> existing_review_teams r = None)"

definition plan_reconcile ::
  "decls \<Rightarrow> forge_reads \<Rightarrow> repo_settings \<Rightarrow> hook_declaration list \<Rightarrow> string option \<Rightarrow>
   exn + reconcile_plan" where
  "plan_reconcile D r settings hs rvw =
     (if reviewer_unread rvw r then Inl (ValueError ''existing_review_teams was not read'')
      else
        ebind (plan_teams D r) (\<lambda>teams.
        ebind (plan_review_teams D r rvw) (\<lambda>review_teams.
        ebind (plan_configure D r settings) (\<lambda>configure.
        ebind (plan_hooks D r hs) (\<lambda>hooks.
        ebind (plan_collaborators D r) (\<lambda>collaborators.
        ebind (plan_unfilled D r) (\<lambda>unfilled.
        ebind (plan_emptied_native D r) (\<lambda>emptied.
        ebind (plan_lost D r) (\<lambda>lost.
          Inr \<lparr>orgs_to_create = plan_orgs D r, repos_to_create = plan_create D r,
               repos_to_migrate = plan_migrate D r, teams_to_converge = teams,
               review_teams_to_converge = review_teams, reviewer = rvw,
               repos_to_configure = configure, repos_to_hook = hooks,
               collaborators_to_grant = collaborators, undeclared_orgs = plan_undeclared_orgs D r,
               undeclared_repos = plan_undeclared_repos D r, visibility_drifts = plan_drift D r,
               unfilled_migrations = unfilled, absent_native_repos = plan_absent_native D r,
               emptied_native_repos = emptied, lost_content_repos = lost\<rparr>)))))))))"

section \<open>Elements of the fields\<close>

lemma set_declared_items: "i \<in> set (declared_items D) \<longleftrightarrow> (\<exists>specs. (fst i, specs) \<in> set D \<and> snd i \<in> set specs)"
  by (cases i) (force simp: declared_items_def)

lemma set_sorted_items [simp]: "set (sorted_items D) = set (declared_items D)"
  by (auto simp: sorted_items_def declared_items_def)

lemma repo_fn_declared: "repo_fn ` set (declared_items D) = set (declared_full_names D)"
  by (force simp: set_declared_full_names declared_items_def repo_fn_def)

lemma set_plan_missing [simp]: "set (plan_missing D r) = {i \<in> set (declared_items D). \<not> held r (repo_fn i)}"
  by (auto simp: plan_missing_def)

lemma dr_full_name_mk [simp]: "dr_full_name (mk_declared b i) = repo_fn i"
  by (cases i) (simp add: dr_full_name_def mk_declared_def repo_fn_def)

lemma dr_org_mk [simp]: "dr_org (mk_declared b i) = fst i"
  by (cases i) (simp add: mk_declared_def)

lemma set_plan_orgs: "set (plan_orgs D r) = fst ` set D - set (existing_orgs r)"
  by (auto simp: plan_orgs_def)

lemma not_created_names:
  "fn \<in> set (map dr_full_name (plan_absent_native D r)) \<longleftrightarrow>
     (\<exists>i \<in> set (declared_items D). repo_fn i = fn \<and> rs_native (snd i) \<and> \<not> held r fn)"
  by (force simp: plan_absent_native_def)

lemma set_actionable:
  "i \<in> set (actionable D r) \<longleftrightarrow>
     i \<in> set (declared_items D) \<and>
     \<not> (\<exists>j \<in> set (declared_items D). repo_fn j = repo_fn i \<and> rs_native (snd j) \<and> \<not> held r (repo_fn i))"
  using not_created_names [of "repo_fn i" D r] by (auto simp: actionable_def Let_def)

lemma plan_reconcile_Inr:
  assumes "plan_reconcile D r settings hs rvw = Inr p"
  shows "\<not> reviewer_unread rvw r"
    and "orgs_to_create p = plan_orgs D r" and "repos_to_create p = plan_create D r"
    and "repos_to_migrate p = plan_migrate D r" and "plan_teams D r = Inr (teams_to_converge p)"
    and "plan_review_teams D r rvw = Inr (review_teams_to_converge p)" and "reviewer p = rvw"
    and "plan_configure D r settings = Inr (repos_to_configure p)"
    and "plan_hooks D r hs = Inr (repos_to_hook p)"
    and "plan_collaborators D r = Inr (collaborators_to_grant p)"
    and "undeclared_orgs p = plan_undeclared_orgs D r"
    and "undeclared_repos p = plan_undeclared_repos D r"
    and "visibility_drifts p = plan_drift D r"
    and "plan_unfilled D r = Inr (unfilled_migrations p)"
    and "absent_native_repos p = plan_absent_native D r"
    and "plan_emptied_native D r = Inr (emptied_native_repos p)"
    and "plan_lost D r = Inr (lost_content_repos p)"
  using assms by (auto simp: plan_reconcile_def split: if_splits)

end
