(* ===== verification/ForgeEnsure.thy ===== *)
theory ForgeEnsure
  imports Convergence
begin

text \<open>
  The verified writes of \<open>toolkit/features/gitea_repos.py\<close>: \<open>ensure_collaborator\<close>, \<open>ensure_team\<close>,
  \<open>ensure_settings\<close> and \<open>ensure_webhook\<close>. Each writes, reads back and raises unless the read shows
  the declaration applied.

  The shape they share is the locale \<open>read_back\<close>: a write, a read, and an acceptance test over the
  value read. Its lemma is that a call returns only on an accepted read, the last thing it did; it is
  interpreted for the three operations that have exactly that shape. \<open>ensure_team\<close> writes at most
  twice and adds a member after the last read, and has its own lemmas.
\<close>

section \<open>The contract\<close>

locale read_back =
  fixes ensure :: "'d \<Rightarrow> ('q, 's, 'r) act"
    and put :: "'d \<Rightarrow> ('q, 's, 'w) act"
    and look :: "'d \<Rightarrow> ('q, 's, 'l) act"
    and accept :: "'d \<Rightarrow> 'l \<Rightarrow> exn + 'r"
    and settled :: "'d \<Rightarrow> 'l \<Rightarrow> bool"
  assumes ensure_eq: "ensure d = abind (put d) (\<lambda>_. abind (look d) (\<lambda>l. lift (accept d l)))"
    and accept_settled: "accept d l = Inr r \<Longrightarrow> settled d l"
    and settled_accept: "settled d l \<Longrightarrow> \<exists>r. accept d l = Inr r"
begin

lemma returns_settled:
  "ensure d n = (Val r, n') \<Longrightarrow>
     \<exists>w l n1. put d n = (Val w, n1) \<and> look d n1 = (Val l, n') \<and> settled d l \<and> accept d l = Inr r"
  unfolding ensure_eq abind_Val by (fastforce dest: accept_settled)

lemma returns_iff:
  "(\<exists>r. ensure d n = (Val r, n')) \<longleftrightarrow>
     (\<exists>w l n1. put d n = (Val w, n1) \<and> look d n1 = (Val l, n') \<and> settled d l)"
  unfolding ensure_eq abind_Val using accept_settled settled_accept by fastforce

lemma emits_ensure: "emits P (put d) \<Longrightarrow> emits P (look d) \<Longrightarrow> emits P (ensure d)"
  unfolding ensure_eq by (intro emits_intros)

end

section \<open>Collaborators\<close>

definition ensure_collaborator :: "'s server \<Rightarrow> client \<Rightarrow> collaborator_grant \<Rightarrow> ('s, unit) gitea" where
  "ensure_collaborator srv c g =
     abind (add_collaborator srv c (cg_org g) (cg_name g) (cg_login g) writer_permission) (\<lambda>_.
     abind (is_collaborator srv c (cg_org g) (cg_name g) (cg_login g)) (\<lambda>member.
     abind (get_collaborator_permission srv c (cg_org g) (cg_name g) (cg_login g)) (\<lambda>permission.
       if collaborator_needs_grant (Some (member, permission))
       then throw (CollaboratorError ''reads back short of the grant'') else ret ())))"

text \<open>The read that decides.\<close>

definition look_collaborator :: "'s server \<Rightarrow> client \<Rightarrow> collaborator_grant \<Rightarrow> ('s, bool \<times> string) gitea" where
  "look_collaborator srv c g =
     abind (is_collaborator srv c (cg_org g) (cg_name g) (cg_login g)) (\<lambda>member.
     abind (get_collaborator_permission srv c (cg_org g) (cg_name g) (cg_login g)) (\<lambda>permission.
       ret (member, permission)))"

section \<open>Settings\<close>

definition ensure_settings ::
  "'s server \<Rightarrow> client \<Rightarrow> settings_change \<Rightarrow> repo_settings \<Rightarrow> ('s, obj) gitea" where
  "ensure_settings srv c repo declared =
     abind (edit_repo srv c (sc_org repo) (sc_name repo) (settings_payload declared)) (\<lambda>_.
     abind (get_repo srv c (sc_org repo) (sc_name repo)) (\<lambda>live.
       case live of
         None \<Rightarrow> throw (RepoSettingsError ''does not read back'')
       | Some l \<Rightarrow>
           if settings_changes (Some l) declared \<noteq> []
           then throw (RepoSettingsError ''did not converge'') else ret l))"

section \<open>Webhooks\<close>

definition ensure_webhook ::
  "'s server \<Rightarrow> client \<Rightarrow> webhook_change \<Rightarrow> webhook_spec \<Rightarrow> string \<Rightarrow> string \<Rightarrow> ('s, obj) gitea" where
  "ensure_webhook srv c change declared secret cmp =
     abind (if wc_hook_id change = JNull
            then create_hook srv c (wc_org change) (wc_name change) (hook_payload declared secret)
            else edit_hook srv c (wc_org change) (wc_name change) (wc_hook_id change)
                   (hook_payload declared secret)) (\<lambda>_.
     abind (list_hooks srv c (wc_org change) (wc_name change)) (\<lambda>hooks.
     abind (lift (find_declared_hook hooks declared)) (\<lambda>live.
       case live of
         None \<Rightarrow> throw (WebhookError ''no webhook after the write'')
       | Some l \<Rightarrow>
           abind (lift (webhook_changes (Some l) declared cmp)) (\<lambda>remaining.
             if remaining \<noteq> [] then throw (WebhookError ''did not converge'') else ret l))))"

section \<open>Teams\<close>

text \<open>The assertions on a team that was read back, in their order.\<close>

definition team_postcondition :: "obj \<Rightarrow> team_grant \<Rightarrow> exn + unit" where
  "team_postcondition team grant =
     (if \<not> tg_can_create_org_repo grant \<and> truthy (oget team ''can_create_org_repo'')
      then Inl (TeamPermissionError ''can create repositories'')
      else if tg_can_create_org_repo grant \<and> \<not> truthy (oget team ''can_create_org_repo'')
      then Inl (TeamPermissionError ''can_create_org_repo unset'')
      else ebind (py_get (py_or (oget team ''units_map'') (JObj [])) ''repo.code'') (\<lambda>code.
        if \<not> py_eq code (JStr (tg_permission grant)) then Inl (TeamPermissionError ''repo.code'')
        else if \<not> truthy (oget team ''includes_all_repositories'')
        then Inl (TeamPermissionError ''includes_all_repositories unset'')
        else Inr ()))"

definition team_id :: "obj \<Rightarrow> exn + int" where
  "team_id team = ebind (index team ''id'') py_int"

definition team_or_raise :: "string \<Rightarrow> obj option \<Rightarrow> exn + obj" where
  "team_or_raise why team = (case team of None \<Rightarrow> Inl (TeamPermissionError why) | Some t \<Rightarrow> Inr t)"

definition create_if_absent ::
  "'s server \<Rightarrow> client \<Rightarrow> string \<Rightarrow> team_grant \<Rightarrow> ('s, obj option) gitea" where
  "create_if_absent srv c org grant =
     abind (get_team srv c org (tg_name grant)) (\<lambda>team.
       case team of
         None \<Rightarrow>
           abind (create_team srv c org (tg_name grant) (tg_permission grant) (tg_can_create_org_repo grant))
             (\<lambda>_. get_team srv c org (tg_name grant))
       | Some t \<Rightarrow> ret (Some t))"

definition converge_team :: "'s server \<Rightarrow> client \<Rightarrow> string \<Rightarrow> team_grant \<Rightarrow> obj \<Rightarrow> ('s, obj) gitea" where
  "converge_team srv c org grant team =
     abind (lift (team_needs_convergence (Some team) grant None None)) (\<lambda>short.
       if \<not> short then ret team
       else
         abind (lift (team_id team)) (\<lambda>k.
         abind (edit_team srv c k (tg_name grant) (tg_permission grant) (tg_can_create_org_repo grant)) (\<lambda>_.
         abind (get_team srv c org (tg_name grant)) (\<lambda>again.
           lift (team_or_raise ''does not read back after being converged'' again)))))"

definition add_member :: "'s server \<Rightarrow> client \<Rightarrow> obj \<Rightarrow> string option \<Rightarrow> ('s, unit) gitea" where
  "add_member srv c team member =
     (case member of
        Some (x # xs) \<Rightarrow>
          abind (lift (team_id team)) (\<lambda>k.
          abind (add_team_member srv c k (x # xs)) (\<lambda>_. ret ()))
      | _ \<Rightarrow> ret ())"

definition ensure_team ::
  "'s server \<Rightarrow> client \<Rightarrow> string \<Rightarrow> string option \<Rightarrow> team_grant \<Rightarrow> ('s, obj) gitea" where
  "ensure_team srv c org member grant =
     abind (create_if_absent srv c org grant) (\<lambda>found.
     abind (lift (team_or_raise ''was created but does not read back'' found)) (\<lambda>team.
     abind (converge_team srv c org grant team) (\<lambda>team.
     abind (lift (team_postcondition team grant)) (\<lambda>_.
     abind (add_member srv c team member) (\<lambda>_.
       ret team)))))"

section \<open>Interpretations\<close>

lemma lift_if: "lift (if b then Inl e else Inr x) = (if b then throw e else ret x)"
  by (simp add: act_simps)

interpretation collaborator_write: read_back
    "ensure_collaborator srv c"
    "\<lambda>g. add_collaborator srv c (cg_org g) (cg_name g) (cg_login g) writer_permission"
    "look_collaborator srv c"
    "\<lambda>g live. if collaborator_needs_grant (Some live)
              then Inl (CollaboratorError ''reads back short of the grant'') else Inr ()"
    "\<lambda>g live. \<not> collaborator_needs_grant (Some live)" for srv c
proof unfold_locales
  fix g
  show "ensure_collaborator srv c g =
      abind (add_collaborator srv c (cg_org g) (cg_name g) (cg_login g) writer_permission) (\<lambda>_.
      abind (look_collaborator srv c g) (\<lambda>live. lift
        (if collaborator_needs_grant (Some live)
         then Inl (CollaboratorError ''reads back short of the grant'') else Inr ())))"
    by (simp add: ensure_collaborator_def look_collaborator_def abind_assoc lift_if)
qed (auto split: if_splits)

text \<open>What a settings read must show, and what a hook listing must show.\<close>

definition accept_settings :: "repo_settings \<Rightarrow> obj option \<Rightarrow> exn + obj" where
  "accept_settings d live =
     (case live of
        None \<Rightarrow> Inl (RepoSettingsError ''does not read back'')
      | Some l \<Rightarrow> if settings_changes (Some l) d \<noteq> [] then Inl (RepoSettingsError ''did not converge'')
                  else Inr l)"

lemma lift_accept_settings:
  "lift (accept_settings d live) =
     (case live of None \<Rightarrow> throw (RepoSettingsError ''does not read back'')
       | Some l \<Rightarrow> if settings_changes (Some l) d \<noteq> [] then throw (RepoSettingsError ''did not converge'')
                  else ret l)"
  by (simp add: accept_settings_def act_simps split: option.split)

interpretation settings_write: read_back
    "\<lambda>(repo, d). ensure_settings srv c repo d"
    "\<lambda>(repo, d). edit_repo srv c (sc_org repo) (sc_name repo) (settings_payload d)"
    "\<lambda>(repo, d). get_repo srv c (sc_org repo) (sc_name repo)"
    "\<lambda>(repo, d). accept_settings d"
    "\<lambda>(repo, d) live. live \<noteq> None \<and> \<not> settings_needs_convergence live d" for srv c
proof unfold_locales
  fix x :: "settings_change \<times> repo_settings"
  show "(case x of (repo, d) \<Rightarrow> ensure_settings srv c repo d) =
      abind (case x of (repo, d) \<Rightarrow> edit_repo srv c (sc_org repo) (sc_name repo) (settings_payload d))
        (\<lambda>_. abind (case x of (repo, d) \<Rightarrow> get_repo srv c (sc_org repo) (sc_name repo))
          (\<lambda>l. lift ((case x of (repo, d) \<Rightarrow> accept_settings d) l)))"
    by (simp add: ensure_settings_def lift_accept_settings split: prod.split)
qed (auto simp: accept_settings_def settings_needs_convergence_def split: option.splits if_splits)

definition accept_webhook :: "webhook_spec \<Rightarrow> string \<Rightarrow> json \<Rightarrow> exn + obj" where
  "accept_webhook d cmp hooks =
     ebind (find_declared_hook hooks d) (\<lambda>live.
       case live of
         None \<Rightarrow> Inl (WebhookError ''no webhook after the write'')
       | Some l \<Rightarrow> ebind (webhook_changes (Some l) d cmp) (\<lambda>remaining.
           if remaining \<noteq> [] then Inl (WebhookError ''did not converge'') else Inr l))"

lemma lift_accept_webhook:
  "lift (accept_webhook d cmp hooks) =
     abind (lift (find_declared_hook hooks d)) (\<lambda>live.
       case live of
         None \<Rightarrow> throw (WebhookError ''no webhook after the write'')
       | Some l \<Rightarrow>
           abind (lift (webhook_changes (Some l) d cmp)) (\<lambda>remaining.
             if remaining \<noteq> [] then throw (WebhookError ''did not converge'') else ret l))"
  by (cases "find_declared_hook hooks d")
    (auto simp: accept_webhook_def act_simps ebind_def split: option.split sum.split)

definition write_webhook :: "'s server \<Rightarrow> client \<Rightarrow> webhook_change \<Rightarrow> obj \<Rightarrow> ('s, json) gitea" where
  "write_webhook srv c change payload =
     (if wc_hook_id change = JNull then create_hook srv c (wc_org change) (wc_name change) payload
      else edit_hook srv c (wc_org change) (wc_name change) (wc_hook_id change) payload)"

interpretation webhook_write: read_back
    "\<lambda>(change, d, secret, cmp). ensure_webhook srv c change d secret cmp"
    "\<lambda>(change, d, secret, cmp). write_webhook srv c change (hook_payload d secret)"
    "\<lambda>(change, d, secret, cmp). list_hooks srv c (wc_org change) (wc_name change)"
    "\<lambda>(change, d, secret, cmp). accept_webhook d cmp"
    "\<lambda>(change, d, secret, cmp) hooks. \<exists>live. find_declared_hook hooks d = Inr (Some live) \<and>
        webhook_needs_convergence (Some live) d cmp = Inr False" for srv c
proof unfold_locales
  fix x :: "webhook_change \<times> webhook_spec \<times> string \<times> string"
  show "(case x of (change, d, secret, cmp) \<Rightarrow> ensure_webhook srv c change d secret cmp) =
      abind (case x of (change, d, secret, cmp) \<Rightarrow> write_webhook srv c change (hook_payload d secret))
        (\<lambda>_. abind (case x of (change, d, secret, cmp) \<Rightarrow> list_hooks srv c (wc_org change) (wc_name change))
          (\<lambda>l. lift ((case x of (change, d, secret, cmp) \<Rightarrow> accept_webhook d cmp) l)))"
    by (simp add: ensure_webhook_def write_webhook_def lift_accept_webhook split: prod.split)
qed (auto simp: accept_webhook_def webhook_needs_convergence_def split: option.splits if_splits)

section \<open>What a team reads back as\<close>

lemma team_postcondition_iff:
  "team_postcondition t g = Inr () \<longleftrightarrow>
     truthy (oget t ''can_create_org_repo'') = tg_can_create_org_repo g \<and>
     truthy (oget t ''includes_all_repositories'') \<and>
     (\<exists>units. py_or (oget t ''units_map'') (JObj []) = JObj units \<and>
        py_eq (oget units ''repo.code'') (JStr (tg_permission g)))"
  by (cases "py_or (oget t ''units_map'') (JObj [])") (auto simp: team_postcondition_def)

lemma team_or_raise_Inr [simp]: "team_or_raise why team = Inr t \<longleftrightarrow> team = Some t"
  by (cases team) (auto simp: team_or_raise_def)

lemma create_if_absent_read:
  "create_if_absent srv c org g n = (Val (Some t), n') \<Longrightarrow>
     \<exists>n1. get_team srv c org (tg_name g) n1 = (Val (Some t), n')"
  by (auto simp: create_if_absent_def abind_Val split: option.splits)

lemma converge_team_read:
  "converge_team srv c org g team n = (Val t, n') \<Longrightarrow>
     (t = team \<and> n' = n) \<or> (\<exists>n1. get_team srv c org (tg_name g) n1 = (Val (Some t), n'))"
  by (auto simp: converge_team_def abind_Val split: if_splits)

text \<open>\<open>ensure_team\<close> returns only a team the forge itself listed, and only one that carries the
  grant's repository-creation flag, covers every repository and grants its permission on the code
  unit, whatever the create and edit calls answered.\<close>

theorem ensure_team_verified:
  assumes "ensure_team srv c org member g n = (Val t, n')"
  shows "(\<exists>n1 n2. get_team srv c org (tg_name g) n1 = (Val (Some t), n2))
    \<and> truthy (oget t ''can_create_org_repo'') = tg_can_create_org_repo g
    \<and> truthy (oget t ''includes_all_repositories'')
    \<and> (\<exists>units. py_or (oget t ''units_map'') (JObj []) = JObj units
        \<and> py_eq (oget units ''repo.code'') (JStr (tg_permission g)))"
proof -
  from assms obtain t0 n1 n2 where found: "create_if_absent srv c org g n = (Val (Some t0), n1)"
    and conv: "converge_team srv c org g t0 n1 = (Val t, n2)" and post: "team_postcondition t g = Inr ()"
    by (auto simp: ensure_team_def abind_Val)
  from create_if_absent_read [OF found] converge_team_read [OF conv] post
  show ?thesis unfolding team_postcondition_iff by blast
qed

text \<open>A forge that lists one team and answers every write with 200.\<close>

definition one_team_forge :: "obj \<Rightarrow> nat server" where
  "one_team_forge t rq k =
     (Response 200 (Json (if rq_meth rq = GET then JArr [JObj t] else JObj [])), k + 1)"

definition full_write_team :: obj where
  "full_write_team = (''id'', JInt 7) # team_body write_team"

definition sample_client :: client where
  "sample_client = gitea_client ''https://git.example/'' ''t0''"

definition sample_net :: "(request, nat) net" where
  "sample_net = \<lparr>sent = [], world = 0, budget = 3\<rparr>"

lemma sample_ensure_team:
  "fst (ensure_team (one_team_forge full_write_team) sample_client ''acme'' (Some ''bot'') write_team sample_net)
     = Val full_write_team"
  by code_simp

lemma ensure_team_verified_witness:
  "\<exists>n1 n2. get_team (one_team_forge full_write_team) sample_client ''acme'' ''reconcilers'' n1 =
     (Val (Some full_write_team), n2)"
proof -
  obtain n' where "ensure_team (one_team_forge full_write_team) sample_client ''acme'' (Some ''bot'')
      write_team sample_net = (Val full_write_team, n')"
    using sample_ensure_team by (metis prod.collapse)
  from ensure_team_verified [OF this] show ?thesis by (simp add: write_team_def)
qed

definition code_only_team :: obj where
  "code_only_team =
     [(''id'', JInt 7), (''name'', JStr ''reconcilers''), (''can_create_org_repo'', JBool True),
      (''units_map'', JObj [(''repo.code'', JStr ''write'')]),
      (''includes_all_repositories'', JBool True)]"

text \<open>The assertions after the repair are weaker than the predicate that schedules it: a team
  whose repair the forge ignored, so that it grants the code unit and nothing else, is returned as
  ensured while \<open>team_needs_convergence\<close> still asks for the repair.\<close>

theorem ensure_team_accepts_code_only:
  "fst (ensure_team (one_team_forge code_only_team) sample_client ''acme'' (Some ''bot'') write_team sample_net)
     = Val code_only_team
   \<and> team_needs_convergence (Some code_only_team) write_team None None = Inr True"
  by code_simp

section \<open>Writes that are read back\<close>

text \<open>\<open>ensure_settings\<close> returns exactly when the \<open>PATCH\<close> was accepted and the \<open>GET\<close> after it shows
  a repository with nothing left to change; the answer to the \<open>PATCH\<close> itself decides nothing.\<close>

theorem ensure_settings_returns_iff:
  "(\<exists>l. ensure_settings srv c repo d n = (Val l, n')) \<longleftrightarrow>
     (\<exists>answer n1 live.
        edit_repo srv c (sc_org repo) (sc_name repo) (settings_payload d) n = (Val answer, n1) \<and>
        get_repo srv c (sc_org repo) (sc_name repo) n1 = (Val (Some live), n') \<and>
        settings_changes (Some live) d = [])"
  using settings_write.returns_iff [of srv c "(repo, d)" n n']
  by (auto simp: settings_needs_convergence_def)

text \<open>\<open>ensure_webhook\<close> returns exactly when its write was accepted and the hooks listed after it
  include one at the declared URL with nothing left to change under the hook's own comparison.\<close>

theorem ensure_webhook_returns_iff:
  "(\<exists>l. ensure_webhook srv c change d secret cmp n = (Val l, n')) \<longleftrightarrow>
     (\<exists>answer n1 hooks live.
        write_webhook srv c change (hook_payload d secret) n = (Val answer, n1) \<and>
        list_hooks srv c (wc_org change) (wc_name change) n1 = (Val hooks, n') \<and>
        find_declared_hook hooks d = Inr (Some live) \<and>
        webhook_changes (Some live) d cmp = Inr [])"
proof -
  have "webhook_needs_convergence (Some live) d cmp = Inr False \<longleftrightarrow> webhook_changes (Some live) d cmp = Inr []"
    for live by (auto simp: webhook_needs_convergence_def)
  then show ?thesis
    using webhook_write.returns_iff [of srv c "(change, d, secret, cmp)" n n'] by auto
qed

text \<open>\<open>ensure_collaborator\<close> returns exactly when its \<open>PUT\<close> was accepted and the account then reads
  back as a collaborator with the write permission.\<close>

theorem ensure_collaborator_returns_iff:
  "ensure_collaborator srv c g n = (Val (), n') \<longleftrightarrow>
     (\<exists>n1 n2.
        add_collaborator srv c (cg_org g) (cg_name g) (cg_login g) writer_permission n = (Val (), n1) \<and>
        is_collaborator srv c (cg_org g) (cg_name g) (cg_login g) n1 = (Val True, n2) \<and>
        get_collaborator_permission srv c (cg_org g) (cg_name g) (cg_login g) n2 = (Val ''write'', n'))"
  using collaborator_write.returns_iff [of srv c g n n']
  by (auto simp: collaborator_needs_grant_iff look_collaborator_def abind_Val)

end
