(* ===== verification/ForgeDrop.thy ===== *)
theory ForgeDrop
  imports ForgeDecl
begin

text \<open>
  Repository references and the drop decision of \<open>toolkit/features/gitea_repos.py\<close>:
  \<open>parse_migration_source\<close>, \<open>split_full_name\<close> and \<open>plan_drop\<close>. The reason text of a refusal is a
  constructor of \<open>drop_reason\<close>.
\<close>

definition migration_services :: "(string \<times> string) list" where
  "migration_services = [(''github'', ''github''), (''gitlab'', ''gitlab''), (''gitea'', ''gitea'')]"

definition bad_pair :: "string \<Rightarrow> string \<Rightarrow> bool" where
  "bad_pair owner name \<longleftrightarrow> owner = [] \<or> name = [] \<or> CHR ''/'' \<in> set name"

definition parse_migration_source :: "string \<Rightarrow> exn + string \<times> string" where
  "parse_migration_source migrate_from =
     (let (service, path) = str_partition (CHR '':'') migrate_from in
      case map_of migration_services service of
        None \<Rightarrow> Inl (ValueError ''unknown migration service'')
      | Some svc \<Rightarrow>
          (let (owner, name) = str_partition (CHR ''/'') path in
           if bad_pair owner name then Inl (ValueError ''migrate_from'')
           else Inr (svc, ''https://'' @ service @ ''.com/'' @ owner @ ''/'' @ name @ ''.git'')))"

definition split_full_name :: "string \<Rightarrow> exn + string \<times> string" where
  "split_full_name fn =
     (let (owner, name) = str_partition (CHR ''/'') fn in
      if bad_pair owner name then Inl (ValueError ''not an owner/name'') else Inr (owner, name))"

datatype drop_reason =
    AlreadyAbsent
  | NotDeclared
  | NativeRepo
  | EmptinessUnknown
  | NotEmpty
  | TrackerUncounted
  | TrackerItems int

record drop_decision =
  may_drop :: bool
  drop_reason :: "drop_reason option"

definition refuse :: "drop_reason \<Rightarrow> drop_decision" where
  "refuse why = \<lparr>may_drop = False, drop_reason = Some why\<rparr>"

definition plan_drop ::
  "string \<Rightarrow> obj option \<Rightarrow> string list \<Rightarrow> string list \<Rightarrow> int option \<Rightarrow> int option \<Rightarrow>
   exn + drop_decision" where
  "plan_drop fn repo declared native tracker_items discard =
     ebind (split_full_name fn) (\<lambda>_. Inr
       (case repo of
          None \<Rightarrow> refuse AlreadyAbsent
        | Some r \<Rightarrow>
            if fn \<notin> set declared then refuse NotDeclared
            else if fn \<in> set native then refuse NativeRepo
            else if map_of r ''empty'' = None then refuse EmptinessUnknown
            else if \<not> truthy (oget r ''empty'') then refuse NotEmpty
            else (case tracker_items of
                    None \<Rightarrow> refuse TrackerUncounted
                  | Some k \<Rightarrow>
                      if k \<noteq> 0 \<and> discard \<noteq> Some k then refuse (TrackerItems k)
                      else \<lparr>may_drop = True, drop_reason = None\<rparr>)))"

section \<open>References\<close>

lemma str_partition_pair:
  "str_partition c s = (a, b) \<and> b \<noteq> [] \<longleftrightarrow> s = a @ c # b \<and> c \<notin> set a \<and> b \<noteq> []"
  using str_partition_fst_no_sep [of c s] str_partition_rejoin [of c s a b]
    str_partition_snd_nonempty [of c s] str_partition_append [of c a b]
  by auto

text \<open>A repository reference is accepted exactly when it is two non-empty names joined by one
  slash, and the parts returned are those names.\<close>

theorem split_full_name_iff:
  "split_full_name fn = Inr (owner, name) \<longleftrightarrow>
     fn = full_name owner name \<and> owner \<noteq> [] \<and> name \<noteq> [] \<and>
     CHR ''/'' \<notin> set owner \<and> CHR ''/'' \<notin> set name"
proof -
  obtain a b where ab: "str_partition (CHR ''/'') fn = (a, b)" by fastforce
  have "split_full_name fn = Inr (owner, name) \<longleftrightarrow>
      (str_partition (CHR ''/'') fn = (owner, name) \<and> name \<noteq> []) \<and> owner \<noteq> [] \<and> CHR ''/'' \<notin> set name"
    by (auto simp: split_full_name_def bad_pair_def ab)
  then show ?thesis
    unfolding str_partition_pair by (auto simp: full_name_def)
qed

text \<open>A migration source is accepted exactly when it names a known forge and one repository of
  it, and the clone address is built from those alone.\<close>

theorem parse_migration_source_iff:
  "parse_migration_source s = Inr (svc, addr) \<longleftrightarrow>
     (\<exists>owner name. s = svc @ '':'' @ full_name owner name \<and>
        svc \<in> {''github'', ''gitlab'', ''gitea''} \<and> owner \<noteq> [] \<and> name \<noteq> [] \<and>
        CHR ''/'' \<notin> set owner \<and> CHR ''/'' \<notin> set name \<and>
        addr = ''https://'' @ svc @ ''.com/'' @ full_name owner name @ ''.git'')"
  (is "?l \<longleftrightarrow> ?r")
proof
  assume ?l
  obtain service path where sp: "str_partition (CHR '':'') s = (service, path)" by fastforce
  obtain owner name where on: "str_partition (CHR ''/'') path = (owner, name)" by fastforce
  from \<open>?l\<close> sp on have svc: "svc = service" "svc \<in> {''github'', ''gitlab'', ''gitea''}"
    and good: "\<not> bad_pair owner name"
    and addr: "addr = ''https://'' @ service @ ''.com/'' @ owner @ ''/'' @ name @ ''.git''"
    by (auto simp: parse_migration_source_def migration_services_def split: if_splits)
  from good on have path: "path = owner @ CHR ''/'' # name \<and> CHR ''/'' \<notin> set owner"
    using str_partition_pair [of "CHR ''/''" path owner name] by (simp add: bad_pair_def)
  then have "s = service @ CHR '':'' # path"
    using str_partition_pair [of "CHR '':''" s service path] sp by simp
  with svc good path addr show ?r
    by (auto simp: bad_pair_def full_name_def)
next
  assume ?r
  then obtain owner name where s: "s = svc @ CHR '':'' # (owner @ CHR ''/'' # name)"
    and svc: "svc \<in> {''github'', ''gitlab'', ''gitea''}"
    and on: "owner \<noteq> []" "name \<noteq> []" "CHR ''/'' \<notin> set owner" "CHR ''/'' \<notin> set name"
    and addr: "addr = ''https://'' @ svc @ ''.com/'' @ owner @ ''/'' @ name @ ''.git''"
    by (auto simp: full_name_def)
  from svc have "CHR '':'' \<notin> set svc" by auto
  then have "str_partition (CHR '':'') s = (svc, owner @ CHR ''/'' # name)"
    unfolding s by (rule str_partition_append)
  moreover have "str_partition (CHR ''/'') (owner @ CHR ''/'' # name) = (owner, name)"
    using on(3) by (rule str_partition_append)
  moreover have "map_of migration_services svc = Some svc"
    using svc by (auto simp: migration_services_def)
  ultimately show ?l
    using on addr by (simp add: parse_migration_source_def bad_pair_def)
qed

section \<open>The drop decision\<close>

text \<open>C5. A repository may be dropped exactly when it exists, is declared and not native, the forge
  reports it empty, its tracker was counted, and every tracker item is discarded by number.\<close>

theorem plan_drop_iff:
  assumes "plan_drop fn repo declared native tracker discard = Inr d"
  shows "may_drop d \<longleftrightarrow>
    (\<exists>r v k. repo = Some r \<and> fn \<in> set declared \<and> fn \<notin> set native \<and>
       map_of r ''empty'' = Some v \<and> truthy v \<and> tracker = Some k \<and> (k = 0 \<or> discard = Some k))"
  using assms
  by (auto simp: plan_drop_def refuse_def oget_def split: option.splits if_splits)

theorem plan_drop_iff_witness:
  "\<exists>d. plan_drop ''personal/shell'' (Some [(''empty'', JBool True)]) [''personal/shell''] [] (Some 2) (Some 2) = Inr d
     \<and> may_drop d"
proof -
  have "plan_drop ''personal/shell'' (Some [(''empty'', JBool True)]) [''personal/shell''] [] (Some 2) (Some 2)
      = Inr \<lparr>may_drop = True, drop_reason = None\<rparr>"
    by (simp add: plan_drop_def split_full_name_def bad_pair_def)
  from plan_drop_iff [OF this] this show ?thesis by simp
qed

end
