(* ===== verification/ForgeExecute.thy ===== *)
theory ForgeExecute
  imports ForgePlan ForgeEnsure ForgeDrop
begin

text \<open>
  \<open>execute\<close> of \<open>toolkit/features/gitea_repos.py\<close>: a plan and the four clients in, a report out, one
  definition per loop, composed in the code's order over the report and the set \<open>failed_orgs\<close>.

  \<open>try_step\<close> is \<open>try: op; record success / except Exception: record failure\<close>. A failure keeps the
  exception, of which the code stores the text.
\<close>

record execution_report =
  orgs_created :: "string list"
  repos_created :: "string list"
  repos_migrated :: "string list"
  teams_ensured :: "string list"
  review_teams_ensured :: "string list"
  repos_configured :: "string list"
  repos_hooked :: "(string \<times> json) list"
  collaborators_granted :: "(string \<times> string) list"
  failures :: "(string \<times> exn) list"

definition empty_report :: execution_report where
  "empty_report =
     \<lparr>orgs_created = [], repos_created = [], repos_migrated = [], teams_ensured = [],
      review_teams_ensured = [], repos_configured = [], repos_hooked = [], collaborators_granted = [],
      failures = []\<rparr>"

definition report_ok :: "execution_report \<Rightarrow> bool" where
  "report_ok rep = (failures rep = [])"

text \<open>What the loops share: the report and the organizations that could not be prepared.\<close>

record progress =
  report :: execution_report
  failed_orgs :: "string list"

definition handle_failure :: "string \<Rightarrow> exn \<Rightarrow> progress \<Rightarrow> progress" where
  "handle_failure target e st =
     st\<lparr>report := (report st)\<lparr>failures := failures (report st) @ [(target, e)]\<rparr>\<rparr>"

definition fail_org :: "string \<Rightarrow> progress \<Rightarrow> progress" where
  "fail_org org st = st\<lparr>failed_orgs := org # failed_orgs st\<rparr>"

definition try_step ::
  "('s, 'a) gitea \<Rightarrow> (progress \<Rightarrow> progress) \<Rightarrow> (exn \<Rightarrow> progress \<Rightarrow> progress) \<Rightarrow> progress \<Rightarrow>
   ('s, progress) gitea" where
  "try_step op good bad st = attempt (abind op (\<lambda>_. ret (good st))) (\<lambda>e. ret (bad e st))"

section \<open>Organizations and teams\<close>

definition step_org :: "'s server \<Rightarrow> client \<Rightarrow> string \<Rightarrow> progress \<Rightarrow> ('s, progress) gitea" where
  "step_org srv admin org =
     try_step (create_org srv admin org)
       (\<lambda>st. st\<lparr>report := (report st)\<lparr>orgs_created := orgs_created (report st) @ [org]\<rparr>\<rparr>)
       (\<lambda>e st. handle_failure (''org '' @ org) e (fail_org org st))"

text \<open>\<open>f"team {org}/{grant.name}"\<close>.\<close>

definition team_target :: "team_grant \<Rightarrow> string \<Rightarrow> string" where
  "team_target g org = ''team '' @ org @ ''/'' @ tg_name g"

definition step_team :: "'s server \<Rightarrow> client \<Rightarrow> string \<Rightarrow> string \<Rightarrow> progress \<Rightarrow> ('s, progress) gitea" where
  "step_team srv admin bot_username org =
     try_step (ensure_team srv admin org (Some bot_username) write_team)
       (\<lambda>st. st\<lparr>report := (report st)\<lparr>teams_ensured := teams_ensured (report st) @ [org]\<rparr>\<rparr>)
       (\<lambda>e st. handle_failure (team_target write_team org) e (fail_org org st))"

definition step_review_team ::
  "'s server \<Rightarrow> client \<Rightarrow> string option \<Rightarrow> string \<Rightarrow> progress \<Rightarrow> ('s, progress) gitea" where
  "step_review_team srv admin rvw org =
     try_step (ensure_team srv admin org rvw read_team)
       (\<lambda>st. st\<lparr>report := (report st)\<lparr>review_teams_ensured := review_teams_ensured (report st) @ [org]\<rparr>\<rparr>)
       (\<lambda>e st. handle_failure (team_target read_team org) e st)"

text \<open>\<open>sorted((receiving | set(plan.teams_to_converge)) - failed_orgs)\<close>.\<close>

definition teams_due :: "reconcile_plan \<Rightarrow> string list \<Rightarrow> string list" where
  "teams_due p failed =
     sorted_set (filter (\<lambda>org. org \<notin> set failed)
       (map dr_org (repos_to_create p) @ map dr_org (repos_to_migrate p) @ teams_to_converge p))"

definition review_teams_due :: "reconcile_plan \<Rightarrow> string list \<Rightarrow> string list" where
  "review_teams_due p failed =
     sorted_set (filter (\<lambda>org. org \<notin> set failed) (review_teams_to_converge p))"

section \<open>Repositories\<close>

definition step_create :: "'s server \<Rightarrow> client \<Rightarrow> declared_repo \<Rightarrow> progress \<Rightarrow> ('s, progress) gitea" where
  "step_create srv c repo st =
     (if dr_org repo \<in> set (failed_orgs st) then ret st
      else
        try_step (create_repo srv c (dr_org repo) (dr_name repo) (dr_private repo))
          (\<lambda>st. st\<lparr>report := (report st)\<lparr>repos_created := repos_created (report st) @ [dr_full_name repo]\<rparr>\<rparr>)
          (\<lambda>e st. handle_failure (''repo '' @ dr_full_name repo) e st) st)"

definition migrate_one ::
  "'s server \<Rightarrow> client \<Rightarrow> string \<Rightarrow> declared_repo \<Rightarrow> ('s, json) gitea" where
  "migrate_one srv migrator auth_token repo =
     abind (lift (parse_migration_source (py_str (dr_migrate_from repo)))) (\<lambda>(service, clone_addr).
       migrate_repo srv migrator (dr_org repo) (dr_name repo) clone_addr service auth_token
         (dr_private repo))"

definition step_migrate ::
  "'s server \<Rightarrow> client option \<Rightarrow> string option \<Rightarrow> declared_repo \<Rightarrow> progress \<Rightarrow> ('s, progress) gitea" where
  "step_migrate srv migrator auth_token repo st =
     (if dr_org repo \<in> set (failed_orgs st) then ret st
      else
        (let failed = (\<lambda>e st. handle_failure (''repo '' @ dr_full_name repo) e st) in
         case migrator of
           None \<Rightarrow> ret (failed (RuntimeError ''no migrator client'') st)
         | Some m \<Rightarrow>
             (case auth_token of
                Some (x # xs) \<Rightarrow>
                  try_step (migrate_one srv m (x # xs) repo)
                    (\<lambda>st. st\<lparr>report := (report st)
                            \<lparr>repos_migrated := repos_migrated (report st) @ [dr_full_name repo]\<rparr>\<rparr>)
                    failed st
              | _ \<Rightarrow> ret (failed (RuntimeError ''no migration credential'') st))))"

text \<open>The repositories this run failed to produce.\<close>

definition failed_repos :: "reconcile_plan \<Rightarrow> progress \<Rightarrow> string list" where
  "failed_repos p st =
     map (remove_prefix ''repo '') (filter (starts_with ''repo '') (map fst (failures (report st)))) @
     map dr_full_name
       (filter (\<lambda>repo. dr_org repo \<in> set (failed_orgs st)) (repos_to_create p @ repos_to_migrate p))"

section \<open>Configuration\<close>

definition sc_full_name :: "settings_change \<Rightarrow> string" where
  "sc_full_name c = full_name (sc_org c) (sc_name c)"

definition wc_full_name :: "webhook_change \<Rightarrow> string" where
  "wc_full_name c = full_name (wc_org c) (wc_name c)"

definition cg_full_name :: "collaborator_grant \<Rightarrow> string" where
  "cg_full_name g = full_name (cg_org g) (cg_name g)"

definition step_configure ::
  "'s server \<Rightarrow> client option \<Rightarrow> repo_settings \<Rightarrow> string list \<Rightarrow> settings_change \<Rightarrow> progress \<Rightarrow>
   ('s, progress) gitea" where
  "step_configure srv configurator declared failed change st =
     (if sc_full_name change \<in> set failed then ret st
      else
        (let fail = handle_failure (''settings '' @ sc_full_name change) in
         case configurator of
           None \<Rightarrow> ret (fail (RuntimeError ''no configurator client'') st)
         | Some c \<Rightarrow>
             try_step (ensure_settings srv c change declared)
               (\<lambda>st. st\<lparr>report := (report st)
                       \<lparr>repos_configured := repos_configured (report st) @ [sc_full_name change]\<rparr>\<rparr>)
               fail st))"

definition step_collaborator ::
  "'s server \<Rightarrow> client option \<Rightarrow> string list \<Rightarrow> collaborator_grant \<Rightarrow> progress \<Rightarrow> ('s, progress) gitea" where
  "step_collaborator srv configurator failed grant st =
     (if cg_full_name grant \<in> set failed then ret st
      else
        (let fail = handle_failure (''collaborator '' @ cg_full_name grant) in
         case configurator of
           None \<Rightarrow> ret (fail (RuntimeError ''no configurator client'') st)
         | Some c \<Rightarrow>
             try_step (ensure_collaborator srv c grant)
               (\<lambda>st. st\<lparr>report := (report st)
                       \<lparr>collaborators_granted :=
                          collaborators_granted (report st) @ [(cg_full_name grant, cg_login grant)]\<rparr>\<rparr>)
               fail st))"

section \<open>Webhooks\<close>

text \<open>
  A \<open>dict\<close> keyed by URL: building it or looking a URL up raises for an unhashable key, and the last
  declaration of a URL wins.
\<close>

definition by_url :: "(json \<times> 'v) list \<Rightarrow> json \<Rightarrow> exn + 'v option" where
  "by_url kvs url =
     (if \<not> hashable url then Inl (TypeError ''unhashable'')
      else Inr (map_option snd (find (\<lambda>kv. py_eq (fst kv) url) (rev kvs))))"

definition declared_by_url :: "hook_declaration list \<Rightarrow> exn + (json \<times> hook_declaration) list" where
  "declared_by_url hs =
     (if list_all (\<lambda>h. hashable (ws_url (hd_spec h))) hs
      then Inr (map (\<lambda>h. (ws_url (hd_spec h), h)) hs)
      else Inl (TypeError ''unhashable''))"

type_synonym secrets = "(json \<times> string option) list"

text \<open>\<open>(webhook_secrets or {}).get(url)\<close>, with \<open>None\<close> and the empty string both meaning no secret.\<close>

definition secret_for :: "secrets option \<Rightarrow> json \<Rightarrow> exn + string option" where
  "secret_for webhook_secrets url =
     ebind (by_url (case webhook_secrets of None \<Rightarrow> [] | Some kvs \<Rightarrow> kvs) url) (\<lambda>found.
       Inr (case found of Some (Some (x # xs)) \<Rightarrow> Some (x # xs) | _ \<Rightarrow> None))"

definition hooked :: "webhook_change \<Rightarrow> progress \<Rightarrow> progress" where
  "hooked ch st =
     st\<lparr>report := (report st)\<lparr>repos_hooked := repos_hooked (report st) @ [(wc_full_name ch, wc_url ch)]\<rparr>\<rparr>"

definition step_hook ::
  "'s server \<Rightarrow> client option \<Rightarrow> (json \<times> hook_declaration) list \<Rightarrow> secrets option \<Rightarrow> string list \<Rightarrow>
   webhook_change \<Rightarrow> progress \<Rightarrow> ('s, progress) gitea" where
  "step_hook srv configurator declared webhook_secrets failed change st =
     (if wc_full_name change \<in> set failed then ret st
      else
        (let fail = handle_failure (''hook '' @ wc_full_name change) in
         case configurator of
           None \<Rightarrow> ret (fail (RuntimeError ''no configurator client'') st)
         | Some c \<Rightarrow>
             abind (lift (by_url declared (wc_url change))) (\<lambda>declaration.
               case declaration of
                 None \<Rightarrow> ret (fail (RuntimeError ''no declaration for the url'') st)
               | Some h \<Rightarrow>
                   abind (lift (secret_for webhook_secrets (wc_url change))) (\<lambda>secret.
                     case secret of
                       None \<Rightarrow> ret (fail (RuntimeError ''no webhook secret'') st)
                     | Some s \<Rightarrow>
                         try_step (ensure_webhook srv c change (hd_spec h) s (hd_event_comparison h))
                           (hooked change) fail st))))"

section \<open>The whole run\<close>

text \<open>The clients and secrets a run is given, as the parameters of \<open>execute\<close>.\<close>

record credentials =
  admin_client :: client
  bot_client :: client
  bot_username :: string
  migration_token :: "string option"
  webhook_secrets :: "secrets option"
  migrator :: "client option"
  configurator :: "client option"

definition run_prepare :: "'s server \<Rightarrow> credentials \<Rightarrow> reconcile_plan \<Rightarrow> progress \<Rightarrow> ('s, progress) gitea" where
  "run_prepare srv cr p st =
     abind (foreach (step_org srv (admin_client cr)) (orgs_to_create p) st) (\<lambda>st.
     abind (foreach (step_team srv (admin_client cr) (bot_username cr)) (teams_due p (failed_orgs st)) st) (\<lambda>st.
       foreach (step_review_team srv (admin_client cr) (reviewer p)) (review_teams_due p (failed_orgs st)) st))"

definition run_repos :: "'s server \<Rightarrow> credentials \<Rightarrow> reconcile_plan \<Rightarrow> progress \<Rightarrow> ('s, progress) gitea" where
  "run_repos srv cr p st =
     abind (foreach (step_create srv (bot_client cr)) (repos_to_create p) st)
       (foreach (step_migrate srv (migrator cr) (migration_token cr)) (repos_to_migrate p))"

definition run_configure ::
  "'s server \<Rightarrow> credentials \<Rightarrow> repo_settings \<Rightarrow> hook_declaration list \<Rightarrow> reconcile_plan \<Rightarrow> progress \<Rightarrow>
   ('s, progress) gitea" where
  "run_configure srv cr settings hs p st =
     (let failed = failed_repos p st in
      abind (foreach (step_configure srv (configurator cr) settings failed) (repos_to_configure p) st) (\<lambda>st.
      abind (foreach (step_collaborator srv (configurator cr) failed) (collaborators_to_grant p) st) (\<lambda>st.
      abind (lift (declared_by_url hs)) (\<lambda>declared.
        foreach (step_hook srv (configurator cr) declared (webhook_secrets cr) failed) (repos_to_hook p) st))))"

definition execute ::
  "'s server \<Rightarrow> credentials \<Rightarrow> repo_settings \<Rightarrow> hook_declaration list \<Rightarrow> reconcile_plan \<Rightarrow>
   ('s, execution_report) gitea" where
  "execute srv cr settings hs p =
     abind (run_prepare srv cr p \<lparr>report = empty_report, failed_orgs = []\<rparr>) (\<lambda>st.
     abind (run_repos srv cr p st) (\<lambda>st.
     abind (run_configure srv cr settings hs p st) (\<lambda>st.
       ret (report st))))"

end
