(* ===== verification/ForgePlanFacts.thy ===== *)
theory ForgePlanFacts
  imports ForgePlan
begin

text \<open>
  What \<open>plan_reconcile\<close> guarantees: the specification of a forge that matches its declaration
  (\<open>matches\<close>), and the properties of the plan over it.
\<close>

section \<open>The specification\<close>

definition team_grants :: "team_grant \<Rightarrow> obj \<Rightarrow> bool" where
  "team_grants g t \<longleftrightarrow>
     truthy (oget t ''includes_all_repositories'') \<and>
     truthy (oget t ''can_create_org_repo'') = tg_can_create_org_repo g \<and>
     (\<exists>units. py_or (oget t ''units_map'') (JObj []) = JObj units \<and>
        (\<forall>unit \<in> set team_units. py_eq (oget units unit) (JStr (tg_permission g))))"

definition org_matches :: "forge_reads \<Rightarrow> string option \<Rightarrow> string \<Rightarrow> bool" where
  "org_matches r rvw org \<longleftrightarrow>
     org \<in> set (existing_orgs r) \<and>
     (\<exists>t. map_of (existing_teams r) org = Some (Some t) \<and> team_grants write_team t) \<and>
     (\<forall>login reads. rvw = Some login \<longrightarrow> login \<noteq> [] \<longrightarrow> existing_review_teams r = Some reads \<longrightarrow>
        (\<exists>t members. map_of reads org = Some (Some t, members) \<and> team_grants read_team t \<and>
           login \<in> set members))"

definition settings_match :: "forge_reads \<Rightarrow> repo_settings \<Rightarrow> string \<Rightarrow> bool" where
  "settings_match r s fn \<longleftrightarrow>
     (\<exists>live. map_of (existing_repo_settings r) fn = Some (Some live) \<and>
        (\<forall>(key, val) \<in> set (settings_payload s). py_eq (oget live key) val))"

definition hook_matches :: "forge_reads \<Rightarrow> hook_declaration \<Rightarrow> string \<Rightarrow> bool" where
  "hook_matches r h fn \<longleftrightarrow>
     (\<exists>hooks live. map_of (existing_repo_hooks r) fn = Some (Some hooks) \<and>
        find_declared_hook hooks (hd_spec h) = Inr (Some live) \<and>
        webhook_changes (Some live) (hd_spec h) (hd_event_comparison h) = Inr [])"

definition writers_match :: "forge_reads \<Rightarrow> repo_spec \<Rightarrow> string \<Rightarrow> bool" where
  "writers_match r spec fn \<longleftrightarrow>
     (\<forall>login \<in> set (rs_writers spec).
        \<exists>logins. map_of (existing_collaborators r) fn = Some (Some logins) \<and>
          map_of logins login = Some (True, ''write''))"

definition absent_native :: "decls \<Rightarrow> forge_reads \<Rightarrow> string \<Rightarrow> bool" where
  "absent_native D r fn \<longleftrightarrow>
     (\<exists>j \<in> set (declared_items D). repo_fn j = fn \<and> rs_native (snd j) \<and> \<not> held r fn)"

text \<open>
  The forge matches the declaration as far as a run can act: every organization exists with its
  teams, every repository is held unless it is native (which only a restore brings back), and every
  repository that is not an absent native one has the settings, hooks and writers declared.
\<close>

definition matches ::
  "decls \<Rightarrow> forge_reads \<Rightarrow> repo_settings \<Rightarrow> hook_declaration list \<Rightarrow> string option \<Rightarrow> bool" where
  "matches D r s hs rvw \<longleftrightarrow>
     (\<forall>org \<in> fst ` set D. org_matches r rvw org) \<and>
     (\<forall>i \<in> set (declared_items D).
        held r (repo_fn i) \<or> rs_native (snd i) \<and> \<not> has_source (snd i)) \<and>
     (\<forall>i \<in> set (declared_items D). \<not> absent_native D r (repo_fn i) \<longrightarrow>
        settings_match r s (repo_fn i) \<and> (\<forall>h \<in> set hs. hook_matches r h (repo_fn i)) \<and>
        writers_match r (snd i) (repo_fn i))"

section \<open>Field by field\<close>

lemma team_needs_False:
  "team_needs_convergence team g members member = Inr False \<longleftrightarrow>
     (\<exists>t. team = Some t \<and> team_grants g t \<and>
        (\<forall>m ms. member = Some m \<longrightarrow> members = Some ms \<longrightarrow> m \<in> set ms))"
  by (auto simp: team_needs_convergence_False_iff team_grants_def)

lemma set_actionable_iff:
  "i \<in> set (actionable D r) \<longleftrightarrow> i \<in> set (declared_items D) \<and> \<not> absent_native D r (repo_fn i)"
  by (simp add: set_actionable absent_native_def)

lemma emap_filter_Nil:
  assumes "emap f xs = Inr ys"
  shows "filter P ys = [] \<longleftrightarrow> (\<forall>x \<in> set xs. \<forall>y. f x = Inr y \<longrightarrow> \<not> P y)"
  using emap_eq_Inr_set [OF assms] by (auto simp: filter_empty_conv)

lemma emap_Inr_each: "emap f xs = Inr ys \<Longrightarrow> x \<in> set xs \<Longrightarrow> \<exists>y \<in> set ys. f x = Inr y"
  by (induction xs arbitrary: ys) auto

lemma plan_orgs_Nil: "plan_orgs D r = [] \<longleftrightarrow> (\<forall>org \<in> fst ` set D. org \<in> set (existing_orgs r))"
  by (auto simp: plan_orgs_def filter_empty_conv)

lemma plan_absent_Nil:
  "plan_create D r = [] \<and> plan_migrate D r = [] \<longleftrightarrow>
     (\<forall>i \<in> set (declared_items D). held r (repo_fn i) \<or> rs_native (snd i) \<and> \<not> has_source (snd i))"
proof -
  have "plan_create D r = [] \<longleftrightarrow>
      (\<forall>i \<in> set (declared_items D). \<not> held r (repo_fn i) \<longrightarrow> has_source (snd i) \<or> rs_native (snd i))"
    by (simp add: plan_create_def filter_empty_conv case_prod_unfold Ball_def) blast
  moreover have "plan_migrate D r = [] \<longleftrightarrow>
      (\<forall>i \<in> set (declared_items D). \<not> held r (repo_fn i) \<longrightarrow> \<not> has_source (snd i))"
    by (auto simp: plan_migrate_def filter_empty_conv)
  ultimately show ?thesis by blast
qed

lemma plan_teams_Nil:
  "plan_teams D r = Inr [] \<longleftrightarrow>
     (\<forall>org \<in> fst ` set D. \<exists>t. map_of (existing_teams r) org = Some (Some t) \<and> team_grants write_team t)"
  by (auto simp: plan_teams_def efilter_None team_needs_False)

lemma plan_review_teams_Nil:
  assumes "\<not> reviewer_unread rvw r"
  shows "plan_review_teams D r rvw = Inr [] \<longleftrightarrow>
     (\<forall>org \<in> fst ` set D. \<forall>login reads. rvw = Some login \<longrightarrow> login \<noteq> [] \<longrightarrow>
        existing_review_teams r = Some reads \<longrightarrow>
        (\<exists>t members. map_of reads org = Some (Some t, members) \<and> team_grants read_team t \<and>
           login \<in> set members))"
proof (cases rvw)
  case (Some login)
  show ?thesis
  proof (cases login)
    case (Cons c cs)
    with Some assms obtain reads where reads: "existing_review_teams r = Some reads"
      by (auto simp: reviewer_unread_def)
    have "efilter (\<lambda>org. ebind (index reads org)
          (\<lambda>(team, members). team_needs_convergence team read_team (Some members) (Some login)))
          (map fst D) = Inr [] \<longleftrightarrow>
        (\<forall>org \<in> fst ` set D. \<exists>t members. map_of reads org = Some (Some t, members) \<and>
           team_grants read_team t \<and> login \<in> set members)"
      by (force simp: efilter_None team_needs_False split: prod.splits)
    then show ?thesis
      using Some Cons reads by (simp add: plan_review_teams_def)
  qed (simp add: Some plan_review_teams_def)
qed (simp add: plan_review_teams_def)

lemma plan_configure_Nil:
  assumes "plan_configure D r s = Inr cs"
  shows "cs = [] \<longleftrightarrow> (\<forall>i \<in> set (actionable D r). settings_match r s (repo_fn i))"
proof -
  let ?f = "\<lambda>(org, spec).
      ebind (index (existing_repo_settings r) (full_name org (rs_name spec))) (\<lambda>live.
        Inr \<lparr>sc_org = org, sc_name = rs_name spec, sc_changes = settings_changes live s,
             sc_absent = (live = None)\<rparr>)"
  from assms obtain ys where ys: "emap ?f (actionable D r) = Inr ys"
    and cs: "cs = filter (\<lambda>c. sc_changes c \<noteq> []) ys"
    by (auto simp: plan_configure_def)
  have each: "(\<forall>y. ?f i = Inr y \<longrightarrow> \<not> sc_changes y \<noteq> []) \<longleftrightarrow> settings_match r s (repo_fn i)"
    if i: "i \<in> set (actionable D r)" for i
  proof -
    from emap_Inr_each [OF ys i] obtain y where y: "?f i = Inr y" by blast
    then obtain live where live: "map_of (existing_repo_settings r) (repo_fn i) = Some live"
      and "sc_changes y = settings_changes live s"
      by (cases i) (auto simp: repo_fn_def)
    then show ?thesis
      using y by (cases live) (auto simp: settings_match_def settings_changes_Nil)
  qed
  show ?thesis
    unfolding cs emap_filter_Nil [OF ys] using each by blast
qed

lemma plan_webhook_Inr:
  "plan_webhook org name hooks d cmp = Inr c \<Longrightarrow>
     wc_changes c = [] \<longleftrightarrow>
       (\<exists>hs live. hooks = Some hs \<and> find_declared_hook hs d = Inr (Some live) \<and>
          webhook_changes (Some live) d cmp = Inr [])"
  by (cases hooks) (auto simp: plan_webhook_def webhook_changes_def split: option.splits)

lemma plan_hooks_Nil:
  assumes "plan_hooks D r hs = Inr cs"
  shows "cs = [] \<longleftrightarrow> (\<forall>i \<in> set (actionable D r). \<forall>h \<in> set hs. hook_matches r h (repo_fn i))"
proof -
  let ?f = "\<lambda>((org, spec), h).
      ebind (index (existing_repo_hooks r) (full_name org (rs_name spec))) (\<lambda>live_hooks.
        plan_webhook org (rs_name spec) live_hooks (hd_spec h) (hd_event_comparison h))"
  let ?xs = "List.product (actionable D r) hs"
  from assms obtain ys where ys: "emap ?f ?xs = Inr ys"
    and cs: "cs = filter (\<lambda>c. wc_changes c \<noteq> []) ys"
    by (auto simp: plan_hooks_def)
  have each: "(\<forall>y. ?f (i, h) = Inr y \<longrightarrow> \<not> wc_changes y \<noteq> []) \<longleftrightarrow> hook_matches r h (repo_fn i)"
    if i: "i \<in> set (actionable D r)" and h: "h \<in> set hs" for i h
  proof -
    from i h have "(i, h) \<in> set ?xs" by simp
    from emap_Inr_each [OF ys this] obtain y where y: "?f (i, h) = Inr y" by blast
    then obtain hooks where hooks: "map_of (existing_repo_hooks r) (repo_fn i) = Some hooks"
      and w: "plan_webhook (fst i) (rs_name (snd i)) hooks (hd_spec h) (hd_event_comparison h) = Inr y"
      by (cases i) (auto simp: repo_fn_def)
    from plan_webhook_Inr [OF w] hooks y show ?thesis by (simp add: hook_matches_def)
  qed
  show ?thesis
    unfolding cs emap_filter_Nil [OF ys] using each by auto
qed

lemma collaborator_needs_grant_Some: "collaborator_needs_grant (Some live) \<longleftrightarrow> live \<noteq> (True, ''write'')"
  by (cases live) (auto simp: collaborator_needs_grant_def writer_permission_def)

lemma plan_writer_Nil:
  "plan_writer org name live_repo login = Inr gs \<Longrightarrow>
     gs = [] \<longleftrightarrow> (\<exists>logins. live_repo = Some logins \<and> map_of logins login = Some (True, ''write''))"
  by (cases live_repo) (auto simp: plan_writer_def collaborator_needs_grant_Some split: if_splits)

lemma emap_concat_Nil:
  assumes "emap f xs = Inr yss"
  shows "concat yss = [] \<longleftrightarrow> (\<forall>x \<in> set xs. \<forall>ys. f x = Inr ys \<longrightarrow> ys = [])"
  using emap_eq_Inr_set [OF assms] by auto

lemma plan_collaborators_Nil:
  assumes "plan_collaborators D r = Inr gs"
  shows "gs = [] \<longleftrightarrow> (\<forall>i \<in> set (actionable D r). writers_match r (snd i) (repo_fn i))"
proof -
  let ?xs = "filter (\<lambda>(org, spec). rs_writers spec \<noteq> []) (actionable D r)"
  let ?f = "\<lambda>(org, spec).
      ebind (index (existing_collaborators r) (full_name org (rs_name spec))) (\<lambda>live_repo.
      ebind (emap (plan_writer org (rs_name spec) live_repo) (rs_writers spec)) (\<lambda>gs. Inr (concat gs)))"
  from assms obtain yss where yss: "emap ?f ?xs = Inr yss" and gs: "gs = concat yss"
    by (auto simp: plan_collaborators_def)
  have each: "(\<forall>ys. ?f i = Inr ys \<longrightarrow> ys = []) \<longleftrightarrow> writers_match r (snd i) (repo_fn i)"
    if i: "i \<in> set ?xs" for i
  proof -
    from emap_Inr_each [OF yss i] obtain live_repo zss where
      live: "map_of (existing_collaborators r) (repo_fn i) = Some live_repo"
      and zss: "emap (plan_writer (fst i) (rs_name (snd i)) live_repo) (rs_writers (snd i)) = Inr zss"
      and fi: "?f i = Inr (concat zss)"
      by (cases i) (auto simp: repo_fn_def)
    have "(\<forall>ys. plan_writer (fst i) (rs_name (snd i)) live_repo login = Inr ys \<longrightarrow> ys = []) \<longleftrightarrow>
        (\<exists>logins. live_repo = Some logins \<and> map_of logins login = Some (True, ''write''))"
      if "login \<in> set (rs_writers (snd i))" for login
      using emap_Inr_each [OF zss that] by (auto dest: plan_writer_Nil)
    then have "concat zss = [] \<longleftrightarrow> (\<forall>login \<in> set (rs_writers (snd i)). \<exists>logins.
        live_repo = Some logins \<and> map_of logins login = Some (True, ''write''))"
      unfolding emap_concat_Nil [OF zss] by blast
    with live fi show ?thesis by (auto simp: writers_match_def)
  qed
  have trivial: "writers_match r (snd i) (repo_fn i)" if "rs_writers (snd i) = []" for i
    using that by (simp add: writers_match_def)
  show ?thesis
    unfolding gs emap_concat_Nil [OF yss] using each trivial by fastforce
qed

section \<open>No-op means converged\<close>

text \<open>C1. A plan is a no-op exactly when the forge matches the declaration.\<close>

theorem plan_noop_iff_matches:
  assumes "plan_reconcile D r s hs rvw = Inr p"
  shows "is_noop p \<longleftrightarrow> matches D r s hs rvw"
proof -
  note P = plan_reconcile_Inr [OF assms]
  have teams: "teams_to_converge p = [] \<longleftrightarrow> plan_teams D r = Inr []" using P(5) by auto
  have review: "review_teams_to_converge p = [] \<longleftrightarrow> plan_review_teams D r rvw = Inr []" using P(6) by auto
  have "is_noop p \<longleftrightarrow>
      plan_orgs D r = [] \<and> (plan_create D r = [] \<and> plan_migrate D r = []) \<and>
      plan_teams D r = Inr [] \<and> plan_review_teams D r rvw = Inr [] \<and>
      repos_to_configure p = [] \<and> repos_to_hook p = [] \<and> collaborators_to_grant p = []"
    unfolding is_noop_def P(2) P(3) P(4) teams review by blast
  moreover have act: "(\<forall>i \<in> set (actionable D r). P i) \<longleftrightarrow>
      (\<forall>i \<in> set (declared_items D). \<not> absent_native D r (repo_fn i) \<longrightarrow> P i)" for P
    by (auto simp: set_actionable_iff)
  ultimately show ?thesis
    unfolding plan_orgs_Nil plan_absent_Nil plan_teams_Nil plan_review_teams_Nil [OF P(1)]
      plan_configure_Nil [OF P(8)] plan_hooks_Nil [OF P(9)] plan_collaborators_Nil [OF P(10)]
      matches_def org_matches_def act
    by (simp only: ball_conj_distrib imp_conjR conj_ac)
qed


section \<open>The plan acts on declared names only\<close>

lemma declared_name: "i \<in> set (declared_items D) \<Longrightarrow> repo_fn i \<in> set (declared_full_names D)"
  using repo_fn_declared [of D] by blast

lemma plan_configure_names:
  assumes "plan_configure D r s = Inr cs" and "c \<in> set cs"
  shows "\<exists>i \<in> set (actionable D r). full_name (sc_org c) (sc_name c) = repo_fn i \<and> sc_org c = fst i"
proof -
  let ?f = "\<lambda>(org, spec).
      ebind (index (existing_repo_settings r) (full_name org (rs_name spec))) (\<lambda>live.
        Inr \<lparr>sc_org = org, sc_name = rs_name spec, sc_changes = settings_changes live s,
             sc_absent = (live = None)\<rparr>)"
  from assms obtain ys where "emap ?f (actionable D r) = Inr ys" and "c \<in> set ys"
    by (auto simp: plan_configure_def)
  from emap_elem [OF this] obtain i where i: "i \<in> set (actionable D r)" and fi: "?f i = Inr c" .
  obtain org spec where os: "i = (org, spec)" by fastforce
  from fi os have "sc_org c = org" and "sc_name c = rs_name spec" by auto
  with i os show ?thesis by (intro bexI [of _ i]) (simp_all add: repo_fn_def)
qed

lemma plan_webhook_names:
  "plan_webhook org name hooks d cmp = Inr c \<Longrightarrow>
     wc_org c = org \<and> wc_name c = name \<and> wc_url c = ws_url d"
  by (auto simp: plan_webhook_def)

lemma plan_hooks_names:
  assumes "plan_hooks D r hs = Inr cs" and "c \<in> set cs"
  shows "\<exists>i \<in> set (actionable D r). \<exists>h \<in> set hs.
    full_name (wc_org c) (wc_name c) = repo_fn i \<and> wc_url c = ws_url (hd_spec h)"
proof -
  let ?f = "\<lambda>((org, spec), h).
      ebind (index (existing_repo_hooks r) (full_name org (rs_name spec))) (\<lambda>live_hooks.
        plan_webhook org (rs_name spec) live_hooks (hd_spec h) (hd_event_comparison h))"
  from assms obtain ys where ys: "emap ?f (List.product (actionable D r) hs) = Inr ys" and "c \<in> set ys"
    by (auto simp: plan_hooks_def)
  from emap_elem [OF this] obtain x where x: "x \<in> set (List.product (actionable D r) hs)"
    and fx: "?f x = Inr c" .
  obtain org spec h where os: "x = ((org, spec), h)" by (metis surj_pair)
  from fx os obtain hooks
    where w: "plan_webhook org (rs_name spec) hooks (hd_spec h) (hd_event_comparison h) = Inr c" by auto
  from x os have "(org, spec) \<in> set (actionable D r)" and "h \<in> set hs" by auto
  with plan_webhook_names [OF w] show ?thesis
    by (intro bexI [of _ "(org, spec)"] bexI [of _ h]) (simp_all add: repo_fn_def)
qed

lemma plan_writer_names:
  "plan_writer org name live_repo login = Inr gs \<Longrightarrow> g \<in> set gs \<Longrightarrow>
     cg_org g = org \<and> cg_name g = name \<and> cg_login g = login"
  by (auto simp: plan_writer_def split: option.splits if_splits)

lemma plan_collaborators_names:
  assumes "plan_collaborators D r = Inr gs" and "g \<in> set gs"
  shows "\<exists>i \<in> set (actionable D r).
    full_name (cg_org g) (cg_name g) = repo_fn i \<and> cg_login g \<in> set (rs_writers (snd i))"
proof -
  let ?f = "\<lambda>(org, spec).
      ebind (index (existing_collaborators r) (full_name org (rs_name spec))) (\<lambda>live_repo.
      ebind (emap (plan_writer org (rs_name spec) live_repo) (rs_writers spec)) (\<lambda>gs. Inr (concat gs)))"
  let ?xs = "filter (\<lambda>(org, spec). rs_writers spec \<noteq> []) (actionable D r)"
  from assms obtain yss where yss: "emap ?f ?xs = Inr yss" and "g \<in> set (concat yss)"
    by (auto simp: plan_collaborators_def)
  then obtain ys where "ys \<in> set yss" and g: "g \<in> set ys" by auto
  from emap_elem [OF yss this(1)] obtain i where "i \<in> set ?xs" and fi: "?f i = Inr ys" .
  then have i: "i \<in> set (actionable D r)" by simp
  obtain org spec where os: "i = (org, spec)" by fastforce
  from fi os obtain live_repo zss
    where zss: "emap (plan_writer org (rs_name spec) live_repo) (rs_writers spec) = Inr zss"
    and "ys = concat zss" by auto
  with g obtain zs where "zs \<in> set zss" and zs: "g \<in> set zs" by auto
  from emap_elem [OF zss this(1)] obtain login
    where "login \<in> set (rs_writers spec)" and "plan_writer org (rs_name spec) live_repo login = Inr zs" .
  with plan_writer_names [OF this(2) zs] i os show ?thesis
    by (intro bexI [of _ i]) (simp_all add: repo_fn_def)
qed

text \<open>Every repository an action field of the plan names.\<close>

definition acted_repos :: "reconcile_plan \<Rightarrow> string set" where
  "acted_repos p =
     dr_full_name ` set (repos_to_create p) \<union> dr_full_name ` set (repos_to_migrate p) \<union>
     (\<lambda>c. full_name (sc_org c) (sc_name c)) ` set (repos_to_configure p) \<union>
     (\<lambda>c. full_name (wc_org c) (wc_name c)) ` set (repos_to_hook p) \<union>
     (\<lambda>g. full_name (cg_org g) (cg_name g)) ` set (collaborators_to_grant p)"

lemma plan_teams_subset: "plan_teams D r = Inr ts \<Longrightarrow> set ts \<subseteq> fst ` set D"
  by (auto simp: plan_teams_def dest!: efilter_eq_Inr)

lemma plan_review_teams_subset: "plan_review_teams D r rvw = Inr ts \<Longrightarrow> set ts \<subseteq> fst ` set D"
  by (auto simp: plan_review_teams_def dest!: efilter_eq_Inr split: option.splits list.splits)

text \<open>The plan acts on declared organizations and repositories only, creates or migrates only
  repositories the forge does not hold, and never acts on an absent native repository.\<close>

theorem plan_acts_on_declared:
  assumes "plan_reconcile D r s hs rvw = Inr p"
  shows "set (orgs_to_create p) \<union> set (teams_to_converge p) \<union> set (review_teams_to_converge p)
      \<subseteq> fst ` set D
    \<and> acted_repos p \<subseteq> set (declared_full_names D)
    \<and> (\<forall>d \<in> set (repos_to_create p) \<union> set (repos_to_migrate p). \<not> held r (dr_full_name d))
    \<and> set (orgs_to_create p) \<inter> set (existing_orgs r) = {}
    \<and> acted_repos p \<inter> set (undeclared_repos p) = {}"
proof -
  note P = plan_reconcile_Inr [OF assms]
  have created: "dr_full_name d \<in> set (declared_full_names D) \<and> \<not> held r (dr_full_name d)"
    if "d \<in> set (repos_to_create p) \<union> set (repos_to_migrate p)" for d
    using that declared_name by (auto simp: P(3,4) plan_create_def plan_migrate_def)
  have act: "repo_fn i \<in> set (declared_full_names D)" if "i \<in> set (actionable D r)" for i
    using that declared_name by (simp add: set_actionable_iff)
  have "full_name (sc_org c) (sc_name c) \<in> set (declared_full_names D)" if "c \<in> set (repos_to_configure p)" for c
    using plan_configure_names [OF P(8) that] act by auto
  moreover have "full_name (wc_org c) (wc_name c) \<in> set (declared_full_names D)" if "c \<in> set (repos_to_hook p)" for c
    using plan_hooks_names [OF P(9) that] act by auto
  moreover have "full_name (cg_org g) (cg_name g) \<in> set (declared_full_names D)"
    if "g \<in> set (collaborators_to_grant p)" for g
    using plan_collaborators_names [OF P(10) that] act by auto
  ultimately have acted: "acted_repos p \<subseteq> set (declared_full_names D)"
    using created by (auto simp: acted_repos_def)
  moreover have "set (undeclared_repos p) \<inter> set (declared_full_names D) = {}"
    unfolding P(12) plan_undeclared_repos_def repo_fn_declared [symmetric] by auto
  ultimately show ?thesis
    using created plan_teams_subset [OF P(5)] plan_review_teams_subset [OF P(6)]
    by (auto simp: P(2) set_plan_orgs)
qed

section \<open>An absent repository is scheduled in exactly one way\<close>

definition plan_route :: "reconcile_plan \<Rightarrow> string \<Rightarrow> bool \<times> bool \<times> bool" where
  "plan_route p fn =
     (fn \<in> dr_full_name ` set (repos_to_create p), fn \<in> dr_full_name ` set (repos_to_migrate p),
      fn \<in> dr_full_name ` set (absent_native_repos p))"

lemma inj_repo_fn:
  "distinct (map repo_fn (declared_items D)) \<Longrightarrow> i \<in> set (declared_items D) \<Longrightarrow>
     j \<in> set (declared_items D) \<Longrightarrow> repo_fn j = repo_fn i \<Longrightarrow> j = i"
  by (auto simp: distinct_map inj_on_def)

text \<open>A declared repository the forge does not hold is migrated when it has a source, reported
  when it is native, created otherwise, and is in exactly one of the three lists; one the forge
  holds is in none.\<close>

theorem absent_repo_one_route:
  assumes "load_declaration common = Inr D" and "plan_reconcile D r s hs rvw = Inr p"
    and "distinct (map repo_fn (declared_items D))" and "i \<in> set (declared_items D)"
  shows "plan_route p (repo_fn i) =
    (if held r (repo_fn i) then (False, False, False)
     else if has_source (snd i) then (False, True, False)
     else if rs_native (snd i) then (False, False, True)
     else (True, False, False))"
proof -
  note P = plan_reconcile_Inr [OF assms(2)]
  obtain specs where "(fst i, specs) \<in> set D" and "snd i \<in> set specs"
    using assms(4) by (auto simp: set_declared_items)
  then obtain ids entry where "load_entry (py_or ids (JObj [])) entry = Inr (snd i)"
    using load_declaration_entry [OF assms(1)] by blast
  then have native: "rs_native (snd i) \<Longrightarrow> \<not> has_source (snd i)"
    by (auto simp: has_source_def elim: load_entry_Inr)
  have same: "repo_fn i \<in> repo_fn ` {j \<in> set (declared_items D). \<not> held r (repo_fn j) \<and> Q j} \<longleftrightarrow>
      \<not> held r (repo_fn i) \<and> Q i" for Q
    using inj_repo_fn [OF assms(3,4)] assms(4) by auto
  have "repo_fn i \<in> dr_full_name ` set (map (mk_declared b) (filter Q (plan_missing D r))) \<longleftrightarrow>
      \<not> held r (repo_fn i) \<and> Q i" for b Q
    using same [of Q] by (auto simp: image_iff)
  then show ?thesis
    using native
    by (simp add: plan_route_def P(3,4,15) plan_create_def plan_migrate_def plan_absent_native_def
        case_prod_unfold)
qed

end
