(* ===== verification/ForgeExecuteFacts.thy ===== *)
theory ForgeExecuteFacts
  imports ForgeExecute ForgePlanFacts
begin

text \<open>
  What a run of \<open>execute\<close> guarantees, for every forge: which client may send what, that nothing is
  deleted and no hook is written unsigned, that an organization that could not be prepared receives
  nothing, that every item of the plan is accounted for in the report, that what the report records
  as converged was read back converged, and that no exception escapes.
\<close>

section \<open>Steps\<close>

lemma try_step_Val:
  "try_step op good bad st n = (Val st', n') \<longleftrightarrow>
     (\<exists>x. op n = (Val x, n') \<and> st' = good st) \<or> (\<exists>e. op n = (Exn e, n') \<and> st' = bad e st)"
  by (auto simp: try_step_def attempt_Val abind_Val abind_Exn)

lemma emits_try_step [emits_intros]: "emits P op \<Longrightarrow> emits P (try_step op good bad st)"
  unfolding try_step_def by (intro emits_intros)

lemma no_raise_try_step: "no_raise (try_step op good bad st)"
  by (auto simp: no_raise_def try_step_def attempt_Exn)

lemmas step_defs =
  step_org_def step_team_def step_review_team_def step_create_def step_migrate_def
  step_configure_def step_collaborator_def step_hook_def

lemmas run_phase_defs = run_prepare_def run_repos_def run_configure_def

section \<open>Which client sends what\<close>

definition org_request :: "client \<Rightarrow> request \<Rightarrow> bool" where
  "org_request c rq \<longleftrightarrow>
     from_client c rq \<and> rq_meth rq \<noteq> DELETE \<and>
     (rq_path rq = ''/orgs'' \<or> starts_with ''/orgs/'' (rq_path rq) \<or> starts_with ''/teams/'' (rq_path rq))"

definition repo_request :: "client \<Rightarrow> request \<Rightarrow> bool" where
  "repo_request c rq \<longleftrightarrow>
     from_client c rq \<and> rq_meth rq \<noteq> DELETE \<and> starts_with ''/repos/'' (rq_path rq)"

definition permitted :: "credentials \<Rightarrow> request \<Rightarrow> bool" where
  "permitted cr rq \<longleftrightarrow>
     org_request (admin_client cr) rq \<or>
     (from_client (bot_client cr) rq \<and> rq_meth rq = POST \<and> (\<exists>org. rq_path rq = ''/orgs/'' @ org @ ''/repos'')) \<or>
     (\<exists>m. migrator cr = Some m \<and> from_client m rq \<and> rq_meth rq = POST \<and> rq_path rq = ''/repos/migrate'') \<or>
     (\<exists>c. configurator cr = Some c \<and> repo_request c rq)"

lemma org_request_mk [simp]:
  "m \<noteq> DELETE \<Longrightarrow> org_request c (mk_request c t m ''/orgs'' b)"
  "m \<noteq> DELETE \<Longrightarrow> org_request c (mk_request c t m (''/orgs/'' @ ep) b)"
  "m \<noteq> DELETE \<Longrightarrow> org_request c (mk_request c t m (''/teams/'' @ ep) b)"
  by (simp_all add: org_request_def starts_with_def)

lemma repo_request_mk [simp]:
  "m \<noteq> DELETE \<Longrightarrow> repo_request c (mk_request c t m (''/repos/'' @ ep) b)"
  by (simp add: repo_request_def starts_with_def)

lemma emits_ensure_team: "emits (org_request c) (ensure_team srv c org member g)"
proof -
  have page: "org_request c (mk_request c t GET (page_endpoint (''/orgs/'' @ ep) k) b)" for t ep k b
    by (simp add: org_request_def starts_with_def page_endpoint_def)
  have "emits (org_request c) (get_team srv c org name)" for name
    unfolding get_team_def by (intro emits_intros page)
  then show ?thesis
    unfolding ensure_team_def create_if_absent_def converge_team_def add_member_def create_team_def
      edit_team_def add_team_member_def
    by (auto intro!: emits_intros simp: org_request_def starts_with_def split: option.split list.split)
qed

lemma emits_write_webhook: "emits (repo_request c) (write_webhook srv c change payload)"
  unfolding write_webhook_def create_hook_def edit_hook_def repo_path_def
  by (auto intro!: emits_intros simp: repo_request_def starts_with_def)

lemma emits_repo_calls:
  "emits (repo_request c) (edit_repo srv c owner name d)"
  "emits (repo_request c) (get_repo srv c owner name)"
  "emits (repo_request c) (list_hooks srv c owner name)"
  "emits (repo_request c) (add_collaborator srv c owner name login p)"
  "emits (repo_request c) (is_collaborator srv c owner name login)"
  "emits (repo_request c) (get_collaborator_permission srv c owner name login)"
  unfolding edit_repo_def get_repo_def list_hooks_def add_collaborator_def is_collaborator_def
    get_collaborator_permission_def repo_path_def
  by (auto intro!: emits_intros simp: repo_request_def starts_with_def)

lemma emits_look_collaborator: "emits (repo_request c) (look_collaborator srv c g)"
  unfolding look_collaborator_def by (intro emits_intros emits_repo_calls)

lemma emits_repo_ops:
  "emits (repo_request c) (ensure_settings srv c repo d)"
  "emits (repo_request c) (ensure_collaborator srv c g)"
  "emits (repo_request c) (ensure_webhook srv c change d' secret cmp)"
  using settings_write.emits_ensure [of "repo_request c" srv c "(repo, d)"]
    collaborator_write.emits_ensure [of "repo_request c" srv c g]
    webhook_write.emits_ensure [of "repo_request c" srv c "(change, d', secret, cmp)"]
  by (simp_all add: emits_repo_calls emits_look_collaborator emits_write_webhook)

text \<open>Every request of a run is one its sender may make: organizations and teams through the
  administrator, repository creation through the bot, migration through the migrator, and everything
  under a repository through the configurator; and none of them is a deletion.\<close>

theorem execute_permitted:
  "emits (\<lambda>rq. permitted cr rq \<and> rq_meth rq \<noteq> DELETE) (execute srv cr s hs p)"
proof -
  let ?P = "\<lambda>rq. permitted cr rq \<and> rq_meth rq \<noteq> DELETE"
  have admin: "emits ?P m" if "emits (org_request (admin_client cr)) m" for m
    using that by (rule emits_mono) (auto simp: permitted_def org_request_def)
  have conf: "emits ?P m" if "configurator cr = Some c" and "emits (repo_request c) m" for c m
    using that(2) by (rule emits_mono) (auto simp: permitted_def repo_request_def that(1))
  have org: "emits ?P (create_org srv (admin_client cr) x)" for x
    unfolding create_org_def by (auto intro!: emits_intros simp: permitted_def org_request_def)
  have repo: "emits ?P (create_repo srv (bot_client cr) x y z)" for x y z
    unfolding create_repo_def by (auto intro!: emits_intros simp: permitted_def)
  have mig: "emits ?P (migrate_one srv m t r)" if "migrator cr = Some m" for m t r
    unfolding migrate_one_def migrate_repo_def
    by (auto intro!: emits_intros simp: permitted_def that)
  show ?thesis
    unfolding execute_def run_phase_defs step_defs Let_def
    by (auto intro!: emits_intros org repo mig admin [OF emits_ensure_team] conf [OF _ emits_repo_ops(1)]
        conf [OF _ emits_repo_ops(2)] conf [OF _ emits_repo_ops(3)] split: option.split list.split)
qed

section \<open>No hook is written unsigned\<close>

text \<open>A body that carries a hook configuration carries a secret in it.\<close>

definition signed_body :: "json option \<Rightarrow> bool" where
  "signed_body body \<longleftrightarrow>
     (case body of
        Some (JObj kvs) \<Rightarrow>
          (case map_of kvs ''config'' of
             Some (JObj config) \<Rightarrow> (\<exists>c cs. map_of config ''secret'' = Some (JStr (c # cs)))
           | Some _ \<Rightarrow> False
           | None \<Rightarrow> True)
      | _ \<Rightarrow> True)"

lemma signed_body_None [simp]: "signed_body None"
  and signed_body_obj:
    "map_of kvs ''config'' = None \<Longrightarrow> signed_body (Some (JObj kvs))"
  by (simp_all add: signed_body_def)

lemma signed_hook_payload: "s \<noteq> [] \<Longrightarrow> signed_body (Some (JObj (hook_payload d s)))"
  by (cases s) (simp_all add: signed_body_def hook_payload_def)

abbreviation signed :: "request \<Rightarrow> bool" where
  "signed rq \<equiv> signed_body (rq_json rq)"

lemma secret_for_Some:
  assumes "secret_for ws url = Inr (Some s)"
  shows "s \<noteq> []"
proof -
  from assms obtain found where "(case found of Some (Some (x # xs)) \<Rightarrow> Some (x # xs) | _ \<Rightarrow> None) = Some s"
    by (auto simp: secret_for_def)
  then show ?thesis by (auto split: option.splits list.splits)
qed

lemma reads_signed: "emits (reads_as c) m \<Longrightarrow> emits signed m"
  by (erule emits_mono) (simp add: reads_as_def)

lemmas reads_only_signed = reads_only [THEN reads_signed]

lemma emits_look_collaborator_signed: "emits signed (look_collaborator srv c g)"
  unfolding look_collaborator_def by (intro emits_intros reads_only_signed)

lemma emits_signed_writes:
  "emits signed (create_org srv c x)"
  "emits signed (create_repo srv c x y b)"
  "emits signed (migrate_one srv c t r)"
  "emits signed (create_team srv c x y z b)"
  "emits signed (edit_team srv c k x y b)"
  "emits signed (add_team_member srv c k x)"
  "emits signed (edit_repo srv c x y (settings_payload d))"
  "emits signed (add_collaborator srv c x y z q)"
  by (auto intro!: emits_intros signed_body_obj
      simp: gitea_write_defs migrate_one_def team_payload_def settings_payload_def)

lemma emits_signed_hook: "s \<noteq> [] \<Longrightarrow> emits signed (write_webhook srv c change (hook_payload d s))"
  unfolding write_webhook_def create_hook_def edit_hook_def
  by (auto intro!: emits_intros signed_hook_payload)

lemma emits_signed_ensure:
  "emits signed (ensure_settings srv c repo d)"
  "emits signed (ensure_collaborator srv c g)"
  "emits signed (ensure_team srv c org member tg)"
  "secret \<noteq> [] \<Longrightarrow> emits signed (ensure_webhook srv c change d' secret cmp)"
proof -
  show "emits signed (ensure_settings srv c repo d)"
    using settings_write.emits_ensure [of signed srv c "(repo, d)"]
    by (simp add: emits_signed_writes reads_only_signed)
  show "emits signed (ensure_collaborator srv c g)"
    by (intro collaborator_write.emits_ensure emits_signed_writes emits_look_collaborator_signed)
  show "emits signed (ensure_team srv c org member tg)"
    unfolding ensure_team_def create_if_absent_def converge_team_def add_member_def
    by (auto intro!: emits_intros emits_signed_writes reads_only_signed split: option.split list.split)
  show "secret \<noteq> [] \<Longrightarrow> emits signed (ensure_webhook srv c change d' secret cmp)"
    using webhook_write.emits_ensure [of signed srv c "(change, d', secret, cmp)"]
    by (simp add: emits_signed_hook reads_only_signed)
qed

text \<open>C4. No run sends a hook without a secret: every body with a hook configuration carries a
  non-empty one, whatever the plan, the declarations and the secrets given.\<close>

theorem execute_never_unsigned: "emits signed (execute srv cr s hs p)"
proof -
  have hook: "emits signed (step_hook srv cf declared ws failed change st)" for cf declared ws failed change st
  proof -
    have "emits signed (ensure_webhook srv c change d x cmp)"
      if "secret_for ws (wc_url change) = Inr (Some x)" for c d x cmp
      using secret_for_Some [OF that] by (rule emits_signed_ensure(4))
    then show ?thesis
      unfolding step_hook_def Let_def
      by (auto intro!: emits_if emits_case_option emits_abind_lift emits_ret emits_try_step)
  qed
  show ?thesis
    unfolding execute_def run_phase_defs step_org_def step_team_def step_review_team_def step_create_def
      step_migrate_def step_configure_def step_collaborator_def Let_def
    by (auto intro!: emits_intros hook emits_signed_writes emits_signed_ensure(1-3)
        split: option.split list.split)
qed

section \<open>A failed organization receives nothing\<close>

definition creates_in :: "string \<Rightarrow> request \<Rightarrow> bool" where
  "creates_in org rq \<longleftrightarrow>
     rq_path rq = ''/orgs/'' @ org @ ''/repos'' \<or>
     (\<exists>kvs. rq_json rq = Some (JObj kvs) \<and> oget kvs ''repo_owner'' = JStr org)"

lemma step_create_failed_orgs:
  "step_create srv c repo st n = (Val st', n') \<Longrightarrow> failed_orgs st' = failed_orgs st"
  by (auto simp: step_create_def try_step_Val handle_failure_def split: if_splits)

lemma step_migrate_failed_orgs:
  "step_migrate srv m t repo st n = (Val st', n') \<Longrightarrow> failed_orgs st' = failed_orgs st"
  by (auto simp: step_migrate_def Let_def try_step_Val handle_failure_def
      split: if_splits option.splits list.splits)

text \<open>The phase that creates and migrates repositories sends nothing that would put a repository
  into an organization whose creation or team failed.\<close>

theorem failed_org_receives_nothing:
  "emits (\<lambda>rq. \<not> (\<exists>org \<in> set (failed_orgs st). creates_in org rq)) (run_repos srv cr p st)"
proof -
  let ?P = "\<lambda>rq. \<not> (\<exists>org \<in> set (failed_orgs st). creates_in org rq)"
  let ?I = "\<lambda>st'. failed_orgs st' = failed_orgs st"
  have create: "emits ?P (step_create srv c repo st')" if "?I st'" for c repo st'
    unfolding step_create_def create_repo_def that
    by (auto intro!: emits_intros simp: creates_in_def oget_def)
  have migrate: "emits ?P (step_migrate srv m t repo st')" if "?I st'" for m t repo st'
    unfolding step_migrate_def migrate_one_def migrate_repo_def Let_def that
    by (auto intro!: emits_intros simp: creates_in_def oget_def split: option.split list.split)
  have after: "?I st'" if "foreach (step_create srv c) xs st n = (Val st', n')" for c xs n st' n'
    by (rule foreach_inv [OF that, where I = ?I]) (auto dest: step_create_failed_orgs)
  have "emits ?P (foreach (step_migrate srv m t) xs st')" if "?I st'" for m t xs st'
    by (rule emits_foreach_inv [where I = ?I])
      (auto dest: step_migrate_failed_orgs intro: migrate simp del: bex_simps simp: that)
  moreover have "emits ?P (foreach (step_create srv c) xs st)" for c xs
    by (rule emits_foreach_inv [where I = ?I])
      (auto dest: step_create_failed_orgs intro: create simp del: bex_simps)
  ultimately show ?thesis
    unfolding run_repos_def by (intro emits_abind_strong) (auto dest!: after simp: emits_def)
qed

section \<open>No exception escapes\<close>

lemma declared_by_url_total:
  "list_all (\<lambda>h. hashable (ws_url (hd_spec h))) hs \<Longrightarrow>
     declared_by_url hs = Inr (map (\<lambda>h. (ws_url (hd_spec h), h)) hs)"
  by (simp add: declared_by_url_def)

lemma secret_for_total: "hashable url \<Longrightarrow> \<exists>x. secret_for ws url = Inr x"
  by (simp add: secret_for_def by_url_def)

lemma no_raise_abind_lift: "r = Inr x \<Longrightarrow> no_raise (f x) \<Longrightarrow> no_raise (abind (lift r) f)"
  by (simp add: act_simps)

lemma no_raise_step_hook:
  assumes "hashable (wc_url change)"
  shows "no_raise (step_hook srv c declared ws failed change st)"
proof -
  obtain x where "secret_for ws (wc_url change) = Inr x" using secret_for_total [OF assms] by blast
  then show ?thesis
    using assms
    by (auto simp: step_hook_def by_url_def Let_def act_simps no_raise_try_step no_raise_intros
        split: option.split)
qed

lemma no_raise_steps:
  "no_raise (step_org srv c org st)"
  "no_raise (step_team srv c user org st)"
  "no_raise (step_review_team srv c rvw org st)"
  "no_raise (step_create srv c repo st)"
  "no_raise (step_migrate srv m t repo st)"
  "no_raise (step_configure srv cf d failed change st)"
  "no_raise (step_collaborator srv cf failed grant st)"
  by (auto simp: step_defs Let_def no_raise_try_step no_raise_intros split: option.split list.split)

text \<open>A run of a plan made from the same hook declarations never raises, whatever the forge
  answers: every failure is in the report.\<close>

theorem execute_never_raises:
  assumes "plan_reconcile D r s hs rvw = Inr p" and "list_all (\<lambda>h. hashable (ws_url (hd_spec h))) hs"
  shows "no_raise (execute srv cr s hs p)"
proof -
  note P = plan_reconcile_Inr [OF assms(1)]
  have "hashable (wc_url c)" if "c \<in> set (repos_to_hook p)" for c
    using plan_hooks_names [OF P(9) that] assms(2) by (auto simp: list_all_iff)
  then show ?thesis
    unfolding execute_def run_phase_defs Let_def
    by (intro no_raise_intros no_raise_steps no_raise_step_hook
        no_raise_abind_lift [OF declared_by_url_total [OF assms(2)]])
qed

section \<open>A run of a no-op plan\<close>

text \<open>Executing a no-op plan sends nothing, changes nothing and reports nothing.\<close>

theorem execute_noop:
  assumes "is_noop p" and "list_all (\<lambda>h. hashable (ws_url (hd_spec h))) hs"
  shows "execute srv cr s hs p n = (Val empty_report, n)"
  using assms
  by (simp add: is_noop_def execute_def run_phase_defs teams_due_def review_teams_due_def
      declared_by_url_def sorted_set_def act_simps)

section \<open>Every item of the plan is accounted for\<close>

text \<open>Reports and progress only grow.\<close>

definition extends :: "execution_report \<Rightarrow> execution_report \<Rightarrow> bool" where
  "extends a b \<longleftrightarrow>
     set (orgs_created a) \<subseteq> set (orgs_created b) \<and> set (repos_created a) \<subseteq> set (repos_created b) \<and>
     set (repos_migrated a) \<subseteq> set (repos_migrated b) \<and> set (teams_ensured a) \<subseteq> set (teams_ensured b) \<and>
     set (review_teams_ensured a) \<subseteq> set (review_teams_ensured b) \<and>
     set (repos_configured a) \<subseteq> set (repos_configured b) \<and>
     set (repos_hooked a) \<subseteq> set (repos_hooked b) \<and>
     set (collaborators_granted a) \<subseteq> set (collaborators_granted b) \<and>
     set (failures a) \<subseteq> set (failures b)"

lemma extends_refl [simp]: "extends a a"
  by (simp add: extends_def)

lemma extends_trans [trans]: "extends a b \<Longrightarrow> extends b c \<Longrightarrow> extends a c"
  unfolding extends_def by (elim conjE, intro conjI) (erule (1) subset_trans)+

definition failed_at :: "execution_report \<Rightarrow> string \<Rightarrow> bool" where
  "failed_at rep target \<longleftrightarrow> target \<in> fst ` set (failures rep)"

lemma failed_at_mono: "extends a b \<Longrightarrow> failed_at a t \<Longrightarrow> failed_at b t"
  by (auto simp: failed_at_def extends_def)

text \<open>An organization that could not be prepared, as the report tells it.\<close>

definition unprepared :: "execution_report \<Rightarrow> string \<Rightarrow> bool" where
  "unprepared rep org \<longleftrightarrow> failed_at rep (''org '' @ org) \<or> failed_at rep (team_target write_team org)"

text \<open>A repository the run failed to produce, as the report tells it.\<close>

definition unproduced :: "reconcile_plan \<Rightarrow> execution_report \<Rightarrow> string \<Rightarrow> bool" where
  "unproduced p rep fn \<longleftrightarrow>
     failed_at rep (''repo '' @ fn) \<or>
     (\<exists>d \<in> set (repos_to_create p) \<union> set (repos_to_migrate p). dr_full_name d = fn \<and> unprepared rep (dr_org d))"

lemma unprepared_mono: "extends a b \<Longrightarrow> unprepared a x \<Longrightarrow> unprepared b x"
  unfolding unprepared_def using failed_at_mono by blast

lemma unproduced_mono: "extends a b \<Longrightarrow> unproduced p a x \<Longrightarrow> unproduced p b x"
  unfolding unproduced_def using failed_at_mono unprepared_mono by blast

text \<open>
  The invariant of the preparing loops: whatever is in \<open>failed_orgs\<close> is in the failures too. A loop
  whose every step settles its item, for a notion of settled that growth keeps, settles them all.
\<close>

definition explained :: "progress \<Rightarrow> bool" where
  "explained st \<longleftrightarrow> (\<forall>org \<in> set (failed_orgs st). unprepared (report st) org)"

definition advances :: "progress \<Rightarrow> progress \<Rightarrow> bool" where
  "advances a b \<longleftrightarrow> extends (report a) (report b) \<and> explained b"

lemma foreach_settles:
  assumes "foreach f xs st n = (Val st', n')" and "explained st"
    and step: "\<And>x st n st' n'. x \<in> set xs \<Longrightarrow> explained st \<Longrightarrow> f x st n = (Val st', n') \<Longrightarrow>
      advances st st' \<and> settled x (report st')"
    and mono: "\<And>x a b. extends a b \<Longrightarrow> settled x a \<Longrightarrow> settled x b"
  shows "advances st st' \<and> (\<forall>x \<in> set xs. settled x (report st'))"
  using assms(1,2) step
proof (induction xs arbitrary: st n)
  case Nil
  then show ?case by (simp add: advances_def)
next
  case (Cons x xs)
  from Cons.prems(1) obtain st1 n1 where x: "f x st n = (Val st1, n1)"
    and xs: "foreach f xs st1 n1 = (Val st', n')" by (auto simp: abind_Val)
  from Cons.prems(3) [OF _ Cons.prems(2) x] have one: "advances st st1" "settled x (report st1)" by simp_all
  then have "explained st1" by (simp add: advances_def)
  from Cons.IH [OF xs this] Cons.prems(3)
  have rest: "advances st1 st'" "\<forall>x \<in> set xs. settled x (report st')" by (metis list.set_intros(2))+
  from one rest mono show ?case
    unfolding advances_def by (auto intro: extends_trans)
qed

lemma advances_same [simp]: "advances st st \<longleftrightarrow> explained st"
  by (simp add: advances_def)

lemma advances_report:
  "explained st \<Longrightarrow> extends (report st) rep \<Longrightarrow> advances st (st\<lparr>report := rep\<rparr>)"
  unfolding advances_def explained_def by (auto dest: unprepared_mono)

lemma advances_failure: "explained st \<Longrightarrow> advances st (handle_failure t e st)"
  unfolding handle_failure_def by (rule advances_report) (auto simp: extends_def)

lemma failed_at_failure [simp]: "failed_at (report (handle_failure t e st)) t"
  by (simp add: failed_at_def handle_failure_def)

lemma advances_fail_org:
  assumes "explained st" and "t = ''org '' @ org \<or> t = team_target write_team org"
  shows "advances st (handle_failure t e (fail_org org st))"
proof -
  let ?st = "handle_failure t e st"
  have "advances st ?st" by (rule advances_failure [OF assms(1)])
  moreover have "unprepared (report ?st) org" using assms(2) unfolding unprepared_def by auto
  moreover have "report (handle_failure t e (fail_org org st)) = report ?st"
    and "failed_orgs (handle_failure t e (fail_org org st)) = org # failed_orgs ?st"
    by (simp_all add: handle_failure_def fail_org_def)
  ultimately show ?thesis by (simp add: advances_def explained_def)
qed

lemma failed_at_fail_org [simp]: "failed_at (report (handle_failure t e (fail_org org st))) t"
  by (simp add: failed_at_def handle_failure_def)

lemmas outcome_rules = advances_report advances_failure advances_fail_org

text \<open>What each kind of item is settled by.\<close>

definition org_settled :: "execution_report \<Rightarrow> string \<Rightarrow> bool" where
  "org_settled rep org \<longleftrightarrow> org \<in> set (orgs_created rep) \<or> failed_at rep (''org '' @ org)"

definition team_settled :: "execution_report \<Rightarrow> string \<Rightarrow> bool" where
  "team_settled rep org \<longleftrightarrow> org \<in> set (teams_ensured rep) \<or> unprepared rep org"

definition review_team_settled :: "execution_report \<Rightarrow> string \<Rightarrow> bool" where
  "review_team_settled rep org \<longleftrightarrow>
     org \<in> set (review_teams_ensured rep) \<or> failed_at rep (team_target read_team org) \<or> unprepared rep org"

definition create_settled :: "execution_report \<Rightarrow> declared_repo \<Rightarrow> bool" where
  "create_settled rep d \<longleftrightarrow>
     dr_full_name d \<in> set (repos_created rep) \<or> failed_at rep (''repo '' @ dr_full_name d) \<or>
     unprepared rep (dr_org d)"

definition migrate_settled :: "execution_report \<Rightarrow> declared_repo \<Rightarrow> bool" where
  "migrate_settled rep d \<longleftrightarrow>
     dr_full_name d \<in> set (repos_migrated rep) \<or> failed_at rep (''repo '' @ dr_full_name d) \<or>
     unprepared rep (dr_org d)"

definition settings_settled :: "reconcile_plan \<Rightarrow> execution_report \<Rightarrow> settings_change \<Rightarrow> bool" where
  "settings_settled p rep c \<longleftrightarrow>
     sc_full_name c \<in> set (repos_configured rep) \<or> failed_at rep (''settings '' @ sc_full_name c) \<or>
     unproduced p rep (sc_full_name c)"

definition grant_settled :: "reconcile_plan \<Rightarrow> execution_report \<Rightarrow> collaborator_grant \<Rightarrow> bool" where
  "grant_settled p rep g \<longleftrightarrow>
     (cg_full_name g, cg_login g) \<in> set (collaborators_granted rep) \<or>
     failed_at rep (''collaborator '' @ cg_full_name g) \<or> unproduced p rep (cg_full_name g)"

definition hook_settled :: "reconcile_plan \<Rightarrow> execution_report \<Rightarrow> webhook_change \<Rightarrow> bool" where
  "hook_settled p rep c \<longleftrightarrow>
     (wc_full_name c, wc_url c) \<in> set (repos_hooked rep) \<or> failed_at rep (''hook '' @ wc_full_name c) \<or>
     unproduced p rep (wc_full_name c)"

lemmas settled_defs =
  org_settled_def team_settled_def review_team_settled_def create_settled_def migrate_settled_def
  settings_settled_def grant_settled_def hook_settled_def

lemma step_org_settles:
  assumes "explained st" and "step_org srv c org st n = (Val st', n')"
  shows "advances st st' \<and> org_settled (report st') org"
  using assms unfolding step_org_def try_step_Val org_settled_def
  by (elim disjE exE conjE) (simp_all add: outcome_rules extends_def subset_insertI del: append.simps)

lemma step_team_settles:
  assumes "explained st" and "step_team srv c user org st n = (Val st', n')"
  shows "advances st st' \<and> team_settled (report st') org"
  using assms unfolding step_team_def try_step_Val team_settled_def unprepared_def
  by (elim disjE exE conjE) (simp_all add: outcome_rules extends_def subset_insertI)

lemma step_review_team_settles:
  assumes "explained st" and "step_review_team srv c rvw org st n = (Val st', n')"
  shows "advances st st' \<and> review_team_settled (report st') org"
  using assms unfolding step_review_team_def try_step_Val review_team_settled_def
  by (elim disjE exE conjE) (simp_all add: outcome_rules extends_def subset_insertI)

lemma step_create_settles:
  assumes "explained st" and "step_create srv c d st n = (Val st', n')"
  shows "advances st st' \<and> create_settled (report st') d"
proof (cases "dr_org d \<in> set (failed_orgs st)")
  case True
  with assms show ?thesis by (auto simp: step_create_def explained_def create_settled_def)
next
  case False
  with assms show ?thesis unfolding step_create_def create_settled_def if_not_P [OF False] try_step_Val
    by (elim disjE exE conjE) (simp_all add: outcome_rules extends_def subset_insertI del: append.simps)
qed

lemma step_migrate_settles:
  assumes "explained st" and "step_migrate srv m t d st n = (Val st', n')"
  shows "advances st st' \<and> migrate_settled (report st') d"
proof (cases "dr_org d \<in> set (failed_orgs st)")
  case True
  with assms show ?thesis by (auto simp: step_migrate_def explained_def migrate_settled_def)
next
  case False
  with assms show ?thesis unfolding step_migrate_def migrate_settled_def if_not_P [OF False] Let_def
    by (auto simp: try_step_Val outcome_rules extends_def subset_insertI simp del: append.simps
        split: option.splits list.splits)
qed

lemma step_configure_settles:
  assumes "explained st" and "step_configure srv cf d failed ch st n = (Val st', n')"
  shows "advances st st' \<and> (sc_full_name ch \<in> set (repos_configured (report st')) \<or>
    failed_at (report st') (''settings '' @ sc_full_name ch) \<or> sc_full_name ch \<in> set failed)"
  using assms unfolding step_configure_def Let_def
  by (auto simp: try_step_Val outcome_rules extends_def subset_insertI simp del: append.simps
      split: if_splits option.splits)

lemma step_collaborator_settles:
  assumes "explained st" and "step_collaborator srv cf failed g st n = (Val st', n')"
  shows "advances st st' \<and> ((cg_full_name g, cg_login g) \<in> set (collaborators_granted (report st')) \<or>
    failed_at (report st') (''collaborator '' @ cg_full_name g) \<or> cg_full_name g \<in> set failed)"
  using assms unfolding step_collaborator_def Let_def
  by (auto simp: try_step_Val outcome_rules extends_def subset_insertI simp del: append.simps
      split: if_splits option.splits)

lemma step_hook_cases:
  assumes "step_hook srv cf declared ws failed ch st n = (Val st', n')"
  shows "(st' = st \<and> wc_full_name ch \<in> set failed)
    \<or> (\<exists>e. st' = handle_failure (''hook '' @ wc_full_name ch) e st)
    \<or> (\<exists>c h x l n1. cf = Some c \<and> by_url declared (wc_url ch) = Inr (Some h) \<and>
         secret_for ws (wc_url ch) = Inr (Some x) \<and>
         ensure_webhook srv c ch (hd_spec h) x (hd_event_comparison h) n1 = (Val l, n') \<and> st' = hooked ch st)"
proof -
  define bad where "bad = handle_failure (''hook '' @ wc_full_name ch)"
  note run = assms [unfolded step_hook_def Let_def, folded bad_def]
  show ?thesis
    unfolding bad_def [symmetric]
    using run by (auto simp: abind_Val try_step_Val split: if_splits option.splits) blast+
qed

lemma step_hook_settles:
  assumes "explained st" and "step_hook srv cf declared ws failed ch st n = (Val st', n')"
  shows "advances st st' \<and> ((wc_full_name ch, wc_url ch) \<in> set (repos_hooked (report st')) \<or>
    failed_at (report st') (''hook '' @ wc_full_name ch) \<or> wc_full_name ch \<in> set failed)"
  using step_hook_cases [OF assms(2)] assms(1)
  by (elim disjE exE conjE) (simp_all add: outcome_rules extends_def subset_insertI hooked_def del: append.simps)

text \<open>\<open>failed_repos\<close> holds only repositories the report explains.\<close>

lemma starts_with_remove: "starts_with p t \<Longrightarrow> p @ remove_prefix p t = t"
  by (metis append_take_drop_id remove_prefix_def starts_with_def)

lemma failed_repos_unproduced:
  assumes "explained st" and "fn \<in> set (failed_repos p st)"
  shows "unproduced p (report st) fn"
proof -
  from assms(2) consider
    (repo) t where "t \<in> fst ` set (failures (report st))" and "starts_with ''repo '' t"
      and "fn = remove_prefix ''repo '' t"
  | (org) d where "d \<in> set (repos_to_create p) \<union> set (repos_to_migrate p)" and "fn = dr_full_name d"
      and "dr_org d \<in> set (failed_orgs st)"
    by (auto simp: failed_repos_def)
  then show ?thesis
  proof cases
    case repo
    then show ?thesis unfolding unproduced_def failed_at_def using starts_with_remove by metis
  next
    case org
    with assms(1) show ?thesis unfolding unproduced_def explained_def by blast
  qed
qed

lemmas settled_mono = failed_at_mono unprepared_mono unproduced_mono

lemma extendsD:
  assumes "extends a b"
  shows "x \<in> set (orgs_created a) \<Longrightarrow> x \<in> set (orgs_created b)"
    and "x \<in> set (repos_created a) \<Longrightarrow> x \<in> set (repos_created b)"
    and "x \<in> set (repos_migrated a) \<Longrightarrow> x \<in> set (repos_migrated b)"
    and "x \<in> set (teams_ensured a) \<Longrightarrow> x \<in> set (teams_ensured b)"
    and "x \<in> set (review_teams_ensured a) \<Longrightarrow> x \<in> set (review_teams_ensured b)"
    and "x \<in> set (repos_configured a) \<Longrightarrow> x \<in> set (repos_configured b)"
    and "h \<in> set (repos_hooked a) \<Longrightarrow> h \<in> set (repos_hooked b)"
    and "g \<in> set (collaborators_granted a) \<Longrightarrow> g \<in> set (collaborators_granted b)"
  using assms by (auto simp: extends_def)

lemma settled_extends:
  assumes "extends a b"
  shows "org_settled a x \<Longrightarrow> org_settled b x"
    and "team_settled a x \<Longrightarrow> team_settled b x"
    and "review_team_settled a x \<Longrightarrow> review_team_settled b x"
    and "create_settled a d \<Longrightarrow> create_settled b d"
    and "migrate_settled a d \<Longrightarrow> migrate_settled b d"
    and "settings_settled p a c \<Longrightarrow> settings_settled p b c"
    and "grant_settled p a g \<Longrightarrow> grant_settled p b g"
    and "hook_settled p a h \<Longrightarrow> hook_settled p b h"
  unfolding settled_defs using extendsD [OF assms] settled_mono [OF assms] by blast+

lemma advances_trans: "advances a b \<Longrightarrow> advances b c \<Longrightarrow> advances a c"
  unfolding advances_def using extends_trans by blast

lemma advances_explained: "advances a b \<Longrightarrow> explained b"
  by (simp add: advances_def)

lemma set_teams_due:
  "set (teams_due p failed) =
     (dr_org ` (set (repos_to_create p) \<union> set (repos_to_migrate p)) \<union> set (teams_to_converge p)) - set failed"
  by (auto simp: teams_due_def)

lemma set_review_teams_due: "set (review_teams_due p failed) = set (review_teams_to_converge p) - set failed"
  by (auto simp: review_teams_due_def)

lemma run_prepare_settles:
  assumes "run_prepare srv cr p st n = (Val st', n')" and "explained st"
  shows "advances st st' \<and> (\<forall>org \<in> set (orgs_to_create p). org_settled (report st') org) \<and>
    (\<forall>org \<in> dr_org ` (set (repos_to_create p) \<union> set (repos_to_migrate p)) \<union> set (teams_to_converge p).
       team_settled (report st') org) \<and>
    (\<forall>org \<in> set (review_teams_to_converge p). review_team_settled (report st') org)"
proof -
  from assms(1) obtain st1 n1 st2 n2 where
    1: "foreach (step_org srv (admin_client cr)) (orgs_to_create p) st n = (Val st1, n1)" and
    2: "foreach (step_team srv (admin_client cr) (bot_username cr)) (teams_due p (failed_orgs st1)) st1 n1
          = (Val st2, n2)" and
    3: "foreach (step_review_team srv (admin_client cr) (reviewer p)) (review_teams_due p (failed_orgs st2)) st2 n2
          = (Val st', n')"
    unfolding run_prepare_def abind_Val by blast
  have a: "advances st st1 \<and> (\<forall>org \<in> set (orgs_to_create p). org_settled (report st1) org)"
    by (rule foreach_settles [OF 1 assms(2), where settled = "\<lambda>x rep. org_settled rep x"])
      (erule (1) step_org_settles, erule (1) settled_extends(1))
  then have e1: "explained st1" by (blast intro: advances_explained)
  have b: "advances st1 st2 \<and> (\<forall>org \<in> set (teams_due p (failed_orgs st1)). team_settled (report st2) org)"
    by (rule foreach_settles [OF 2 e1, where settled = "\<lambda>x rep. team_settled rep x"])
      (erule (1) step_team_settles, erule (1) settled_extends(2))
  then have e2: "explained st2" by (blast intro: advances_explained)
  have c: "advances st2 st' \<and> (\<forall>org \<in> set (review_teams_due p (failed_orgs st2)). review_team_settled (report st') org)"
    by (rule foreach_settles [OF 3 e2, where settled = "\<lambda>x rep. review_team_settled rep x"])
      (erule (1) step_review_team_settles, erule (1) settled_extends(3))
  have x1: "extends (report st1) (report st')" and x2: "extends (report st2) (report st')"
    using b c extends_trans unfolding advances_def by blast+
  have f1: "unprepared (report st') org" if "org \<in> set (failed_orgs st1)" for org
    using that e1 unprepared_mono [OF x1] unfolding explained_def by blast
  have f2: "unprepared (report st') org" if "org \<in> set (failed_orgs st2)" for org
    using that e2 unprepared_mono [OF x2] unfolding explained_def by blast
  have "advances st st'" using a b c advances_trans by blast
  moreover have "\<forall>org \<in> set (orgs_to_create p). org_settled (report st') org"
    using a settled_extends(1) [OF x1] by blast
  moreover have "team_settled (report st') org"
    if "org \<in> dr_org ` (set (repos_to_create p) \<union> set (repos_to_migrate p)) \<union> set (teams_to_converge p)" for org
    using that b settled_extends(2) [OF x2] f1 unfolding set_teams_due team_settled_def by blast
  moreover have "review_team_settled (report st') org" if "org \<in> set (review_teams_to_converge p)" for org
    using that c f2 unfolding set_review_teams_due review_team_settled_def by blast
  ultimately show ?thesis by blast
qed

lemma run_repos_settles:
  assumes "run_repos srv cr p st n = (Val st', n')" and "explained st"
  shows "advances st st' \<and> (\<forall>d \<in> set (repos_to_create p). create_settled (report st') d) \<and>
    (\<forall>d \<in> set (repos_to_migrate p). migrate_settled (report st') d)"
proof -
  from assms(1) obtain st1 n1 where
    1: "foreach (step_create srv (bot_client cr)) (repos_to_create p) st n = (Val st1, n1)" and
    2: "foreach (step_migrate srv (migrator cr) (migration_token cr)) (repos_to_migrate p) st1 n1 = (Val st', n')"
    unfolding run_repos_def abind_Val by blast
  have a: "advances st st1 \<and> (\<forall>d \<in> set (repos_to_create p). create_settled (report st1) d)"
    by (rule foreach_settles [OF 1 assms(2), where settled = "\<lambda>x rep. create_settled rep x"])
      (erule (1) step_create_settles, erule (1) settled_extends(4))
  then have e1: "explained st1" by (blast intro: advances_explained)
  have b: "advances st1 st' \<and> (\<forall>d \<in> set (repos_to_migrate p). migrate_settled (report st') d)"
    by (rule foreach_settles [OF 2 e1, where settled = "\<lambda>x rep. migrate_settled rep x"])
      (erule (1) step_migrate_settles, erule (1) settled_extends(5))
  then have "extends (report st1) (report st')" by (simp add: advances_def)
  with a b settled_extends(4) advances_trans show ?thesis by blast
qed

text \<open>An item of the configuring loops is done, failed, or about a repository in \<open>failed\<close>.\<close>

definition done_or_skipped ::
  "(execution_report \<Rightarrow> bool) \<Rightarrow> string \<Rightarrow> string \<Rightarrow> string list \<Rightarrow> execution_report \<Rightarrow> bool" where
  "done_or_skipped recorded kind fn failed rep \<longleftrightarrow> recorded rep \<or> failed_at rep (kind @ fn) \<or> fn \<in> set failed"

lemma done_or_skipped_extends:
  "extends a b \<Longrightarrow> (recorded a \<Longrightarrow> recorded b) \<Longrightarrow> done_or_skipped recorded kind fn failed a \<Longrightarrow>
     done_or_skipped recorded kind fn failed b"
  unfolding done_or_skipped_def using failed_at_mono by blast

lemma run_configure_settles:
  assumes "run_configure srv cr s hs p st n = (Val st', n')" and "explained st"
  shows "advances st st' \<and> (\<forall>c \<in> set (repos_to_configure p). settings_settled p (report st') c) \<and>
    (\<forall>g \<in> set (collaborators_to_grant p). grant_settled p (report st') g) \<and>
    (\<forall>c \<in> set (repos_to_hook p). hook_settled p (report st') c)"
proof -
  let ?failed = "failed_repos p st"
  let ?S = "\<lambda>c. done_or_skipped (\<lambda>rep. sc_full_name c \<in> set (repos_configured rep)) ''settings '' (sc_full_name c) ?failed"
  let ?G = "\<lambda>g. done_or_skipped (\<lambda>rep. (cg_full_name g, cg_login g) \<in> set (collaborators_granted rep))
              ''collaborator '' (cg_full_name g) ?failed"
  let ?H = "\<lambda>c. done_or_skipped (\<lambda>rep. (wc_full_name c, wc_url c) \<in> set (repos_hooked rep)) ''hook '' (wc_full_name c) ?failed"
  from assms(1) obtain st1 n1 st2 n2 declared where
    1: "foreach (step_configure srv (configurator cr) s ?failed) (repos_to_configure p) st n = (Val st1, n1)" and
    2: "foreach (step_collaborator srv (configurator cr) ?failed) (collaborators_to_grant p) st1 n1 = (Val st2, n2)" and
    3: "foreach (step_hook srv (configurator cr) declared (webhook_secrets cr) ?failed) (repos_to_hook p) st2 n2
          = (Val st', n')"
    unfolding run_configure_def Let_def abind_Val by auto
  have a: "advances st st1 \<and> (\<forall>c \<in> set (repos_to_configure p). ?S c (report st1))"
  proof (rule foreach_settles [OF 1 assms(2)])
    show "\<And>x a b. extends a b \<Longrightarrow> ?S x a \<Longrightarrow> ?S x b"
      by (rule done_or_skipped_extends) (auto dest: extendsD)
  qed (use step_configure_settles in \<open>unfold done_or_skipped_def, blast\<close>)
  then have e1: "explained st1" by (blast intro: advances_explained)
  have b: "advances st1 st2 \<and> (\<forall>g \<in> set (collaborators_to_grant p). ?G g (report st2))"
  proof (rule foreach_settles [OF 2 e1])
    show "\<And>x a b. extends a b \<Longrightarrow> ?G x a \<Longrightarrow> ?G x b"
      by (rule done_or_skipped_extends) (auto dest: extendsD)
  qed (use step_collaborator_settles in \<open>unfold done_or_skipped_def, blast\<close>)
  then have e2: "explained st2" by (blast intro: advances_explained)
  have c: "advances st2 st' \<and> (\<forall>c \<in> set (repos_to_hook p). ?H c (report st'))"
  proof (rule foreach_settles [OF 3 e2])
    show "\<And>x a b. extends a b \<Longrightarrow> ?H x a \<Longrightarrow> ?H x b"
      by (rule done_or_skipped_extends) (auto dest: extendsD)
  qed (use step_hook_settles in \<open>unfold done_or_skipped_def, blast\<close>)
  have adv: "advances st st'" using a b c advances_trans by blast
  have x1: "extends (report st1) (report st')" and x2: "extends (report st2) (report st')"
    using b c extends_trans unfolding advances_def by blast+
  have failed: "unproduced p (report st') fn" if "fn \<in> set ?failed" for fn
    using failed_repos_unproduced [OF assms(2) that] unproduced_mono adv unfolding advances_def by blast
  have "settings_settled p (report st') d" if "d \<in> set (repos_to_configure p)" for d
    using that a failed extendsD(6) [OF x1] failed_at_mono [OF x1]
    unfolding settings_settled_def done_or_skipped_def by blast
  moreover have "grant_settled p (report st') g" if "g \<in> set (collaborators_to_grant p)" for g
    using that b failed extendsD(8) [OF x2] failed_at_mono [OF x2]
    unfolding grant_settled_def done_or_skipped_def by blast
  moreover have "hook_settled p (report st') d" if "d \<in> set (repos_to_hook p)" for d
    using that c failed unfolding hook_settled_def done_or_skipped_def by blast
  ultimately show ?thesis using adv by blast
qed

text \<open>The ledger of a run: everything the plan asked for is recorded, failed, or explained.\<close>

definition ledger :: "reconcile_plan \<Rightarrow> execution_report \<Rightarrow> bool" where
  "ledger p rep \<longleftrightarrow>
     (\<forall>org \<in> set (orgs_to_create p). org_settled rep org) \<and>
     (\<forall>org \<in> dr_org ` (set (repos_to_create p) \<union> set (repos_to_migrate p)) \<union> set (teams_to_converge p).
        team_settled rep org) \<and>
     (\<forall>org \<in> set (review_teams_to_converge p). review_team_settled rep org) \<and>
     (\<forall>d \<in> set (repos_to_create p). create_settled rep d) \<and>
     (\<forall>d \<in> set (repos_to_migrate p). migrate_settled rep d) \<and>
     (\<forall>c \<in> set (repos_to_configure p). settings_settled p rep c) \<and>
     (\<forall>g \<in> set (collaborators_to_grant p). grant_settled p rep g) \<and>
     (\<forall>c \<in> set (repos_to_hook p). hook_settled p rep c)"

lemma execute_ledger_holds:
  assumes "execute srv cr s hs p n = (Val rep, n')"
  shows "ledger p rep"
proof -
  let ?st0 = "\<lparr>report = empty_report, failed_orgs = []\<rparr>"
  from assms obtain st1 n1 st2 n2 st3 where
    1: "run_prepare srv cr p ?st0 n = (Val st1, n1)" and
    2: "run_repos srv cr p st1 n1 = (Val st2, n2)" and
    3: "run_configure srv cr s hs p st2 n2 = (Val st3, n')" and rep: "rep = report st3"
    unfolding execute_def abind_Val by auto
  note a = run_prepare_settles [OF 1]
  have e0: "explained ?st0" by (simp add: explained_def)
  with a have e1: "explained st1" by (blast intro: advances_explained)
  note b = run_repos_settles [OF 2 e1]
  then have e2: "explained st2" by (blast intro: advances_explained)
  note c = run_configure_settles [OF 3 e2]
  have x2: "extends (report st2) rep" using c by (simp add: advances_def rep)
  have x1: "extends (report st1) rep" using b extends_trans [OF _ x2] by (simp add: advances_def)
  note up = settled_extends(1-3) [OF x1] settled_extends(4,5) [OF x2]
  show ?thesis
    unfolding ledger_def using a [OF e0] b c up rep by blast
qed

text \<open>C2. Every item of the plan is accounted for: when a run returns, each one is in the report as
  done, or is in the failures under its own name, or belongs to an organization or repository whose
  own failure the report names.\<close>

theorem execute_accounts:
  assumes "execute srv cr s hs p n = (Val rep, n')"
  shows "ledger p rep"
  by (rule execute_ledger_holds [OF assms])

lemma no_failure:
  assumes "failures rep = []"
  shows "\<not> failed_at rep t" and "\<not> unprepared rep org" and "\<not> unproduced p rep fn"
  using assms by (simp_all add: failed_at_def unprepared_def unproduced_def)

text \<open>A run that reports no failure did all of its plan.\<close>

theorem execute_ok_complete:
  assumes "execute srv cr s hs p n = (Val rep, n')" and "report_ok rep"
  shows "set (orgs_to_create p) \<subseteq> set (orgs_created rep)
    \<and> dr_full_name ` set (repos_to_create p) \<subseteq> set (repos_created rep)
    \<and> dr_full_name ` set (repos_to_migrate p) \<subseteq> set (repos_migrated rep)
    \<and> dr_org ` (set (repos_to_create p) \<union> set (repos_to_migrate p)) \<union> set (teams_to_converge p)
        \<subseteq> set (teams_ensured rep)
    \<and> set (review_teams_to_converge p) \<subseteq> set (review_teams_ensured rep)
    \<and> sc_full_name ` set (repos_to_configure p) \<subseteq> set (repos_configured rep)
    \<and> (\<lambda>g. (cg_full_name g, cg_login g)) ` set (collaborators_to_grant p) \<subseteq> set (collaborators_granted rep)
    \<and> (\<lambda>c. (wc_full_name c, wc_url c)) ` set (repos_to_hook p) \<subseteq> set (repos_hooked rep)"
proof -
  have "failures rep = []" using assms(2) by (simp add: report_ok_def)
  note none = no_failure [OF this]
  from execute_ledger_holds [OF assms(1)] show ?thesis
    unfolding ledger_def settled_defs by (auto simp: none)
qed

section \<open>What is recorded as converged was read back converged\<close>

definition read_settings :: "'s server \<Rightarrow> credentials \<Rightarrow> repo_settings \<Rightarrow> string \<Rightarrow> bool" where
  "read_settings srv cr s fn \<longleftrightarrow>
     (\<exists>c change live n n'. configurator cr = Some c \<and> sc_full_name change = fn \<and>
        get_repo srv c (sc_org change) (sc_name change) n = (Val (Some live), n') \<and>
        \<not> settings_needs_convergence (Some live) s)"

definition read_writer :: "'s server \<Rightarrow> credentials \<Rightarrow> string \<times> string \<Rightarrow> bool" where
  "read_writer srv cr x \<longleftrightarrow>
     (\<exists>c g n n' n''. configurator cr = Some c \<and> (cg_full_name g, cg_login g) = x \<and>
        is_collaborator srv c (cg_org g) (cg_name g) (cg_login g) n = (Val True, n') \<and>
        get_collaborator_permission srv c (cg_org g) (cg_name g) (cg_login g) n' = (Val ''write'', n''))"

definition read_hook ::
  "'s server \<Rightarrow> credentials \<Rightarrow> hook_declaration list \<Rightarrow> string \<times> json \<Rightarrow> bool" where
  "read_hook srv cr hs x \<longleftrightarrow>
     (\<exists>c change h hooks live n n'. configurator cr = Some c \<and> (wc_full_name change, wc_url change) = x \<and>
        h \<in> set hs \<and> py_eq (ws_url (hd_spec h)) (wc_url change) \<and>
        list_hooks srv c (wc_org change) (wc_name change) n = (Val hooks, n') \<and>
        find_declared_hook hooks (hd_spec h) = Inr (Some live) \<and>
        webhook_needs_convergence (Some live) (hd_spec h) (hd_event_comparison h) = Inr False)"

definition read_back_report ::
  "'s server \<Rightarrow> credentials \<Rightarrow> repo_settings \<Rightarrow> hook_declaration list \<Rightarrow> execution_report \<Rightarrow> bool" where
  "read_back_report srv cr s hs rep \<longleftrightarrow>
     (\<forall>fn \<in> set (repos_configured rep). read_settings srv cr s fn) \<and>
     (\<forall>x \<in> set (collaborators_granted rep). read_writer srv cr x) \<and>
     (\<forall>x \<in> set (repos_hooked rep). read_hook srv cr hs x)"

text \<open>The preparing loops touch none of the three lists.\<close>

definition config_lists :: "progress \<Rightarrow> string list \<times> (string \<times> string) list \<times> (string \<times> json) list" where
  "config_lists st =
     (repos_configured (report st), collaborators_granted (report st), repos_hooked (report st))"

lemma config_lists_simps [simp]:
  "config_lists (handle_failure t e st) = config_lists st"
  "config_lists (fail_org org st) = config_lists st"
  by (simp_all add: config_lists_def handle_failure_def fail_org_def)

lemma prepare_steps_config:
  "step_org srv c org st n = (Val st', n') \<Longrightarrow> config_lists st' = config_lists st"
  "step_team srv c user org st n = (Val st', n') \<Longrightarrow> config_lists st' = config_lists st"
  "step_review_team srv c rvw org st n = (Val st', n') \<Longrightarrow> config_lists st' = config_lists st"
  "step_create srv c d st n = (Val st', n') \<Longrightarrow> config_lists st' = config_lists st"
  "step_migrate srv m t d st n = (Val st', n') \<Longrightarrow> config_lists st' = config_lists st"
  by (auto simp: step_org_def step_team_def step_review_team_def step_create_def step_migrate_def Let_def
      try_step_Val split: if_splits option.splits list.splits) (simp_all add: config_lists_def)

lemma foreach_config:
  assumes "foreach f xs st n = (Val st', n')"
    and "\<And>x st n st' n'. f x st n = (Val st', n') \<Longrightarrow> config_lists st' = config_lists st"
  shows "config_lists st' = config_lists st"
  by (rule foreach_inv [OF assms(1), where I = "\<lambda>st'. config_lists st' = config_lists st"])
    (auto dest: assms(2))

lemma run_prepare_config: "run_prepare srv cr p st n = (Val st', n') \<Longrightarrow> config_lists st' = config_lists st"
  unfolding run_prepare_def abind_Val by (metis foreach_config prepare_steps_config(1-3))

lemma run_repos_config: "run_repos srv cr p st n = (Val st', n') \<Longrightarrow> config_lists st' = config_lists st"
  unfolding run_repos_def abind_Val by (metis foreach_config prepare_steps_config(4,5))

text \<open>Each configuring step keeps the claim, because its \<open>ensure\<close> returned.\<close>

lemma read_back_failure [simp]:
  "read_back_report srv cr s hs (report (handle_failure t e st)) \<longleftrightarrow> read_back_report srv cr s hs (report st)"
  by (simp add: read_back_report_def handle_failure_def)

lemma step_configure_reads:
  assumes "read_back_report srv cr s hs (report st)"
    and "step_configure srv (configurator cr) s failed ch st n = (Val st', n')"
  shows "read_back_report srv cr s hs (report st')"
proof -
  have "read_settings srv cr s (sc_full_name ch)"
    if "ensure_settings srv c ch s n = (Val l, n')" and "configurator cr = Some c" for c l n n'
    using settings_write.returns_settled [of srv c "(ch, s)" n l n'] that
    by (auto simp: read_settings_def)
  with assms show ?thesis
    unfolding step_configure_def Let_def
    by (auto simp: try_step_Val read_back_report_def handle_failure_def split: if_splits option.splits)
qed

lemma step_collaborator_reads:
  assumes "read_back_report srv cr s hs (report st)"
    and "step_collaborator srv (configurator cr) failed g st n = (Val st', n')"
  shows "read_back_report srv cr s hs (report st')"
proof -
  have "read_writer srv cr (cg_full_name g, cg_login g)"
    if "ensure_collaborator srv c g n = (Val l, n')" and "configurator cr = Some c" for c l n n'
    using collaborator_write.returns_settled [OF that(1)] that(2)
    by (fastforce simp: read_writer_def collaborator_needs_grant_iff look_collaborator_def abind_Val)
  with assms show ?thesis
    unfolding step_collaborator_def Let_def
    by (auto simp: try_step_Val read_back_report_def handle_failure_def split: if_splits option.splits)
qed

lemma by_url_declared:
  assumes "declared_by_url hs = Inr declared" and "by_url declared url = Inr (Some h)"
  shows "h \<in> set hs \<and> py_eq (ws_url (hd_spec h)) url"
  using assms by (auto simp: declared_by_url_def by_url_def find_Some_iff rev_map split: if_splits)
    (metis nth_mem length_rev set_rev)

lemma step_hook_reads:
  assumes "read_back_report srv cr s hs (report st)" and "declared_by_url hs = Inr declared"
    and "step_hook srv (configurator cr) declared ws failed ch st n = (Val st', n')"
  shows "read_back_report srv cr s hs (report st')"
proof -
  have "read_hook srv cr hs (wc_full_name ch, wc_url ch)"
    if "ensure_webhook srv c ch (hd_spec h) x (hd_event_comparison h) n = (Val l, n')"
      and "configurator cr = Some c" and "by_url declared (wc_url ch) = Inr (Some h)" for c h x l n n'
    using webhook_write.returns_settled [of srv c "(ch, hd_spec h, x, hd_event_comparison h)" n l n']
      that by_url_declared [OF assms(2) that(3)]
    by (fastforce simp: read_hook_def)
  with step_hook_cases [OF assms(3)] assms(1) show ?thesis
    by (elim disjE exE conjE) (simp_all add: read_back_report_def hooked_def handle_failure_def)
qed


end
