(* ===== verification/ForgeSamples.thy ===== *)
theory ForgeSamples
  imports ForgeExecuteFacts
begin

text \<open>
  One small configuration document, the reads of a forge that falls short of it, and a forge that
  applies every write: the concrete inputs at which the forge properties are instantiated.
\<close>

definition sample_gitea :: json where
  "sample_gitea = JObj
     [(''organizations'', JObj [(''acme'', JObj [(''repositories'', JArr
         [JObj [(''name'', JStr ''site''), (''private'', JBool False)],
          JObj [(''name'', JStr ''lib''), (''migrate_from'', JStr ''github:me/lib'')],
          JObj [(''name'', JStr ''notes''), (''origin'', JStr ''native''), (''writers'', JArr [JStr ''dev''])]])])]),
      (''repository_settings'', JObj
         [(''default_merge_style'', JStr ''squash''), (''has_pull_requests'', JBool True),
          (''allow_merge_commits'', JBool False), (''allow_squash_merge'', JBool True),
          (''allow_rebase'', JBool False), (''allow_rebase_explicit'', JBool False),
          (''allow_fast_forward_only_merge'', JBool False),
          (''default_delete_branch_after_merge'', JBool True), (''has_wiki'', JBool False),
          (''has_projects'', JBool False)]),
      (''webhooks'', JArr [JObj
         [(''url'', JStr ''https://n8n/hook''), (''content_type'', JStr ''json''),
          (''events'', JArr [JStr ''push'', JStr ''pull_request_only'']), (''active'', JBool True),
          (''branch_filter'', JStr ''*''), (''type'', JStr ''gitea''), (''secret_key'', JStr ''a.b''),
          (''event_comparison'', JStr ''equality'')]])]"

definition sample_common :: json where
  "sample_common = JObj
     [(''apps'', JObj
        [(''services'', JObj [(''core'', JObj [(''gitea'', sample_gitea)])]),
         (''auth'', JObj [(''identities'', JObj [(''dev'', JStr ''alice'')])])])]"

definition sample_decls :: decls where
  "sample_decls =
     [(''acme'',
       [\<lparr>rs_name = ''site'', rs_migrate_from = JNull, rs_private = False, rs_native = False, rs_writers = []\<rparr>,
        \<lparr>rs_name = ''lib'', rs_migrate_from = JStr ''github:me/lib'', rs_private = True, rs_native = False,
         rs_writers = []\<rparr>,
        \<lparr>rs_name = ''notes'', rs_migrate_from = JNull, rs_private = True, rs_native = True,
         rs_writers = [''alice'']\<rparr>])]"

definition sample_settings :: repo_settings where
  "sample_settings =
     \<lparr>default_merge_style = JStr ''squash'', has_pull_requests = JBool True, allow_merge_commits = JBool False,
      allow_squash_merge = JBool True, allow_rebase = JBool False, allow_rebase_explicit = JBool False,
      allow_fast_forward_only_merge = JBool False, default_delete_branch_after_merge = JBool True,
      has_wiki = JBool False, has_projects = JBool False\<rparr>"

definition sample_hook :: hook_declaration where
  "sample_hook =
     \<lparr>hd_spec = \<lparr>ws_url = JStr ''https://n8n/hook'', ws_content_type = JStr ''json'',
                 ws_events = [JStr ''push'', JStr ''pull_request_only''], ws_active = JBool True,
                 ws_branch_filter = JStr ''*'', ws_type = JStr ''gitea''\<rparr>,
      hd_secret_key = ''a.b'', hd_event_comparison = ''equality'', hd_verify_hint = []\<rparr>"

lemma sample_load_declaration: "load_declaration sample_common = Inr sample_decls"
  by code_simp

lemma sample_load_settings: "load_settings sample_common = Inr sample_settings"
  by code_simp

lemma sample_load_webhooks: "load_webhooks sample_common = Inr [sample_hook]"
  by code_simp

text \<open>The forge holds the native repository only, with the permissive defaults.\<close>

definition sample_reads :: forge_reads where
  "sample_reads =
     \<lparr>existing_orgs = [''stray''], existing_repos = [(''acme/notes'', True)],
      existing_teams = [(''acme'', None)],
      existing_repo_settings = [(''acme/site'', None), (''acme/lib'', None),
        (''acme/notes'', Some [(''default_merge_style'', JStr ''merge'')])],
      existing_repo_hooks = [(''acme/site'', None), (''acme/lib'', None), (''acme/notes'', Some (JArr []))],
      existing_repo_refs = [(''acme/notes'', True)],
      existing_review_teams = Some [(''acme'', None, [])],
      existing_collaborators = [(''acme/notes'', Some [(''alice'', False, ''none'')])]\<rparr>"

definition sample_plan :: reconcile_plan where
  "sample_plan =
     (case plan_reconcile sample_decls sample_reads sample_settings [sample_hook] (Some ''ravi'') of
        Inr p \<Rightarrow> p
      | Inl _ \<Rightarrow> \<lparr>orgs_to_create = [], repos_to_create = [], repos_to_migrate = [], teams_to_converge = [],
                 review_teams_to_converge = [], reviewer = None, repos_to_configure = [],
                 repos_to_hook = [], collaborators_to_grant = [], undeclared_orgs = [],
                 undeclared_repos = [], visibility_drifts = [], unfilled_migrations = [],
                 absent_native_repos = [], emptied_native_repos = [], lost_content_repos = []\<rparr>)"

lemma sample_plan_counts:
  "map length [orgs_to_create sample_plan, teams_to_converge sample_plan, review_teams_to_converge sample_plan]
     = [1, 1, 1]
   \<and> map dr_full_name (repos_to_create sample_plan) = [''acme/site'']
   \<and> map dr_full_name (repos_to_migrate sample_plan) = [''acme/lib'']
   \<and> length (repos_to_configure sample_plan) = 3 \<and> length (repos_to_hook sample_plan) = 3
   \<and> length (collaborators_to_grant sample_plan) = 1"
  by code_simp

lemma sample_plan_ok:
  "plan_reconcile sample_decls sample_reads sample_settings [sample_hook] (Some ''ravi'') = Inr sample_plan"
proof -
  have "isl (plan_reconcile sample_decls sample_reads sample_settings [sample_hook] (Some ''ravi'')) = False"
    by code_simp
  then show ?thesis
    by (cases "plan_reconcile sample_decls sample_reads sample_settings [sample_hook] (Some ''ravi'')")
      (simp_all add: sample_plan_def)
qed

section \<open>Witnesses of the plan's properties\<close>

lemma plan_noop_iff_matches_witness:
  "is_noop sample_plan \<longleftrightarrow> matches sample_decls sample_reads sample_settings [sample_hook] (Some ''ravi'')"
  by (rule plan_noop_iff_matches [OF sample_plan_ok])

lemma plan_acts_on_declared_witness:
  "set (undeclared_orgs sample_plan) = {''stray''} \<and> acted_repos sample_plan \<inter> set (undeclared_repos sample_plan) = {}"
proof -
  have "undeclared_orgs sample_plan = [''stray'']" by code_simp
  then show ?thesis using plan_acts_on_declared [OF sample_plan_ok] by simp
qed

lemma absent_repo_one_route_witness:
  "map (plan_route sample_plan \<circ> repo_fn) (declared_items sample_decls) =
     [(True, False, False), (False, True, False), (False, False, False)]"
proof -
  have "distinct (map repo_fn (declared_items sample_decls))" by code_simp
  note route = absent_repo_one_route [OF sample_load_declaration sample_plan_ok this]
  have "plan_route sample_plan (repo_fn i) =
      (if held sample_reads (repo_fn i) then (False, False, False)
       else if has_source (snd i) then (False, True, False)
       else if rs_native (snd i) then (False, False, True) else (True, False, False))"
    if "i \<in> set (declared_items sample_decls)" for i
    by (rule route [OF that])
  then have "map (plan_route sample_plan \<circ> repo_fn) (declared_items sample_decls) =
      map (\<lambda>i. if held sample_reads (repo_fn i) then (False, False, False)
       else if has_source (snd i) then (False, True, False)
       else if rs_native (snd i) then (False, False, True) else (True, False, False)) (declared_items sample_decls)"
    by simp
  also have "\<dots> = [(True, False, False), (False, True, False), (False, False, False)]" by code_simp
  finally show ?thesis .
qed

section \<open>A forge that applies every write\<close>

definition ends_with :: "string \<Rightarrow> string \<Rightarrow> bool" where
  "ends_with suffix s = starts_with (rev suffix) (rev s)"

definition full_read_team :: obj where
  "full_read_team = (''id'', JInt 8) # team_body read_team"

definition applying_forge :: "nat server" where
  "applying_forge rq k =
     (Response 200 (Json
        (if rq_meth rq \<noteq> GET then JObj []
         else if ends_with ''/teams?page=1&limit=50'' (rq_path rq)
         then JArr [JObj full_write_team, JObj full_read_team]
         else if ends_with ''/hooks'' (rq_path rq) then JArr [JObj (stored_hook (hd_spec sample_hook))]
         else if ends_with ''/permission'' (rq_path rq) then JObj [(''permission'', JStr ''write'')]
         else JObj (settings_payload sample_settings))), k + 1)"

definition sample_credentials :: credentials where
  "sample_credentials =
     (let password = basic_auth_client ''https://git.example'' ''root'' ''pw'' in
      \<lparr>admin_client = sample_client, bot_client = gitea_client ''https://git.example'' ''t1'',
       bot_username = ''bot'', migration_token = Some ''pat'',
       webhook_secrets = Some [(JStr ''https://n8n/hook'', Some ''s3cret'')],
       migrator = Some password, configurator = Some password\<rparr>)"

definition empty_plan :: reconcile_plan where
  "empty_plan =
     \<lparr>orgs_to_create = [], repos_to_create = [], repos_to_migrate = [], teams_to_converge = [],
      review_teams_to_converge = [], reviewer = None, repos_to_configure = [], repos_to_hook = [],
      collaborators_to_grant = [], undeclared_orgs = [], undeclared_repos = [], visibility_drifts = [],
      unfilled_migrations = [], absent_native_repos = [], emptied_native_repos = [],
      lost_content_repos = []\<rparr>"

text \<open>Two small plans: an organization with one repository, and one repository to converge.\<close>

definition create_plan :: reconcile_plan where
  "create_plan = empty_plan
     \<lparr>orgs_to_create := [''acme''],
      repos_to_create := [\<lparr>dr_org = ''acme'', dr_name = ''site'', dr_private = False, dr_migrate_from = JNull\<rparr>]\<rparr>"

definition converge_plan :: reconcile_plan where
  "converge_plan = empty_plan
     \<lparr>repos_to_configure := [\<lparr>sc_org = ''acme'', sc_name = ''site'', sc_changes = [], sc_absent = True\<rparr>],
      repos_to_hook := [\<lparr>wc_org = ''acme'', wc_name = ''site'', wc_hook_id = JNull, wc_changes = [],
                         wc_absent = True, wc_url = JStr ''https://n8n/hook''\<rparr>]\<rparr>"

definition sample_run :: "reconcile_plan \<Rightarrow> execution_report outcome \<times> (request, nat) net" where
  "sample_run p = execute applying_forge sample_credentials sample_settings [sample_hook] p sample_net"

lemma create_run:
  "fst (sample_run create_plan) =
     Val (empty_report\<lparr>orgs_created := [''acme''], teams_ensured := [''acme''], repos_created := [''acme/site'']\<rparr>)"
  by code_simp

lemma converge_run:
  "fst (sample_run converge_plan) =
     Val (empty_report\<lparr>repos_configured := [''acme/site''], repos_hooked := [(''acme/site'', JStr ''https://n8n/hook'')]\<rparr>)"
  by code_simp

lemma sample_run_Val:
  assumes "fst (sample_run p) = Val rep"
  shows "execute applying_forge sample_credentials sample_settings [sample_hook] p sample_net =
    (Val rep, snd (sample_run p))"
  using assms unfolding sample_run_def by (metis prod.collapse)

section \<open>Witnesses of the run's properties\<close>

lemma execute_accounts_witness:
  "ledger create_plan
     (empty_report\<lparr>orgs_created := [''acme''], teams_ensured := [''acme''], repos_created := [''acme/site'']\<rparr>)"
  by (rule execute_accounts [OF sample_run_Val [OF create_run]])

lemma execute_ok_complete_witness:
  "dr_full_name ` set (repos_to_create create_plan) \<subseteq> {''acme/site''}"
proof -
  have "report_ok (empty_report\<lparr>orgs_created := [''acme''], teams_ensured := [''acme''],
      repos_created := [''acme/site'']\<rparr>)" by code_simp
  from execute_ok_complete [OF sample_run_Val [OF create_run] this] show ?thesis by simp
qed


lemma execute_never_raises_witness:
  "no_raise (execute applying_forge sample_credentials sample_settings [sample_hook] sample_plan)"
  by (rule execute_never_raises [OF sample_plan_ok]) (simp add: sample_hook_def)

lemma execute_noop_witness:
  "execute applying_forge sample_credentials sample_settings [sample_hook] empty_plan sample_net =
     (Val empty_report, sample_net)"
  by (rule execute_noop) (simp_all add: empty_plan_def is_noop_def sample_hook_def)

end
