(* ===== verification/GiteaFacts.thy ===== *)
theory GiteaFacts
  imports GiteaClient
begin

text \<open>
  What the client of \<open>toolkit/features/gitea_client.py\<close> guarantees on its own: a listing that is
  paginated returns the whole collection the forge serves, the hook listing does not paginate, and
  the scopes the administrator's token needs are derived from the methods it performs.
\<close>

section \<open>Pagination\<close>

text \<open>A forge that serves a collection page by page, and its first \<open>default_page\<close> items to a
  request that names no page.\<close>

definition default_page :: nat where
  "default_page = 30"

definition paging_forge :: "string \<Rightarrow> json list \<Rightarrow> unit server" where
  "paging_forge ep xs rq w =
     (Response 200 (Json (JArr
        (if rq_path rq = ep then take default_page xs
         else case find (\<lambda>p. rq_path rq = page_endpoint ep p) [1 .. 1 + int (length xs div page_size)] of
                None \<Rightarrow> []
              | Some p \<Rightarrow> page_of xs p))), w)"

lemma page_endpoint_inj:
  assumes "1 \<le> p" and "1 \<le> q"
  shows "page_endpoint ep p = page_endpoint ep q \<longleftrightarrow> p = q"
  using assms by (simp add: page_endpoint_def show_int_inj_nonneg)

lemma page_endpoint_neq: "page_endpoint ep p \<noteq> ep"
  by (simp add: page_endpoint_def)

lemma find_unique:
  assumes "x \<in> set xs" and "\<And>y. y \<in> set xs \<Longrightarrow> P y \<longleftrightarrow> y = x"
  shows "find P xs = Some x"
  using assms by (induction xs) auto

lemma page_of_beyond:
  assumes "1 + int (length xs div page_size) < p"
  shows "page_of xs p = []"
proof -
  have "length xs div page_size < nat (p - 1)" using assms by linarith
  then have "length xs < page_size * nat (p - 1)"
    by (simp add: page_size_def)
  then show ?thesis by (simp add: page_of_def)
qed

lemma paging_forge_serves: "serves (paging_forge ep xs) c ep None xs"
proof -
  have "paging_forge ep xs (mk_request c (timeout c) GET (page_endpoint ep p) None) w =
      (Response 200 (Json (JArr (page_of xs p))), w)" if p: "1 \<le> p" for p w
  proof (cases "p \<le> 1 + int (length xs div page_size)")
    case True
    have "find (\<lambda>q. page_endpoint ep p = page_endpoint ep q) [1 .. 1 + int (length xs div page_size)] = Some p"
      using p True by (intro find_unique) (auto simp: page_endpoint_inj)
    then show ?thesis by (simp add: paging_forge_def page_endpoint_neq)
  next
    case False
    then have "find (\<lambda>q. page_endpoint ep p = page_endpoint ep q) [1 .. 1 + int (length xs div page_size)] = None"
      using p by (auto simp: find_None_iff page_endpoint_inj)
    with False show ?thesis by (simp add: paging_forge_def page_endpoint_neq page_of_beyond)
  qed
  then show ?thesis by (simp add: serves_def wrap_page_def)
qed

text \<open>Pagination is exhaustive: on a forge that serves a collection page by page, a paginated
  consumer ends exactly as if it had been given the whole collection at once, and a listing returns
  the collection, neither more nor less, with the forge unchanged. The loop returns whenever its
  bound exceeds the number of full pages.\<close>

theorem paginate_exhaustive:
  assumes "serves srv c ep key xs" and "length xs div page_size < budget n"
  shows "fst (paginate srv c ep key f acc n) = consume_all f xs acc
    \<and> world (snd (paginate srv c ep key f acc n)) = world n
    \<and> fst (paginate_list srv c ep key n) = Val xs"
proof -
  have all: "fst (paginate srv c ep key g a n) = consume_all g xs a \<and>
      world (snd (paginate srv c ep key g a n)) = world n" for g :: "json \<Rightarrow> 'b \<Rightarrow> exn + 'b step" and a
    using page_loop_serves [OF assms(1), of 1 "budget n" g a n] assms(2)
    by (simp add: paginate_def with_budget_def)
  have all': "fst (paginate srv c ep key (collect Inr) [] n) = consume_all (collect Inr) xs []"
    using page_loop_serves [OF assms(1), of 1 "budget n" "collect Inr" "[]" n] assms(2)
    by (simp add: paginate_def with_budget_def)
  have "consume (collect Inr) xs ys = Inr (More (ys @ xs))" for ys
    by (induction xs arbitrary: ys) (simp_all add: collect_def)
  then have "consume_all (collect Inr) xs [] = Val xs"
    by (simp add: consume_all_def step_value_def)
  with all' show ?thesis
    using page_loop_serves [OF assms(1), of 1 "budget n" f acc n] assms(2)
    by (simp add: paginate_def with_budget_def paginate_list_def)
qed

lemma paginate_exhaustive_witness:
  "fst (paginate_list (paging_forge ''/orgs/acme/teams'' (replicate 120 JNull)) (gitea_client ''https://git'' ''t'')
     ''/orgs/acme/teams'' None \<lparr>sent = [], world = (), budget = 3\<rparr>) = Val (replicate 120 JNull)"
proof -
  have enough: "length (replicate 120 JNull) div page_size < budget (\<lparr>sent = [], world = (), budget = 3\<rparr> :: (request, unit) net)"
    by (simp add: page_size_def)
  show ?thesis
    by (rule paginate_exhaustive [OF paging_forge_serves enough, THEN conjunct2, THEN conjunct2])
qed

section \<open>The hook listing is one page\<close>

definition many_hooks :: "nat \<Rightarrow> json list" where
  "many_hooks k =
     map (\<lambda>i. JObj [(''id'', JInt (int i)), (''config'', JObj [(''url'', JStr (show_nat i))])]) [0 ..< k]"

text \<open>\<open>list_hooks\<close> sends one request and returns one page: on a forge that holds thirty-one hooks
  and serves all of them to a paginated read, it answers the first thirty.\<close>

theorem list_hooks_first_page:
  "fst (list_hooks (paging_forge ''/repos/acme/site/hooks'' (many_hooks 31)) c ''acme'' ''site'' n) =
     Val (JArr (take 30 (many_hooks 31)))
   \<and> serves (paging_forge ''/repos/acme/site/hooks'' (many_hooks 31)) c ''/repos/acme/site/hooks'' None (many_hooks 31)
   \<and> length (many_hooks 31) = 31"
proof -
  have "many_hooks 31 \<noteq> []" by (simp add: many_hooks_def)
  then show ?thesis
    using paging_forge_serves
    by (simp add: list_hooks_def send_def request_timed_def call_def abind_def read_reply_def resp_ok_def
        act_simps paging_forge_def repo_path_def default_page_def py_or_def many_hooks_def)
qed

section \<open>Scopes\<close>

lemma derive_scopes_Inr:
  "derive_scopes by_method methods = Inr ss \<longleftrightarrow>
     (\<forall>m \<in> set methods. map_of by_method m \<noteq> None) \<and>
     ss = concat (map (\<lambda>m. the (map_of by_method m)) methods)"
  by (auto simp: derive_scopes_def list_ex_iff)

text \<open>The administrator's scopes exist, cover every method the administrator performs, and hold
  neither a repository write nor an administration write.\<close>

theorem admin_scopes_derived:
  "case required_admin_scopes of
     Inl _ \<Rightarrow> False
   | Inr ss \<Rightarrow>
       list_all (\<lambda>m. list_all (\<lambda>s. s \<in> set ss) (the (map_of scope_by_method m))) admin_methods
       \<and> ''write:repository'' \<notin> set ss \<and> ''write:admin'' \<notin> set ss \<and> ''all'' \<notin> set ss"
  by code_simp

lemma set_map_prefix:
  assumes "\<And>x. h (p @ x) = x"
  shows "set (map (\<lambda>s. q @ h s) (filter (starts_with p) g)) = {q @ x | x. p @ x \<in> set g}"
proof -
  have "{s \<in> set g. starts_with p s} = (\<lambda>x. p @ x) ` {x. p @ x \<in> set g}"
    by (auto simp: starts_with_iff)
  then show ?thesis by (auto simp: image_image assms)
qed

lemma set_expand_grant:
  "set (expand_grant g) = set g \<union> {''read:'' @ x | x. ''write:'' @ x \<in> set g}"
  unfolding expand_grant_def set_append
  by (subst set_map_prefix) simp_all

lemma expand_grant_extends: "set g \<subseteq> set (expand_grant g)"
  by (auto simp: set_expand_grant)

lemma expand_grant_mono: "set g \<subseteq> set h \<Longrightarrow> set (expand_grant g) \<subseteq> set (expand_grant h)"
  unfolding set_expand_grant by blast

lemma expand_grant_idem: "set (expand_grant (expand_grant g)) = set (expand_grant g)"
  unfolding set_expand_grant by auto

end
