(* ===== verification/TokenRotation.thy ===== *)
theory TokenRotation
  imports GiteaFacts
begin

text \<open>
  Rotating and checking the forge's machine tokens: \<open>toolkit/features/gitea_tokens.py\<close> and the commands
  \<open>rotate-token\<close> and \<open>token-scopes\<close> of \<open>toolkit/cli/services.py\<close>.

  A scope set is a list that enumerates it. The secret store is the parameter \<open>unset\<close>, an action on
  the same world as the forge; a command's value is its exit code, and only \<open>GiteaError\<close> is caught.

  The lemmas show that parsing a grant ignores order, case and white space, when a token's verdict is
  \<open>OK\<close>, that the store is touched only after the revocation returned, and when the check exits zero.
\<close>

section \<open>The registry\<close>

record rotatable_token =
  rt_secret_key :: string
  rt_token_name :: string
  rt_identity :: string

definition rotatable_tokens :: "(string \<times> rotatable_token) list" where
  "rotatable_tokens =
     [(''bot'', \<lparr>rt_secret_key = ''apps.services.core.gitea.bot_token'',
                 rt_token_name = ''kubelab-provisioning'', rt_identity = ''machine''\<rparr>),
      (''admin'', \<lparr>rt_secret_key = ''apps.services.core.gitea.admin_token'',
                   rt_token_name = ''kubelab-reconciler'', rt_identity = ''superadmin''\<rparr>),
      (''reviewer'', \<lparr>rt_secret_key = ''apps.services.core.gitea.reviewer_token'',
                      rt_token_name = ''kubelab-reviewer'', rt_identity = ''reviewer''\<rparr>),
      (''review_notice'', \<lparr>rt_secret_key = ''apps.services.core.gitea.review_notice_token'',
                           rt_token_name = ''kubelab-review-notice'', rt_identity = ''reviewer''\<rparr>),
      (''issue_reader'', \<lparr>rt_secret_key = ''apps.services.core.gitea.issue_reader_token'',
                          rt_token_name = ''kubelab-issue-reader'', rt_identity = ''reviewer''\<rparr>),
      (''agent'', \<lparr>rt_secret_key = ''apps.services.core.gitea.agent_token'',
                   rt_token_name = ''kubelab-agent'', rt_identity = ''agent''\<rparr>)]"

record rotation_plan =
  rp_label :: string
  rp_username :: string
  rp_token_name :: string
  rp_secret_key :: string
  rp_secret_present :: bool

definition rotation_is_noop :: "rotation_plan \<Rightarrow> bool" where
  "rotation_is_noop p = (\<not> rp_secret_present p)"

definition plan_rotation :: "string \<Rightarrow> (string \<times> string) list \<Rightarrow> bool \<Rightarrow> exn + rotation_plan" where
  "plan_rotation label identities secret_present =
     (case map_of rotatable_tokens label of
        None \<Rightarrow> Inl (KeyError label)
      | Some spec \<Rightarrow>
          (case map_of identities (rt_identity spec) of
             None \<Rightarrow> Inl (KeyError (rt_identity spec))
           | Some username \<Rightarrow>
               Inr \<lparr>rp_label = label, rp_username = username, rp_token_name = rt_token_name spec,
                    rp_secret_key = rt_secret_key spec, rp_secret_present = secret_present\<rparr>))"

section \<open>Scopes of a minted token\<close>

definition all_scope :: string where
  "all_scope = ''all''"

datatype scope_verdict = OK | MISSING | UNDECLARED | ABSENT | DUPLICATE

record scope_check =
  sk_label :: string
  sk_token_name :: string
  sk_declared :: "string list"
  sk_minted :: "string list"
  sk_missing :: "string list"
  sk_undeclared :: "string list"
  sk_verdict :: scope_verdict

text \<open>\<open>frozenset(s.strip().lower() for s in items if s and s.strip())\<close>; a non-string item has no
  \<open>strip\<close>.\<close>

definition norm_scopes :: "string list \<Rightarrow> string list" where
  "norm_scopes items = map (lower \<circ> strip) (filter (\<lambda>s. s \<noteq> [] \<and> strip s \<noteq> []) items)"

fun scope_item :: "json \<Rightarrow> exn + string" where
  "scope_item (JStr s) = Inr s"
| "scope_item v = (if truthy v then Inl (AttributeError ''strip'') else Inr [])"

definition parse_scopes :: "json \<Rightarrow> exn + string list" where
  "parse_scopes scopes =
     (case scopes of
        JStr s \<Rightarrow> Inr (norm_scopes (split_on (CHR '','') s))
      | _ \<Rightarrow> ebind (py_iter scopes) (\<lambda>items.
             ebind (emap scope_item items) (\<lambda>ss. Inr (norm_scopes ss))))"

definition minus :: "string list \<Rightarrow> string list \<Rightarrow> string list" where
  "minus xs ys = filter (\<lambda>x. x \<notin> set ys) xs"

definition check_token_scopes :: "string \<Rightarrow> json \<Rightarrow> json list \<Rightarrow> exn + scope_check" where
  "check_token_scopes label declared_grant tokens =
     (case map_of rotatable_tokens label of
        None \<Rightarrow> Inl (KeyError label)
      | Some spec \<Rightarrow>
          ebind (parse_scopes declared_grant) (\<lambda>declared.
          ebind (efilter (\<lambda>t. ebind (py_get t ''name'') (\<lambda>name. Inr (py_eq name (JStr (rt_token_name spec))))) tokens)
            (\<lambda>matching.
              case matching of
                [t] \<Rightarrow>
                  ebind (py_get t ''scopes'') (\<lambda>scopes.
                  ebind (parse_scopes (py_or scopes (JArr []))) (\<lambda>minted.
                    let missing = (if all_scope \<in> set minted then [] else minus declared (expand_grant minted));
                        undeclared = minus minted (expand_grant declared)
                    in Inr \<lparr>sk_label = label, sk_token_name = rt_token_name spec, sk_declared = declared,
                            sk_minted = minted, sk_missing = missing, sk_undeclared = undeclared,
                            sk_verdict = (if missing \<noteq> [] then MISSING
                                          else if undeclared \<noteq> [] then UNDECLARED else OK)\<rparr>))
              | _ \<Rightarrow>
                  Inr \<lparr>sk_label = label, sk_token_name = rt_token_name spec, sk_declared = declared,
                       sk_minted = [], sk_missing = [], sk_undeclared = [],
                       sk_verdict = (if matching = [] then ABSENT else DUPLICATE)\<rparr>)))"

section \<open>The commands\<close>

text \<open>\<open>spec.secret_key.rsplit(".", 1)[-1]\<close>.\<close>

definition secret_leaf :: "string \<Rightarrow> string" where
  "secret_leaf label =
     (case map_of rotatable_tokens label of
        None \<Rightarrow> []
      | Some spec \<Rightarrow> last (split_on (CHR ''.'') (rt_secret_key spec)))"

text \<open>The merged configuration a command reads, reduced to the two blocks it uses.\<close>

record forge_config =
  fc_gitea :: obj
  fc_identities :: "(string \<times> string) list"

definition superadmin_client :: "forge_config \<Rightarrow> exn + client" where
  "superadmin_client cfg =
     ebind (index (fc_gitea cfg) ''domain'') (\<lambda>domain.
     ebind (index (fc_identities cfg) ''superadmin'') (\<lambda>user.
       Inr (basic_auth_client (''https://'' @ py_str domain) user
              (py_str (oget (fc_gitea cfg) ''admin_password'')))))"

text \<open>\<open>except GiteaError\<close>: any other exception goes on.\<close>

definition catch_gitea :: "('s, 'a) gitea \<Rightarrow> ('s, 'a) gitea \<Rightarrow> ('s, 'a) gitea" where
  "catch_gitea m h = attempt m (\<lambda>e. case e of GiteaError _ _ \<Rightarrow> h | _ \<Rightarrow> throw e)"

lemma catch_gitea_Val:
  "catch_gitea m h n = (Val y, n') \<longleftrightarrow>
     m n = (Val y, n') \<or> (\<exists>ep st n1. m n = (Exn (GiteaError ep st), n1) \<and> h n1 = (Val y, n'))"
proof -
  have "(case e of GiteaError _ _ \<Rightarrow> h | _ \<Rightarrow> throw e) n1 = (Val y, n') \<longleftrightarrow>
      (\<exists>ep st. e = GiteaError ep st) \<and> h n1 = (Val y, n')" for e n1
    by (cases e) auto
  then show ?thesis by (auto simp: catch_gitea_def attempt_Val)
qed

definition gitea_rotate_token ::
  "'s server \<Rightarrow> (string \<Rightarrow> ('s, bool) gitea) \<Rightarrow> forge_config \<Rightarrow> string \<Rightarrow> bool \<Rightarrow> ('s, nat) gitea" where
  "gitea_rotate_token srv unset cfg label apply =
     (case plan_rotation label (fc_identities cfg) (truthy (oget (fc_gitea cfg) (secret_leaf label))) of
        Inl _ \<Rightarrow> ret 1
      | Inr plan \<Rightarrow>
          abind (lift (index (fc_gitea cfg) ''domain'')) (\<lambda>_.
            if \<not> apply then ret 0
            else if \<not> truthy (oget (fc_gitea cfg) ''admin_password'') then ret 1
            else
              abind (lift (superadmin_client cfg)) (\<lambda>c.
              abind (catch_gitea
                       (abind (revoke_token srv c (rp_username plan) (rp_token_name plan)) (\<lambda>_. ret True))
                       (ret False)) (\<lambda>revoked.
                if \<not> revoked then ret 1
                else if \<not> rp_secret_present plan then ret 0
                else abind (unset (rp_secret_key plan)) (\<lambda>cleared. ret (if cleared then 0 else 1))))))"

text \<open>One token of the check: whether it counts as a failure.\<close>

definition check_one_token ::
  "'s server \<Rightarrow> client \<Rightarrow> (string \<times> string) list \<Rightarrow> obj \<Rightarrow> string \<times> rotatable_token \<Rightarrow> nat \<Rightarrow> ('s, nat) gitea" where
  "check_one_token srv c identities declared = (\<lambda>(label, spec) failures.
     (case map_of declared label of
        None \<Rightarrow> ret (Suc failures)
      | Some grant \<Rightarrow>
          abind (catch_gitea
                   (abind (list_tokens srv c (case map_of identities (rt_identity spec) of
                                                None \<Rightarrow> ''?'' | Some u \<Rightarrow> u)) (\<lambda>ts. ret (Some ts)))
                   (ret None)) (\<lambda>tokens.
            case tokens of
              None \<Rightarrow> ret (Suc failures)
            | Some ts \<Rightarrow>
                abind (lift (check_token_scopes label grant ts)) (\<lambda>result.
                  ret (if sk_verdict result = OK then failures else Suc failures)))))"

definition check_gitea_token_scopes ::
  "'s server \<Rightarrow> client \<Rightarrow> (string \<times> string) list \<Rightarrow> obj \<Rightarrow> ('s, nat) gitea" where
  "check_gitea_token_scopes srv c identities declared =
     abind (foreach (check_one_token srv c identities declared) rotatable_tokens 0)
       (\<lambda>failures. ret (if failures \<noteq> 0 then 1 else 0))"

definition gitea_token_scopes :: "'s server \<Rightarrow> forge_config \<Rightarrow> ('s, nat) gitea" where
  "gitea_token_scopes srv cfg =
     (if \<not> truthy (oget (fc_gitea cfg) ''admin_password'') then ret 1
      else
        abind (lift (superadmin_client cfg)) (\<lambda>c.
        abind (lift (py_items (py_or (oget (fc_gitea cfg) ''token_scopes'') (JObj [])))) (\<lambda>declared.
          check_gitea_token_scopes srv c (fc_identities cfg) declared)))"

section \<open>Parsing a grant\<close>

definition normal_scope :: "string \<Rightarrow> bool" where
  "normal_scope s \<longleftrightarrow> s \<noteq> [] \<and> strip s = s \<and> lower s = s \<and> CHR '','' \<notin> set s"

lemma of_char_lower:
  "(of_char (lower_char c) :: nat) =
     (if 65 \<le> (of_char c :: nat) \<and> (of_char c :: nat) \<le> 90 then of_char c + 32 else of_char c)"
  by (simp add: lower_char_def Let_def)

lemma is_space_lower [simp]: "is_space (lower_char c) = is_space c"
  by (auto simp: is_space_def of_char_lower Let_def)

lemma lower_char_idem [simp]: "lower_char (lower_char c) = lower_char c"
proof -
  have same: "lower_char d = d" if "\<not> (65 \<le> (of_char d :: nat) \<and> (of_char d :: nat) \<le> 90)" for d
    using that by (auto simp: lower_char_def Let_def)
  show ?thesis
    by (rule same) (simp add: of_char_lower)
qed

lemma lower_idem [simp]: "lower (lower s) = lower s"
  by (simp add: lower_def)

lemma comma_lower [simp]: "lower_char c = CHR '','' \<longleftrightarrow> c = CHR '',''"
proof
  assume "lower_char c = CHR '',''"
  then have "(of_char (lower_char c) :: nat) = 44" by simp
  then have "(of_char c :: nat) = of_char (CHR '','')" by (simp add: of_char_lower split: if_splits)
  then show "c = CHR '',''" by (simp only: of_char_eq_iff)
qed (simp add: lower_char_def)

lemmas comma_lower' [simp] = comma_lower [unfolded eq_commute [of "lower_char _"]]

lemma strip_lower: "strip (lower s) = lower (strip s)"
  by (simp add: strip_def lower_def dropWhile_map rev_map o_def)

lemma normal_norm:
  assumes "s \<noteq> []" and "strip s \<noteq> []" and "CHR '','' \<notin> set s"
  shows "normal_scope (lower (strip s))"
  using assms strip_set [of s] by (auto simp: normal_scope_def strip_lower) (auto simp: lower_def)

lemma norm_scopes_normal: "list_all normal_scope ss \<Longrightarrow> norm_scopes ss = ss"
  by (induction ss) (auto simp: norm_scopes_def normal_scope_def)

text \<open>A grant's text parses to normalized scopes, and the parse of the scopes written back is the
  same list: case and surrounding white space never decide a verdict, and the notation is a round
  trip.\<close>

theorem parse_scopes_roundtrip:
  "\<exists>ss. parse_scopes (JStr g) = Inr ss \<and> list_all normal_scope ss
     \<and> parse_scopes (JStr (join '','' ss)) = Inr ss"
proof -
  let ?ss = "norm_scopes (split_on (CHR '','') g)"
  have normal: "list_all normal_scope ?ss"
    by (auto simp: norm_scopes_def list_all_iff intro!: normal_norm dest: split_on_parts)
  have "norm_scopes (split_on (CHR '','') (join [CHR '',''] ?ss)) = ?ss"
  proof (cases "?ss = []")
    case True
    then show ?thesis by (simp add: norm_scopes_def)
  next
    case False
    then have "split_on (CHR '','') (join [CHR '',''] ?ss) = ?ss"
      using normal by (intro split_on_join) (auto simp: list_all_iff normal_scope_def)
    then show ?thesis using norm_scopes_normal [OF normal] by simp
  qed
  with normal show ?thesis by (simp add: parse_scopes_def)
qed

section \<open>The verdict\<close>

definition registered_in :: "string \<Rightarrow> json list \<Rightarrow> exn + json list" where
  "registered_in token_name tokens =
     efilter (\<lambda>t. ebind (py_get t ''name'') (\<lambda>name. Inr (py_eq name (JStr token_name)))) tokens"

lemma minus_Nil: "minus xs ys = [] \<longleftrightarrow> set xs \<subseteq> set ys"
  by (auto simp: minus_def filter_empty_conv)

text \<open>A token is \<open>OK\<close> exactly when the listing names it once, what is declared is covered by what
  was minted, and what was minted is covered by what is declared, each side widened by the reads its
  writes imply; a token minted with every scope is \<open>OK\<close> only if every scope is declared.\<close>

theorem scope_verdict_OK_iff:
  assumes "check_token_scopes label grant tokens = Inr r"
  shows "(sk_verdict r = OK \<longleftrightarrow>
      (\<exists>t. registered_in (sk_token_name r) tokens = Inr [t]) \<and>
      (all_scope \<in> set (sk_minted r) \<or> set (sk_declared r) \<subseteq> set (expand_grant (sk_minted r))) \<and>
      set (sk_minted r) \<subseteq> set (expand_grant (sk_declared r)))
    \<and> (sk_verdict r = OK \<longrightarrow> all_scope \<in> set (sk_minted r) \<longrightarrow> all_scope \<in> set (sk_declared r))"
proof -
  from assms obtain spec declared matching where
    spec: "map_of rotatable_tokens label = Some spec" and
    m: "registered_in (rt_token_name spec) tokens = Inr matching"
    by (auto simp: check_token_scopes_def registered_in_def split: option.splits)
  have all: "all_scope \<in> set (expand_grant g) \<longleftrightarrow> all_scope \<in> set g" for g
    by (auto simp: set_expand_grant all_scope_def)
  consider "matching = []" | t where "matching = [t]" | a b ts where "matching = a # b # ts"
    by (metis list.exhaust)
  then show ?thesis
  proof cases
    case (2 t)
    with assms spec m obtain minted where r:
      "sk_token_name r = rt_token_name spec" "sk_minted r = minted"
      "sk_verdict r = (if (if all_scope \<in> set minted then [] else minus (sk_declared r) (expand_grant minted)) \<noteq> []
         then MISSING else if minus minted (expand_grant (sk_declared r)) \<noteq> [] then UNDECLARED else OK)"
      by (auto simp: check_token_scopes_def registered_in_def Let_def)
    show ?thesis
      unfolding r m 2 using all by (auto simp: minus_Nil)
  qed (use assms spec m in \<open>auto simp: check_token_scopes_def registered_in_def\<close>)
qed

definition sample_tokens :: "json list" where
  "sample_tokens =
     [JObj [(''name'', JStr ''kubelab-agent''), (''scopes'', JArr [JStr ''write:issue'', JStr ''write:repository''])],
      JObj [(''name'', JStr ''other''), (''scopes'', JArr [JStr ''all''])]]"

definition sample_scope_check :: "string \<Rightarrow> scope_check" where
  "sample_scope_check grant =
     (case check_token_scopes ''agent'' (JStr grant) sample_tokens of
        Inr r \<Rightarrow> r
      | Inl _ \<Rightarrow> \<lparr>sk_label = [], sk_token_name = [], sk_declared = [], sk_minted = [], sk_missing = [],
                 sk_undeclared = [], sk_verdict = ABSENT\<rparr>)"

lemma scope_verdict_OK_iff_witness:
  "sk_verdict (sample_scope_check '' Write:Repository,write:issue'') = OK \<and>
   (\<exists>t. registered_in ''kubelab-agent'' sample_tokens = Inr [t])"
proof -
  let ?r = "sample_scope_check '' Write:Repository,write:issue''"
  have ok: "sk_verdict ?r = OK" and name: "sk_token_name ?r = ''kubelab-agent''" by code_simp+
  have "check_token_scopes ''agent'' (JStr '' Write:Repository,write:issue'') sample_tokens = Inr ?r"
    using ok unfolding sample_scope_check_def by (simp split: sum.splits)
  from scope_verdict_OK_iff [OF this] ok name show ?thesis by simp
qed

section \<open>Rotation\<close>

text \<open>C6. A rotation that exits zero under \<open>--apply\<close> first got an answer to the revocation, and only
  then, and only if a secret was recorded, cleared it: the store is never touched before the token is
  revoked. One that exits without \<open>--apply\<close>, or whose revocation raises, leaves the store alone.\<close>

theorem rotate_revokes_before_unset:
  assumes plan: "plan_rotation label (fc_identities cfg) (truthy (oget (fc_gitea cfg) (secret_leaf label))) = Inr plan"
    and c: "superadmin_client cfg = Inr c"
  shows "(gitea_rotate_token srv unset cfg label True n = (Val 0, n') \<longrightarrow>
      (\<exists>r n1. revoke_token srv c (rp_username plan) (rp_token_name plan) n = (Val r, n1) \<and>
        (if rp_secret_present plan then unset (rp_secret_key plan) n1 = (Val True, n') else n' = n1)))
    \<and> (\<forall>e n1. revoke_token srv c (rp_username plan) (rp_token_name plan) n = (Exn e, n1) \<longrightarrow>
        snd (gitea_rotate_token srv unset cfg label True n) \<in> {n, n1})
    \<and> snd (gitea_rotate_token srv unset cfg label False n) = n"
proof -
  from c obtain domain where dom: "index (fc_gitea cfg) ''domain'' = Inr domain"
    by (auto simp: superadmin_client_def)
  let ?m = "abind (revoke_token srv c (rp_username plan) (rp_token_name plan)) (\<lambda>_. ret True)"
  have run: "gitea_rotate_token srv unset cfg label True =
      (if \<not> truthy (oget (fc_gitea cfg) ''admin_password'') then ret 1
       else abind (catch_gitea ?m (ret False)) (\<lambda>revoked.
         if \<not> revoked then ret 1
         else if \<not> rp_secret_present plan then ret 0
         else abind (unset (rp_secret_key plan)) (\<lambda>cleared. ret (if cleared then 0 else 1))))"
    unfolding gitea_rotate_token_def plan by (simp add: dom c run_simps(5))
  have revoked: "\<exists>r. revoke_token srv c (rp_username plan) (rp_token_name plan) n = (Val r, n1)"
    if "catch_gitea ?m (ret False) n = (Val True, n1)" for n1
    using that by (auto simp: catch_gitea_Val abind_Val)
  have refused: "snd (gitea_rotate_token srv unset cfg label True n) \<in> {n, n1}"
    if "revoke_token srv c (rp_username plan) (rp_token_name plan) n = (Exn e, n1)" for e n1
    unfolding run using that
    by (cases e) (simp_all add: catch_gitea_def attempt_def abind_def ret_def throw_def)
  have "snd (gitea_rotate_token srv unset cfg label False n) = n"
    unfolding gitea_rotate_token_def plan by (simp add: dom act_simps)
  moreover have "\<exists>r n1. revoke_token srv c (rp_username plan) (rp_token_name plan) n = (Val r, n1) \<and>
        (if rp_secret_present plan then unset (rp_secret_key plan) n1 = (Val True, n') else n' = n1)"
    if "gitea_rotate_token srv unset cfg label True n = (Val 0, n')"
    using that revoked unfolding run by (auto simp: abind_Val split: if_splits)
  ultimately show ?thesis using refused by blast
qed

definition sample_forge_config :: forge_config where
  "sample_forge_config =
     \<lparr>fc_gitea = [(''domain'', JStr ''git.example''), (''admin_password'', JStr ''pw''), (''bot_token'', JStr ''t'')],
      fc_identities = [(''machine'', ''bot''), (''superadmin'', ''root'')]\<rparr>"

definition sample_unset :: "string \<Rightarrow> (string list, bool) gitea" where
  "sample_unset key n = (Val True, n\<lparr>world := world n @ [key]\<rparr>)"

definition no_content_forge :: "'s server" where
  "no_content_forge rq w = (Response 204 NoContent, w)"

lemma rotate_revokes_before_unset_witness:
  "\<exists>n'. gitea_rotate_token no_content_forge sample_unset sample_forge_config ''bot'' True
      \<lparr>sent = [], world = [], budget = 1\<rparr> = (Val 0, n')
    \<and> world n' = [''apps.services.core.gitea.bot_token'']
    \<and> snd (gitea_rotate_token no_content_forge sample_unset sample_forge_config ''bot'' False
      \<lparr>sent = [], world = [], budget = 1\<rparr>) = \<lparr>sent = [], world = [], budget = 1\<rparr>"
proof -
  let ?n = "\<lparr>sent = [], world = [], budget = 1\<rparr> :: (request, string list) net"
  let ?run = "gitea_rotate_token no_content_forge sample_unset sample_forge_config ''bot'' True ?n"
  have plan: "plan_rotation ''bot'' (fc_identities sample_forge_config)
      (truthy (oget (fc_gitea sample_forge_config) (secret_leaf ''bot''))) =
      Inr \<lparr>rp_label = ''bot'', rp_username = ''bot'', rp_token_name = ''kubelab-provisioning'',
           rp_secret_key = ''apps.services.core.gitea.bot_token'', rp_secret_present = True\<rparr>"
    by code_simp
  have c: "superadmin_client sample_forge_config = Inr (basic_auth_client ''https://git.example'' ''root'' ''pw'')"
    by code_simp
  have "fst ?run = Val 0" and "world (snd ?run) = [''apps.services.core.gitea.bot_token'']"
    by code_simp+
  then show ?thesis
    using rotate_revokes_before_unset [OF plan c] by (metis prod.collapse)
qed

section \<open>The check of every token\<close>

lemma foreach_count:
  assumes "foreach f xs k n = (Val k', n')"
    and step: "\<And>x k n k' n'. x \<in> set xs \<Longrightarrow> f x k n = (Val k', n') \<Longrightarrow> k \<le> k' \<and> (k' = k \<longrightarrow> good x)"
  shows "k \<le> k' \<and> (k' = (k :: nat) \<longrightarrow> (\<forall>x \<in> set xs. good x))"
  using assms
proof (induction xs arbitrary: k n)
  case (Cons x xs)
  from Cons.prems(1) obtain k1 n1 where x: "f x k n = (Val k1, n1)" and xs: "foreach f xs k1 n1 = (Val k', n')"
    by (auto simp: abind_Val)
  have 1: "k \<le> k1 \<and> (k1 = k \<longrightarrow> good x)" by (rule Cons.prems(2) [OF _ x]) simp
  have 2: "k1 \<le> k' \<and> (k' = k1 \<longrightarrow> (\<forall>x \<in> set xs. good x))"
    by (rule Cons.IH [OF xs]) (erule (1) Cons.prems(2) [OF list.set_intros(2)])
  from 1 2 show ?case by auto
qed simp

definition token_read_ok ::
  "'s server \<Rightarrow> client \<Rightarrow> (string \<times> string) list \<Rightarrow> obj \<Rightarrow> string \<times> rotatable_token \<Rightarrow> bool" where
  "token_read_ok srv c identities declared x \<longleftrightarrow>
     (\<exists>grant user ts r n n'. map_of declared (fst x) = Some grant \<and> list_tokens srv c user n = (Val ts, n') \<and>
        check_token_scopes (fst x) grant ts = Inr r \<and> sk_verdict r = OK)"

lemma check_one_counts:
  assumes "check_one_token srv c identities declared (label, spec) k n = (Val k', n')"
  shows "k \<le> k' \<and> (k' = k \<longrightarrow> token_read_ok srv c identities declared (label, spec))"
proof (cases "map_of declared label")
  case None
  with assms show ?thesis by (simp add: check_one_token_def)
next
  case (Some grant)
  define user where "user = (case map_of identities (rt_identity spec) of None \<Rightarrow> ''?'' | Some u \<Rightarrow> u)"
  from assms Some obtain tokens n1 where
    read: "catch_gitea (abind (list_tokens srv c user) (\<lambda>ts. ret (Some ts))) (ret None) n = (Val tokens, n1)" and
    rest: "(case tokens of
              None \<Rightarrow> ret (Suc k)
            | Some ts \<Rightarrow>
                abind (lift (check_token_scopes label grant ts)) (\<lambda>result.
                  ret (if sk_verdict result = OK then k else Suc k))) n1 = (Val k', n')"
    by (auto simp: check_one_token_def abind_Val user_def)
  show ?thesis
  proof (cases tokens)
    case None
    with rest show ?thesis by simp
  next
    case ts: (Some ts)
    with read have "list_tokens srv c user n = (Val ts, n1)"
      by (auto simp: catch_gitea_Val abind_Val)
    with rest ts Some show ?thesis
      by (auto simp: abind_Val token_read_ok_def split: if_splits)
  qed
qed

text \<open>The scope check exits zero only when every registered token has a declared grant, was listed by
  the forge, and read \<open>OK\<close>: an unread or undeclared token is never a pass.\<close>

theorem token_scopes_exit_zero:
  assumes "check_gitea_token_scopes srv c identities declared n = (Val 0, n')"
  shows "\<forall>x \<in> set rotatable_tokens. token_read_ok srv c identities declared x"
proof -
  from assms have "foreach (check_one_token srv c identities declared) rotatable_tokens 0 n = (Val 0, n')"
    by (auto simp: check_gitea_token_scopes_def abind_Val split: if_splits)
  from foreach_count [OF this, where good = "token_read_ok srv c identities declared"]
  show ?thesis
  proof (rule mp [OF conjunct2])
    fix x k n k' n'
    assume run: "check_one_token srv c identities declared x k n = (Val k', n')"
    obtain label spec where x: "x = (label, spec)" by fastforce
    show "k \<le> k' \<and> (k' = k \<longrightarrow> token_read_ok srv c identities declared x)"
      using run unfolding x by (rule check_one_counts)
  qed simp_all
qed

text \<open>A forge on which every account lists every registered token, each with one scope.\<close>

definition tokens_forge :: "'s server" where
  "tokens_forge rq w =
     (Response 200 (Json (JArr (map (\<lambda>(label, spec).
        JObj [(''name'', JStr (rt_token_name spec)), (''scopes'', JArr [JStr ''read:issue''])]) rotatable_tokens))), w)"

definition sample_grants :: obj where
  "sample_grants = map (\<lambda>(label, spec). (label, JStr ''Read:issue'')) rotatable_tokens"

lemma token_scopes_exit_zero_witness:
  "token_read_ok (tokens_forge :: unit server) (basic_auth_client ''https://g'' ''root'' ''pw'') [] sample_grants
     (''agent'', \<lparr>rt_secret_key = ''apps.services.core.gitea.agent_token'', rt_token_name = ''kubelab-agent'',
                  rt_identity = ''agent''\<rparr>)"
proof -
  let ?run = "check_gitea_token_scopes tokens_forge (basic_auth_client ''https://g'' ''root'' ''pw'') [] sample_grants
    (\<lparr>sent = [], world = (), budget = 1\<rparr> :: (request, unit) net)"
  have "fst ?run = Val 0" by code_simp
  then have "?run = (Val 0, snd ?run)" by (metis prod.collapse)
  from token_scopes_exit_zero [OF this] show ?thesis by (simp add: rotatable_tokens_def)
qed

end
