(* ===== verification/Regex.thy ===== *)
theory Regex
  imports Prelude
begin

text \<open>
  \<open>re.fullmatch\<close> for the patterns of the secret catalog: character classes, sequence, alternatives and
  bounded or unbounded repetition. A pattern is the syntax tree of its text; matching takes derivatives.
  \<open>matches\<close> is the reference, the words of the pattern's language, and \<open>fullmatch_iff\<close> shows that the
  matcher decides it.
\<close>

section \<open>Patterns\<close>

text \<open>A class is a list of ranges of character codes, taken as it is or negated.\<close>

datatype rx =
    Never
  | Empty
  | Class bool "(nat \<times> nat) list"
  | Seq rx rx
  | Alt rx rx
  | Star rx

definition in_class :: "bool \<Rightarrow> (nat \<times> nat) list \<Rightarrow> char \<Rightarrow> bool" where
  "in_class pos ranges c = (list_ex (\<lambda>(lo, hi). lo \<le> of_char c \<and> of_char c \<le> hi) ranges = pos)"

inductive matches :: "rx \<Rightarrow> string \<Rightarrow> bool" where
  m_empty: "matches Empty []"
| m_class: "in_class pos ranges c \<Longrightarrow> matches (Class pos ranges) [c]"
| m_seq: "matches r s \<Longrightarrow> matches q t \<Longrightarrow> matches (Seq r q) (s @ t)"
| m_left: "matches r s \<Longrightarrow> matches (Alt r q) s"
| m_right: "matches q s \<Longrightarrow> matches (Alt r q) s"
| m_done: "matches (Star r) []"
| m_more: "matches r s \<Longrightarrow> matches (Star r) t \<Longrightarrow> matches (Star r) (s @ t)"

inductive_simps matches_simps:
  "matches Never s" "matches Empty s" "matches (Class pos ranges) s" "matches (Alt r q) s" "matches (Seq r q) s"

text \<open>\<open>r+\<close>, \<open>r{k}\<close>, \<open>r{j,k}\<close> and a literal text.\<close>

definition plus :: "rx \<Rightarrow> rx" where
  "plus r = Seq r (Star r)"

fun times :: "nat \<Rightarrow> rx \<Rightarrow> rx" where
  "times 0 r = Empty"
| "times (Suc k) r = Seq r (times k r)"

fun upto :: "nat \<Rightarrow> rx \<Rightarrow> rx" where
  "upto 0 r = Empty"
| "upto (Suc k) r = Alt Empty (Seq r (upto k r))"

definition between :: "nat \<Rightarrow> nat \<Rightarrow> rx \<Rightarrow> rx" where
  "between j k r = Seq (times j r) (upto (k - j) r)"

fun literal :: "string \<Rightarrow> rx" where
  "literal [] = Empty"
| "literal (c # cs) = Seq (Class True [(of_char c, of_char c)]) (literal cs)"

section \<open>The matcher\<close>

fun nullable :: "rx \<Rightarrow> bool" where
  "nullable Never = False"
| "nullable Empty = True"
| "nullable (Class pos ranges) = False"
| "nullable (Seq r q) = (nullable r \<and> nullable q)"
| "nullable (Alt r q) = (nullable r \<or> nullable q)"
| "nullable (Star r) = True"

text \<open>Sequences and alternatives that drop what cannot match, so that a derivative does not grow.\<close>

fun seq :: "rx \<Rightarrow> rx \<Rightarrow> rx" where
  "seq Never q = Never"
| "seq Empty q = q"
| "seq r q = Seq r q"

fun alt :: "rx \<Rightarrow> rx \<Rightarrow> rx" where
  "alt Never q = q"
| "alt r Never = r"
| "alt r q = Alt r q"

fun deriv :: "char \<Rightarrow> rx \<Rightarrow> rx" where
  "deriv c Never = Never"
| "deriv c Empty = Never"
| "deriv c (Class pos ranges) = (if in_class pos ranges c then Empty else Never)"
| "deriv c (Seq r q) =
     (if nullable r then alt (seq (deriv c r) q) (deriv c q) else seq (deriv c r) q)"
| "deriv c (Alt r q) = alt (deriv c r) (deriv c q)"
| "deriv c (Star r) = seq (deriv c r) (Star r)"

definition fullmatch :: "rx \<Rightarrow> string \<Rightarrow> bool" where
  "fullmatch r s = nullable (foldl (\<lambda>q c. deriv c q) r s)"

lemma matches_seq [simp]: "matches (seq r q) s \<longleftrightarrow> matches (Seq r q) s"
  by (cases "(r, q)" rule: seq.cases) (auto simp: matches_simps)

lemma matches_alt [simp]: "matches (alt r q) s \<longleftrightarrow> matches (Alt r q) s"
  by (cases "(r, q)" rule: alt.cases) (auto simp: matches_simps)

lemma nullable_iff: "nullable r \<longleftrightarrow> matches r []"
  by (induction r) (auto simp: matches_simps intro: m_done)

lemma matches_Star_Cons:
  assumes "matches (Star r) (c # s)"
  shows "\<exists>t u. s = t @ u \<and> matches r (c # t) \<and> matches (Star r) u"
proof -
  have "matches q w \<Longrightarrow> q = Star r \<Longrightarrow> w = c # s \<Longrightarrow>
      \<exists>t u. s = t @ u \<and> matches r (c # t) \<and> matches (Star r) u" for q w
    by (induction arbitrary: s rule: matches.induct) (auto simp: append_eq_Cons_conv)
  with assms show ?thesis by blast
qed

lemma matches_Seq_Cons:
  "matches (Seq r q) (c # s) \<longleftrightarrow>
     (\<exists>t u. s = t @ u \<and> matches r (c # t) \<and> matches q u) \<or> matches r [] \<and> matches q (c # s)"
  by (subst matches_simps) (auto simp: Cons_eq_append_conv)

lemma matches_Seq: "matches (Seq r q) s \<longleftrightarrow> (\<exists>t u. s = t @ u \<and> matches r t \<and> matches q u)"
  by (auto simp: matches_simps)

lemma deriv_iff: "matches (deriv c r) s \<longleftrightarrow> matches r (c # s)"
proof (induction r arbitrary: s)
  case (Seq r q)
  then show ?case
    unfolding matches_Seq_Cons by (auto simp: matches_Seq [of "deriv c r"] matches_simps(4) nullable_iff)
next
  case (Star r)
  show ?case
  proof
    assume "matches (deriv c (Star r)) s"
    then obtain t u where "s = t @ u" "matches r (c # t)" "matches (Star r) u"
      by (auto simp: matches_Seq Star.IH)
    then show "matches (Star r) (c # s)" using m_more [of r "c # t" u] by simp
  qed (auto dest: matches_Star_Cons simp: matches_Seq Star.IH)
qed (auto simp: matches_simps)

lemma fullmatch_iff: "fullmatch r s \<longleftrightarrow> matches r s"
  unfolding fullmatch_def by (induction s arbitrary: r) (auto simp: nullable_iff deriv_iff)

end
