(* ===== verification/SecretCatalog.thy ===== *)
theory SecretCatalog
  imports Regex
begin

text \<open>
  The entries of the secret catalog of \<open>toolkit/features/secrets_manager.py\<close>: \<open>SecretKind\<close>,
  \<open>SecretSpec\<close> with its validation, and the rules that derive a name from a key path.
  \<open>is_placeholder\<close> is of \<open>toolkit/config/constants.py\<close>.

  \<open>description\<close>, \<open>format_hint\<close> and \<open>rotate_note\<close> are prose for the operator and are left out; a
  pattern is the syntax tree of its text. Character classes are those of ASCII text. The catalog itself
  is in \<open>SecretData\<close>.
\<close>

section \<open>Entries\<close>

datatype secret_kind =
    RANDOM_HEX
  | RANDOM_TOKEN
  | PASSWORD
  | ARGON2_HASH
  | RSA_KEY
  | OIDC_CLIENT_SECRET
  | HTPASSWD
  | EXTERNAL
  | CROWDSEC_API
  | HUB_MANAGED

datatype expiry = NEVER | PROVIDER | UNKNOWN | DECLARED

record secret_spec =
  ss_key_path :: string
  ss_kind :: secret_kind
  ss_length :: int
  ss_services :: "string list"
  ss_derived_from :: string
  ss_value_pattern :: "rx option"
  ss_optional :: bool
  ss_envs :: "string list"
  ss_sync_to_secret_manager :: bool
  ss_forge_actions :: "string list"
  ss_expiry :: expiry
  ss_warn_days :: "int option"

text \<open>An entry with the defaults of the class.\<close>

definition spec :: "string \<Rightarrow> secret_kind \<Rightarrow> secret_spec" where
  "spec key_path kind =
     \<lparr>ss_key_path = key_path, ss_kind = kind, ss_length = 64, ss_services = [], ss_derived_from = [],
      ss_value_pattern = None, ss_optional = False, ss_envs = [''dev'', ''staging'', ''prod''],
      ss_sync_to_secret_manager = False, ss_forge_actions = [], ss_expiry = UNKNOWN, ss_warn_days = None\<rparr>"

definition leaf :: "string \<Rightarrow> string" where
  "leaf key_path = last (split_on (CHR ''.'') key_path)"

definition named_as_identity :: "string \<Rightarrow> bool" where
  "named_as_identity name \<longleftrightarrow>
     name \<in> set [''user'', ''username''] \<or> list_ex (\<lambda>e. ends_with e name) [''_user'', ''_username'']"

text \<open>\<open>__post_init__\<close>: what building an entry raises.\<close>

definition post_init :: "secret_spec \<Rightarrow> exn + unit" where
  "post_init s =
     ebind (case ss_warn_days s of
              Some days \<Rightarrow> if days \<le> 0 then Inl (ValueError ''warn_days must be positive'') else Inr ()
            | None \<Rightarrow> Inr ()) (\<lambda>_.
       if named_as_identity (leaf (ss_key_path s)) \<and> ss_kind s \<noteq> EXTERNAL
       then Inl (ValueError ''names an identity, not a secret'') else Inr ())"

section \<open>Names\<close>

text \<open>\<open>key_path.replace(".", "-").replace("_", "-")\<close>, and \<open>[A-Za-z0-9-]{1,255}\<close>.\<close>

definition dashed :: "string \<Rightarrow> string" where
  "dashed = map (\<lambda>c. if c = CHR ''.'' \<or> c = CHR ''_'' then CHR ''-'' else c)"

definition manager_id :: "string \<Rightarrow> bool" where
  "manager_id name \<longleftrightarrow> name \<noteq> [] \<and> length name \<le> 255 \<and>
     list_all (in_class True [(65, 90), (97, 122), (48, 57), (45, 45)]) name"

definition secret_manager_name :: "string \<Rightarrow> exn + string" where
  "secret_manager_name key_path =
     (if manager_id (dashed key_path) then Inr (dashed key_path)
      else Inl (ValueError ''does not map to a valid Secret Manager id''))"

definition secrets_synced_to_secret_manager :: "secret_spec list \<Rightarrow> secret_spec list" where
  "secrets_synced_to_secret_manager catalog = filter ss_sync_to_secret_manager catalog"

definition upper_char :: "char \<Rightarrow> char" where
  "upper_char c = (let n = (of_char c :: nat) in if 97 \<le> n \<and> n \<le> 122 then char_of (n - 32) else c)"

text \<open>\<open>[A-Z_][A-Z0-9_]*\<close>.\<close>

definition name_start :: "char \<Rightarrow> bool" where
  "name_start c = (let n = (of_char c :: nat) in (65 \<le> n \<and> n \<le> 90) \<or> n = 95)"

definition name_part :: "char \<Rightarrow> bool" where
  "name_part c = (name_start c \<or> (let n = (of_char c :: nat) in 48 \<le> n \<and> n \<le> 57))"

definition forge_secret_name :: "string \<Rightarrow> bool" where
  "forge_secret_name s = (case s of [] \<Rightarrow> False | c # cs \<Rightarrow> name_start c \<and> list_all name_part cs)"

definition forge_reserved_prefixes :: "string list" where
  "forge_reserved_prefixes = [''GITHUB_'', ''GITEA_'']"

definition forge_actions_secret_name :: "string \<Rightarrow> exn + string" where
  "forge_actions_secret_name key_path =
     (let name = map upper_char (leaf key_path) in
      if \<not> forge_secret_name name \<or> list_ex (\<lambda>p. starts_with p name) forge_reserved_prefixes
      then Inl (ValueError ''Actions secret name'') else Inr name)"

definition secrets_delivered_to_forge :: "secret_spec list \<Rightarrow> secret_spec list" where
  "secrets_delivered_to_forge catalog = filter (\<lambda>s. ss_forge_actions s \<noteq> []) catalog"

section \<open>Placeholders\<close>

definition vault_placeholders :: "string list" where
  "vault_placeholders = [''REPLACE_WITH_SOPS_VALUE'', ''CHANGE_ME'']"

definition is_placeholder :: "json \<Rightarrow> bool" where
  "is_placeholder v = (case v of JStr s \<Rightarrow> strip s \<in> set vault_placeholders | _ \<Rightarrow> False)"

section \<open>Hashes\<close>

text \<open>A \<open>derived_from\<close> in parentheses names an interactive input, not a key.\<close>

definition hashed_specs :: "secret_spec list \<Rightarrow> string \<Rightarrow> secret_spec list" where
  "hashed_specs catalog env =
     filter (\<lambda>s. env \<in> set (ss_envs s) \<and> ss_kind s = ARGON2_HASH \<and> ss_derived_from s \<noteq> [] \<and>
                  \<not> starts_with ''('' (ss_derived_from s)) catalog"

end
