(* ===== verification/ActionsSecrets.thy ===== *)
theory ActionsSecrets
  imports TokenRotation SecretCatalog "HOL-Library.Multiset"
begin

text \<open>
  Delivering repository Actions secrets from the secret store to the forge:
  \<open>toolkit/features/gitea_actions_secrets.py\<close> and the command \<open>actions-secrets\<close> of
  \<open>toolkit/cli/services.py\<close>.

  The catalog and the merged configuration are arguments; \<open>describe\<close> is \<open>str(exc)\<close>, the text of an
  exception.

  The lemmas show that a plan puts every target in exactly one list and which, that only a valued
  target on a readable repository is ever sent, that nothing sent is empty, and that the command
  exits zero only when the whole declaration was met.
\<close>

section \<open>Targets\<close>

record secret_target =
  st_repo :: string
  st_name :: string
  st_key_path :: string

definition st_owner :: "secret_target \<Rightarrow> string" where
  "st_owner t = fst (str_partition (CHR ''/'') (st_repo t))"

text \<open>\<open>repo.split("/", 1)[1]\<close> raises without a slash.\<close>

definition st_repo_name :: "secret_target \<Rightarrow> exn + string" where
  "st_repo_name t =
     (if CHR ''/'' \<in> set (st_repo t) then Inr (snd (str_partition (CHR ''/'') (st_repo t)))
      else Inl (ValueError ''list index out of range''))"

definition delivery_targets :: "secret_spec list \<Rightarrow> exn + secret_target list" where
  "delivery_targets catalog =
     emap (\<lambda>(spec, repo). ebind (forge_actions_secret_name (ss_key_path spec)) (\<lambda>name.
             Inr \<lparr>st_repo = repo, st_name = name, st_key_path = ss_key_path spec\<rparr>))
       (concat (map (\<lambda>spec. map (Pair spec) (ss_forge_actions spec)) catalog))"

section \<open>Values\<close>

fun sops_node :: "json \<Rightarrow> string list \<Rightarrow> json option" where
  "sops_node node [] = Some node"
| "sops_node (JObj kvs) (part # parts) =
     (case map_of kvs part of None \<Rightarrow> None | Some v \<Rightarrow> sops_node v parts)"
| "sops_node _ (part # parts) = None"

definition sops_value :: "json \<Rightarrow> string \<Rightarrow> string" where
  "sops_value config key_path =
     (case sops_node config (split_on (CHR ''.'') key_path) of
        None \<Rightarrow> []
      | Some JNull \<Rightarrow> []
      | Some (JObj _) \<Rightarrow> []
      | Some (JArr _) \<Rightarrow> []
      | Some v \<Rightarrow> if is_placeholder v then [] else py_str v)"

section \<open>The plan\<close>

record secrets_plan =
  sp_create :: "secret_target list"
  sp_overwrite :: "secret_target list"
  sp_present :: "secret_target list"
  sp_missing :: "secret_target list"
  sp_unreachable :: "secret_target list"
  sp_undeclared :: "(string \<times> string) list"

definition secrets_is_noop :: "secrets_plan \<Rightarrow> bool" where
  "secrets_is_noop p = (sp_create p = [] \<and> sp_overwrite p = [])"

definition secrets_is_complete :: "secrets_plan \<Rightarrow> bool" where
  "secrets_is_complete p = (sp_missing p = [] \<and> sp_unreachable p = [])"

type_synonym live_names = "(string \<times> string list option) list"

definition names_on :: "live_names \<Rightarrow> string \<Rightarrow> string list option" where
  "names_on live repo = (case map_of live repo of None \<Rightarrow> None | Some names \<Rightarrow> names)"

text \<open>One iteration of the loop: which list the target joins.\<close>

definition place_target ::
  "live_names \<Rightarrow> string list \<Rightarrow> bool \<Rightarrow> secrets_plan \<Rightarrow> secret_target \<Rightarrow> secrets_plan" where
  "place_target live valued force p t =
     (case names_on live (st_repo t) of
        None \<Rightarrow> p\<lparr>sp_unreachable := sp_unreachable p @ [t]\<rparr>
      | Some names \<Rightarrow>
          if st_key_path t \<notin> set valued then p\<lparr>sp_missing := sp_missing p @ [t]\<rparr>
          else if st_name t \<in> set names
          then (if force then p\<lparr>sp_overwrite := sp_overwrite p @ [t]\<rparr>
                else p\<lparr>sp_present := sp_present p @ [t]\<rparr>)
          else p\<lparr>sp_create := sp_create p @ [t]\<rparr>)"

definition plan_undeclared :: "secret_target list \<Rightarrow> live_names \<Rightarrow> (string \<times> string) list" where
  "plan_undeclared targets live =
     concat (map (\<lambda>repo.
       map (Pair repo)
         (sorted_set (filter (\<lambda>name. name \<notin> st_name ` {t \<in> set targets. st_repo t = repo})
            (case names_on live repo of None \<Rightarrow> [] | Some names \<Rightarrow> names))))
       (sorted_set (map fst live)))"

definition plan_actions_secrets ::
  "secret_target list \<Rightarrow> live_names \<Rightarrow> string list \<Rightarrow> bool \<Rightarrow> secrets_plan" where
  "plan_actions_secrets targets live valued force =
     (foldl (place_target live valued force)
        \<lparr>sp_create = [], sp_overwrite = [], sp_present = [], sp_missing = [], sp_unreachable = [],
         sp_undeclared = []\<rparr> targets)
     \<lparr>sp_undeclared := plan_undeclared targets live\<rparr>"

section \<open>Redaction\<close>

text \<open>\<open>text.replace(needle, by)\<close> for a non-empty needle.\<close>

fun py_replace :: "string \<Rightarrow> string \<Rightarrow> string \<Rightarrow> string" where
  "py_replace needle by [] = []"
| "py_replace needle by (c # cs) =
     (if starts_with needle (c # cs) then by @ py_replace needle by (drop (length needle - 1) cs)
      else c # py_replace needle by cs)"

definition hex4 :: "nat \<Rightarrow> string" where
  "hex4 n = ''00'' @ [hex_digit (n div 16), hex_digit (n mod 16)]"

text \<open>\<open>json.dumps(value)[1:-1]\<close>, with and without \<open>ensure_ascii\<close>, of a character up to \<open>U+00FF\<close>.\<close>

definition json_char :: "bool \<Rightarrow> char \<Rightarrow> string" where
  "json_char ascii c =
     (let n = (of_char c :: nat); esc = char_of (92 :: nat) in
      if n = 34 \<or> n = 92 then [esc, c]
      else if n = 10 then [esc, CHR ''n''] else if n = 13 then [esc, CHR ''r'']
      else if n = 9 then [esc, CHR ''t''] else if n = 8 then [esc, CHR ''b'']
      else if n = 12 then [esc, CHR ''f'']
      else if n < 32 \<or> (ascii \<and> 126 < n) then esc # CHR ''u'' # hex4 n
      else [c])"

definition json_text :: "bool \<Rightarrow> string \<Rightarrow> string" where
  "json_text ascii s = concat (map (json_char ascii) s)"

definition go_char :: "char \<Rightarrow> string" where
  "go_char c = (if c \<in> set ''&<>'' then char_of (92 :: nat) # CHR ''u'' # hex4 (of_char c) else [c])"

definition redact_forms :: "string \<Rightarrow> string list" where
  "redact_forms v =
     [v, json_text True v, json_text False v, concat (map go_char (json_text False v)),
      butlast (tl (repr_str v))]"

text \<open>Longest first; the order among forms of one length is the set's, here the list's.\<close>

definition redact :: "string \<Rightarrow> string \<Rightarrow> string" where
  "redact text v =
     fold (\<lambda>form t. py_replace form ''<redacted>'' t)
       (sort_key (\<lambda>form. - int (length form)) (remdups (redact_forms v))) text"

section \<open>Delivery\<close>

datatype secret_failure = NoValue | Refused string

record secrets_report =
  sr_written :: "secret_target list"
  sr_failed :: "(secret_target \<times> secret_failure) list"

definition write_secret ::
  "'s server \<Rightarrow> client \<Rightarrow> (exn \<Rightarrow> string) \<Rightarrow> (string \<Rightarrow> string) \<Rightarrow> secret_target \<Rightarrow> secrets_report \<Rightarrow>
   ('s, secrets_report) gitea" where
  "write_secret srv c describe value_of t rep =
     (let v = value_of (st_key_path t) in
      if v = [] then ret (rep\<lparr>sr_failed := sr_failed rep @ [(t, NoValue)]\<rparr>)
      else
        attempt
          (abind (lift (st_repo_name t)) (\<lambda>name.
           abind (put_actions_secret srv c (st_owner t) name (st_name t) v) (\<lambda>_.
             ret (rep\<lparr>sr_written := sr_written rep @ [t]\<rparr>))))
          (\<lambda>e. ret (rep\<lparr>sr_failed := sr_failed rep @ [(t, Refused (redact (describe e) v))]\<rparr>)))"

definition execute_actions_secrets ::
  "'s server \<Rightarrow> client \<Rightarrow> (exn \<Rightarrow> string) \<Rightarrow> secrets_plan \<Rightarrow> (string \<Rightarrow> string) \<Rightarrow> ('s, secrets_report) gitea" where
  "execute_actions_secrets srv c describe p value_of =
     foreach (write_secret srv c describe value_of) (sp_create p @ sp_overwrite p)
       \<lparr>sr_written = [], sr_failed = []\<rparr>"

section \<open>The command\<close>

text \<open>\<open>except (GiteaError, requests.RequestException)\<close>.\<close>

definition list_one_repo :: "'s server \<Rightarrow> client \<Rightarrow> string \<Rightarrow> live_names \<Rightarrow> ('s, live_names) gitea" where
  "list_one_repo srv c repo live =
     (if CHR ''/'' \<notin> set repo then throw (ValueError ''not enough values to unpack'')
      else
        (let (owner, name) = str_partition (CHR ''/'') repo in
         attempt
           (abind (list_actions_secret_names srv c owner name) (\<lambda>names. ret (live @ [(repo, names)])))
           (\<lambda>e. case e of
                  GiteaError _ _ \<Rightarrow> ret (live @ [(repo, None)])
                | RequestsError _ \<Rightarrow> ret (live @ [(repo, None)])
                | JSONDecodeError _ \<Rightarrow> ret (live @ [(repo, None)])
                | _ \<Rightarrow> throw e)))"

definition list_actions_secrets_by_repo ::
  "'s server \<Rightarrow> client \<Rightarrow> secret_target list \<Rightarrow> ('s, live_names) gitea" where
  "list_actions_secrets_by_repo srv c targets =
     foreach (list_one_repo srv c) (sorted_set (map st_repo targets)) []"

definition gitea_actions_secrets ::
  "'s server \<Rightarrow> client \<Rightarrow> (exn \<Rightarrow> string) \<Rightarrow> secret_spec list \<Rightarrow> json \<Rightarrow> bool \<Rightarrow> bool \<Rightarrow> ('s, nat) gitea" where
  "gitea_actions_secrets srv c describe catalog merged apply force =
     abind (lift (delivery_targets (secrets_delivered_to_forge catalog))) (\<lambda>targets.
       if targets = [] then ret 0
       else
         abind (list_actions_secrets_by_repo srv c targets) (\<lambda>live.
           let valued = filter (\<lambda>k. sops_value merged k \<noteq> []) (map st_key_path targets);
               p = plan_actions_secrets targets live valued force
           in if secrets_is_noop p then ret (if secrets_is_complete p then 0 else 1)
              else if \<not> apply then ret (if secrets_is_complete p then 0 else 1)
              else
                abind (execute_actions_secrets srv c describe p (sops_value merged)) (\<lambda>rep.
                  ret (if sr_failed rep \<noteq> [] \<or> \<not> secrets_is_complete p then 1 else 0))))"

section \<open>The plan is a partition\<close>

definition secret_writable :: "live_names \<Rightarrow> string list \<Rightarrow> secret_target \<Rightarrow> bool" where
  "secret_writable live valued t \<longleftrightarrow> names_on live (st_repo t) \<noteq> None \<and> st_key_path t \<in> set valued"

definition secret_held :: "live_names \<Rightarrow> secret_target \<Rightarrow> bool" where
  "secret_held live t \<longleftrightarrow> (\<exists>names. names_on live (st_repo t) = Some names \<and> st_name t \<in> set names)"

lemma place_targets:
  "foldl (place_target live valued force) p ts = p
     \<lparr>sp_create := sp_create p @ filter (\<lambda>t. secret_writable live valued t \<and> \<not> secret_held live t) ts,
      sp_overwrite := sp_overwrite p @ filter (\<lambda>t. secret_writable live valued t \<and> secret_held live t \<and> force) ts,
      sp_present := sp_present p @ filter (\<lambda>t. secret_writable live valued t \<and> secret_held live t \<and> \<not> force) ts,
      sp_missing := sp_missing p @ filter (\<lambda>t. names_on live (st_repo t) \<noteq> None \<and> st_key_path t \<notin> set valued) ts,
      sp_unreachable := sp_unreachable p @ filter (\<lambda>t. names_on live (st_repo t) = None) ts\<rparr>"
proof (induction ts arbitrary: p)
  case (Cons t ts)
  show ?case
    unfolding foldl_Cons Cons.IH
    by (cases "names_on live (st_repo t)")
      (auto simp: place_target_def secret_writable_def secret_held_def)
qed simp

text \<open>The plan puts every declared secret in exactly one list: it is created or overwritten only when
  its repository was read and its value is recorded, created exactly when the forge does not hold its
  name, overwritten exactly when it does and \<open>force\<close> is given, and otherwise reported.\<close>

theorem secrets_plan_partition:
  "let p = plan_actions_secrets targets live valued force in
     sp_create p = filter (\<lambda>t. secret_writable live valued t \<and> \<not> secret_held live t) targets
   \<and> sp_overwrite p = filter (\<lambda>t. secret_writable live valued t \<and> secret_held live t \<and> force) targets
   \<and> sp_present p = filter (\<lambda>t. secret_writable live valued t \<and> secret_held live t \<and> \<not> force) targets
   \<and> mset (sp_create p @ sp_overwrite p @ sp_present p @ sp_missing p @ sp_unreachable p) = mset targets"
proof -
  have "mset (filter (\<lambda>t. secret_writable live valued t \<and> \<not> secret_held live t) ts) +
      mset (filter (\<lambda>t. secret_writable live valued t \<and> secret_held live t \<and> force) ts) +
      mset (filter (\<lambda>t. secret_writable live valued t \<and> secret_held live t \<and> \<not> force) ts) +
      mset (filter (\<lambda>t. names_on live (st_repo t) \<noteq> None \<and> st_key_path t \<notin> set valued) ts) +
      mset (filter (\<lambda>t. names_on live (st_repo t) = None) ts) = mset ts" for ts
    by (induction ts) (auto simp: secret_writable_def)
  then show ?thesis
    by (simp add: Let_def plan_actions_secrets_def place_targets add.assoc)
qed

section \<open>Delivery\<close>

definition delivers :: "client \<Rightarrow> (string \<Rightarrow> string) \<Rightarrow> secret_target list \<Rightarrow> request \<Rightarrow> bool" where
  "delivers c value_of ts rq \<longleftrightarrow>
     from_client c rq \<and> rq_meth rq = PUT \<and>
     (\<exists>t \<in> set ts. value_of (st_key_path t) \<noteq> [] \<and>
        rq_json rq = Some (JObj [(''data'', JStr (value_of (st_key_path t)))]) \<and>
        (\<exists>owner name. rq_path rq = repo_path owner name @ ''/actions/secrets/'' @ st_name t))"

lemma delivers_mk:
  assumes "t \<in> set ts" and "value_of (st_key_path t) \<noteq> []"
  shows "delivers c value_of ts (mk_request c tmo PUT (repo_path owner name @ ''/actions/secrets/'' @ st_name t)
    (Some (JObj [(''data'', JStr (value_of (st_key_path t)))])))"
  unfolding delivers_def using assms by (intro conjI bexI [of _ t] exI) simp_all

text \<open>A delivery sends nothing but the planned values, each a non-empty value to a secret of its own
  name, and never a deletion.\<close>

theorem delivery_sends_planned_values:
  "emits (delivers c value_of (sp_create p @ sp_overwrite p)) (execute_actions_secrets srv c describe p value_of)"
proof -
  have "emits (delivers c value_of ts) (write_secret srv c describe value_of t rep)" if "t \<in> set ts" for ts t rep
    unfolding write_secret_def put_actions_secret_def Let_def
    by (intro emits_intros delivers_mk that)
  then show ?thesis
    unfolding execute_actions_secrets_def by (auto intro!: emits_foreach)
qed

lemma put_never_stuck: "put_actions_secret srv c owner name secret v n \<noteq> (Stuck, n')"
  by (auto simp: put_actions_secret_def send_def request_timed_def abind_Stuck call_def case_prod_beta
      lift_def throw_def ret_def split: sum.splits)

lemma write_secret_cases:
  "\<exists>n'. write_secret srv c describe value_of t rep n = (Val (rep\<lparr>sr_written := sr_written rep @ [t]\<rparr>), n')
    \<or> (\<exists>f. write_secret srv c describe value_of t rep n = (Val (rep\<lparr>sr_failed := sr_failed rep @ [(t, f)]\<rparr>), n'))"
proof (cases "value_of (st_key_path t) = []")
  case True
  then show ?thesis by (auto simp: write_secret_def)
next
  case False
  show ?thesis
  proof (cases "st_repo_name t")
    case (Inl e)
    with False show ?thesis by (auto simp: write_secret_def Let_def act_simps)
  next
    case (Inr name)
    obtain r n' where "put_actions_secret srv c (st_owner t) name (st_name t) (value_of (st_key_path t)) n = (r, n')"
      by fastforce
    with False Inr show ?thesis
      by (cases r) (auto simp: put_never_stuck write_secret_def Let_def act_simps attempt_def abind_def)
  qed
qed

text \<open>A delivery always returns a report, and the report accounts for every planned secret exactly
  once, as written or as failed: one refusal never stops the rest.\<close>

theorem delivery_accounts:
  "\<exists>rep n'. execute_actions_secrets srv c describe p value_of n = (Val rep, n')
    \<and> mset (sr_written rep @ map fst (sr_failed rep)) = mset (sp_create p @ sp_overwrite p)"
proof -
  have "\<exists>rep n'. foreach (write_secret srv c describe value_of) ts rep0 n = (Val rep, n')
      \<and> mset (sr_written rep @ map fst (sr_failed rep)) = mset (sr_written rep0 @ map fst (sr_failed rep0)) + mset ts"
    for ts rep0 n
  proof (induction ts arbitrary: rep0 n)
    case (Cons t ts)
    from write_secret_cases obtain rep1 n1 where
      1: "write_secret srv c describe value_of t rep0 n = (Val rep1, n1)"
      and m: "mset (sr_written rep1 @ map fst (sr_failed rep1)) =
        add_mset t (mset (sr_written rep0 @ map fst (sr_failed rep0)))"
      by (force split: if_splits)
    obtain rep n' where "foreach (write_secret srv c describe value_of) ts rep1 n1 = (Val rep, n')"
      and "mset (sr_written rep @ map fst (sr_failed rep)) = mset (sr_written rep1 @ map fst (sr_failed rep1)) + mset ts"
      using Cons.IH by blast
    with 1 m show ?case by (auto simp: act_simps)
  qed simp
  from this [of "sp_create p @ sp_overwrite p" "\<lparr>sr_written = [], sr_failed = []\<rparr>" n] show ?thesis
    by (auto simp: execute_actions_secrets_def)
qed

section \<open>The exit code\<close>

text \<open>The command exits zero only when every declared secret has a recorded value and a repository the
  forge could list: nothing to write is never taken for delivered.\<close>

theorem actions_secrets_exit_zero:
  assumes "gitea_actions_secrets srv c describe catalog merged apply force n = (Val 0, n')"
  shows "\<exists>targets live. delivery_targets (secrets_delivered_to_forge catalog) = Inr targets \<and>
    (\<forall>t \<in> set targets. sops_value merged (st_key_path t) \<noteq> [] \<and> names_on live (st_repo t) \<noteq> None)"
proof -
  from assms obtain targets where t: "delivery_targets (secrets_delivered_to_forge catalog) = Inr targets"
    by (auto simp: gitea_actions_secrets_def abind_Val)
  show ?thesis
  proof (cases "targets = []")
    case True
    with t show ?thesis by auto
  next
    case False
    let ?valued = "filter (\<lambda>k. sops_value merged k \<noteq> []) (map st_key_path targets)"
    from assms t False obtain live where "secrets_is_complete (plan_actions_secrets targets live ?valued force)"
      by (auto simp: gitea_actions_secrets_def abind_Val act_simps Let_def split: if_splits)
    then have "\<forall>t \<in> set targets. sops_value merged (st_key_path t) \<noteq> [] \<and> names_on live (st_repo t) \<noteq> None"
      by (fastforce simp: secrets_is_complete_def plan_actions_secrets_def place_targets filter_empty_conv)
    with t show ?thesis by blast
  qed
qed

definition sample_catalog :: "secret_spec list" where
  "sample_catalog = [(spec ''a.drive_id'' EXTERNAL)\<lparr>ss_forge_actions := [''acme/site'']\<rparr>]"

lemma actions_secrets_exit_zero_witness:
  "\<exists>targets live. delivery_targets (secrets_delivered_to_forge sample_catalog) = Inr targets \<and>
    (\<forall>t \<in> set targets. sops_value (JObj [(''a'', JObj [(''drive_id'', JStr ''x'')])]) (st_key_path t) \<noteq> [] \<and>
       names_on live (st_repo t) \<noteq> None)"
proof -
  let ?run = "gitea_actions_secrets tokens_forge (basic_auth_client ''https://g'' ''root'' ''pw'') (\<lambda>_. [])
    sample_catalog (JObj [(''a'', JObj [(''drive_id'', JStr ''x'')])]) True False
    (\<lparr>sent = [], world = (), budget = 1\<rparr> :: (request, unit) net)"
  have "fst ?run = Val 0" by code_simp
  then have "?run = (Val 0, snd ?run)" by (metis prod.collapse)
  then show ?thesis by (rule actions_secrets_exit_zero)
qed

end
