(* ===== verification/ForgeCli.thy ===== *)
theory ForgeCli
  imports ForgeExecuteFacts ActionsSecrets
begin

text \<open>
  The commands \<open>reconcile\<close> and \<open>drop-empty\<close> of \<open>toolkit/cli/services.py\<close>: clients from the merged
  configuration, the reads of the forge, the plan, the run, and the exit code.

  A command is an action whose value is its exit code; an exception it does not catch stays one. What
  it prints is left out, and so is the choice of words of a refusal.

  The lemmas show that a run without \<open>--apply\<close> only reads, that no reconcile deletes, that the reads
  cover the declaration, what an exit code of zero means, and that \<open>drop-empty\<close> deletes only what
  \<open>plan_drop\<close> allows.
\<close>

section \<open>Configuration\<close>

record forge_clients =
  fl_admin :: client
  fl_bot :: client
  fl_bot_username :: string
  fl_base_url :: string

definition gitea_block :: "json \<Rightarrow> exn + obj" where
  "gitea_block merged = ebind (index_path merged gitea_path) py_items"

definition identities_of :: "json \<Rightarrow> exn + obj" where
  "identities_of merged = ebind (index_path merged [''apps'', ''auth'', ''identities'']) py_items"

text \<open>\<open>_gitea_clients\<close>; \<open>None\<close> is \<open>typer.Exit(1)\<close>.\<close>

definition gitea_clients :: "json \<Rightarrow> exn + forge_clients option" where
  "gitea_clients merged =
     ebind (gitea_block merged) (\<lambda>g.
     ebind (index g ''domain'') (\<lambda>domain.
       let url = ''https://'' @ py_str domain in
       if \<not> truthy (oget g ''admin_token'') \<or> \<not> truthy (oget g ''bot_token'') then Inr None
       else
         ebind (identities_of merged) (\<lambda>ids.
         ebind (index ids ''machine'') (\<lambda>machine.
           Inr (Some \<lparr>fl_admin = gitea_client url (py_str (oget g ''admin_token'')),
                      fl_bot = gitea_client url (py_str (oget g ''bot_token'')),
                      fl_bot_username = py_str machine, fl_base_url = url\<rparr>)))))"

section \<open>Ownership\<close>

text \<open>\<open>_report_machine_ownership\<close>: true only for a violation that was read.\<close>

definition report_machine_ownership :: "'s server \<Rightarrow> client \<Rightarrow> string \<Rightarrow> ('s, bool) gitea" where
  "report_machine_ownership srv admin login =
     catch_gitea (abind (list_owned_repos srv admin login) (\<lambda>owned. ret (owned \<noteq> []))) (ret False)"

text \<open>\<open>report_ownership\<close>: the accounts, of the declared ones, that own repositories.\<close>

definition report_ownership :: "'s server \<Rightarrow> forge_clients \<Rightarrow> obj \<Rightarrow> ('s, string list) gitea" where
  "report_ownership srv cl ids =
     (let accounts = JStr (fl_bot_username cl) # map (oget ids) [''reviewer'', ''agent'']
      in foreach (\<lambda>login owners.
           abind (report_machine_ownership srv (fl_admin cl) (py_str login)) (\<lambda>bad.
             ret (if bad then owners @ [py_str login] else owners)))
         (filter truthy accounts) [])"

section \<open>Reading the forge\<close>

definition dict_of :: "(string \<times> 'v) list \<Rightarrow> (string \<times> 'v) list" where
  "dict_of kvs = foldl (\<lambda>d (k, v). oset d k v) [] kvs"

definition if_held :: "(string \<times> bool) list \<Rightarrow> string \<Rightarrow> ('s, 'a) gitea \<Rightarrow> ('s, 'a option) gitea" where
  "if_held repos fn m =
     (if map_of repos fn = None then ret None else abind m (\<lambda>x. ret (Some x)))"

definition read_teams ::
  "'s server \<Rightarrow> client \<Rightarrow> string list \<Rightarrow> string \<Rightarrow> string \<Rightarrow> ('s, obj option) gitea" where
  "read_teams srv c orgs name org = (if org \<in> set orgs then get_team srv c org name else ret None)"

definition read_settings_of ::
  "'s server \<Rightarrow> client \<Rightarrow> (string \<times> bool) list \<Rightarrow> string \<times> repo_spec \<Rightarrow> ('s, string \<times> obj option) gitea" where
  "read_settings_of srv c repos i =
     abind (if map_of repos (repo_fn i) = None then ret None else get_repo srv c (fst i) (rs_name (snd i)))
       (\<lambda>live. ret (repo_fn i, live))"

definition read_review_team ::
  "'s server \<Rightarrow> client \<Rightarrow> string list \<Rightarrow> string \<Rightarrow> ('s, string \<times> obj option \<times> string list) gitea" where
  "read_review_team srv c orgs org =
     abind (read_teams srv c orgs (tg_name read_team) org) (\<lambda>team.
     abind (case team of
              Some (kv # kvs) \<Rightarrow>
                abind (lift (team_id (kv # kvs))) (\<lambda>k. list_team_members srv c k)
            | _ \<Rightarrow> ret []) (\<lambda>members.
       ret (org, team, members)))"

definition read_writers ::
  "'s server \<Rightarrow> client \<Rightarrow> (string \<times> bool) list \<Rightarrow> string \<times> repo_spec \<Rightarrow>
   ('s, string \<times> (string \<times> bool \<times> string) list option) gitea" where
  "read_writers srv c repos i =
     abind (if_held repos (repo_fn i)
              (amap (\<lambda>login.
                 abind (is_collaborator srv c (fst i) (rs_name (snd i)) login) (\<lambda>member.
                 abind (get_collaborator_permission srv c (fst i) (rs_name (snd i)) login) (\<lambda>permission.
                   ret (login, member, permission)))) (rs_writers (snd i))))
       (\<lambda>live. ret (repo_fn i, map_option dict_of live))"

definition read_forge ::
  "'s server \<Rightarrow> client \<Rightarrow> decls \<Rightarrow> string option \<Rightarrow> ('s, forge_reads) gitea" where
  "read_forge srv c D rvw =
     abind (list_orgs srv c) (\<lambda>orgs.
     abind (list_repos srv c) (\<lambda>repos.
     abind (amap (\<lambda>org. abind (read_teams srv c orgs (tg_name write_team) org) (\<lambda>t. ret (org, t))) (map fst D)) (\<lambda>teams.
     abind (amap (read_settings_of srv c repos) (declared_items D)) (\<lambda>settings.
     abind (amap (\<lambda>i. abind (has_refs srv c (fst i) (rs_name (snd i))) (\<lambda>b. ret (repo_fn i, b)))
              (filter (\<lambda>i. map_of repos (repo_fn i) \<noteq> None) (declared_items D))) (\<lambda>refs.
     abind (amap (\<lambda>i. abind (if_held repos (repo_fn i) (list_hooks srv c (fst i) (rs_name (snd i))))
                        (\<lambda>hooks. ret (repo_fn i, hooks))) (declared_items D)) (\<lambda>hooks.
     abind (case rvw of
              None \<Rightarrow> ret None
            | Some _ \<Rightarrow> abind (amap (read_review_team srv c orgs) (map fst D)) (\<lambda>ts. ret (Some (dict_of ts)))) (\<lambda>review.
     abind (amap (read_writers srv c repos) (filter (\<lambda>i. rs_writers (snd i) \<noteq> []) (declared_items D))) (\<lambda>writers.
       ret \<lparr>existing_orgs = orgs, existing_repos = repos, existing_teams = dict_of teams,
            existing_repo_settings = dict_of settings, existing_repo_hooks = dict_of hooks,
            existing_repo_refs = dict_of refs, existing_review_teams = review,
            existing_collaborators = dict_of writers\<rparr>))))))))"

section \<open>The reconcile command\<close>

text \<open>The checks every exit of a planned run makes, in their order.\<close>

definition plan_exit :: "reconcile_plan \<Rightarrow> string list \<Rightarrow> nat" where
  "plan_exit p owners =
     (if absent_native_repos p \<noteq> [] \<or> emptied_native_repos p \<noteq> [] then 1
      else if lost_content_repos p \<noteq> [] then 1
      else if unfilled_migrations p \<noteq> [] then 1
      else if owners \<noteq> [] then 1 else 0)"

definition needs_password :: "reconcile_plan \<Rightarrow> bool" where
  "needs_password p \<longleftrightarrow>
     repos_to_migrate p \<noteq> [] \<or> repos_to_configure p \<noteq> [] \<or> repos_to_hook p \<noteq> [] \<or>
     collaborators_to_grant p \<noteq> []"

text \<open>\<open>None\<close> is the missing password, \<open>typer.Exit(1)\<close>.\<close>

definition run_credentials ::
  "json \<Rightarrow> forge_clients \<Rightarrow> hook_declaration list \<Rightarrow> reconcile_plan \<Rightarrow>
   exn + credentials option" where
  "run_credentials merged cl hs p =
     (let base = \<lparr>admin_client = fl_admin cl, bot_client = fl_bot cl, bot_username = fl_bot_username cl,
                  migration_token = None, webhook_secrets = Some [], migrator = None, configurator = None\<rparr>
      in if \<not> needs_password p then Inr (Some base)
         else
           ebind (gitea_block merged) (\<lambda>g.
           ebind (declared_by_url hs) (\<lambda>_.
             if \<not> truthy (oget g ''admin_password'') then Inr None
             else
               ebind (identities_of merged) (\<lambda>ids.
               ebind (index ids ''superadmin'') (\<lambda>user.
                 let c = basic_auth_client (fl_base_url cl) (py_str user) (py_str (oget g ''admin_password''))
                 in Inr (Some (base
                      \<lparr>migration_token := (if truthy (oget g ''github_migration_token'')
                                           then Some (py_str (oget g ''github_migration_token'')) else None),
                       webhook_secrets := Some (map (\<lambda>h. (ws_url (hd_spec h),
                          if sops_value merged (hd_secret_key h) = [] then None
                          else Some (sops_value merged (hd_secret_key h)))) hs),
                       migrator := Some c, configurator := Some c\<rparr>)))))))"

definition reviewer_of :: "obj \<Rightarrow> string option" where
  "reviewer_of ids = (if truthy (oget ids ''reviewer'') then Some (py_str (oget ids ''reviewer'')) else None)"

text \<open>\<open>--apply\<close>: the run, the accounts after it, and the exit code.\<close>

definition apply_plan ::
  "'s server \<Rightarrow> credentials \<Rightarrow> forge_clients \<Rightarrow> obj \<Rightarrow> repo_settings \<Rightarrow> hook_declaration list \<Rightarrow>
   reconcile_plan \<Rightarrow> ('s, nat) gitea" where
  "apply_plan srv cr cl ids settings hs p =
     abind (execute srv cr settings hs p) (\<lambda>rep.
     abind (report_ownership srv cl ids) (\<lambda>owners.
       ret (if plan_exit p [] \<noteq> 0 then 1
            else if \<not> report_ok rep then 1
            else if owners \<noteq> [] then 1 else 0)))"

definition gitea_reconcile ::
  "'s server \<Rightarrow> json \<Rightarrow> bool \<Rightarrow> ('s, nat) gitea" where
  "gitea_reconcile srv merged apply =
     abind (lift (gitea_clients merged)) (\<lambda>clients.
       case clients of
         None \<Rightarrow> ret 1
       | Some cl \<Rightarrow>
           abind (lift (load_declaration merged)) (\<lambda>D.
           abind (lift (identities_of merged)) (\<lambda>ids.
             if D = [] then
               abind (report_ownership srv cl ids) (\<lambda>owners. ret (if owners \<noteq> [] then 1 else 0))
             else
               abind (lift (load_settings merged)) (\<lambda>settings.
               abind (lift (load_webhooks merged)) (\<lambda>hs.
               abind (catch_gitea
                        (abind (read_forge srv (fl_admin cl) D (reviewer_of ids)) (\<lambda>r. ret (Some r)))
                        (ret None)) (\<lambda>reads.
                 case reads of
                   None \<Rightarrow> ret 1
                 | Some r \<Rightarrow>
                     abind (lift (plan_reconcile D r settings hs (reviewer_of ids))) (\<lambda>p.
                       if is_noop p \<or> \<not> apply then
                         abind (report_ownership srv cl ids) (\<lambda>owners. ret (plan_exit p owners))
                       else
                         abind (lift (run_credentials merged cl hs p)) (\<lambda>creds.
                           case creds of
                             None \<Rightarrow> ret 1
                           | Some cr \<Rightarrow> apply_plan srv cr cl ids settings hs p))))))))"

section \<open>The drop-empty command\<close>

text \<open>The reads and the decision; \<open>None\<close> is a refusal with exit code 1.\<close>

definition decide_drop ::
  "'s server \<Rightarrow> client \<Rightarrow> client \<Rightarrow> decls \<Rightarrow> string \<Rightarrow> int option \<Rightarrow>
   ('s, ((string \<times> string) \<times> obj option \<times> drop_decision) option) gitea" where
  "decide_drop srv admin password D repo discard =
     attempt
       (abind (lift (split_full_name repo)) (\<lambda>(owner, name).
        abind (get_repo srv admin owner name) (\<lambda>current.
        abind (case current of
                 None \<Rightarrow> ret None
               | Some _ \<Rightarrow> abind (count_tracker_items srv password owner name) (\<lambda>k. ret (Some k))) (\<lambda>items.
        abind (lift (plan_drop repo current (declared_full_names D) (native_full_names D) items discard))
          (\<lambda>decision. ret (Some ((owner, name), current, decision)))))))
       (\<lambda>e. case e of
              ValueError _ \<Rightarrow> ret None
            | JSONDecodeError _ \<Rightarrow> ret None
            | GiteaError _ _ \<Rightarrow> ret None
            | _ \<Rightarrow> throw e)"

definition gitea_drop_empty ::
  "'s server \<Rightarrow> json \<Rightarrow> string \<Rightarrow> bool \<Rightarrow> int option \<Rightarrow> ('s, nat) gitea" where
  "gitea_drop_empty srv merged repo apply discard =
     abind (lift (gitea_clients merged)) (\<lambda>clients.
       case clients of
         None \<Rightarrow> ret 1
       | Some cl \<Rightarrow>
           abind (lift (gitea_block merged)) (\<lambda>g.
           abind (lift (load_declaration merged)) (\<lambda>D.
             if \<not> truthy (oget g ''admin_password'') then ret 1
             else
               abind (lift (identities_of merged)) (\<lambda>ids.
               abind (lift (index ids ''superadmin'')) (\<lambda>user.
                 let c = basic_auth_client (fl_base_url cl) (py_str user) (py_str (oget g ''admin_password'')) in
                 abind (decide_drop srv (fl_admin cl) c D repo discard) (\<lambda>decided.
                   case decided of
                     None \<Rightarrow> ret 1
                   | Some ((owner, name), current, decision) \<Rightarrow>
                       if \<not> may_drop decision then ret (if current = None then 0 else 1)
                       else if \<not> apply then ret 0
                       else
                         catch_gitea (abind (delete_repo srv c owner name) (\<lambda>_. ret 0)) (ret 1)))))))"

end
