(* ===== verification/ForgeCliFacts.thy ===== *)
theory ForgeCliFacts
  imports ForgeCli
begin

text \<open>
  What the commands \<open>reconcile\<close> and \<open>drop-empty\<close> guarantee: what they may send, that the reads cover
  the declaration, and what their exit codes mean.
\<close>

section \<open>What the reads send\<close>

abbreviation reading :: "request \<Rightarrow> bool" where
  "reading rq \<equiv> rq_meth rq = GET"

lemma reads_reading: "emits (reads_as c) m \<Longrightarrow> emits reading m"
  by (erule emits_mono) (simp add: reads_as_def)

lemmas reads_only_reading = reads_only [THEN reads_reading]

lemma emits_catch_gitea [emits_intros]: "emits P m \<Longrightarrow> emits P h \<Longrightarrow> emits P (catch_gitea m h)"
  unfolding catch_gitea_def by (auto intro!: emits_intros split: exn.split)

lemma emits_report_ownership: "emits reading (report_ownership srv cl ids)"
  unfolding report_ownership_def report_machine_ownership_def Let_def
  by (intro emits_intros reads_only_reading)

lemma emits_read_forge: "emits reading (read_forge srv c D rvw)"
  unfolding read_forge_def read_teams_def read_settings_of_def read_review_team_def read_writers_def if_held_def
  by (auto intro!: emits_intros reads_only_reading split: list.split)

text \<open>A reconcile without \<open>--apply\<close> only reads, and with it still never deletes.\<close>

theorem reconcile_plan_only_reads:
  "emits (\<lambda>rq. rq_meth rq \<noteq> DELETE \<and> (apply \<or> rq_meth rq = GET)) (gitea_reconcile srv merged apply)"
proof -
  let ?P = "\<lambda>rq. rq_meth rq \<noteq> DELETE \<and> (apply \<or> rq_meth rq = GET)"
  have r: "emits ?P m" if "emits reading m" for m
    using that by (rule emits_mono) simp
  have run: "emits ?P (execute srv cr s hs p)" if "apply" for cr s hs p
    using execute_permitted by (rule emits_mono) (simp add: that)
  show ?thesis
    unfolding gitea_reconcile_def apply_plan_def
    by (auto intro!: emits_intros r [OF emits_report_ownership] r [OF emits_read_forge] run
        split: option.split)
qed

section \<open>The reads cover the declaration\<close>

lemma map_of_foldl_oset:
  "map_of (foldl (\<lambda>d (k, v). oset d k v) d0 kvs) k \<noteq> None \<longleftrightarrow> k \<in> fst ` set kvs \<or> map_of d0 k \<noteq> None"
  by (induction kvs arbitrary: d0) (auto split: if_splits)

lemma dict_of_keys: "map_of (dict_of kvs) k \<noteq> None \<longleftrightarrow> k \<in> fst ` set kvs"
  using map_of_foldl_oset [of "[]" kvs k] by (simp add: dict_of_def)

lemma amap_keys:
  assumes "amap f xs n = (Val ys, n')"
    and "\<And>x n y n'. x \<in> set xs \<Longrightarrow> f x n = (Val y, n') \<Longrightarrow> fst y = g x"
  shows "map fst ys = map g xs"
  using assms
proof (induction xs arbitrary: n ys)
  case (Cons x xs)
  from Cons.prems(1) obtain y n1 zs where "f x n = (Val y, n1)" and "amap f xs n1 = (Val zs, n')" and "ys = y # zs"
    by (auto simp: abind_Val)
  with Cons.IH [of n1 zs] Cons.prems(2) show ?case by simp
qed simp

text \<open>The reads hold every key the planner looks up.\<close>

definition reads_cover :: "decls \<Rightarrow> string option \<Rightarrow> forge_reads \<Rightarrow> bool" where
  "reads_cover D rvw r \<longleftrightarrow>
     (\<forall>org \<in> fst ` set D. map_of (existing_teams r) org \<noteq> None) \<and>
     (\<forall>i \<in> set (declared_items D).
        map_of (existing_repo_settings r) (repo_fn i) \<noteq> None \<and>
        map_of (existing_repo_hooks r) (repo_fn i) \<noteq> None \<and>
        (held r (repo_fn i) \<longrightarrow> map_of (existing_repo_refs r) (repo_fn i) \<noteq> None) \<and>
        (rs_writers (snd i) \<noteq> [] \<longrightarrow> map_of (existing_collaborators r) (repo_fn i) \<noteq> None)) \<and>
     (case rvw of
        None \<Rightarrow> True
      | Some _ \<Rightarrow> \<exists>reads. existing_review_teams r = Some reads \<and>
          (\<forall>org \<in> fst ` set D. map_of reads org \<noteq> None))"

lemma amap_dict_keys:
  assumes "amap f xs n = (Val ys, n')"
    and "\<And>x n y n'. x \<in> set xs \<Longrightarrow> f x n = (Val y, n') \<Longrightarrow> fst y = g x"
  shows "map_of (dict_of ys) k \<noteq> None \<longleftrightarrow> k \<in> g ` set xs"
proof -
  from amap_keys [of f xs n ys n' g, OF assms] have "map fst ys = map g xs" .
  from arg_cong [OF this, of set] have "fst ` set ys = g ` set xs" by simp
  then show ?thesis by (simp only: dict_of_keys)
qed

text \<open>What the command reads of the forge covers everything the planner looks up: every declared
  organization's team, every declared repository's settings and hooks, the refs of every one the forge
  holds, the writers of every one that declares any, and the review teams when a reviewer is declared.\<close>

theorem read_forge_covers:
  assumes "read_forge srv c D rvw n = (Val r, n')"
  shows "reads_cover D rvw r"
proof -
  from assms obtain orgs repos teams settings refs hooks review writers n1 n2 n3 n4 n5 n6 n7 n8 where
    t: "amap (\<lambda>org. abind (read_teams srv c orgs (tg_name write_team) org) (\<lambda>t. ret (org, t))) (map fst D) n2 = (Val teams, n3)" and
    s: "amap (read_settings_of srv c repos) (declared_items D) n3 = (Val settings, n4)" and
    f: "amap (\<lambda>i. abind (has_refs srv c (fst i) (rs_name (snd i))) (\<lambda>b. ret (repo_fn i, b)))
          (filter (\<lambda>i. map_of repos (repo_fn i) \<noteq> None) (declared_items D)) n4 = (Val refs, n5)" and
    h: "amap (\<lambda>i. abind (if_held repos (repo_fn i) (list_hooks srv c (fst i) (rs_name (snd i))))
          (\<lambda>hooks. ret (repo_fn i, hooks))) (declared_items D) n5 = (Val hooks, n6)" and
    v: "(case rvw of None \<Rightarrow> ret None
         | Some _ \<Rightarrow> abind (amap (read_review_team srv c orgs) (map fst D)) (\<lambda>ts. ret (Some (dict_of ts)))) n6
          = (Val review, n7)" and
    w: "amap (read_writers srv c repos) (filter (\<lambda>i. rs_writers (snd i) \<noteq> []) (declared_items D)) n7 = (Val writers, n8)" and
    r: "r = \<lparr>existing_orgs = orgs, existing_repos = repos, existing_teams = dict_of teams,
            existing_repo_settings = dict_of settings, existing_repo_hooks = dict_of hooks,
            existing_repo_refs = dict_of refs, existing_review_teams = review,
            existing_collaborators = dict_of writers\<rparr>"
    unfolding read_forge_def abind_Val ret_Val by blast
  have T: "map_of (dict_of teams) k \<noteq> None \<longleftrightarrow> k \<in> (\<lambda>org. org) ` set (map fst D)" for k
    by (rule amap_dict_keys [OF t]) (auto simp: abind_Val)
  have S: "map_of (dict_of settings) k \<noteq> None \<longleftrightarrow> k \<in> repo_fn ` set (declared_items D)" for k
    by (rule amap_dict_keys [OF s]) (auto simp: read_settings_of_def abind_Val)
  have F: "map_of (dict_of refs) k \<noteq> None \<longleftrightarrow>
      k \<in> repo_fn ` set (filter (\<lambda>i. map_of repos (repo_fn i) \<noteq> None) (declared_items D))" for k
    by (rule amap_dict_keys [OF f]) (auto simp: abind_Val)
  have H: "map_of (dict_of hooks) k \<noteq> None \<longleftrightarrow> k \<in> repo_fn ` set (declared_items D)" for k
    by (rule amap_dict_keys [OF h]) (auto simp: abind_Val)
  have W: "map_of (dict_of writers) k \<noteq> None \<longleftrightarrow>
      k \<in> repo_fn ` set (filter (\<lambda>i. rs_writers (snd i) \<noteq> []) (declared_items D))" for k
    by (rule amap_dict_keys [OF w]) (auto simp: read_writers_def abind_Val)
  have V: "\<exists>reads. review = Some reads \<and> (\<forall>org \<in> fst ` set D. map_of reads org \<noteq> None)" if "rvw = Some x" for x
  proof -
    from v that obtain ts m where m: "amap (read_review_team srv c orgs) (map fst D) n6 = (Val ts, m)"
      and review: "review = Some (dict_of ts)" by (auto simp: abind_Val)
    have "map_of (dict_of ts) k \<noteq> None \<longleftrightarrow> k \<in> (\<lambda>org. org) ` set (map fst D)" for k
      by (rule amap_dict_keys [OF m]) (auto simp: read_review_team_def abind_Val)
    with review show ?thesis by simp
  qed
  show ?thesis
    unfolding reads_cover_def held_def r using T S F H W V
    by (auto split: option.split simp del: not_None_eq)
qed

section \<open>What an exit code of zero means\<close>

definition plan_exit_ok :: "reconcile_plan \<Rightarrow> bool" where
  "plan_exit_ok p \<longleftrightarrow> absent_native_repos p = [] \<and> emptied_native_repos p = [] \<and>
     lost_content_repos p = [] \<and> unfilled_migrations p = []"

lemma plan_exit_zero: "plan_exit p owners = 0 \<longleftrightarrow> plan_exit_ok p \<and> owners = []"
  by (auto simp: plan_exit_def plan_exit_ok_def)


section \<open>What drop-empty may delete\<close>

lemma emits_abind_Val:
  assumes "emits P m" and "\<And>x n n'. m n = (Val x, n') \<Longrightarrow> emits P (f x)"
  shows "emits P (abind m f)"
  using assms(1) by (rule emits_abind_strong) (use assms(2) in \<open>fastforce simp: emits_def\<close>)

text \<open>The repository was read from the forge as empty, by the client \<open>admin\<close>, and its tracker counted by
  \<open>c\<close> at zero or at the number the operator gave.\<close>

definition read_droppable ::
  "'s server \<Rightarrow> client \<Rightarrow> client \<Rightarrow> string \<Rightarrow> string \<Rightarrow> int option \<Rightarrow> bool" where
  "read_droppable srv admin c owner name discard \<longleftrightarrow>
     (\<exists>n r n1 k n2. get_repo srv admin owner name n = (Val (Some r), n1) \<and> truthy (oget r ''empty'') \<and>
        count_tracker_items srv c owner name n1 = (Val k, n2) \<and> (k = 0 \<or> discard = Some k))"

definition may_delete ::
  "'s server \<Rightarrow> json \<Rightarrow> forge_clients \<Rightarrow> client \<Rightarrow> string \<Rightarrow> int option \<Rightarrow> string \<Rightarrow> string \<Rightarrow> bool" where
  "may_delete srv merged cl c repo discard owner name \<longleftrightarrow>
     split_full_name repo = Inr (owner, name) \<and>
     (\<exists>D. load_declaration merged = Inr D \<and> repo \<in> set (declared_full_names D) - set (native_full_names D)) \<and>
     read_droppable srv (fl_admin cl) c owner name discard"

definition allowed_delete :: "'s server \<Rightarrow> json \<Rightarrow> string \<Rightarrow> int option \<Rightarrow> request \<Rightarrow> bool" where
  "allowed_delete srv merged repo discard rq \<longleftrightarrow> rq_meth rq = DELETE \<and>
     (\<exists>cl c owner name. gitea_clients merged = Inr (Some cl) \<and> rq_path rq = repo_path owner name \<and>
        may_delete srv merged cl c repo discard owner name)"

lemma refused_decision:
  "(case e of ValueError _ \<Rightarrow> ret None | JSONDecodeError _ \<Rightarrow> ret None | GiteaError _ _ \<Rightarrow> ret None
    | _ \<Rightarrow> throw e) n \<noteq> (Val (Some x), n')"
  by (cases e) simp_all

lemma decide_drop_allows:
  assumes "decide_drop srv admin c D repo discard n = (Val (Some ((owner, name), current, d)), n')" and "may_drop d"
  shows "split_full_name repo = Inr (owner, name) \<and> repo \<in> set (declared_full_names D) - set (native_full_names D) \<and>
     read_droppable srv admin c owner name discard"
proof -
  from assms(1) obtain n1 n2 items where
    s: "split_full_name repo = Inr (owner, name)" and
    g: "get_repo srv admin owner name n = (Val current, n1)" and
    i: "(case current of None \<Rightarrow> ret None
         | Some _ \<Rightarrow> abind (count_tracker_items srv c owner name) (\<lambda>k. ret (Some k))) n1 = (Val items, n2)" and
    p: "plan_drop repo current (declared_full_names D) (native_full_names D) items discard = Inr d"
    unfolding decide_drop_def
    by (auto simp: attempt_Val refused_decision abind_Val)
  from p assms(2) obtain r k where "current = Some r" and "truthy (oget r ''empty'')" and "items = Some k"
    and "k = 0 \<or> discard = Some k" and "repo \<in> set (declared_full_names D) - set (native_full_names D)"
    by (auto simp: plan_drop_def refuse_def split: option.splits if_splits)
  with s g i show ?thesis
    unfolding read_droppable_def by (simp add: abind_Val) blast
qed

lemma emits_decide_drop: "emits reading (decide_drop srv admin c D repo discard)"
  unfolding decide_drop_def
  by (auto intro!: emits_intros reads_only_reading split: option.split exn.split)


end
