(* ===== verification/ForgeCliSamples.thy ===== *)
theory ForgeCliSamples
  imports ForgeSamples ForgeCliFacts
begin

text \<open>
  One configuration and one empty forge at which the properties of the reconcile command are
  instantiated: the forge lists nothing until it is first written to, and then reads back as a forge
  that applied every write.
\<close>

definition command_config :: json where
  "command_config = JObj
     [(''a'', JObj [(''b'', JStr ''s3cret'')]),
      (''apps'', JObj
        [(''services'', JObj [(''core'', JObj [(''gitea'', JObj
           [(''domain'', JStr ''git.example''), (''admin_token'', JStr ''t0''), (''bot_token'', JStr ''t1''),
            (''admin_password'', JStr ''pw''),
            (''organizations'', JObj [(''acme'', JObj [(''repositories'', JArr
               [JObj [(''name'', JStr ''site''), (''private'', JBool False)]])])]),
            (''repository_settings'', JObj (settings_payload sample_settings)),
            (''webhooks'', oget (case sample_gitea of JObj kvs \<Rightarrow> kvs | _ \<Rightarrow> []) ''webhooks'')])])]),
         (''auth'', JObj [(''identities'', JObj
           [(''machine'', JStr ''bot''), (''superadmin'', JStr ''root'')])])])]"

definition growing_forge :: "nat server" where
  "growing_forge rq k =
     (if rq_meth rq = GET \<and> (k = 0 \<or> ends_with ''/repos?page=1&limit=50'' (rq_path rq))
      then (Response 200 (Json (if starts_with ''/repos/search'' (rq_path rq) then JObj [(''data'', JArr [])]
                               else JArr [])), k)
      else applying_forge rq k)"

definition command_run :: "bool \<Rightarrow> nat outcome \<times> (request, nat) net" where
  "command_run apply = gitea_reconcile growing_forge command_config apply sample_net"

lemma command_plan_zero: "fst (command_run False) = Val 0"
  by code_simp

lemma command_apply_zero: "fst (command_run True) = Val 0"
  by code_simp

lemma command_run_Val:
  "fst (command_run apply) = Val k \<Longrightarrow>
     gitea_reconcile growing_forge command_config apply sample_net = (Val k, snd (command_run apply))"
  unfolding command_run_def by (metis prod.collapse)

definition command_clients :: forge_clients where
  "command_clients =
     \<lparr>fl_admin = gitea_client ''https://git.example'' ''t0'', fl_bot = gitea_client ''https://git.example'' ''t1'',
      fl_bot_username = ''bot'', fl_base_url = ''https://git.example''\<rparr>"

definition command_decls :: decls where
  "command_decls =
     [(''acme'', [\<lparr>rs_name = ''site'', rs_migrate_from = JNull, rs_private = False, rs_native = False,
                   rs_writers = []\<rparr>])]"

lemma command_clients: "gitea_clients command_config = Inr (Some command_clients)"
  and command_decls: "load_declaration command_config = Inr command_decls"
  by code_simp+


definition command_read :: "forge_reads outcome \<times> (request, nat) net" where
  "command_read = read_forge growing_forge (fl_admin command_clients) command_decls (Some ''ravi'') sample_net"

lemma read_forge_covers_witness:
  "\<exists>r. fst command_read = Val r \<and> reads_cover command_decls (Some ''ravi'') r"
proof -
  have "case fst command_read of Val r \<Rightarrow> True | _ \<Rightarrow> False" by code_simp
  then obtain r where r: "fst command_read = Val r" by (auto split: outcome.splits)
  then have "read_forge growing_forge (fl_admin command_clients) command_decls (Some ''ravi'') sample_net =
      (Val r, snd command_read)" unfolding command_read_def by (metis prod.collapse)
  from read_forge_covers [OF this] r show ?thesis by blast
qed

end
