(* ===== verification/MergePatch.thy ===== *)
theory MergePatch
  imports Prelude
begin

text \<open>
  JSON merge patches: what the API server does with one (RFC 7386), and \<open>replace_with\<close> of
  \<open>toolkit/features/restore_window.py\<close>, which builds the patch that turns a live object into a
  declared one. The lemmas show that it does, and why a declaration with a null in it is the exception.
\<close>

section \<open>Applying a merge patch\<close>

definition odelete :: "(string \<times> 'v) list \<Rightarrow> string \<Rightarrow> (string \<times> 'v) list" where
  "odelete kvs k = filter (\<lambda>kv. fst kv \<noteq> k) kvs"

lemma map_of_odelete [simp]: "map_of (odelete kvs k) = (map_of kvs)(k := None)"
  unfolding odelete_def by (induction kvs) (auto simp: fun_eq_iff)

lemma distinct_odelete [simp]: "distinct (map fst kvs) \<Longrightarrow> distinct (map fst (odelete kvs k))"
  unfolding odelete_def by (rule distinct_map_filter)

lemma set_odelete: "set (odelete kvs k) \<subseteq> set kvs"
  by (auto simp: odelete_def)

fun members :: "json \<Rightarrow> obj" where
  "members (JObj kvs) = kvs"
| "members _ = []"

text \<open>A null removes the member; an object is merged into it, and anything else replaces it.\<close>

fun merge_patch :: "json \<Rightarrow> json \<Rightarrow> json"
  and merge_members :: "obj \<Rightarrow> obj \<Rightarrow> obj" where
  "merge_patch target (JObj ps) = JObj (merge_members (members target) ps)"
| "merge_patch target (JArr xs) = JArr xs"
| "merge_patch target (JStr s) = JStr s"
| "merge_patch target (JInt n) = JInt n"
| "merge_patch target (JBool b) = JBool b"
| "merge_patch target JNull = JNull"
| "merge_members kvs [] = kvs"
| "merge_members kvs ((k, p) # ps) =
     merge_members (if p = JNull then odelete kvs k else oset kvs k (merge_patch (oget kvs k) p)) ps"

lemma distinct_merge_members: "distinct (map fst kvs) \<Longrightarrow> distinct (map fst (merge_members kvs ps))"
  by (induction ps arbitrary: kvs) auto

lemma map_of_merge_members:
  "distinct (map fst ps) \<Longrightarrow>
     map_of (merge_members kvs ps) k =
       (case map_of ps k of
          None \<Rightarrow> map_of kvs k
        | Some p \<Rightarrow> if p = JNull then None else Some (merge_patch (oget kvs k) p))"
proof (induction ps arbitrary: kvs)
  case (Cons q ps)
  obtain j p where q: "q = (j, p)" by fastforce
  have "map_of ps j = None" using Cons.prems by (simp add: q map_of_eq_None_iff)
  with Cons show ?case by (auto simp: q oget_def split: option.split)
qed simp

lemma oget_merge_members:
  "distinct (map fst ps) \<Longrightarrow>
     oget (merge_members kvs ps) k =
       (case map_of ps k of None \<Rightarrow> oget kvs k | Some p \<Rightarrow> if p = JNull then JNull else merge_patch (oget kvs k) p)"
  unfolding oget_def by (subst map_of_merge_members) (auto simp: oget_def split: option.split)

section \<open>Building one\<close>

fun replace_with :: "json \<Rightarrow> json \<Rightarrow> json"
  and replace_entries :: "obj \<Rightarrow> obj \<Rightarrow> obj" where
  "replace_with live (JObj desired) =
     (case live of
        JObj kvs \<Rightarrow>
          JObj (map (\<lambda>kv. (fst kv, JNull)) (filter (\<lambda>kv. map_of desired (fst kv) = None) kvs)
                @ replace_entries kvs desired)
      | _ \<Rightarrow> JObj desired)"
| "replace_with live (JArr xs) = JArr xs"
| "replace_with live (JStr s) = JStr s"
| "replace_with live (JInt n) = JInt n"
| "replace_with live (JBool b) = JBool b"
| "replace_with live JNull = JNull"
| "replace_entries kvs [] = []"
| "replace_entries kvs ((k, v) # desired) =
     (case map_of kvs k of
        None \<Rightarrow> (k, replace_with JNull v) # replace_entries kvs desired
      | Some l \<Rightarrow>
          if py_eq l v then replace_entries kvs desired
          else (k, replace_with l v) # replace_entries kvs desired)"

text \<open>No member of an object is null. Nulls in arrays are no obstacle: an array is replaced whole.\<close>

fun null_free :: "json \<Rightarrow> bool" where
  "null_free (JObj kvs) = list_all (\<lambda>kv. snd kv \<noteq> JNull \<and> null_free (snd kv)) kvs"
| "null_free _ = True"

lemma replace_with_scalar: "\<not> is_mapping live \<Longrightarrow> replace_with live desired = desired"
  by (cases desired; cases live) simp_all

lemma replace_with_null [simp]: "replace_with live desired = JNull \<longleftrightarrow> desired = JNull"
  by (cases desired; cases live) simp_all

lemma keys_replace_entries: "e \<in> set (replace_entries kvs desired) \<Longrightarrow> fst e \<in> fst ` set desired"
  by (induction desired) (auto split: option.splits if_splits)

lemma distinct_replace_entries:
  "distinct (map fst desired) \<Longrightarrow> distinct (map fst (replace_entries kvs desired))"
proof (induction desired)
  case (Cons e desired)
  obtain k v where e: "e = (k, v)" by fastforce
  have "k \<notin> fst ` set (replace_entries kvs desired)"
    using Cons.prems keys_replace_entries [of _ kvs desired] by (force simp: e)
  with Cons show ?case by (simp add: e split: option.split)
qed simp

lemma map_of_replace_entries:
  "distinct (map fst desired) \<Longrightarrow>
     map_of (replace_entries kvs desired) k =
       (case map_of desired k of
          None \<Rightarrow> None
        | Some v \<Rightarrow> (case map_of kvs k of
             None \<Rightarrow> Some (replace_with JNull v)
           | Some l \<Rightarrow> if py_eq l v then None else Some (replace_with l v)))"
proof (induction desired)
  case (Cons e desired)
  obtain j v where e: "e = (j, v)" by fastforce
  have "map_of desired j = None" using Cons.prems by (simp add: e map_of_eq_None_iff)
  with Cons show ?case by (auto simp: e split: option.split)
qed simp

lemma replace_entries_Nil: "replace_entries [] desired = desired"
  by (induction desired) (auto simp: replace_with_scalar)

text \<open>The members of the patch, as a map.\<close>

definition patch_members :: "obj \<Rightarrow> obj \<Rightarrow> obj" where
  "patch_members kvs desired =
     map (\<lambda>kv. (fst kv, JNull)) (filter (\<lambda>kv. map_of desired (fst kv) = None) kvs) @ replace_entries kvs desired"

lemma distinct_patch_members:
  assumes "distinct (map fst kvs)" and "distinct (map fst desired)"
  shows "distinct (map fst (patch_members kvs desired))"
proof -
  have "fst ` set (replace_entries kvs desired) \<subseteq> fst ` set desired" using keys_replace_entries by blast
  moreover have "map fst (map (\<lambda>kv. (fst kv, JNull)) xs) = map fst xs" for xs :: obj by simp
  ultimately show ?thesis
    using distinct_map_filter [OF assms(1), of "\<lambda>kv. map_of desired (fst kv) = None"]
      distinct_replace_entries [OF assms(2), of kvs]
    by (auto simp: patch_members_def map_of_eq_None_iff simp del: map_map)
qed

lemma map_of_patch_members:
  assumes "distinct (map fst desired)"
  shows "map_of (patch_members kvs desired) k =
    (case map_of desired k of
       None \<Rightarrow> if map_of kvs k = None then None else Some JNull
     | Some v \<Rightarrow> (case map_of kvs k of
          None \<Rightarrow> Some (replace_with JNull v)
        | Some l \<Rightarrow> if py_eq l v then None else Some (replace_with l v)))"
proof -
  have "map_of (map (\<lambda>kv. (fst kv, JNull)) (filter (\<lambda>kv. map_of desired (fst kv) = None) kvs)) k =
      (if map_of desired k = None \<and> map_of kvs k \<noteq> None then Some JNull else None)"
    by (induction kvs) auto
  then show ?thesis
    by (auto simp: patch_members_def map_add_def map_of_replace_entries [OF assms] split: option.split)
qed

section \<open>The patch turns the live object into the declared one\<close>

lemma py_eq_objI:
  assumes "distinct (map fst kvs)" and "distinct (map fst kws)"
    and "\<And>k. rel_option py_eq (map_of kvs k) (map_of kws k)"
  shows "py_eq (JObj kvs) (JObj kws)"
proof -
  have "map_of kvs k = None \<longleftrightarrow> map_of kws k = None" for k
    using assms(3) [of k] by (cases "map_of kvs k"; cases "map_of kws k") auto
  then have "fst ` set kvs = fst ` set kws" by (auto simp: map_of_eq_None_iff)
  then have "length kvs = length kws"
    using distinct_card [OF assms(1)] distinct_card [OF assms(2)] by simp
  moreover have "\<exists>w. map_of kws k = Some w \<and> py_eq v w" if "(k, v) \<in> set kvs" for k v
    using assms(3) [of k] map_of_is_SomeI [OF assms(1) that] by (cases "map_of kws k") auto
  ultimately show ?thesis by (auto simp: py_eq_obj_iff)
qed

lemma members_wf: "json_wf x \<Longrightarrow> distinct (map fst (members x)) \<and> (\<forall>kv \<in> set (members x). json_wf (snd kv))"
  by (cases x) (auto simp: list_all_iff)

lemma size_member: "(k, v) \<in> set kvs \<Longrightarrow> size v < size (JObj kvs)"
  by (induction kvs) auto

lemma merge_replace:
  "json_wf live \<Longrightarrow> json_wf desired \<Longrightarrow> null_free desired \<Longrightarrow>
     py_eq (merge_patch live (replace_with live desired)) desired"
proof (induction "size desired" arbitrary: live desired rule: less_induct)
  case less
  show ?case
  proof (cases desired)
    case (JObj ds)
    define kvs where "kvs = members live"
    have live: "distinct (map fst kvs)" "\<And>k v. map_of kvs k = Some v \<Longrightarrow> json_wf v"
      using members_wf [OF less.prems(1)] by (auto simp: kvs_def dest!: map_of_SomeD)
    have ds: "distinct (map fst ds)" using less.prems(2) by (simp add: JObj)
    have val: "json_wf v \<and> null_free v \<and> v \<noteq> JNull \<and> size v < size desired" if "map_of ds k = Some v" for k v
      using map_of_SomeD [OF that] less.prems(2,3) size_member [of k v ds] unfolding JObj
      by (fastforce simp: list_all_iff)
    have patch: "replace_with live desired = JObj (patch_members kvs ds)"
      unfolding JObj kvs_def patch_members_def
      by (cases live) (simp_all add: replace_entries_Nil)
    show ?thesis
      unfolding patch merge_patch.simps kvs_def [symmetric] unfolding JObj
    proof (rule py_eq_objI [OF distinct_merge_members [OF live(1)] ds])
      fix k
      have merged: "py_eq (merge_patch l (replace_with l v)) v" if "map_of ds k = Some v" and "json_wf l" for l v
        using val [OF that(1)] that(2) by (intro less.hyps) simp_all
      show "rel_option py_eq (map_of (merge_members kvs (patch_members kvs ds)) k) (map_of ds k)"
        unfolding map_of_merge_members [OF distinct_patch_members [OF live(1) ds]] map_of_patch_members [OF ds]
        using merged [of _ JNull] merged live(2) [of k] val [of k]
        by (auto simp: oget_def split: option.split)
    qed
  qed (use less.prems py_eq_refl [OF less.prems(2)] in auto)
qed

text \<open>C15. The patch that \<open>replace_with\<close> builds turns the live object into exactly the declared one, for every
  pair of values in which the declared one holds no null member: keys the declaration lacks are gone,
  the others hold what it says.\<close>

theorem replace_with_roundtrip:
  assumes "json_wf live" and "json_wf desired" and "null_free desired"
  shows "py_eq (merge_patch live (replace_with live desired)) desired"
  using assms by (rule merge_replace)

definition paused_policy :: json where
  "paused_policy =
     JObj [(''automated'', JObj [(''prune'', JBool True), (''selfHeal'', JBool True), (''enabled'', JBool False)])]"

definition declared_policy :: json where
  "declared_policy =
     JObj [(''automated'', JObj [(''prune'', JBool True), (''selfHeal'', JBool False)]),
           (''syncOptions'', JArr [JStr ''CreateNamespace=true''])]"

lemma replace_with_roundtrip_witness:
  "py_eq (merge_patch paused_policy (replace_with paused_policy declared_policy)) declared_policy
     \<and> oget (members (replace_with paused_policy declared_policy)) ''automated''
         = JObj [(''enabled'', JNull), (''selfHeal'', JBool False)]"
proof -
  have "json_wf paused_policy" and "json_wf declared_policy" and "null_free declared_policy"
    and "oget (members (replace_with paused_policy declared_policy)) ''automated''
         = JObj [(''enabled'', JNull), (''selfHeal'', JBool False)]"
    by code_simp+
  then show ?thesis using replace_with_roundtrip by blast
qed

text \<open>A null member of the declaration is sent as a removal, so it is not restored.\<close>

lemma replace_with_null_lost:
  "merge_patch (JObj []) (replace_with (JObj []) (JObj [(k, JNull)])) = JObj []"
  by (simp add: odelete_def)

text \<open>A live object that already is the declared one needs no patch.\<close>

lemma replace_with_same: "json_wf (JObj kvs) \<Longrightarrow> replace_with (JObj kvs) (JObj kvs) = JObj []"
proof -
  assume wf: "json_wf (JObj kvs)"
  then have same: "py_eq v v" if "(k, v) \<in> set kvs" for k v
    using that by (force simp: list_all_iff intro: py_eq_refl)
  have "replace_entries kvs ds = []" if "set ds \<subseteq> set kvs" for ds
    using that wf same by (induction ds) (auto split: option.split)
  moreover have "filter (\<lambda>kv. map_of kvs (fst kv) = None) kvs = []"
    by (auto simp: filter_empty_conv map_of_eq_None_iff)
  ultimately show ?thesis by simp
qed

end
