(* ===== verification/Kubectl.thy ===== *)
theory Kubectl
  imports Effects
begin

text \<open>
  Programs that call a command and poll its answers under a deadline: \<open>kubectl\<close> calls as
  \<open>toolkit/features/restore_window.py\<close> and its siblings make them, and the loop
  \<open>while True: look; if settled, return; if late, give up; sleep\<close> they share.

  A call is its cluster, namespace and arguments; the document of a \<open>-p\<close> or \<open>-f -\<close> argument stays the
  value it serialises. A reply is the exit code, what \<open>json.loads\<close> makes of standard output, and
  standard error. Times are integers in nanoseconds, the unit of the monotonic clock.

  The clock and the sleep are parameters too. \<open>keeps_time\<close> states what Python documents of them: the
  monotonic clock never goes back, and \<open>time.sleep(d)\<close> lasts at least \<open>d\<close>. Under it a polling loop
  ends by itself: \<open>ends_poll\<close> says how many looks it makes at most, and \<open>poll_settled\<close> that a larger
  bound then changes nothing, so the bound of the model is not one of the program.
\<close>

named_theorems calls_intros \<open>rules for the number of calls an action makes\<close>
named_theorems forward_intros \<open>rules for actions that do not turn the clock back\<close>

section \<open>Calls\<close>

record kubectl =
  k_config :: string
  k_namespace :: string
  k_args :: "string list"
  k_body :: "json option"

datatype stdout = Parsed json | Unparsed string

record kubectl_reply =
  k_rc :: int
  k_out :: stdout
  k_err :: string

type_synonym 's cluster = "kubectl \<Rightarrow> 's \<Rightarrow> kubectl_reply \<times> 's"

definition kubectl :: "string \<Rightarrow> string \<Rightarrow> string list \<Rightarrow> kubectl" where
  "kubectl config namespace args =
     \<lparr>k_config = config, k_namespace = namespace, k_args = args, k_body = None\<rparr>"

lemma kubectl_simps [simp]:
  "k_config (kubectl c ns as) = c" "k_namespace (kubectl c ns as) = ns"
  "k_args (kubectl c ns as) = as" "k_body (kubectl c ns as) = None"
  by (simp_all add: kubectl_def)

definition loads_output :: "stdout \<Rightarrow> exn + json" where
  "loads_output out = (case out of Parsed j \<Rightarrow> Inr j | Unparsed s \<Rightarrow> Inl (JSONDecodeError s))"

section \<open>The clock\<close>

record 's timer =
  t_clock :: "'s \<Rightarrow> int"
  t_sleep :: "int \<Rightarrow> 's \<Rightarrow> 's"

definition second :: int where
  "second = 1000000000"

definition clock :: "'s timer \<Rightarrow> ('q, 's, int) act" where
  "clock tm n = (Val (t_clock tm (world n)), n)"

definition sleep :: "'s timer \<Rightarrow> int \<Rightarrow> ('q, 's, unit) act" where
  "sleep tm d n = (Val (), n\<lparr>world := t_sleep tm d (world n)\<rparr>)"

definition keeps_time :: "'s timer \<Rightarrow> ('q \<Rightarrow> 's \<Rightarrow> 'r \<times> 's) \<Rightarrow> bool" where
  "keeps_time tm srv \<longleftrightarrow>
     (\<forall>d w. t_clock tm w + d \<le> t_clock tm (t_sleep tm d w)) \<and>
     (\<forall>q w. t_clock tm w \<le> t_clock tm (snd (srv q w)))"

lemma emits_clock [emits_intros]: "emits P (clock tm)"
  and emits_sleep [emits_intros]: "emits P (sleep tm d)"
  by (simp_all add: emits_def clock_def sleep_def)

lemma clock_Val [simp]: "clock tm n = (Val t, n') \<longleftrightarrow> t = t_clock tm (world n) \<and> n' = n"
  by (auto simp: clock_def)

section \<open>The polling loop\<close>

text \<open>One look either settles the wait or says what it still waits for; \<open>late\<close> is what giving up does.\<close>

fun poll ::
  "nat \<Rightarrow> 's timer \<Rightarrow> int \<Rightarrow> int \<Rightarrow> int \<Rightarrow> ('q, 's, 'b + 'a) act \<Rightarrow> ('b \<Rightarrow> ('q, 's, 'a) act) \<Rightarrow>
   ('q, 's, 'a) act" where
  "poll 0 tm every started timeout look late = stuck"
| "poll (Suc k) tm every started timeout look late =
     abind look (\<lambda>seen. case seen of
       Inr x \<Rightarrow> ret x
     | Inl pending \<Rightarrow>
         abind (clock tm) (\<lambda>t.
           if timeout \<le> t - started then late pending
           else abind (sleep tm every) (\<lambda>_. poll k tm every started timeout look late)))"

lemma emits_poll [emits_intros]:
  assumes "emits P look" and "\<And>b. emits P (late b)"
  shows "emits P (poll k tm every started timeout look late)"
  by (induction k) (auto intro!: emits_intros assms split: sum.split)

text \<open>A loop that ended is the same loop under any larger bound.\<close>

lemma poll_settled:
  "fst (poll k tm every started timeout look late n) \<noteq> Stuck \<Longrightarrow>
     poll (k + j) tm every started timeout look late n = poll k tm every started timeout look late n"
proof (induction k arbitrary: n)
  case (Suc k)
  then show ?case
    by (auto simp: abind_def clock_def sleep_def ret_def split: prod.splits outcome.splits sum.splits)
qed (simp add: stuck_def)

text \<open>A value is one that the last look settled, or what giving up on it returned.\<close>

lemma poll_returns:
  "poll k tm every started timeout look late n = (Val x, n') \<Longrightarrow>
     (\<exists>m. look m = (Val (Inr x), n')) \<or>
     (\<exists>m b m'. look m = (Val (Inl b), m') \<and> timeout \<le> t_clock tm (world m') - started \<and> late b m' = (Val x, n'))"
proof (induction k arbitrary: n)
  case (Suc k)
  from Suc.prems obtain seen n1 where look: "look n = (Val seen, n1)" and
    rest: "(case seen of
       Inr x \<Rightarrow> ret x
     | Inl pending \<Rightarrow>
         abind (clock tm) (\<lambda>t.
           if timeout \<le> t - started then late pending
           else abind (sleep tm every) (\<lambda>_. poll k tm every started timeout look late))) n1 = (Val x, n')"
    by (auto simp: abind_Val)
  show ?case
  proof (cases seen)
    case (Inl pending)
    show ?thesis
    proof (cases "timeout \<le> t_clock tm (world n1) - started")
      case True
      with rest Inl have "late pending n1 = (Val x, n')" by (simp add: abind_Val)
      with look Inl True show ?thesis by blast
    next
      case False
      with rest Inl obtain n2 where "poll k tm every started timeout look late n2 = (Val x, n')"
        by (auto simp: abind_Val)
      then show ?thesis by (rule Suc.IH)
    qed
  qed (use look rest in auto)
qed (simp add: stuck_def)

lemma poll_Val:
  assumes "\<And>b m m'. late b m \<noteq> (Val x, m')"
    and "poll k tm every started timeout look late n = (Val x, n')"
  shows "\<exists>m. look m = (Val (Inr x), n')"
  using poll_returns [OF assms(2)] assms(1) by blast

section \<open>Loops end\<close>

definition timely :: "'s timer \<Rightarrow> int \<Rightarrow> nat \<Rightarrow> ('q, 's) net \<Rightarrow> bool" where
  "timely tm started k n \<longleftrightarrow> k \<le> budget n \<and> started \<le> t_clock tm (world n)"

lemma answers_call_timely [answers_intros]:
  "keeps_time tm srv \<Longrightarrow> answers (timely tm t k) (call srv q)"
  unfolding answers_def call_def timely_def keeps_time_def
  by (auto simp: case_prod_beta intro: order_trans)

lemma answers_clock_timely [answers_intros]: "answers (timely tm t k) (clock tm)"
  by (simp add: answers_def clock_def)

lemma answers_call_budget [answers_intros]: "answers (\<lambda>n. k \<le> budget n) (call srv q)"
  by (simp add: answers_def call_def case_prod_beta)

lemma answers_start:
  assumes "\<And>t. answers (timely tm t k) (f t)"
  shows "answers (\<lambda>n. k \<le> budget n) (abind (clock tm) f)"
  unfolding answers_def
proof (intro allI impI)
  fix n :: "('a, 'b) net"
  assume "k \<le> budget n"
  then have "timely tm (t_clock tm (world n)) k n" by (simp add: timely_def)
  with assms have "fst (f (t_clock tm (world n)) n) \<noteq> Stuck \<and>
      timely tm (t_clock tm (world n)) k (snd (f (t_clock tm (world n)) n))"
    by (simp add: answers_def)
  then show "fst (abind (clock tm) f n) \<noteq> Stuck \<and> k \<le> budget (snd (abind (clock tm) f n))"
    by (simp add: abind_def clock_def timely_def)
qed

text \<open>Enough iterations: as many sleeps as fit in the timeout, and one look more.\<close>

definition poll_bound :: "int \<Rightarrow> int \<Rightarrow> nat" where
  "poll_bound every timeout = nat (timeout div every) + 2"

lemma poll_bound_enough: "0 < every \<Longrightarrow> timeout \<le> (int (poll_bound every timeout) - 1) * every"
proof -
  assume e: "0 < every"
  have "timeout < (timeout div every + 1) * every"
    using e by (metis add.commute div_mult_mod_eq distrib_right mult_1 add_less_cancel_left pos_mod_bound)
  also have "\<dots> \<le> (int (nat (timeout div every)) + 1) * every"
    using e by (intro mult_right_mono) auto
  finally show ?thesis by (simp add: poll_bound_def algebra_simps)
qed

section \<open>How many calls\<close>

definition calls_at_most :: "nat \<Rightarrow> ('q, 's, 'a) act \<Rightarrow> bool" where
  "calls_at_most c m \<longleftrightarrow> (\<forall>n. length (sent (snd (m n))) \<le> length (sent n) + c)"

lemma calls_simple [calls_intros]:
  "calls_at_most 0 (ret x)" "calls_at_most 0 (throw e)" "calls_at_most 0 stuck"
  "calls_at_most 0 (lift r)" "calls_at_most 0 (clock tm)" "calls_at_most 0 (sleep tm d)"
  "calls_at_most 1 (call srv q)"
  by (simp_all add: calls_at_most_def act_simps clock_def sleep_def call_def lift_def case_prod_beta split: sum.split)

lemma calls_abind:
  assumes "calls_at_most a m" and "\<And>x. calls_at_most b (f x)"
  shows "calls_at_most (a + b) (abind m f)"
  unfolding calls_at_most_def
proof
  fix n
  obtain r n1 where m: "m n = (r, n1)" by fastforce
  have 1: "length (sent n1) \<le> length (sent n) + a" using assms(1) m by (metis calls_at_most_def snd_conv)
  show "length (sent (snd (abind m f n))) \<le> length (sent n) + (a + b)"
  proof (cases r)
    case (Val x)
    have "length (sent (snd (f x n1))) \<le> length (sent n1) + b"
      using assms(2) by (simp add: calls_at_most_def)
    with 1 Val m show ?thesis by (simp add: abind_def)
  qed (use 1 m in \<open>simp_all add: abind_def\<close>)
qed

lemma calls_mono: "calls_at_most a m \<Longrightarrow> a \<le> b \<Longrightarrow> calls_at_most b m"
  unfolding calls_at_most_def by (meson add_left_mono order_trans)

section \<open>Actions that end, with a bound on their calls\<close>

definition ends :: "(('q, 's) net \<Rightarrow> bool) \<Rightarrow> nat \<Rightarrow> ('q, 's, 'a) act \<Rightarrow> bool" where
  "ends I c m \<longleftrightarrow>
     (\<forall>n. I n \<longrightarrow> fst (m n) \<noteq> Stuck \<and> I (snd (m n)) \<and> length (sent (snd (m n))) \<le> length (sent n) + c)"

lemma endsI: "answers I m \<Longrightarrow> calls_at_most c m \<Longrightarrow> ends I c m"
  by (simp add: ends_def answers_def calls_at_most_def)

lemma endsD:
  assumes "ends I c m" and "I n" and "m n = (r, n')"
  shows "r \<noteq> Stuck" and "I n'" and "length (sent n') \<le> length (sent n) + c"
  using assms unfolding ends_def by (metis fst_conv snd_conv)+

lemma ends_mono: "ends I a m \<Longrightarrow> a \<le> b \<Longrightarrow> ends I b m"
  unfolding ends_def by (meson add_left_mono order_trans)

lemma ends_simple:
  "ends I 0 (ret x)" "ends I 0 (throw e)" "ends I 0 (lift r)"
  by (intro endsI answers_intros calls_intros)+

lemma ends_any: "ends I c (ret x)" "ends I c (throw e)" "ends I c (lift r)"
  by (rule ends_mono [OF ends_simple(1)], simp, rule ends_mono [OF ends_simple(2)], simp,
      rule ends_mono [OF ends_simple(3)], simp)

lemma ends_abind:
  assumes "ends I a m" and "\<And>x. ends I b (f x)"
  shows "ends I (a + b) (abind m f)"
  unfolding ends_def
proof (intro allI impI)
  fix n
  assume "I n"
  obtain r n1 where m: "m n = (r, n1)" by fastforce
  note r = endsD [OF assms(1) \<open>I n\<close> m]
  show "fst (abind m f n) \<noteq> Stuck \<and> I (snd (abind m f n)) \<and>
      length (sent (snd (abind m f n))) \<le> length (sent n) + (a + b)"
  proof (cases r)
    case (Val x)
    obtain r2 n2 where f: "f x n1 = (r2, n2)" by fastforce
    note r2 = endsD [OF assms(2) r(2) f]
    from Val m f r r2 show ?thesis by (simp add: abind_def)
  qed (use m r in \<open>simp_all add: abind_def\<close>)
qed

lemma ends_attempt:
  assumes "ends I a m" and "\<And>e. ends I b (h e)"
  shows "ends I (a + b) (attempt m h)"
  unfolding ends_def
proof (intro allI impI)
  fix n
  assume "I n"
  obtain r n1 where m: "m n = (r, n1)" by fastforce
  note r = endsD [OF assms(1) \<open>I n\<close> m]
  show "fst (attempt m h n) \<noteq> Stuck \<and> I (snd (attempt m h n)) \<and>
      length (sent (snd (attempt m h n))) \<le> length (sent n) + (a + b)"
  proof (cases r)
    case (Exn e)
    obtain r2 n2 where h: "h e n1 = (r2, n2)" by fastforce
    note r2 = endsD [OF assms(2) r(2) h]
    from Exn m h r r2 show ?thesis by (simp add: attempt_def)
  qed (use m r in \<open>simp_all add: attempt_def\<close>)
qed

lemma ends_if: "ends I c a \<Longrightarrow> ends I c b \<Longrightarrow> ends I c (if x then a else b)"
  by simp

lemma ends_case_option:
  "ends I c a \<Longrightarrow> (\<And>y. ends I c (b y)) \<Longrightarrow> ends I c (case x of None \<Rightarrow> a | Some y \<Rightarrow> b y)"
  by (cases x) auto

lemma ends_call_timely: "keeps_time tm srv \<Longrightarrow> ends (timely tm t k) 1 (call srv q)"
  by (intro endsI answers_intros calls_intros)

lemma ends_call_budget: "ends (\<lambda>n. k \<le> budget n) 1 (call srv q)"
  by (intro endsI answers_intros calls_intros)

lemma ends_with_budget:
  "(\<And>fuel. b \<le> fuel \<Longrightarrow> ends (timely tm t b) c (f fuel)) \<Longrightarrow> ends (timely tm t b) c (with_budget f)"
  by (simp add: ends_def timely_def with_budget_def)

lemma ends_start:
  assumes "\<And>t. ends (timely tm t k) c (f t)"
  shows "ends (\<lambda>n. k \<le> budget n) c (abind (clock tm) f)"
proof -
  have "answers (\<lambda>n. k \<le> budget n) (abind (clock tm) f)"
    by (rule answers_start) (use assms in \<open>simp add: ends_def answers_def\<close>)
  moreover have "length (sent (snd (abind (clock tm) f n))) \<le> length (sent n) + c" if "k \<le> budget n" for n
    using assms [of "t_clock tm (world n)"] that by (simp add: ends_def timely_def abind_def clock_def)
  ultimately show ?thesis by (simp add: ends_def answers_def)
qed

text \<open>A polling loop ends, and makes no more looks than \<open>poll_bound\<close>, however large the model's bound.\<close>

lemma poll_ends_at:
  assumes time: "keeps_time tm (srv :: 'q \<Rightarrow> 's \<Rightarrow> 'r \<times> 's)" and every: "0 < every"
    and look: "\<And>t. ends (timely tm t b) c look" and late: "\<And>x t. ends (timely tm t b) 0 (late x)"
    and k: "timeout \<le> d + (int k - 1) * every" "0 < k"
    and n: "timely tm (started + d) b (n :: ('q, 's) net)"
  shows "fst (poll k tm every started timeout look late n) \<noteq> Stuck \<and>
    timely tm (started + d) b (snd (poll k tm every started timeout look late n)) \<and>
    length (sent (snd (poll k tm every started timeout look late n))) \<le> length (sent n) + k * c"
  using k n
proof (induction k arbitrary: d n)
  case (Suc k)
  obtain r n1 where l: "look n = (r, n1)" by fastforce
  have n1: "r \<noteq> Stuck" "timely tm (started + d) b n1" "length (sent n1) \<le> length (sent n) + c"
    using endsD [OF look Suc.prems(3) l] by simp_all
  show ?case
  proof (cases r)
    case (Val seen)
    show ?thesis
    proof (cases seen)
      case (Inl x)
      let ?t = "t_clock tm (world n1)"
      show ?thesis
      proof (cases "timeout \<le> ?t - started")
        case True
        obtain r2 n2 where lt: "late x n1 = (r2, n2)" by fastforce
        from endsD [OF late n1(2) lt] Val Inl l lt True n1 show ?thesis
          by (simp add: abind_def clock_def)
      next
        case False
        let ?n2 = "n1\<lparr>world := t_sleep tm every (world n1)\<rparr>"
        have d: "started + d \<le> ?t" "b \<le> budget n1" using n1(2) by (simp_all add: timely_def)
        have s: "?t + every \<le> t_clock tm (world ?n2)" using time by (simp add: keeps_time_def)
        have t2: "timely tm (started + (d + every)) b ?n2" using d s by (simp add: timely_def)
        have "0 < k"
        proof (rule ccontr)
          assume "\<not> 0 < k"
          with Suc.prems(1) have "timeout \<le> d" by simp
          with False d show False by simp
        qed
        with Suc.IH [of "d + every" ?n2] Suc.prems(1) t2 every
        have "fst (poll k tm every started timeout look late ?n2) \<noteq> Stuck \<and>
            timely tm (started + (d + every)) b (snd (poll k tm every started timeout look late ?n2)) \<and>
            length (sent (snd (poll k tm every started timeout look late ?n2))) \<le> length (sent n1) + k * c"
          by (simp add: algebra_simps)
        with Val Inl l False every n1 show ?thesis
          by (auto simp: abind_def clock_def sleep_def timely_def)
      qed
    qed (use Val l n1 in \<open>simp add: abind_def ret_def\<close>)
  qed (use l n1 in \<open>simp_all add: abind_def\<close>)
qed simp

lemma ends_poll:
  assumes time: "keeps_time tm (srv :: 'q \<Rightarrow> 's \<Rightarrow> 'r \<times> 's)" and every: "0 < every"
    and look: "\<And>t. ends (timely tm t b) c look" and late: "\<And>x t. ends (timely tm t b) 0 (late x)"
    and k: "poll_bound every timeout \<le> k"
  shows "ends (timely tm started b) (poll_bound every timeout * c)
    (poll k tm every started timeout look (late :: 'x \<Rightarrow> ('q, 's, 'a) act))"
  unfolding ends_def
proof (intro allI impI)
  fix n :: "('q, 's) net"
  assume n: "timely tm started b n"
  let ?b = "poll_bound every timeout"
  let ?p = "\<lambda>k. poll k tm every started timeout look late"
  have "timeout \<le> 0 + (int ?b - 1) * every" and "0 < ?b"
    using poll_bound_enough [OF every, of timeout] by (simp_all add: poll_bound_def)
  from poll_ends_at [OF time every look late this] n
  have "fst (?p ?b n) \<noteq> Stuck \<and> timely tm started b (snd (?p ?b n)) \<and>
      length (sent (snd (?p ?b n))) \<le> length (sent n) + ?b * c" by simp
  with poll_settled [of ?b tm every started timeout look late n "k - ?b"] k
  show "fst (?p k n) \<noteq> Stuck \<and> timely tm started b (snd (?p k n)) \<and>
      length (sent (snd (?p k n))) \<le> length (sent n) + ?b * c" by simp
qed

section \<open>One call that must answer with a document\<close>

text \<open>\<open>_json\<close>: a non-zero exit code is an error.\<close>

definition call_json :: "'s cluster \<Rightarrow> kubectl \<Rightarrow> (kubectl, 's, json) act" where
  "call_json srv q =
     abind (call srv q) (\<lambda>r.
       if k_rc r \<noteq> 0 then throw (WindowError (k_err r)) else lift (loads_output (k_out r)))"

lemma emits_call_json [emits_intros]: "P q \<Longrightarrow> emits P (call_json srv q)"
  unfolding call_json_def by (intro emits_intros)

lemma ends_call_json: "ends I 1 (call srv q) \<Longrightarrow> ends I 1 (call_json srv q)"
  unfolding call_json_def
  using ends_abind [OF _ ends_if [OF ends_simple(2) ends_simple(3)]] by fastforce

end
