(* ===== verification/RestoreWindow.thy ===== *)
theory RestoreWindow
  imports MergePatch Kubectl
begin

text \<open>
  The restore window of \<open>toolkit/features/restore_window.py\<close>: \<open>open_window\<close>, \<open>close_window\<close> and
  \<open>held_windows\<close>, with the reads, patches and waits they are made of.

  Parameters: the two clusters (\<open>srv\<close>), the clock and the sleep (\<open>tm\<close>), and \<open>loads\<close>, which is
  \<open>json.loads\<close> on the text of an annotation (\<open>None\<close> when it does not parse). \<open>json.dumps\<close> of the
  stamp and the current time are the text \<open>stamp\<close> the caller passes, and the declared policy is read
  from the documents of the environment's file. Messages are shortened to what they name.
\<close>

section \<open>Reading an application\<close>

definition annotation :: string where
  "annotation = ''kubelab.live/restore-window''"

definition hub_namespace :: string where
  "hub_namespace = ''argocd''"

definition app_namespace :: string where
  "app_namespace = ''kubelab''"

definition patch_attempts :: nat where
  "patch_attempts = 2"

definition poll_interval :: int where
  "poll_interval = 5 * second"

text \<open>\<open>x.get(k) or {}\<close>.\<close>

definition get_or_empty :: "json \<Rightarrow> string \<Rightarrow> exn + json" where
  "get_or_empty x k = ebind (py_get x k) (\<lambda>v. Inr (py_or v (JObj [])))"

definition application_name :: "string \<Rightarrow> string" where
  "application_name env = ''kubelab-'' @ env"

fun declared_sync_policy :: "json list \<Rightarrow> exn + json" where
  "declared_sync_policy [] = Inl (WindowError ''declares no Application'')"
| "declared_sync_policy (doc # docs) =
     (if is_mapping doc \<and> py_eq (oget (members doc) ''kind'') (JStr ''Application'')
      then ebind (py_index doc ''spec'') (\<lambda>spec. py_index spec ''syncPolicy'')
      else declared_sync_policy docs)"

text \<open>\<open>JNull\<close> is no holder. An annotation that does not parse is a holder of whom nothing is known.\<close>

definition unreadable_holder :: "string \<Rightarrow> json" where
  "unreadable_holder raw =
     JObj [(''deployment'', JStr ''?''), (''by'', JStr ''?''), (''since'', JStr ''?''), (''raw'', JStr raw)]"

definition holder :: "(string \<Rightarrow> json option) \<Rightarrow> json \<Rightarrow> exn + json" where
  "holder loads app =
     ebind (get_or_empty app ''metadata'') (\<lambda>m.
     ebind (get_or_empty m ''annotations'') (\<lambda>a.
     ebind (py_get a annotation) (\<lambda>raw.
       case raw of
         JNull \<Rightarrow> Inr JNull
       | JStr s \<Rightarrow> Inr (case loads s of None \<Rightarrow> unreadable_holder s | Some v \<Rightarrow> v)
       | _ \<Rightarrow> Inl (TypeError ''the JSON object must be str''))))"

definition describe :: "json \<Rightarrow> exn + string" where
  "describe h =
     ebind (py_get h ''deployment'') (\<lambda>d.
     ebind (py_get h ''by'') (\<lambda>b.
     ebind (py_get h ''since'') (\<lambda>s.
       Inr (''deployment '' @ py_str d @ '', held by '' @ py_str b @ '' since '' @ py_str s))))"

definition operation_phase :: "json \<Rightarrow> exn + json" where
  "operation_phase app =
     ebind (get_or_empty app ''status'') (\<lambda>s.
     ebind (get_or_empty s ''operationState'') (\<lambda>state. py_get state ''phase''))"

text \<open>An operation is pending or running.\<close>

definition syncing :: "json \<Rightarrow> exn + bool" where
  "syncing app =
     ebind (operation_phase app) (\<lambda>phase.
     ebind (py_get app ''operation'') (\<lambda>op. Inr (truthy op \<or> py_eq phase (JStr ''Running''))))"

section \<open>Patching it\<close>

text \<open>\<open>body.setdefault("metadata", {})["resourceVersion"] = before["metadata"]["resourceVersion"]\<close>.\<close>

definition with_version :: "json \<Rightarrow> obj \<Rightarrow> exn + obj" where
  "with_version before body =
     ebind (index_path before [''metadata'', ''resourceVersion'']) (\<lambda>rv.
     ebind (py_items (oget_or body ''metadata'' (JObj []))) (\<lambda>m.
       Inr (oset body ''metadata'' (JObj (oset m ''resourceVersion'' rv)))))"

definition get_application :: "string \<Rightarrow> string \<Rightarrow> kubectl" where
  "get_application hub name = kubectl hub hub_namespace [''get'', ''application'', name, ''-o'', ''json'']"

definition send_patch :: "string \<Rightarrow> string \<Rightarrow> obj \<Rightarrow> kubectl" where
  "send_patch hub name body =
     (kubectl hub hub_namespace [''patch'', ''application'', name, ''--type'', ''merge'', ''-p''])
     \<lparr>k_body := Some (JObj body)\<rparr>"

text \<open>\<open>build\<close> decides from the read, under a state it keeps between attempts (the holder found, in a close).\<close>

fun patch_loop ::
  "nat \<Rightarrow> 's cluster \<Rightarrow> string \<Rightarrow> string \<Rightarrow> ('st \<Rightarrow> json \<Rightarrow> exn + 'st \<times> obj option) \<Rightarrow> 'st \<Rightarrow>
   (kubectl, 's, 'st \<times> json \<times> obj option) act" where
  "patch_loop 0 srv hub name build st = throw (RuntimeError ''unreachable'')"
| "patch_loop (Suc k) srv hub name build st =
     abind (call_json srv (get_application hub name)) (\<lambda>before.
     abind (lift (build st before)) (\<lambda>(st', built).
       case built of
         None \<Rightarrow> ret (st', before, None)
       | Some b \<Rightarrow>
           abind (lift (with_version before b)) (\<lambda>body.
           abind (call srv (send_patch hub name body)) (\<lambda>r.
             if k_rc r = 0 then ret (st', before, Some body)
             else if \<not> str_contains ''conflict'' (lower (k_err r)) \<or> k = 0
             then throw (WindowError (''patching application/'' @ name @ '' failed''))
             else patch_loop k srv hub name build st'))))"

definition patch_application ::
  "'s cluster \<Rightarrow> string \<Rightarrow> string \<Rightarrow> ('st \<Rightarrow> json \<Rightarrow> exn + 'st \<times> obj option) \<Rightarrow> 'st \<Rightarrow>
   (kubectl, 's, 'st \<times> json \<times> obj option) act" where
  "patch_application = patch_loop patch_attempts"

section \<open>Pods that block the restore\<close>

text \<open>The claims mounted by a pod specification; a claim name is a value of a set.\<close>

definition volume_claim :: "json \<Rightarrow> exn + json option" where
  "volume_claim v =
     ebind (py_get v ''persistentVolumeClaim'') (\<lambda>pvc.
       if truthy pvc then ebind (py_index pvc ''claimName'') (\<lambda>c. Inr (Some c)) else Inr None)"

definition volume_claims :: "json \<Rightarrow> exn + json list" where
  "volume_claims volumes =
     ebind (py_iter (py_or volumes (JArr []))) (\<lambda>vs.
     ebind (emap volume_claim vs) (\<lambda>cs. py_set (List.map_filter id cs)))"

definition claims :: "json \<Rightarrow> exn + json list" where
  "claims deployment =
     ebind (index_path deployment [''spec'', ''template'', ''spec'']) (\<lambda>spec.
     ebind (py_get spec ''volumes'') volume_claims)"

text \<open>\<open>all(pod_labels.get(k) == v for k, v in labels.items())\<close>.\<close>

fun labels_match :: "json \<Rightarrow> obj \<Rightarrow> exn + bool" where
  "labels_match pod_labels [] = Inr True"
| "labels_match pod_labels ((k, v) # labels) =
     ebind (py_get pod_labels k) (\<lambda>x. if py_eq x v then labels_match pod_labels labels else Inr False)"

definition blocks :: "json \<Rightarrow> json list \<Rightarrow> json \<Rightarrow> exn + bool" where
  "blocks labels cs pod =
     ebind (get_or_empty pod ''metadata'') (\<lambda>m.
     ebind (get_or_empty m ''labels'') (\<lambda>pod_labels.
     ebind (get_or_empty pod ''spec'') (\<lambda>spec.
     ebind (py_get spec ''volumes'') (\<lambda>volumes.
     ebind (volume_claims volumes) (\<lambda>mounted.
     ebind (py_items labels) (\<lambda>ls.
     ebind (labels_match pod_labels ls) (\<lambda>own.
       Inr (own \<or> list_ex (\<lambda>c. py_mem c cs) mounted))))))))"

definition pod_name :: "json \<Rightarrow> exn + json" where
  "pod_name pod = index_path pod [''metadata'', ''name'']"

definition blocking_pods :: "json list \<Rightarrow> json \<Rightarrow> json list \<Rightarrow> exn + json list" where
  "blocking_pods pods labels cs =
     ebind (emap (\<lambda>pod. ebind (blocks labels cs pod) (\<lambda>b.
              if b then ebind (pod_name pod) (\<lambda>name. Inr (Some name)) else Inr None)) pods)
       (\<lambda>names. Inr (List.map_filter id names))"

section \<open>Opening\<close>

definition build_open :: "(string \<Rightarrow> json option) \<Rightarrow> string \<Rightarrow> unit \<Rightarrow> json \<Rightarrow> exn + unit \<times> obj option" where
  "build_open loads stamp st app =
     ebind (holder loads app) (\<lambda>held.
       if held \<noteq> JNull then ebind (describe held) (\<lambda>d. Inl (WindowHeldError d))
       else
         ebind (py_index app ''spec'') (\<lambda>spec.
         ebind (py_get_or spec ''syncPolicy'' (JObj [])) (\<lambda>policy.
         ebind (py_get policy ''automated'') (\<lambda>automated.
           if \<not> is_mapping automated then Inl (WindowError ''no automated sync to pause'')
           else Inr ((), Some
             [(''metadata'', JObj [(''annotations'', JObj [(annotation, JStr stamp)])]),
              (''spec'', JObj [(''syncPolicy'', JObj [(''automated'', JObj [(''enabled'', JBool False)])])])])))))"

definition still_open :: "string \<Rightarrow> exn" where
  "still_open what = WindowError (what @ ''; the window stays open'')"

definition look_syncing :: "'s cluster \<Rightarrow> string \<Rightarrow> string \<Rightarrow> (kubectl, 's, unit + unit) act" where
  "look_syncing srv hub name =
     abind (call_json srv (get_application hub name)) (\<lambda>app.
     abind (lift (syncing app)) (\<lambda>busy. ret (if busy then Inl () else Inr ())))"

definition scale_to_zero :: "string \<Rightarrow> string \<Rightarrow> kubectl" where
  "scale_to_zero spoke deployment =
     kubectl spoke app_namespace [''scale'', ''deployment/'' @ deployment, ''--replicas=0'']"

definition get_deployment :: "string \<Rightarrow> string \<Rightarrow> kubectl" where
  "get_deployment spoke deployment =
     kubectl spoke app_namespace [''get'', ''deployment'', deployment, ''-o'', ''json'']"

definition get_pods :: "string \<Rightarrow> kubectl" where
  "get_pods spoke = kubectl spoke app_namespace [''get'', ''pods'', ''-o'', ''json'']"

text \<open>The labels a pod of the deployment carries; a selector the window cannot evaluate is refused.\<close>

definition selector_labels :: "json \<Rightarrow> exn + json" where
  "selector_labels deployment =
     ebind (py_index deployment ''spec'') (\<lambda>spec.
     ebind (get_or_empty spec ''selector'') (\<lambda>selector.
     ebind (get_or_empty selector ''matchLabels'') (\<lambda>labels.
     ebind (py_get selector ''matchExpressions'') (\<lambda>exprs.
       if truthy exprs \<or> \<not> truthy labels then Inl (still_open ''the selector is not plain matchLabels'')
       else Inr labels))))"

definition look_pods :: "'s cluster \<Rightarrow> string \<Rightarrow> json \<Rightarrow> json list \<Rightarrow> (kubectl, 's, json list + unit) act" where
  "look_pods srv spoke labels cs =
     abind (call_json srv (get_pods spoke)) (\<lambda>reply.
     abind (lift (py_index reply ''items'')) (\<lambda>items.
     abind (lift (py_iter items)) (\<lambda>pods.
     abind (lift (blocking_pods pods labels cs)) (\<lambda>blocking.
       ret (if blocking = [] then Inr () else Inl blocking)))))"

text \<open>From the accepted patch on: what is left to do, at the clock reading \<open>started\<close>.\<close>

definition empty_deployment ::
  "'s cluster \<Rightarrow> 's timer \<Rightarrow> nat \<Rightarrow> string \<Rightarrow> string \<Rightarrow> string \<Rightarrow> string \<Rightarrow> int \<Rightarrow> int \<Rightarrow> (kubectl, 's, unit) act" where
  "empty_deployment srv tm fuel hub spoke name deployment timeout started =
     abind (poll fuel tm poll_interval started timeout (look_syncing srv hub name)
              (\<lambda>_. throw (still_open ''still syncing; nothing was scaled''))) (\<lambda>_.
     abind (call srv (scale_to_zero spoke deployment)) (\<lambda>r.
       if k_rc r \<noteq> 0 then throw (still_open ''scaling failed'')
       else
         abind (call_json srv (get_deployment spoke deployment)) (\<lambda>spec.
         abind (lift (selector_labels spec)) (\<lambda>labels.
         abind (lift (claims spec)) (\<lambda>cs.
           poll fuel tm poll_interval started timeout (look_pods srv spoke labels cs)
             (\<lambda>_. throw (still_open ''pods still run or mount the claims'')))))))"

definition open_window ::
  "'s cluster \<Rightarrow> 's timer \<Rightarrow> (string \<Rightarrow> json option) \<Rightarrow> string \<Rightarrow> string \<Rightarrow> string \<Rightarrow> string \<Rightarrow> string \<Rightarrow> int \<Rightarrow>
   (kubectl, 's, json) act" where
  "open_window srv tm loads stamp env deployment hub spoke timeout =
     abind (patch_application srv hub (application_name env) (build_open loads stamp) ()) (\<lambda>(_, before, _).
     abind (lift (index_path before [''spec'', ''syncPolicy''])) (\<lambda>replaced.
     abind (clock tm) (\<lambda>started.
     abind (with_budget (\<lambda>fuel. empty_deployment srv tm fuel hub spoke (application_name env) deployment timeout started))
       (\<lambda>_. ret replaced))))"

section \<open>Closing\<close>

definition build_close ::
  "(string \<Rightarrow> json option) \<Rightarrow> json \<Rightarrow> obj \<Rightarrow> json \<Rightarrow> exn + obj \<times> obj option" where
  "build_close loads declared held app =
     ebind (holder loads app) (\<lambda>found.
       if found = JNull then Inr (held, None)
       else
         ebind (py_dict found) (\<lambda>kvs.
         ebind (py_index app ''spec'') (\<lambda>spec.
         ebind (get_or_empty spec ''syncPolicy'') (\<lambda>live.
           Inr (foldl (\<lambda>h (k, v). oset h k v) held kvs, Some
             [(''metadata'', JObj [(''annotations'', JObj [(annotation, JNull)])]),
              (''spec'', JObj [(''syncPolicy'', replace_with live declared)])])))))"

text \<open>The deployment the annotation named, or the empty string.\<close>

definition named_deployment :: "obj \<Rightarrow> string" where
  "named_deployment held =
     (case oget held ''deployment'' of JStr s \<Rightarrow> if s = ''?'' then [] else s | _ \<Rightarrow> [])"

definition build_sync :: "unit \<Rightarrow> json \<Rightarrow> exn + unit \<times> obj option" where
  "build_sync st app =
     ebind (syncing app) (\<lambda>busy.
       if busy then Inr ((), None)
       else
         ebind (index_path app [''spec'', ''source'', ''targetRevision'']) (\<lambda>revision.
           Inr ((), Some
             [(''operation'', JObj
                [(''initiatedBy'', JObj [(''username'', JStr ''restore-window'')]),
                 (''sync'', JObj [(''revision'', revision)])])])))"

definition is_window_error :: "exn \<Rightarrow> bool" where
  "is_window_error e = (case e of WindowError _ \<Rightarrow> True | WindowHeldError _ \<Rightarrow> True | _ \<Rightarrow> False)"

definition closed_but :: "string \<Rightarrow> exn" where
  "closed_but what = WindowError (''the window is closed, but '' @ what)"

text \<open>\<open>try: m except WindowError: raise WindowError("the window is closed, but ...")\<close>.\<close>

definition saying_closed :: "string \<Rightarrow> (kubectl, 's, 'a) act \<Rightarrow> (kubectl, 's, 'a) act" where
  "saying_closed what m = attempt m (\<lambda>e. if is_window_error e then throw (closed_but what) else throw e)"

definition status_of :: "json \<Rightarrow> string \<Rightarrow> exn + json" where
  "status_of app part =
     ebind (get_or_empty app ''status'') (\<lambda>s.
     ebind (py_get_or s part (JObj [])) (\<lambda>x. py_get_or x ''status'' (JStr ''Unknown'')))"

definition replicas_wanted :: "json \<Rightarrow> exn + int" where
  "replicas_wanted dep =
     ebind (py_index dep ''spec'') (\<lambda>spec. ebind (py_get spec ''replicas'') (\<lambda>n. py_int (py_or n (JInt 0))))"

definition replicas_ready :: "json \<Rightarrow> exn + int" where
  "replicas_ready dep =
     ebind (get_or_empty dep ''status'') (\<lambda>s. ebind (py_get s ''readyReplicas'') (\<lambda>n. py_int (py_or n (JInt 0))))"

definition recovered :: "json \<Rightarrow> json \<Rightarrow> exn + bool" where
  "recovered app dep =
     ebind (status_of app ''sync'') (\<lambda>sync.
     ebind (status_of app ''health'') (\<lambda>health.
     ebind (replicas_wanted dep) (\<lambda>want.
     ebind (replicas_ready dep) (\<lambda>ready.
       Inr (py_eq sync (JStr ''Synced'') \<and> py_eq health (JStr ''Healthy'') \<and> 0 < want \<and> ready = want)))))"

definition look_recovered ::
  "'s cluster \<Rightarrow> string \<Rightarrow> string \<Rightarrow> string \<Rightarrow> string \<Rightarrow> (kubectl, 's, unit + unit) act" where
  "look_recovered srv hub spoke name deployment =
     abind (saying_closed ''the wait could not read its state''
              (abind (call_json srv (get_application hub name)) (\<lambda>app.
               abind (call_json srv (get_deployment spoke deployment)) (\<lambda>dep. ret (app, dep))))) (\<lambda>(app, dep).
     abind (lift (recovered app dep)) (\<lambda>done. ret (if done then Inr () else Inl ())))"

definition await_recovery ::
  "'s cluster \<Rightarrow> 's timer \<Rightarrow> string \<Rightarrow> string \<Rightarrow> string \<Rightarrow> string \<Rightarrow> int \<Rightarrow> (kubectl, 's, unit) act" where
  "await_recovery srv tm hub spoke name deployment timeout =
     abind (clock tm) (\<lambda>started.
       with_budget (\<lambda>fuel.
         poll fuel tm poll_interval started timeout (look_recovered srv hub spoke name deployment)
           (\<lambda>_. throw (closed_but ''the app has not recovered''))))"

definition close_window ::
  "'s cluster \<Rightarrow> 's timer \<Rightarrow> (string \<Rightarrow> json option) \<Rightarrow> json list \<Rightarrow> string \<Rightarrow> string \<Rightarrow> string \<Rightarrow> int \<Rightarrow>
   (kubectl, 's, json option) act" where
  "close_window srv tm loads docs env hub spoke timeout =
     abind (lift (declared_sync_policy docs)) (\<lambda>declared.
     abind (patch_application srv hub (application_name env) (build_close loads declared) [])
       (\<lambda>(held, before, sent_body).
       case sent_body of
         None \<Rightarrow> ret None
       | Some _ \<Rightarrow>
           abind (saying_closed ''triggering the sync failed''
                    (patch_application srv hub (application_name env) build_sync ())) (\<lambda>_.
             if named_deployment held = []
             then throw (closed_but ''its annotation names no deployment'')
             else
               abind (await_recovery srv tm hub spoke (application_name env) (named_deployment held) timeout) (\<lambda>_.
               abind (lift (index_path before [''spec'', ''syncPolicy''])) (\<lambda>policy. ret (Some policy))))))"

section \<open>Listing\<close>

definition get_applications :: "string \<Rightarrow> kubectl" where
  "get_applications hub = kubectl hub hub_namespace [''get'', ''applications'', ''-o'', ''json'']"

definition held_window :: "(string \<Rightarrow> json option) \<Rightarrow> json \<Rightarrow> exn + (json \<times> string) option" where
  "held_window loads app =
     ebind (holder loads app) (\<lambda>found.
       if found = JNull then Inr None
       else ebind (index_path app [''metadata'', ''name'']) (\<lambda>name.
            ebind (describe found) (\<lambda>d. Inr (Some (name, d)))))"

definition held_windows :: "'s cluster \<Rightarrow> (string \<Rightarrow> json option) \<Rightarrow> string \<Rightarrow> (kubectl, 's, (json \<times> string) list) act" where
  "held_windows srv loads hub =
     abind (call_json srv (get_applications hub)) (\<lambda>reply.
     abind (lift (py_index reply ''items'')) (\<lambda>items.
     abind (lift (py_iter items)) (\<lambda>apps.
     abind (lift (emap (held_window loads) apps)) (\<lambda>hs. ret (List.map_filter id hs)))))"

end
