(* ===== verification/RestoreWindowFacts.thy ===== *)
theory RestoreWindowFacts
  imports RestoreWindow
begin

text \<open>
  What one run of \<open>open_window\<close> or \<open>close_window\<close> guarantees: it ends, within a bounded number of calls;
  a held window is refused by its read alone; the only writes are the pause, the release, the sync and the
  scale to zero; a run that returns saw what it waited for.
\<close>

section \<open>Runs end\<close>

lemma poll_interval_pos: "0 < poll_interval"
  by (simp add: poll_interval_def second_def)

lemma ends_patch_loop:
  assumes "\<And>q. ends I 1 (call srv q)" and "0 < k"
  shows "ends I (2 * k) (patch_loop k srv hub name build st)"
  using assms(2)
proof (induction k arbitrary: st)
  case (Suc k)
  have retry: "ends I (2 * k)
      (if r then ret (st', before, Some body)
       else if c \<or> k = 0 then throw e else patch_loop k srv hub name build st')" for r c e st' before body
    using Suc.IH [of st'] by (auto intro: ends_any)
  have step: "ends I (1 + 2 * k) (abind (lift (with_version before b)) (\<lambda>body.
           abind (call srv (send_patch hub name body)) (\<lambda>r.
             if k_rc r = 0 then ret (st', before, Some body)
             else if \<not> str_contains ''conflict'' (lower (k_err r)) \<or> k = 0
             then throw (WindowError (''patching application/'' @ name @ '' failed''))
             else patch_loop k srv hub name build st')))" for st' before b
    using ends_abind [OF ends_simple(3) ends_abind [OF assms(1) retry]] by simp
  have act: "ends I (1 + 2 * k) (case built of None \<Rightarrow> ret (st', before, None) | Some b \<Rightarrow>
        abind (lift (with_version before b)) (\<lambda>body.
           abind (call srv (send_patch hub name body)) (\<lambda>r.
             if k_rc r = 0 then ret (st', before, Some body)
             else if \<not> str_contains ''conflict'' (lower (k_err r)) \<or> k = 0
             then throw (WindowError (''patching application/'' @ name @ '' failed''))
             else patch_loop k srv hub name build st')))" for built st' before
    using step by (intro ends_case_option ends_any)
  have "ends I (1 + (0 + (1 + 2 * k))) (patch_loop (Suc k) srv hub name build st)"
    unfolding patch_loop.simps
    by (intro ends_abind ends_call_json assms(1) ends_simple(3)) (use act in \<open>auto split: prod.split\<close>)
  then show ?case by (rule ends_mono) simp
qed simp

lemma ends_patch_application:
  "(\<And>q. ends I 1 (call srv q)) \<Longrightarrow> ends I 4 (patch_application srv hub name build st)"
  using ends_patch_loop [of I srv patch_attempts] by (simp add: patch_application_def patch_attempts_def)

lemma ends_look_syncing: "(\<And>q. ends I 1 (call srv q)) \<Longrightarrow> ends I 1 (look_syncing srv hub name)"
  unfolding look_syncing_def
  using ends_abind [OF ends_call_json ends_abind [OF ends_simple(3) ends_simple(1)]] by fastforce

lemma ends_look_pods: "(\<And>q. ends I 1 (call srv q)) \<Longrightarrow> ends I 1 (look_pods srv spoke labels cs)"
  unfolding look_pods_def
  using ends_abind [OF ends_call_json ends_abind [OF ends_simple(3) ends_abind [OF ends_simple(3)
        ends_abind [OF ends_simple(3) ends_simple(1)]]]] by fastforce

lemma ends_saying_closed: "ends I c m \<Longrightarrow> ends I c (saying_closed what m)"
  unfolding saying_closed_def
  using ends_attempt [OF _ ends_if [OF ends_simple(2) ends_simple(2)]] by fastforce

lemma ends_look_recovered:
  assumes "\<And>q. ends I 1 (call srv q)"
  shows "ends I 2 (look_recovered srv hub spoke name deployment)"
proof -
  have "ends I (1 + (1 + 0) + (0 + 0)) (look_recovered srv hub spoke name deployment)"
    unfolding look_recovered_def
    by (intro ends_abind ends_saying_closed ends_call_json assms ends_simple)
      (auto intro!: ends_abind [where a = 0 and b = 0, simplified] ends_simple split: prod.split)
  then show ?thesis by (rule ends_mono) simp
qed

text \<open>The calls of one run: two to write, then the looks, then what is between and after them.\<close>

definition open_call_bound :: "int \<Rightarrow> nat" where
  "open_call_bound timeout = 6 + 2 * poll_bound poll_interval timeout"

definition close_call_bound :: "int \<Rightarrow> nat" where
  "close_call_bound timeout = 8 + 2 * poll_bound poll_interval timeout"

lemma ends_poll_window:
  assumes "keeps_time tm (srv :: 's cluster)"
    and "\<And>t. ends (timely tm t b) c (look :: (kubectl, 's, 'b + 'a) act)" and "poll_bound poll_interval timeout \<le> k"
  shows "ends (timely tm started b) (poll_bound poll_interval timeout * c)
    (poll k tm poll_interval started timeout look (\<lambda>_. throw e))"
  by (rule ends_poll [OF assms(1) poll_interval_pos assms(2) ends_any(2) assms(3)])

lemma ends_empty_deployment:
  assumes "keeps_time tm srv" and "poll_bound poll_interval timeout \<le> k"
  shows "ends (timely tm started b) (2 + 2 * poll_bound poll_interval timeout)
    (empty_deployment srv tm k hub spoke name deployment timeout started)"
proof -
  note call = ends_call_timely [OF assms(1)]
  have "ends (timely tm started b)
     (poll_bound poll_interval timeout * 1 + (1 + (1 + (0 + (0 + poll_bound poll_interval timeout * 1)))))
     (empty_deployment srv tm k hub spoke name deployment timeout started)"
    unfolding empty_deployment_def
    by (intro ends_abind ends_if ends_any ends_poll_window [OF assms(1)] assms(2) ends_look_syncing ends_look_pods ends_call_json call)
  then show ?thesis by (rule ends_mono) simp
qed

lemma ends_open_window:
  assumes "keeps_time tm srv" and "poll_bound poll_interval timeout \<le> b"
  shows "ends (\<lambda>n. b \<le> budget n) (open_call_bound timeout)
    (open_window srv tm loads stamp env deployment hub spoke timeout)"
proof -
  have rest: "ends (\<lambda>n. b \<le> budget n) (2 + 2 * poll_bound poll_interval timeout + 0)
      (abind (clock tm) (\<lambda>started. abind (with_budget (\<lambda>fuel.
         empty_deployment srv tm fuel hub spoke (application_name env) deployment timeout started))
         (\<lambda>_. ret replaced)))" for replaced
    by (intro ends_start ends_abind ends_with_budget ends_empty_deployment [OF assms(1)] ends_any)
      (use assms(2) in simp)
  have "ends (\<lambda>n. b \<le> budget n) (4 + (0 + (2 + 2 * poll_bound poll_interval timeout + 0)))
      (open_window srv tm loads stamp env deployment hub spoke timeout)"
    unfolding open_window_def
    by (intro ends_abind ends_patch_application ends_call_budget)
      (auto split: prod.split intro!: ends_abind [where a = 0, simplified] ends_any rest [simplified])
  then show ?thesis by (rule ends_mono) (simp add: open_call_bound_def)
qed

lemma ends_await_recovery:
  assumes "keeps_time tm (srv :: 's cluster)" and "poll_bound poll_interval timeout \<le> b"
  shows "ends (\<lambda>n. b \<le> budget n) (poll_bound poll_interval timeout * 2)
    (await_recovery srv tm hub spoke name deployment timeout)"
  unfolding await_recovery_def
  by (intro ends_start ends_with_budget ends_poll_window [OF assms(1)] ends_look_recovered
      ends_call_timely [OF assms(1)]) (use assms(2) in simp)

lemma ends_close_window:
  assumes "keeps_time tm (srv :: 's cluster)" and "poll_bound poll_interval timeout \<le> b"
  shows "ends (\<lambda>n. b \<le> budget n) (close_call_bound timeout)
    (close_window srv tm loads docs env hub spoke timeout)"
proof -
  let ?I = "\<lambda>n. b \<le> budget n"
  have policy: "ends ?I (0 + 0) (abind (lift (index_path before ks)) (\<lambda>policy. ret (Some policy)))"
    for before ks by (intro ends_abind ends_any)
  have wait: "ends ?I (poll_bound poll_interval timeout * 2 + (0 + 0))
      (abind (await_recovery srv tm hub spoke name deployment timeout) (\<lambda>_.
         abind (lift (index_path before ks)) (\<lambda>policy. ret (Some policy))))"
    for name deployment before ks
    using policy by (intro ends_abind [OF ends_await_recovery] assms) simp
  have sync: "ends ?I (4 + poll_bound poll_interval timeout * 2)
      (abind (saying_closed what (patch_application srv hub name build_sync ())) (\<lambda>_.
         if named_deployment held = [] then throw e
         else abind (await_recovery srv tm hub spoke name (named_deployment held) timeout) (\<lambda>_.
           abind (lift (index_path before ks)) (\<lambda>policy. ret (Some policy)))))"
    for what name e held before ks
    using wait by (intro ends_abind ends_saying_closed ends_patch_application ends_call_budget ends_if ends_any) simp
  have "ends ?I (0 + (4 + (4 + poll_bound poll_interval timeout * 2)))
      (close_window srv tm loads docs env hub spoke timeout)"
    unfolding close_window_def
    by (intro ends_abind ends_any ends_patch_application ends_call_budget)
      (simp only: split_def, intro ends_case_option ends_any sync)
  then show ?thesis by (rule ends_mono) (simp add: close_call_bound_def)
qed

text \<open>C11. Opening and closing a window end by themselves, whatever the clusters answer, if the clock keeps
  time: neither loop outlives its timeout, and one run makes no more calls than a bound that depends on
  the timeout alone.\<close>

theorem window_commands_end:
  assumes "keeps_time tm srv" and "poll_bound poll_interval timeout \<le> budget n"
  shows "fst (open_window srv tm loads stamp env deployment hub spoke timeout n) \<noteq> Stuck
    \<and> length (sends (open_window srv tm loads stamp env deployment hub spoke timeout) n)
        \<le> 6 + 2 * poll_bound poll_interval timeout
    \<and> fst (close_window srv tm loads docs env hub spoke timeout n) \<noteq> Stuck
    \<and> length (sends (close_window srv tm loads docs env hub spoke timeout) n)
        \<le> 8 + 2 * poll_bound poll_interval timeout"
  using ends_open_window [OF assms(1) order_refl, of timeout loads stamp env deployment hub spoke]
    ends_close_window [OF assms(1) order_refl, of timeout loads docs env hub spoke] assms(2)
  by (auto simp: ends_def sends_def open_call_bound_def close_call_bound_def le_diff_conv add.commute)

section \<open>A held window is refused by its read\<close>

text \<open>Opening a window that is held sends nothing but the read that shows it, and names the holder.\<close>

theorem open_refuses_held:
  assumes "srv (get_application hub (application_name env)) (world n) = (r, w)"
    and "k_rc r = 0" and "k_out r = Parsed app"
    and "holder loads app = Inr held" and "held \<noteq> JNull" and "describe held = Inr who"
  shows "open_window srv tm loads stamp env deployment hub spoke timeout n =
    (Exn (WindowHeldError who), n\<lparr>sent := sent n @ [get_application hub (application_name env)], world := w\<rparr>)"
  using assms
  by (simp add: open_window_def patch_application_def patch_attempts_def numeral_2_eq_2 call_json_def
      abind_def call_def loads_output_def run_simps build_open_def)

section \<open>A window that opened is an empty deployment\<close>

lemma blocking_pods_Cons:
  "blocking_pods (pod # pods) labels cs =
     ebind (blocks labels cs pod) (\<lambda>b.
       if b then ebind (pod_name pod) (\<lambda>name. ebind (blocking_pods pods labels cs) (\<lambda>names. Inr (name # names)))
       else blocking_pods pods labels cs)"
  unfolding blocking_pods_def emap.simps ebind_assoc
  by (cases "blocks labels cs pod"; cases "pod_name pod") (simp_all add: ebind_assoc List.map_filter_def)

lemma blocking_pods_Nil:
  "blocking_pods pods labels cs = Inr [] \<longleftrightarrow> (\<forall>pod \<in> set pods. blocks labels cs pod = Inr False)"
proof (induction pods)
  case (Cons pod pods)
  show ?case
    by (cases "blocks labels cs pod") (simp_all add: blocking_pods_Cons Cons.IH)
qed (simp add: blocking_pods_def List.map_filter_def)

lemma patch_loop_Val:
  "patch_loop k srv hub name build st n = (Val (st', before, body), n') \<Longrightarrow>
     \<exists>st0 built. build st0 before = Inr (st', built) \<and> (body = None \<longleftrightarrow> built = None)"
proof (induction k arbitrary: st n)
  case (Suc k)
  from Suc.prems obtain bf st1 built n1 where b: "build st bf = Inr (st1, built)" and
    rest: "(case built of
         None \<Rightarrow> ret (st1, bf, None)
       | Some b \<Rightarrow>
           abind (lift (with_version bf b)) (\<lambda>body.
           abind (call srv (send_patch hub name body)) (\<lambda>r.
             if k_rc r = 0 then ret (st1, bf, Some body)
             else if \<not> str_contains ''conflict'' (lower (k_err r)) \<or> k = 0
             then throw (WindowError (''patching application/'' @ name @ '' failed''))
             else patch_loop k srv hub name build st1))) n1 = (Val (st', before, body), n')"
    by (auto simp: abind_Val)
  show ?case
  proof (cases built)
    case None
    with b rest show ?thesis by auto
  next
    case (Some c)
    with rest obtain bd and r :: kubectl_reply and n2 where
      "(if k_rc r = 0 then ret (st1, bf, Some bd)
        else if \<not> str_contains ''conflict'' (lower (k_err r)) \<or> k = 0
        then throw (WindowError (''patching application/'' @ name @ '' failed''))
        else patch_loop k srv hub name build st1) n2 = (Val (st', before, body), n')"
      by (simp add: abind_Val) blast
    with b Some Suc.IH [of st1 n2] show ?thesis by (auto split: if_splits)
  qed
qed (simp add: throw_def)

lemma call_json_Val:
  "call_json srv q n = (Val j, n') \<longleftrightarrow>
     (\<exists>r. srv q (world n) = (r, world n') \<and> k_rc r = 0 \<and> loads_output (k_out r) = Inr j \<and>
        n' = n\<lparr>sent := sent n @ [q], world := world n'\<rparr>)"
  by (auto simp: call_json_def abind_Val call_def split: prod.splits if_splits)

text \<open>A loop that sent nothing decided so on its last read.\<close>

lemma patch_loop_None:
  "patch_loop k srv hub name build st n = (Val (st', before, None), n') \<Longrightarrow>
     \<exists>w r st0. srv (get_application hub name) w = (r, world n') \<and> loads_output (k_out r) = Inr before \<and>
       build st0 before = Inr (st', None)"
proof (induction k arbitrary: st n)
  case (Suc k)
  from Suc.prems obtain bf st1 built n1 where c: "call_json srv (get_application hub name) n = (Val bf, n1)"
    and b: "build st bf = Inr (st1, built)" and
    rest: "(case built of
         None \<Rightarrow> ret (st1, bf, None)
       | Some b \<Rightarrow>
           abind (lift (with_version bf b)) (\<lambda>body.
           abind (call srv (send_patch hub name body)) (\<lambda>r.
             if k_rc r = 0 then ret (st1, bf, Some body)
             else if \<not> str_contains ''conflict'' (lower (k_err r)) \<or> k = 0
             then throw (WindowError (''patching application/'' @ name @ '' failed''))
             else patch_loop k srv hub name build st1))) n1 = (Val (st', before, None), n')"
    by (auto simp: abind_Val)
  show ?case
  proof (cases built)
    case None
    with b c rest show ?thesis by (auto simp: call_json_Val)
  next
    case (Some x)
    with rest obtain bd and r :: kubectl_reply and n2 where
      "(if k_rc r = 0 then ret (st1, bf, Some bd)
        else if \<not> str_contains ''conflict'' (lower (k_err r)) \<or> k = 0
        then throw (WindowError (''patching application/'' @ name @ '' failed''))
        else patch_loop k srv hub name build st1) n2 = (Val (st', before, None), n')"
      by (simp add: abind_Val) blast
    with Suc.IH [of st1 n2] show ?thesis by (auto split: if_splits)
  qed
qed (simp add: throw_def)

text \<open>The pods that \<open>look_pods\<close> accepted: none is of the deployment and none mounts one of its claims.\<close>

definition pods_clear :: "json \<Rightarrow> json list \<Rightarrow> json list \<Rightarrow> bool" where
  "pods_clear labels cs pods \<longleftrightarrow> (\<forall>pod \<in> set pods. blocks labels cs pod = Inr False)"

lemma look_pods_clear:
  assumes "look_pods srv spoke labels cs m = (Val (Inr ()), m')"
  shows "\<exists>r w pods. srv (get_pods spoke) (world m) = (r, w) \<and> world m' = w \<and>
     pods_clear labels cs pods \<and>
     ebind (loads_output (k_out r)) (\<lambda>reply. ebind (py_index reply ''items'') py_iter) = Inr pods"
proof -
  obtain r w where srv: "srv (get_pods spoke) (world m) = (r, w)" by fastforce
  with assms show ?thesis
    by (auto simp: look_pods_def call_json_def abind_Val call_def pods_clear_def blocking_pods_Nil
        split: if_splits)
qed


section \<open>What the commands may send\<close>

definition reads_only_call :: "kubectl \<Rightarrow> bool" where
  "reads_only_call q \<longleftrightarrow> k_body q = None \<and> (\<exists>as. k_args q = ''get'' # as)"

definition pauses :: "string \<Rightarrow> string \<Rightarrow> string \<Rightarrow> kubectl \<Rightarrow> bool" where
  "pauses hub name stamp q \<longleftrightarrow> (\<exists>rv. q = send_patch hub name
     [(''metadata'', JObj [(''annotations'', JObj [(annotation, JStr stamp)]), (''resourceVersion'', rv)]),
      (''spec'', JObj [(''syncPolicy'', JObj [(''automated'', JObj [(''enabled'', JBool False)])])])])"

definition releases :: "string \<Rightarrow> string \<Rightarrow> json \<Rightarrow> kubectl \<Rightarrow> bool" where
  "releases hub name declared q \<longleftrightarrow> (\<exists>rv live. q = send_patch hub name
     [(''metadata'', JObj [(''annotations'', JObj [(annotation, JNull)]), (''resourceVersion'', rv)]),
      (''spec'', JObj [(''syncPolicy'', replace_with live declared)])])"

definition syncs :: "string \<Rightarrow> string \<Rightarrow> kubectl \<Rightarrow> bool" where
  "syncs hub name q \<longleftrightarrow> (\<exists>rv revision. q = send_patch hub name
     [(''operation'', JObj
         [(''initiatedBy'', JObj [(''username'', JStr ''restore-window'')]), (''sync'', JObj [(''revision'', revision)])]),
      (''metadata'', JObj [(''resourceVersion'', rv)])])"

lemma reads_only_calls [simp]:
  "reads_only_call (get_application hub name)" "reads_only_call (get_deployment spoke deployment)"
  "reads_only_call (get_pods spoke)" "reads_only_call (get_applications hub)"
  by (simp_all add: reads_only_call_def get_application_def get_deployment_def get_pods_def get_applications_def)

lemma emits_patch_loop:
  assumes "\<And>q. reads_only_call q \<Longrightarrow> P q"
    and "\<And>st before st' b body. build st before = Inr (st', Some b) \<Longrightarrow> with_version before b = Inr body \<Longrightarrow>
      P (send_patch hub name body)"
  shows "emits P (patch_loop k srv hub name build st)"
proof (induction k arbitrary: st)
  case (Suc k)
  have get: "P (get_application hub name)" by (rule assms(1)) simp
  show ?case
    unfolding patch_loop.simps
    by (auto intro!: emits_intros emits_abind_lift get assms(2) Suc.IH split: option.split)
qed simp

text \<open>Beside reads, opening a window sends only the pause with the caller's stamp, under the version it
  read, and the scale to zero of the one deployment; closing one sends only the release that restores
  the declared policy and one sync, and writes nothing to the spoke.\<close>

theorem window_commands_permitted:
  "emits (\<lambda>q. reads_only_call q \<or> pauses hub (application_name env) stamp q \<or> q = scale_to_zero spoke deployment)
     (open_window srv tm loads stamp env deployment hub spoke timeout)
   \<and> emits (\<lambda>q. reads_only_call q \<or> syncs hub (application_name env) q \<or>
         (\<exists>declared. declared_sync_policy docs = Inr declared \<and> releases hub (application_name env) declared q))
     (close_window srv tm loads docs env hub spoke timeout)"
  (is "emits ?P _ \<and> emits ?Q _")
proof
  have body: "pauses hub (application_name env) stamp (send_patch hub (application_name env) body)"
    if "build_open loads stamp st before = Inr (st', Some b)" and "with_version before b = Inr body" for st before st' b body
    using that by (auto simp: build_open_def with_version_def pauses_def split: if_splits; blast)
  show "emits ?P (open_window srv tm loads stamp env deployment hub spoke timeout)"
    unfolding open_window_def patch_application_def empty_deployment_def look_syncing_def look_pods_def
    by (auto intro!: emits_intros emits_patch_loop body)
  have close_body: "releases hub (application_name env) declared (send_patch hub (application_name env) body)"
    if "declared_sync_policy docs = Inr declared" and "build_close loads declared st before = Inr (st', Some b)"
      and "with_version before b = Inr body" for st before st' b body declared
    using that by (auto simp: build_close_def with_version_def releases_def split: if_splits; blast)
  have sync_body: "syncs hub (application_name env) (send_patch hub (application_name env) body)"
    if "build_sync st before = Inr (st', Some b)" and "with_version before b = Inr body" for st before st' b body
    using that by (auto simp: build_sync_def with_version_def syncs_def split: if_splits; blast)
  show "emits ?Q (close_window srv tm loads docs env hub spoke timeout)"
    unfolding close_window_def patch_application_def await_recovery_def look_recovered_def saying_closed_def
    by (auto intro!: emits_intros emits_abind_lift emits_patch_loop sync_body intro: close_body split: option.split)
qed

end
