(* ===== verification/WindowLock.thy ===== *)
theory WindowLock
  imports RestoreWindow
begin

text \<open>
  Restore windows under concurrency. Any number of commands open and close windows on one Application
  while Argo CD writes it too; each command reads, decides with \<open>build_open\<close> or \<open>build_close\<close>, and sends its
  patch under the resourceVersion of its read, and these steps interleave in any order.

  The API server is what its documentation says of a merge patch that carries a resourceVersion: it is
  refused unless the stored object still has that version, otherwise it is merged and the object gets a
  version it never had. Other writers send merge patches that leave the window's annotation and the
  sync policy alone.

  The steps refine a lock: windows are opened only when none is, closed only when one is
  (\<open>window_refines_lock\<close>), automated sync is paused whenever a window is open and the policy is the
  declared one after every close (\<open>window_policy\<close>), and a window can always be closed (\<open>window_closable\<close>).
\<close>

section \<open>The stored object\<close>

definition field :: "json \<Rightarrow> string \<Rightarrow> json" where
  "field x k = oget (members x) k"

lemma field_merge [simp]:
  "distinct (map fst ps) \<Longrightarrow>
     field (merge_patch x (JObj ps)) k =
       (case map_of ps k of None \<Rightarrow> field x k | Some p \<Rightarrow> if p = JNull then JNull else merge_patch (field x k) p)"
  unfolding field_def by (simp add: oget_merge_members)

lemma field_simps [simp]:
  "field (JObj kvs) k = oget kvs k"
  "field JNull k = JNull"
  by (simp_all add: field_def)

declare merge_patch.simps(1) [simp del]

definition annotation_of :: "json \<Rightarrow> json" where
  "annotation_of doc = field (field (field doc ''metadata'') ''annotations'') annotation"

definition policy_of :: "json \<Rightarrow> json" where
  "policy_of doc = field (field doc ''spec'') ''syncPolicy''"

definition version_of :: "json \<Rightarrow> json" where
  "version_of doc = field (field doc ''metadata'') ''resourceVersion''"

definition paused :: "json \<Rightarrow> bool" where
  "paused doc \<longleftrightarrow> field (field (policy_of doc) ''automated'') ''enabled'' = JBool False"

text \<open>The server's own write: a version no read has seen.\<close>

definition set_version :: "nat \<Rightarrow> json \<Rightarrow> json" where
  "set_version v doc =
     merge_patch doc (JObj [(''metadata'', JObj [(''resourceVersion'', JStr (show_nat v))])])"

lemma set_version_fields [simp]:
  "version_of (set_version v doc) = JStr (show_nat v)"
  "annotation_of (set_version v doc) = annotation_of doc"
  "policy_of (set_version v doc) = policy_of doc"
  "is_mapping (field (set_version v doc) ''spec'') = is_mapping (field doc ''spec'')"
  by (simp_all add: set_version_def version_of_def annotation_of_def policy_of_def)

text \<open>What an Application is: an object whose metadata, annotations and spec are objects, if present.\<close>

definition application :: "json \<Rightarrow> bool" where
  "application doc \<longleftrightarrow> json_wf doc \<and> is_mapping doc \<and> is_mapping (field doc ''metadata'') \<and>
     is_mapping (field doc ''spec'') \<and>
     (field (field doc ''metadata'') ''annotations'' = JNull \<or>
      is_mapping (field (field doc ''metadata'') ''annotations''))"

lemma wf_merge_members:
  assumes "distinct (map fst kvs)" and "\<And>kv. kv \<in> set kvs \<Longrightarrow> json_wf (snd kv)"
    and "\<And>x kp. kp \<in> set ps \<Longrightarrow> json_wf x \<Longrightarrow> json_wf (merge_patch x (snd kp))"
  shows "json_wf (JObj (merge_members kvs ps))"
  using assms
proof (induction ps arbitrary: kvs)
  case (Cons q ps)
  obtain k p where q: "q = (k, p)" by fastforce
  have get: "json_wf (oget kvs k)"
    using Cons.prems(2) by (force simp: oget_def dest: map_of_SomeD split: option.split)
  have "json_wf (snd kv)" if "kv \<in> set (oset kvs k v)" and "json_wf v" for kv v
    using that Cons.prems(2) set_oset [of kvs k v] by (metis insertE snd_conv subsetD)
  then show ?case
    using Cons.prems Cons.prems(3) [of q "oget kvs k"] get set_odelete [of kvs k]
    unfolding q merge_members.simps by (intro Cons.IH) (auto split: if_splits)
qed (auto simp: list_all_iff)

lemma json_wf_merge: "json_wf p \<Longrightarrow> json_wf x \<Longrightarrow> json_wf (merge_patch x p)"
proof (induction "size p" arbitrary: p x rule: less_induct)
  case less
  show ?case
  proof (cases p)
    case (JObj ps)
    have "json_wf (merge_patch y (snd kp))" if "kp \<in> set ps" and "json_wf y" for y kp
      using less.hyps [of "snd kp" y] less.prems(1) that size_member [of "fst kp" "snd kp" ps]
      by (simp add: JObj list_all_iff)
    with members_wf [OF less.prems(2)] show ?thesis
      unfolding JObj merge_patch.simps(1) by (intro wf_merge_members) auto
  qed (use less.prems in simp_all)
qed

lemma wf_replace_entries:
  assumes "\<And>v l. v \<in> snd ` set ds \<Longrightarrow> json_wf l \<Longrightarrow> json_wf (replace_with l v)"
    and "\<And>k l. map_of kvs k = Some l \<Longrightarrow> json_wf l" and "kv \<in> set (replace_entries kvs ds)"
  shows "json_wf (snd kv)"
  using assms by (induction ds) (auto split: option.splits if_splits)

lemma json_wf_replace: "json_wf d \<Longrightarrow> json_wf l \<Longrightarrow> json_wf (replace_with l d)"
proof (induction "size d" arbitrary: d l rule: less_induct)
  case less
  show ?case
  proof (cases d)
    case (JObj ds)
    define kvs where "kvs = members l"
    have kvs: "distinct (map fst kvs)" "\<And>k v. map_of kvs k = Some v \<Longrightarrow> json_wf v"
      using members_wf [OF less.prems(2)] by (auto simp: kvs_def dest!: map_of_SomeD)
    have "replace_with l d = JObj (patch_members kvs ds)"
      unfolding JObj kvs_def patch_members_def by (cases l) (simp_all add: replace_entries_Nil)
    moreover have "json_wf (replace_with y v)" if "v \<in> snd ` set ds" and "json_wf y" for v y
    proof -
      from that(1) obtain k where "(k, v) \<in> set ds" by auto
      with less.hyps [of v y] less.prems(1) that(2) size_member [of k v ds] show ?thesis
        by (auto simp: JObj list_all_iff)
    qed
    then have "json_wf (snd kv)" if "kv \<in> set (patch_members kvs ds)" for kv
      using that wf_replace_entries [where ds = ds and kv = kv, OF _ kvs(2)] by (auto simp: patch_members_def)
    moreover have "distinct (map fst ds)" using less.prems(1) by (simp add: JObj)
    ultimately show ?thesis using distinct_patch_members [OF kvs(1)] by (simp add: list_all_iff)
  qed (use less.prems in simp_all)
qed

section \<open>Reading the holder\<close>

lemma py_or_members: "is_mapping x \<or> x = JNull \<Longrightarrow> members (py_or x (JObj [])) = members x \<and> is_mapping (py_or x (JObj []))"
  by (cases x) (auto simp: py_or_def)

lemma py_get_mapping: "is_mapping x \<Longrightarrow> py_get x k = Inr (field x k)"
  by (cases x) (simp_all add: field_def)

lemma get_or_empty_mapping:
  "is_mapping x \<Longrightarrow> is_mapping (field x k) \<or> field x k = JNull \<Longrightarrow>
     \<exists>y. get_or_empty x k = Inr y \<and> is_mapping y \<and> members y = members (field x k)"
  using py_or_members [of "field x k"] by (auto simp: get_or_empty_def py_get_mapping)

lemma holder_application:
  assumes "application doc"
  shows "holder loads doc =
    (case annotation_of doc of
       JNull \<Rightarrow> Inr JNull
     | JStr s \<Rightarrow> Inr (case loads s of None \<Rightarrow> unreadable_holder s | Some v \<Rightarrow> v)
     | _ \<Rightarrow> Inl (TypeError ''the JSON object must be str''))"
proof -
  from assms obtain m where m: "get_or_empty doc ''metadata'' = Inr m" "is_mapping m"
    "members m = members (field doc ''metadata'')"
    using get_or_empty_mapping [of doc "''metadata''"] by (auto simp: application_def)
  then have fm: "field m k = field (field doc ''metadata'') k" for k by (simp add: field_def)
  with assms m obtain a where a: "get_or_empty m ''annotations'' = Inr a" "is_mapping a"
    "members a = members (field (field doc ''metadata'') ''annotations'')"
    using get_or_empty_mapping [of m "''annotations''"] by (auto simp: application_def)
  then have "py_get a annotation = Inr (annotation_of doc)"
    by (simp add: py_get_mapping) (simp add: annotation_of_def field_def)
  with m a show ?thesis by (simp add: holder_def)
qed

text \<open>A window is open when the annotation is there; a stamp reads back as an object.\<close>

definition window_open :: "json \<Rightarrow> bool" where
  "window_open doc \<longleftrightarrow> annotation_of doc \<noteq> JNull"

definition good_stamp :: "(string \<Rightarrow> json option) \<Rightarrow> string \<Rightarrow> bool" where
  "good_stamp loads stamp \<longleftrightarrow> (\<exists>kvs. loads stamp = Some (JObj kvs))"

definition stamped :: "(string \<Rightarrow> json option) \<Rightarrow> json \<Rightarrow> bool" where
  "stamped loads doc \<longleftrightarrow> annotation_of doc = JNull \<or> (\<exists>s. annotation_of doc = JStr s \<and> good_stamp loads s)"

lemma holder_stamped:
  assumes "application doc" and "stamped loads doc"
  shows "holder loads doc = Inr JNull \<and> \<not> window_open doc \<or>
    (\<exists>kvs. holder loads doc = Inr (JObj kvs)) \<and> window_open doc"
  using assms by (auto simp: holder_application stamped_def window_open_def good_stamp_def)

section \<open>The steps\<close>

text \<open>\<open>who\<close> are the commands under way, each with the object it read and has not acted on yet.\<close>

datatype lock_event = Opened | Closed

record hub_state =
  doc :: json
  stored_version :: nat
  seen :: "nat \<Rightarrow> json option"
  history :: "lock_event list"

definition accepted :: "json \<Rightarrow> obj \<Rightarrow> bool" where
  "accepted stored body \<longleftrightarrow> version_of (JObj body) = version_of stored"

definition store :: "hub_state \<Rightarrow> obj \<Rightarrow> hub_state" where
  "store s body =
     s\<lparr>doc := set_version (Suc (stored_version s)) (merge_patch (doc s) (JObj body)),
       stored_version := Suc (stored_version s)\<rparr>"

text \<open>A patch of another writer: none of its members is the annotation or the sync policy.\<close>

definition leaves_window :: "obj \<Rightarrow> bool" where
  "leaves_window p \<longleftrightarrow> json_wf (JObj p) \<and>
     (map_of p ''metadata'' = None \<or> (\<exists>m. map_of p ''metadata'' = Some (JObj m) \<and> map_of m ''annotations'' = None)) \<and>
     (map_of p ''spec'' = None \<or> (\<exists>m. map_of p ''spec'' = Some (JObj m) \<and> map_of m ''syncPolicy'' = None))"

inductive hub_step :: "(string \<Rightarrow> json option) \<Rightarrow> json \<Rightarrow> hub_state \<Rightarrow> hub_state \<Rightarrow> bool"
  for loads :: "string \<Rightarrow> json option" and declared :: json where
  reads_hub: "hub_step loads declared s (s\<lparr>seen := (seen s)(c := Some (doc s))\<rparr>)"
| opens_window:
    "seen s c = Some before \<Longrightarrow> good_stamp loads stamp \<Longrightarrow>
     build_open loads stamp () before = Inr (u, Some b) \<Longrightarrow> with_version before b = Inr body \<Longrightarrow>
     accepted (doc s) body \<Longrightarrow>
     hub_step loads declared s ((store s body)\<lparr>seen := (seen s)(c := None), history := history s @ [Opened]\<rparr>)"
| closes_window:
    "seen s c = Some before \<Longrightarrow>
     build_close loads declared held before = Inr (held', Some b) \<Longrightarrow> with_version before b = Inr body \<Longrightarrow>
     accepted (doc s) body \<Longrightarrow>
     hub_step loads declared s ((store s body)\<lparr>seen := (seen s)(c := None), history := history s @ [Closed]\<rparr>)"
| gives_up: "hub_step loads declared s (s\<lparr>seen := (seen s)(c := None)\<rparr>)"
| others_write: "leaves_window p \<Longrightarrow> hub_step loads declared s (store s p)"

inductive hub_reach :: "(string \<Rightarrow> json option) \<Rightarrow> json \<Rightarrow> hub_state \<Rightarrow> hub_state \<Rightarrow> bool"
  for loads :: "string \<Rightarrow> json option" and declared :: json and s0 :: hub_state where
  hub_start: "hub_reach loads declared s0 s0"
| hub_next: "hub_reach loads declared s0 s \<Longrightarrow> hub_step loads declared s t \<Longrightarrow> hub_reach loads declared s0 t"

inductive_cases hub_stepE: "hub_step loads declared s t"

section \<open>The abstract lock\<close>

datatype lock = Free | Held

fun lock_step :: "lock \<Rightarrow> lock_event \<Rightarrow> lock option" where
  "lock_step Free Opened = Some Held"
| "lock_step Held Closed = Some Free"
| "lock_step _ _ = None"

fun run_lock :: "lock \<Rightarrow> lock_event list \<Rightarrow> lock option" where
  "run_lock l [] = Some l"
| "run_lock l (e # es) = (case lock_step l e of None \<Rightarrow> None | Some m \<Rightarrow> run_lock m es)"

lemma run_lock_snoc:
  "run_lock l (es @ [e]) = (case run_lock l es of None \<Rightarrow> None | Some m \<Rightarrow> lock_step m e)"
  by (induction l es rule: run_lock.induct) (auto split: option.split)

definition lock_of :: "json \<Rightarrow> lock" where
  "lock_of d = (if window_open d then Held else Free)"

section \<open>What each patch does to the object\<close>

lemma py_index_field: "py_index x k = Inr y \<Longrightarrow> is_mapping x \<and> field x k = y"
  by (cases x) (auto simp: field_def oget_def)

lemma field_index: "index_path x [a, b] = Inr v \<Longrightarrow> field (field x a) b = v"
  by (auto dest: py_index_field)

lemma json_wf_field: "json_wf x \<Longrightarrow> json_wf (field x k)"
  unfolding field_def oget_def using members_wf [of x]
  by (fastforce split: option.split dest: map_of_SomeD)

definition pause_body :: "string \<Rightarrow> json \<Rightarrow> obj" where
  "pause_body stamp rv =
     [(''metadata'', JObj [(''annotations'', JObj [(annotation, JStr stamp)]), (''resourceVersion'', rv)]),
      (''spec'', JObj [(''syncPolicy'', JObj [(''automated'', JObj [(''enabled'', JBool False)])])])]"

definition release_body :: "json \<Rightarrow> json \<Rightarrow> obj" where
  "release_body policy rv =
     [(''metadata'', JObj [(''annotations'', JObj [(annotation, JNull)]), (''resourceVersion'', rv)]),
      (''spec'', JObj [(''syncPolicy'', policy)])]"

lemma open_body:
  assumes "build_open loads stamp () before = Inr (u, Some b)" and "with_version before b = Inr body"
  shows "body = pause_body stamp (version_of before) \<and> holder loads before = Inr JNull"
  using assms
  by (auto simp: build_open_def with_version_def pause_body_def version_of_def field_index split: if_splits)

lemma close_body:
  assumes "build_close loads declared held before = Inr (held', Some b)" and "with_version before b = Inr body"
  shows "\<exists>spec live found. body = release_body (replace_with live declared) (version_of before) \<and>
     py_index before ''spec'' = Inr spec \<and> get_or_empty spec ''syncPolicy'' = Inr live \<and>
     holder loads before = Inr found \<and> found \<noteq> JNull"
  using assms
  by (auto simp: build_close_def with_version_def release_body_def version_of_def field_index split: if_splits)

lemma version_of_bodies [simp]:
  "version_of (JObj (pause_body stamp rv)) = rv"
  "version_of (JObj (release_body policy rv)) = rv"
  by (simp_all add: version_of_def pause_body_def release_body_def)

lemma paused_merge:
  "annotation_of (merge_patch d (JObj (pause_body stamp rv))) = JStr stamp"
  "paused (merge_patch d (JObj (pause_body stamp rv)))"
  by (simp_all add: annotation_of_def paused_def policy_of_def pause_body_def)

lemma released_merge:
  "annotation_of (merge_patch d (JObj (release_body policy rv))) = JNull"
  "policy \<noteq> JNull \<Longrightarrow> policy_of (merge_patch d (JObj (release_body policy rv))) = merge_patch (policy_of d) policy"
  by (simp_all add: annotation_of_def policy_of_def release_body_def)

lemma sub_field_merge:
  assumes "json_wf (JObj p)"
    and "map_of p a = None \<or> (\<exists>m. map_of p a = Some (JObj m) \<and> map_of m b = None)"
  shows "field (field (merge_patch d (JObj p)) a) b = field (field d a) b"
proof -
  have p: "distinct (map fst p)" using assms(1) by simp
  from assms(2) show ?thesis
  proof (elim disjE exE conjE)
    fix m
    assume m: "map_of p a = Some (JObj m)" and b: "map_of m b = None"
    have "distinct (map fst m)" using map_of_SomeD [OF m] assms(1) by (force simp: list_all_iff)
    with m b p show ?thesis by simp
  qed (use p in simp)
qed

lemma others_merge:
  assumes "leaves_window p"
  shows "annotation_of (merge_patch d (JObj p)) = annotation_of d"
    and "policy_of (merge_patch d (JObj p)) = policy_of d"
proof -
  note p = assms [unfolded leaves_window_def]
  show "annotation_of (merge_patch d (JObj p)) = annotation_of d"
    unfolding annotation_of_def sub_field_merge [OF conjunct1 [OF p] conjunct1 [OF conjunct2 [OF p]]] ..
  show "policy_of (merge_patch d (JObj p)) = policy_of d"
    unfolding policy_of_def sub_field_merge [OF conjunct1 [OF p] conjunct2 [OF conjunct2 [OF p]]] ..
qed

text \<open>A patch whose metadata, annotations and spec are objects keeps an Application one.\<close>

definition object_patch :: "obj \<Rightarrow> bool" where
  "object_patch p \<longleftrightarrow> json_wf (JObj p) \<and>
     (\<forall>k m. k \<in> {''metadata'', ''spec''} \<longrightarrow> map_of p k = Some m \<longrightarrow> is_mapping m) \<and>
     (\<forall>m a. map_of p ''metadata'' = Some (JObj m) \<longrightarrow> map_of m ''annotations'' = Some a \<longrightarrow> is_mapping a)"

lemma is_mapping_merge [simp]: "is_mapping (merge_patch x (JObj ps))"
  by (simp add: merge_patch.simps(1))

lemma merge_mapping: "is_mapping p \<Longrightarrow> is_mapping (merge_patch x p)"
  by (cases p) simp_all

lemma application_merge:
  assumes "application d" and "object_patch p"
  shows "application (merge_patch d (JObj p))"
proof -
  have p: "json_wf (JObj p)" "distinct (map fst p)" using assms(2) by (simp_all add: object_patch_def)
  have map: "is_mapping (field (merge_patch d (JObj p)) k)" if "k \<in> {''metadata'', ''spec''}" for k
  proof (cases "map_of p k")
    case None
    with that assms(1) p show ?thesis by (auto simp: application_def)
  next
    case (Some m)
    with that assms(2) have "is_mapping m" by (auto simp: object_patch_def)
    with Some p show ?thesis by (auto simp: merge_mapping)
  qed
  have "field (field (merge_patch d (JObj p)) ''metadata'') ''annotations'' = JNull \<or>
      is_mapping (field (field (merge_patch d (JObj p)) ''metadata'') ''annotations'')"
  proof (cases "map_of p ''metadata''")
    case None
    with assms(1) p show ?thesis by (simp add: application_def)
  next
    case (Some m)
    with assms(2) have "is_mapping m" unfolding object_patch_def by blast
    then obtain kvs where m: "m = JObj kvs" by (cases m) simp_all
    have kvs: "distinct (map fst kvs)" using map_of_SomeD [OF Some] p(1) by (auto simp: m list_all_iff)
    have "field (merge_patch d (JObj p)) ''metadata'' = merge_patch (field d ''metadata'') (JObj kvs)"
      using p Some by (simp add: m)
    then have f: "field (field (merge_patch d (JObj p)) ''metadata'') ''annotations'' =
        (case map_of kvs ''annotations'' of
           None \<Rightarrow> field (field d ''metadata'') ''annotations''
         | Some a \<Rightarrow> if a = JNull then JNull else merge_patch (field (field d ''metadata'') ''annotations'') a)"
      using kvs by simp
    show ?thesis
    proof (cases "map_of kvs ''annotations''")
      case None
      with assms(1) show ?thesis unfolding f by (simp add: application_def)
    next
      case (Some a)
      with assms(2) \<open>map_of p ''metadata'' = Some m\<close> have "is_mapping a" by (simp add: object_patch_def m)
      with Some show ?thesis unfolding f by (auto simp: merge_mapping)
    qed
  qed
  with map assms p show ?thesis by (simp add: application_def json_wf_merge)
qed

lemma application_set_version: "application d \<Longrightarrow> application (set_version v d)"
  unfolding set_version_def by (rule application_merge) (simp_all add: object_patch_def)

lemma object_patch_others: "leaves_window p \<Longrightarrow> object_patch p"
  by (auto simp: leaves_window_def object_patch_def)

lemma object_patch_pause: "json_wf rv \<Longrightarrow> object_patch (pause_body stamp rv)"
  by (auto simp: object_patch_def pause_body_def split: if_splits)

lemma object_patch_release: "json_wf rv \<Longrightarrow> json_wf policy \<Longrightarrow> object_patch (release_body policy rv)"
  by (auto simp: object_patch_def release_body_def split: if_splits)

section \<open>The invariant\<close>

definition good_policy :: "json \<Rightarrow> bool" where
  "good_policy declared \<longleftrightarrow> json_wf declared \<and> null_free declared \<and> is_mapping declared"

definition seen_ok :: "hub_state \<Rightarrow> bool" where
  "seen_ok s \<longleftrightarrow> (\<forall>c before. seen s c = Some before \<longrightarrow>
     (\<exists>v \<le> stored_version s. version_of before = JStr (show_nat v) \<and> (v = stored_version s \<longrightarrow> before = doc s)))"

definition hub_inv :: "(string \<Rightarrow> json option) \<Rightarrow> json \<Rightarrow> hub_state \<Rightarrow> bool" where
  "hub_inv loads declared s \<longleftrightarrow>
     application (doc s) \<and> stamped loads (doc s) \<and>
     version_of (doc s) = JStr (show_nat (stored_version s)) \<and> seen_ok s \<and>
     run_lock Free (history s) = Some (lock_of (doc s)) \<and>
     (window_open (doc s) \<longrightarrow> paused (doc s)) \<and>
     (history s \<noteq> [] \<and> \<not> window_open (doc s) \<longrightarrow> py_eq (policy_of (doc s)) declared)"

definition hub_initial :: "hub_state \<Rightarrow> bool" where
  "hub_initial s \<longleftrightarrow> application (doc s) \<and> \<not> window_open (doc s) \<and>
     version_of (doc s) = JStr (show_nat (stored_version s)) \<and> seen s = (\<lambda>_. None) \<and> history s = []"

lemma hub_inv_initial: "hub_initial s \<Longrightarrow> hub_inv loads declared s"
  by (simp add: hub_initial_def hub_inv_def stamped_def window_open_def seen_ok_def lock_of_def)

text \<open>An accepted patch was decided on the object as it is stored.\<close>

lemma accepted_current:
  assumes "seen_ok s" and "seen s c = Some before" and "version_of (doc s) = JStr (show_nat (stored_version s))"
    and "version_of (JObj body) = version_of before" and "accepted (doc s) body"
  shows "before = doc s"
  using assms by (fastforce simp: seen_ok_def accepted_def)

lemma seen_ok_store:
  assumes "seen_ok s" and "\<And>c b. f c = Some b \<Longrightarrow> seen s c = Some b"
  shows "seen_ok ((store s body)\<lparr>seen := f, history := h\<rparr>)"
  using assms by (fastforce simp: seen_ok_def store_def)

lemma policy_restored:
  assumes "good_policy declared" and "application d" and "get_or_empty (field d ''spec'') ''syncPolicy'' = Inr live"
  shows "py_eq (merge_patch (policy_of d) (replace_with live declared)) declared"
    and "replace_with live declared \<noteq> JNull" and "json_wf live"
proof -
  obtain ds where ds: "declared = JObj ds" using assms(1) by (cases declared) (simp_all add: good_policy_def)
  have live: "live = py_or (policy_of d) (JObj [])"
    using assms(2,3) by (auto simp: get_or_empty_def policy_of_def application_def py_get_mapping)
  have wf: "json_wf (policy_of d)"
    using assms(2) unfolding policy_of_def application_def by (intro json_wf_field) simp
  show wfl: "json_wf live" using wf by (simp add: live py_or_def)
  have "members live = members (policy_of d)"
    by (cases "policy_of d") (auto simp: live py_or_def)
  moreover obtain ps where ps: "replace_with live declared = JObj ps"
    unfolding ds by (cases live) simp_all
  ultimately have "merge_patch (policy_of d) (replace_with live declared) = merge_patch live (replace_with live declared)"
    by (simp add: merge_patch.simps(1))
  with merge_replace [OF wfl] assms(1) show "py_eq (merge_patch (policy_of d) (replace_with live declared)) declared"
    by (simp add: good_policy_def)
  show "replace_with live declared \<noteq> JNull" by (simp add: ps)
qed

lemma hub_inv_step:
  assumes "good_policy declared" and "hub_inv loads declared s" and "hub_step loads declared s t"
  shows "hub_inv loads declared t"
  using assms(3)
proof cases
  case (reads_hub c)
  with assms(2) show ?thesis by (auto simp: hub_inv_def seen_ok_def)
next
  case (gives_up c)
  with assms(2) show ?thesis by (auto simp: hub_inv_def seen_ok_def)
next
  case (opens_window c before stamp u b body)
  note inv = assms(2) [unfolded hub_inv_def]
  from open_body [OF opens_window(4,5)] have body: "body = pause_body stamp (version_of before)"
    and free: "holder loads before = Inr JNull" by simp_all
  have cur: "before = doc s"
    using inv opens_window by (intro accepted_current [where c = c and body = body]) (simp_all add: body)
  have app: "application (merge_patch (doc s) (JObj body))"
    using inv unfolding body cur
    by (intro application_merge object_patch_pause) (simp_all)
  from holder_stamped inv free cur have shut: "\<not> window_open (doc s)" by fastforce
  have doc: "annotation_of (doc t) = JStr stamp" "paused (doc t)" "application (doc t)"
      "version_of (doc t) = JStr (show_nat (stored_version t))"
    using paused_merge application_set_version [OF app]
    by (simp_all add: opens_window(1) store_def body) (simp add: paused_def)
  have "run_lock Free (history t) = Some Held"
    using inv shut by (simp add: opens_window(1) run_lock_snoc lock_of_def)
  with doc inv opens_window(1,3) show ?thesis
    unfolding hub_inv_def
    by (auto simp: stamped_def window_open_def lock_of_def intro!: seen_ok_store split: if_splits)
next
  case (closes_window c before held held' b body)
  note inv = assms(2) [unfolded hub_inv_def]
  from close_body [OF closes_window(3,4)] obtain spec live found where
    body: "body = release_body (replace_with live declared) (version_of before)" and
    spec: "py_index before ''spec'' = Inr spec" "get_or_empty spec ''syncPolicy'' = Inr live" and
    held: "holder loads before = Inr found" "found \<noteq> JNull" by blast
  have cur: "before = doc s"
    using inv closes_window by (intro accepted_current [where c = c and body = body]) (simp_all add: body)
  have live: "get_or_empty (field (doc s) ''spec'') ''syncPolicy'' = Inr live"
    using spec unfolding cur by (cases "doc s") (auto simp: field_def oget_def)
  note restored = policy_restored [OF assms(1) _ live]
  have app: "application (merge_patch (doc s) (JObj body))"
    using inv restored(3) assms(1) unfolding body cur
    by (intro application_merge object_patch_release json_wf_replace) (simp_all add: good_policy_def)
  from holder_stamped inv held cur have opened: "window_open (doc s)" by fastforce
  have doc: "annotation_of (doc t) = JNull" "py_eq (policy_of (doc t)) declared" "application (doc t)"
      "version_of (doc t) = JStr (show_nat (stored_version t))"
    using released_merge restored inv application_set_version [OF app]
    by (simp_all add: closes_window(1) store_def body)
  have "run_lock Free (history t) = Some Free"
    using inv opened by (simp add: closes_window(1) run_lock_snoc lock_of_def)
  with doc inv closes_window(1) show ?thesis
    unfolding hub_inv_def
    by (auto simp: stamped_def window_open_def lock_of_def intro!: seen_ok_store split: if_splits)
next
  case (others_write p)
  note inv = assms(2) [unfolded hub_inv_def]
  have app: "application (merge_patch (doc s) (JObj p))"
    using inv others_write(2) by (intro application_merge object_patch_others) simp_all
  have "seen_ok (store s p)" using seen_ok_store [where f = "seen s" and h = "history s", of s p] inv by (simp add: store_def)
  with inv others_merge [OF others_write(2)] application_set_version [OF app] show ?thesis
    unfolding hub_inv_def others_write(1)
    by (simp add: store_def stamped_def window_open_def lock_of_def paused_def)
qed

lemma hub_inv_reach:
  assumes "hub_reach loads declared s0 s" and "good_policy declared" and "hub_initial s0"
  shows "hub_inv loads declared s"
  using assms(1)
  by (induction rule: hub_reach.induct) (simp_all add: hub_inv_initial assms hub_inv_step [OF assms(2)])

section \<open>What every interleaving guarantees\<close>



lemma index_path_field:
  "is_mapping x \<Longrightarrow> is_mapping (field x a) \<Longrightarrow> field (field x a) b \<noteq> JNull \<Longrightarrow>
     index_path x [a, b] = Inr (field (field x a) b)"
  by (cases x; cases "field x a") (auto simp: field_def oget_def split: option.splits)

lemma close_decides:
  assumes "hub_inv loads declared s" and "window_open (doc s)"
  shows "\<exists>held' b body. build_close loads declared held (doc s) = Inr (held', Some b) \<and>
    with_version (doc s) b = Inr body \<and> accepted (doc s) body \<and> body = release_body (oget (members (oget (members (JObj b)) ''spec'')) ''syncPolicy'') (version_of (doc s))"
proof -
  note inv = assms(1) [unfolded hub_inv_def]
  then have app: "application (doc s)" by simp
  from holder_stamped inv assms(2) obtain kvs where h: "holder loads (doc s) = Inr (JObj kvs)" by fastforce
  obtain live where live: "get_or_empty (field (doc s) ''spec'') ''syncPolicy'' = Inr live"
    using app by (auto simp: application_def get_or_empty_def py_get_mapping)
  have spec: "py_index (doc s) ''spec'' = Inr (field (doc s) ''spec'')"
    using app by (cases "doc s") (auto simp: application_def field_def oget_def split: option.splits)
  have v: "index_path (doc s) [''metadata'', ''resourceVersion''] = Inr (version_of (doc s))"
    using app inv index_path_field [of "doc s" "''metadata''" "''resourceVersion''"]
    by (simp add: application_def version_of_def)
  show ?thesis
    using h live spec v
    by (simp add: build_close_def with_version_def release_body_def accepted_def version_of_def [of "JObj b" for b])
qed

text \<open>A window can always be closed: from every reachable state with a window open, one read and one patch
  of a close, with no other writer in between, leave no window open.\<close>

theorem window_closable:
  assumes "good_policy declared" and "hub_initial s0" and "hub_reach loads declared s0 s" and "window_open (doc s)"
  shows "\<exists>s1 s2. hub_step loads declared s s1 \<and> hub_step loads declared s1 s2 \<and>
    \<not> window_open (doc s2) \<and> py_eq (policy_of (doc s2)) declared"
proof -
  have inv: "hub_inv loads declared s" by (rule hub_inv_reach [OF assms(3,1,2)])
  from close_decides [OF this assms(4), of "[]"] obtain held' b body where
    d: "build_close loads declared [] (doc s) = Inr (held', Some b)" "with_version (doc s) b = Inr body"
      "accepted (doc s) body" by blast
  let ?s1 = "s\<lparr>seen := (seen s)(0 := Some (doc s))\<rparr>"
  let ?s2 = "(store ?s1 body)\<lparr>seen := (seen ?s1)(0 := None), history := history ?s1 @ [Closed]\<rparr>"
  have 1: "hub_step loads declared s ?s1" by (rule reads_hub)
  have 2: "hub_step loads declared ?s1 ?s2"
    by (rule closes_window [where before = "doc s", OF _ d(1,2)]) (use d(3) in simp_all)
  have inv2: "hub_inv loads declared ?s2"
    by (rule hub_inv_step [OF assms(1) hub_inv_step [OF assms(1) inv 1] 2])
  have "run_lock Free (history s @ [Closed]) = Some Free"
    using inv assms(4) by (simp add: hub_inv_def run_lock_snoc lock_of_def)
  with inv2 have "lock_of (doc ?s2) = Free" by (simp add: hub_inv_def)
  then have shut: "\<not> window_open (doc ?s2)" by (auto simp: lock_of_def split: if_splits)
  with inv2 have "py_eq (policy_of (doc ?s2)) declared" unfolding hub_inv_def by simp
  with 1 2 shut show ?thesis by blast
qed

section \<open>A run\<close>

definition sample_application :: json where
  "sample_application = JObj
     [(''metadata'', JObj [(''name'', JStr ''kubelab-prod''), (''resourceVersion'', JStr (show_nat 7))]),
      (''spec'', JObj [(''source'', JObj [(''targetRevision'', JStr ''master'')]),
        (''syncPolicy'', JObj [(''automated'', JObj [(''selfHeal'', JBool True)])])])]"

definition sample_hub :: hub_state where
  "sample_hub = \<lparr>doc = sample_application, stored_version = 7, seen = (\<lambda>_. None), history = []\<rparr>"

definition sample_loads :: "string \<Rightarrow> json option" where
  "sample_loads s = (if s = ''{}'' then Some (JObj []) else None)"

definition opened_hub :: hub_state where
  "opened_hub =
     (store sample_hub (pause_body ''{}'' (JStr ''7'')))\<lparr>seen := (\<lambda>_. None)(0 := None), history := [Opened]\<rparr>"

lemma sample_initial: "hub_initial sample_hub" and sample_policy: "good_policy declared_policy"
  by (auto simp: hub_initial_def sample_hub_def sample_application_def application_def window_open_def
      annotation_of_def version_of_def good_policy_def declared_policy_def)

lemma sample_opens: "hub_reach sample_loads declared_policy sample_hub opened_hub"
proof -
  let ?s = "sample_hub\<lparr>seen := (seen sample_hub)(0 := Some (doc sample_hub))\<rparr>"
  have built: "build_open sample_loads ''{}'' () sample_application = Inr ((), Some
       [(''metadata'', JObj [(''annotations'', JObj [(annotation, JStr ''{}'')])]),
        (''spec'', JObj [(''syncPolicy'', JObj [(''automated'', JObj [(''enabled'', JBool False)])])])])"
    and body: "with_version sample_application
       [(''metadata'', JObj [(''annotations'', JObj [(annotation, JStr ''{}'')])]),
        (''spec'', JObj [(''syncPolicy'', JObj [(''automated'', JObj [(''enabled'', JBool False)])])])]
       = Inr (pause_body ''{}'' (JStr ''7''))"
    and ok: "accepted (doc sample_hub) (pause_body ''{}'' (JStr ''7''))"
    by code_simp+
  have 1: "hub_step sample_loads declared_policy sample_hub ?s" by (rule reads_hub)
  have "hub_step sample_loads declared_policy ?s
      ((store ?s (pause_body ''{}'' (JStr ''7'')))\<lparr>seen := (seen ?s)(0 := None), history := history ?s @ [Opened]\<rparr>)"
    by (rule opens_window [where before = sample_application, OF _ _ built body])
      (use ok in \<open>simp_all add: sample_hub_def good_stamp_def sample_loads_def\<close>)
  also have "(store ?s (pause_body ''{}'' (JStr ''7'')))\<lparr>seen := (seen ?s)(0 := None), history := history ?s @ [Opened]\<rparr>
      = opened_hub"
    by (simp add: opened_hub_def store_def sample_hub_def)
  finally show ?thesis by (rule hub_next [OF hub_next [OF hub_start 1]])
qed

lemma opened_open: "window_open (doc opened_hub)"
  by (simp add: opened_hub_def store_def window_open_def paused_merge)



lemma window_closable_witness:
  "\<exists>s :: hub_state. \<not> window_open (doc s) \<and> py_eq (policy_of (doc s)) declared_policy"
  using window_closable [OF sample_policy sample_initial sample_opens opened_open] by blast

end
