(* ===== verification/RestoreWindowSamples.thy ===== *)
theory RestoreWindowSamples
  imports RestoreWindowFacts WindowLock
begin

text \<open>
  What a close that returns has seen, the one case in which it cannot return, and a small pair of
  clusters at which the properties of the window are instantiated.
\<close>

section \<open>A close that returns\<close>

lemma saying_closed_Val: "saying_closed what m n = (Val x, n') \<longleftrightarrow> m n = (Val x, n')"
  by (auto simp: saying_closed_def attempt_Val)

lemma look_recovered_Val:
  assumes "look_recovered srv hub spoke name deployment m = (Val (Inr ()), m')"
  shows "\<exists>app dep w w' r r'. srv (get_application hub name) w = (r, w') \<and> loads_output (k_out r) = Inr app \<and>
    srv (get_deployment spoke deployment) w' = (r', world m') \<and> loads_output (k_out r') = Inr dep \<and>
    recovered app dep = Inr True"
proof -
  from assms show ?thesis
    by (simp add: look_recovered_def saying_closed_Val abind_Val call_json_Val split_def)
      (fastforce split: if_splits)
qed


section \<open>The close that cannot return\<close>

lemma patch_loop_accepted:
  assumes "patch_loop (Suc k) srv hub name build st n = (Val (st', before, body), n')"
    and "srv (get_application hub name) (world n) = (r, w)" and "k_rc r = 0" and "k_out r = Parsed app"
    and "\<And>body. k_rc (fst (srv (send_patch hub name body) w)) = 0"
  shows "before = app \<and> (\<exists>st1 built. build st app = Inr (st1, built) \<and> (body = None \<longleftrightarrow> built = None))"
proof -
  let ?n1 = "n\<lparr>sent := sent n @ [get_application hub name], world := w\<rparr>"
  have read: "call_json srv (get_application hub name) n = (Val app, ?n1)"
    using assms(2-4) by (simp add: call_json_Val loads_output_def)
  from assms(1) obtain st1 built where b: "build st app = Inr (st1, built)" and
    rest: "(case built of
         None \<Rightarrow> ret (st1, app, None)
       | Some b \<Rightarrow>
           abind (lift (with_version app b)) (\<lambda>body.
           abind (call srv (send_patch hub name body)) (\<lambda>r.
             if k_rc r = 0 then ret (st1, app, Some body)
             else if \<not> str_contains ''conflict'' (lower (k_err r)) \<or> k = 0
             then throw (WindowError (''patching application/'' @ name @ '' failed''))
             else patch_loop k srv hub name build st1))) ?n1 = (Val (st', before, body), n')"
    by (auto simp: abind_Val read)
  show ?thesis
  proof (cases built)
    case (Some x)
    with rest obtain bd where bd: "with_version app x = Inr bd" and
      c: "abind (call srv (send_patch hub name bd)) (\<lambda>r.
             if k_rc r = 0 then ret (st1, app, Some bd)
             else if \<not> str_contains ''conflict'' (lower (k_err r)) \<or> k = 0
             then throw (WindowError (''patching application/'' @ name @ '' failed''))
             else patch_loop k srv hub name build st1) ?n1 = (Val (st', before, body), n')"
      by (auto simp: abind_Val)
    obtain r2 w2 where s: "srv (send_patch hub name bd) w = (r2, w2)" by fastforce
    with assms(5) [of bd] have "k_rc r2 = 0" by simp
    with c s b Some show ?thesis by (simp add: abind_def call_def)
  qed (use b rest in auto)
qed


section \<open>A pair of clusters\<close>

text \<open>The hub stores one Application and merges every patch; on the spoke the deployment has one replica
  ready and no pod is listed. Every call takes a second.\<close>

definition sample_deployment :: json where
  "sample_deployment = JObj
     [(''spec'', JObj [(''replicas'', JInt 1), (''selector'', JObj [(''matchLabels'', JObj [(''app'', JStr ''gitea'')])]),
        (''template'', JObj [(''spec'', JObj [(''volumes'', JArr
           [JObj [(''persistentVolumeClaim'', JObj [(''claimName'', JStr ''gitea-data'')])]])])])]),
      (''status'', JObj [(''readyReplicas'', JInt 1)])]"

definition sample_cluster :: "(json \<times> int) cluster" where
  "sample_cluster q s =
     (let (app, t) = s; ok = (\<lambda>j. \<lparr>k_rc = 0, k_out = Parsed j, k_err = []\<rparr>) in
      if k_args q = [] then (ok JNull, (app, t + second))
      else if hd (k_args q) = ''patch''
      then (ok JNull, (merge_patch app (case k_body q of None \<Rightarrow> JObj [] | Some b \<Rightarrow> b), t + second))
      else if hd (k_args q) = ''get''
      then (ok (if k_args q ! 1 = ''application'' then app
                else if k_args q ! 1 = ''deployment'' then sample_deployment
                else JObj [(''items'', JArr [])]), (app, t + second))
      else (ok JNull, (app, t + second)))"

definition sample_timer :: "(json \<times> int) timer" where
  "sample_timer = \<lparr>t_clock = snd, t_sleep = (\<lambda>d (app, t). (app, t + d))\<rparr>"

lemma sample_keeps_time: "keeps_time sample_timer sample_cluster"
  by (auto simp: keeps_time_def sample_timer_def sample_cluster_def second_def Let_def)

definition sample_app :: "(string \<times> json) list \<Rightarrow> (string \<times> json) list \<Rightarrow> json" where
  "sample_app annotations spec = JObj
     [(''metadata'', JObj [(''name'', JStr ''kubelab-prod''), (''resourceVersion'', JStr ''7''),
        (''annotations'', JObj annotations)]),
      (''spec'', JObj ((''source'', JObj [(''targetRevision'', JStr ''master'')]) # spec)),
      (''status'', JObj [(''sync'', JObj [(''status'', JStr ''Synced'')]), (''health'', JObj [(''status'', JStr ''Healthy'')])])]"

definition window_net :: "json \<Rightarrow> (kubectl, json \<times> int) net" where
  "window_net app = \<lparr>sent = [], world = (app, 0), budget = 62\<rparr>"

definition stamp_loads :: "string \<Rightarrow> json option" where
  "stamp_loads s = (if s = ''{}'' then Some (JObj [(''deployment'', JStr ''gitea'')]) else None)"

definition sample_docs :: "json list" where
  "sample_docs = [JObj [(''kind'', JStr ''Application''), (''spec'', JObj [(''syncPolicy'', declared_policy)])]]"

definition sample_open :: "json \<Rightarrow> json outcome \<times> (kubectl, json \<times> int) net" where
  "sample_open app = open_window sample_cluster sample_timer stamp_loads ''{}'' ''prod'' ''gitea'' ''hub'' ''spoke''
     (300 * second) (window_net app)"

definition sample_close :: "json \<Rightarrow> json option outcome \<times> (kubectl, json \<times> int) net" where
  "sample_close app = close_window sample_cluster sample_timer stamp_loads sample_docs ''prod'' ''hub'' ''spoke''
     (300 * second) (window_net app)"

definition free_app :: json where
  "free_app = sample_app [] [(''syncPolicy'', JObj [(''automated'', JObj [])])]"

definition held_app :: json where
  "held_app = sample_app [(annotation, JStr ''{}'')] [(''syncPolicy'', paused_policy)]"

definition bare_app :: json where
  "bare_app = sample_app [(annotation, JStr ''{}'')] []"

lemma sample_open_returns: "fst (sample_open free_app) = Val (JObj [(''automated'', JObj [])])"
  by code_simp

lemma sample_close_returns: "fst (sample_close held_app) = Val (Some paused_policy)"
  by code_simp

text \<open>On the application without a policy the window is released and the declared policy restored, and the
  run raises.\<close>

lemma bare_close_raises:
  "fst (sample_close bare_app) = Exn (KeyError ''syncPolicy'') \<and>
   \<not> window_open (fst (world (snd (sample_close bare_app)))) \<and>
   policy_of (fst (world (snd (sample_close bare_app)))) = declared_policy"
  by code_simp

lemma window_commands_end_witness:
  "fst (sample_open held_app) \<noteq> Stuck \<and> length (sends (open_window sample_cluster sample_timer stamp_loads ''{}'' ''prod''
     ''gitea'' ''hub'' ''spoke'' (300 * second)) (window_net held_app)) \<le> 130"
proof -
  have b: "poll_bound poll_interval (300 * second) = 62" by code_simp
  then have "poll_bound poll_interval (300 * second) \<le> budget (window_net held_app)" by (simp add: window_net_def)
  from window_commands_end [OF sample_keeps_time this, of stamp_loads "''{}''" "''prod''" "''gitea''" "''hub''" "''spoke''"]
  show ?thesis by (simp add: sample_open_def b)
qed

lemma open_refuses_held_witness:
  "\<exists>who. fst (sample_open held_app) = Exn (WindowHeldError who)"
proof -
  let ?r = "\<lparr>k_rc = 0, k_out = Parsed held_app, k_err = []\<rparr>"
  have 1: "sample_cluster (get_application ''hub'' (application_name ''prod'')) (world (window_net held_app))
      = (?r, (held_app, second))" by code_simp
  have 2: "holder stamp_loads held_app = Inr (JObj [(''deployment'', JStr ''gitea'')])" by code_simp
  obtain who where 3: "describe (JObj [(''deployment'', JStr ''gitea'')]) = Inr who" by (simp add: describe_def)
  have "sample_open held_app = (Exn (WindowHeldError who), (window_net held_app)
      \<lparr>sent := sent (window_net held_app) @ [get_application ''hub'' (application_name ''prod'')],
       world := (held_app, second)\<rparr>)"
    unfolding sample_open_def
    by (rule open_refuses_held [where r = ?r and app = held_app and held = "JObj [(''deployment'', JStr ''gitea'')]"])
      (use 1 2 3 in simp_all)
  then show ?thesis by simp
qed




end
