(* ===== verification/ArgoManager.thy ===== *)
theory ArgoManager
  imports Kubectl "HOL-Library.List_Lexorder" "HOL-Library.Char_ord"
begin

text \<open>
  \<open>toolkit/features/argo_manager.py\<close>: pointing an Argo CD Application at a branch (\<open>set_revision\<close>), the
  drift check, and waiting for a commit status (\<open>wait_status\<close>).

  \<open>subprocess.run(check=True)\<close> raises \<open>CalledProcessError\<close> with standard error. The statuses are read by a
  parameter \<open>fetch\<close>, as in the source. What a verdict prints beside its exit code is left out.
\<close>

section \<open>Repointing an application\<close>

record set_revision_result =
  old_revision :: json
  new_revision :: json
  sync_status :: json

definition revision_patch_attempts :: nat where
  "revision_patch_attempts = 2"

definition run_json :: "'s cluster \<Rightarrow> kubectl \<Rightarrow> (kubectl, 's, json) act" where
  "run_json srv q =
     abind (call srv q) (\<lambda>r.
       if k_rc r \<noteq> 0 then throw (CalledProcessError (k_err r)) else lift (loads_output (k_out r)))"

definition read_app :: "string \<Rightarrow> string \<Rightarrow> string \<Rightarrow> kubectl" where
  "read_app app config namespace = kubectl config namespace [''get'', ''application'', app, ''-o'', ''json'']"

definition read_application :: "'s cluster \<Rightarrow> string \<Rightarrow> string \<Rightarrow> string \<Rightarrow> (kubectl, 's, json) act" where
  "read_application srv app config namespace =
     attempt (run_json srv (read_app app config namespace))
       (\<lambda>e. case e of
              CalledProcessError err \<Rightarrow>
                if str_contains ''not found'' (lower err) then throw (ApplicationNotFoundError app) else throw e
            | _ \<Rightarrow> throw e)"

definition patch_body :: "string \<Rightarrow> json \<Rightarrow> exn + obj" where
  "patch_body branch before =
     ebind (py_get_or before ''metadata'' (JObj [])) (\<lambda>m.
     ebind (py_get m ''resourceVersion'') (\<lambda>rv.
       let body = [(''spec'', JObj [(''source'', JObj [(''targetRevision'', JStr branch)])])] in
       Inr (if truthy rv then oset body ''metadata'' (JObj [(''resourceVersion'', rv)]) else body)))"

definition patch_argv :: "string \<Rightarrow> string \<Rightarrow> string \<Rightarrow> obj \<Rightarrow> kubectl" where
  "patch_argv app config namespace body =
     (kubectl config namespace [''patch'', ''application'', app, ''--type'', ''merge'', ''-p'', ''-o'', ''json''])
     \<lparr>k_body := Some (JObj body)\<rparr>"

definition target_revision :: "json \<Rightarrow> exn + json" where
  "target_revision app = index_path app [''spec'', ''source'', ''targetRevision'']"

text \<open>Another branch than the release is on it, and not the one asked for.\<close>

definition revision_held :: "string \<Rightarrow> string \<Rightarrow> bool \<Rightarrow> json \<Rightarrow> bool" where
  "revision_held release branch force old \<longleftrightarrow>
     \<not> force \<and> branch \<noteq> release \<and> \<not> (py_eq old (JStr release) \<or> py_eq old (JStr branch))"

definition status_after :: "json \<Rightarrow> exn + json" where
  "status_after app =
     ebind (get_path app [''status'', ''sync'']) (\<lambda>sync. py_get_or sync ''status'' (JStr ''Unknown''))"

fun set_revision_loop ::
  "nat \<Rightarrow> 's cluster \<Rightarrow> string \<Rightarrow> string \<Rightarrow> string \<Rightarrow> string \<Rightarrow> bool \<Rightarrow> string \<Rightarrow>
   (kubectl, 's, json \<times> json) act" where
  "set_revision_loop 0 srv app branch config namespace force release = throw (RuntimeError ''unreachable'')"
| "set_revision_loop (Suc k) srv app branch config namespace force release =
     abind (read_application srv app config namespace) (\<lambda>before.
     abind (lift (target_revision before)) (\<lambda>old.
       if revision_held release branch force old then throw (RevisionHeldError (py_str old))
       else
         attempt
           (abind (lift (patch_body branch before)) (\<lambda>body.
            abind (run_json srv (patch_argv app config namespace body)) (\<lambda>after. ret (old, after))))
           (\<lambda>e. case e of
                  CalledProcessError err \<Rightarrow>
                    if \<not> str_contains ''conflict'' (lower err) \<or> k = 0 then throw e
                    else set_revision_loop k srv app branch config namespace force release
                | _ \<Rightarrow> throw e)))"

definition set_revision ::
  "'s cluster \<Rightarrow> string \<Rightarrow> string \<Rightarrow> string \<Rightarrow> string \<Rightarrow> bool \<Rightarrow> string \<Rightarrow>
   (kubectl, 's, set_revision_result) act" where
  "set_revision srv app branch config namespace force release =
     abind (set_revision_loop revision_patch_attempts srv app branch config namespace force release) (\<lambda>(old, after).
     abind (lift (target_revision after)) (\<lambda>new.
     abind (lift (status_after after)) (\<lambda>status.
       ret \<lparr>old_revision = old, new_revision = new, sync_status = status\<rparr>)))"

section \<open>Drift\<close>

record drift_check_result =
  clean :: bool
  diff :: string

definition diff_argv :: "string \<Rightarrow> string \<Rightarrow> kubectl" where
  "diff_argv applications_dir config =
     \<lparr>k_config = config, k_namespace = [], k_args = [''diff'', ''-f'', applications_dir, ''--request-timeout=15s''],
      k_body = None\<rparr>"

definition stdout_text :: "stdout \<Rightarrow> string" where
  "stdout_text out = (case out of Parsed j \<Rightarrow> py_str j | Unparsed s \<Rightarrow> s)"

definition check_drift :: "'s cluster \<Rightarrow> string \<Rightarrow> string \<Rightarrow> (kubectl, 's, drift_check_result) act" where
  "check_drift srv applications_dir config =
     abind (call srv (diff_argv applications_dir config)) (\<lambda>r.
       if k_rc r = 0 then ret \<lparr>clean = True, diff = []\<rparr>
       else if k_rc r = 1 then ret \<lparr>clean = False, diff = stdout_text (k_out r)\<rparr>
       else throw (HubUnreachableError (k_err r)))"

section \<open>Waiting for a commit status\<close>

datatype wait_status = SUCCESS | FAILED | CANNOT_CHECK

fun wait_code :: "wait_status \<Rightarrow> int" where
  "wait_code SUCCESS = 0"
| "wait_code FAILED = 1"
| "wait_code CANNOT_CHECK = 2"

text \<open>\<open>s.get("updated_at") or ""\<close>, compared as strings; a comparison with anything else raises.\<close>

definition updated_at :: "json \<Rightarrow> exn + json" where
  "updated_at s = ebind (py_get s ''updated_at'') (\<lambda>u. Inr (py_or u (JStr [])))"

definition py_less_str :: "json \<Rightarrow> json \<Rightarrow> exn + bool" where
  "py_less_str x y =
     (case (x, y) of (JStr a, JStr b) \<Rightarrow> Inr (a < b) | _ \<Rightarrow> Inl (TypeError ''unorderable''))"

text \<open>\<open>max(matches, key=..., default=None)\<close>: the first of the greatest.\<close>

fun max_status :: "json \<Rightarrow> json \<Rightarrow> json list \<Rightarrow> exn + json" where
  "max_status best best_key [] = Inr best"
| "max_status best best_key (s # ss) =
     ebind (updated_at s) (\<lambda>k.
     ebind (py_less_str best_key k) (\<lambda>less.
       if less then max_status s k ss else max_status best best_key ss))"

definition latest_status :: "json list \<Rightarrow> string \<Rightarrow> exn + json option" where
  "latest_status statuses ctxt =
     ebind (efilter (\<lambda>s. ebind (py_get s ''context'') (\<lambda>c. Inr (py_eq c (JStr ctxt)))) statuses) (\<lambda>matches.
       case matches of
         [] \<Rightarrow> Inr None
       | s # ss \<Rightarrow> ebind (updated_at s) (\<lambda>k. ebind (max_status s k ss) (\<lambda>m. Inr (Some m))))"

text \<open>What one status settles: \<open>Inr\<close> a final verdict, \<open>Inl\<close> the verdict at the deadline.\<close>

definition judge :: "json option \<Rightarrow> exn + wait_status + wait_status" where
  "judge status =
     (case status of
        None \<Rightarrow> Inr (Inl FAILED)
      | Some s \<Rightarrow>
          ebind (py_get s ''state'') (\<lambda>state.
            Inr (if py_eq state (JStr ''success'') then Inr SUCCESS
                 else if py_eq state (JStr ''failure'') \<or> py_eq state (JStr ''error'') then Inr FAILED
                 else Inl FAILED)))"

definition observe_status ::
  "('q, 's, json list) act \<Rightarrow> string \<Rightarrow> ('q, 's, wait_status + wait_status) act" where
  "observe_status fetch ctxt =
     abind (attempt (abind fetch (\<lambda>ss. abind (lift (latest_status ss ctxt)) (\<lambda>s. ret (Some s))))
              (\<lambda>e. case e of StatusFetchError _ \<Rightarrow> ret None | _ \<Rightarrow> throw e)) (\<lambda>read.
       case read of
         None \<Rightarrow> ret (Inl CANNOT_CHECK)
       | Some status \<Rightarrow> lift (judge status))"

definition wait_status ::
  "'s timer \<Rightarrow> ('q, 's, json list) act \<Rightarrow> string \<Rightarrow> int \<Rightarrow> int \<Rightarrow> ('q, 's, wait_status) act" where
  "wait_status tm fetch ctxt timeout every =
     abind (clock tm) (\<lambda>started.
       with_budget (\<lambda>fuel. poll fuel tm every started timeout (observe_status fetch ctxt) ret))"

end
