(* ===== verification/ArgoFacts.thy ===== *)
theory ArgoFacts
  imports ArgoManager
begin

text \<open>
  What repointing an Application and waiting for its status guarantee: another lane's branch is never
  replaced unasked, the latest status is the first of the newest, a wait ends and its verdict is what
  the last observation said.
\<close>

section \<open>Repointing\<close>

lemma set_revision_loop_Val:
  "set_revision_loop k srv app branch config namespace force release n = (Val (old, after), n') \<Longrightarrow>
     \<not> revision_held release branch force old \<and>
     (\<exists>before body w r. target_revision before = Inr old \<and> patch_body branch before = Inr body \<and>
        srv (patch_argv app config namespace body) w = (r, world n') \<and> k_rc r = 0 \<and>
        loads_output (k_out r) = Inr after)"
proof (induction k arbitrary: n)
  case (Suc k)
  let ?retry = "\<lambda>e. case e of
      CalledProcessError err \<Rightarrow>
        if \<not> str_contains ''conflict'' (lower err) \<or> k = 0 then throw e
        else set_revision_loop k srv app branch config namespace force release
    | _ \<Rightarrow> throw e"
  from Suc.prems obtain before old1 n1 where
    old: "target_revision before = Inr old1" "\<not> revision_held release branch force old1" and
    patch: "attempt (abind (lift (patch_body branch before)) (\<lambda>body.
            abind (run_json srv (patch_argv app config namespace body)) (\<lambda>after. ret (old1, after)))) ?retry n1
          = (Val (old, after), n')"
    by (auto simp: abind_Val split: if_splits)
  from patch consider
    body where "patch_body branch before = Inr body" "old = old1"
      "run_json srv (patch_argv app config namespace body) n1 = (Val after, n')"
  | e n2 where "?retry e n2 = (Val (old, after), n')"
    by (auto simp: attempt_Val abind_Val)
  then show ?case
  proof cases
    case (1 body)
    with old show ?thesis
      by (auto simp: run_json_def abind_Val call_def split: prod.splits if_splits)
  next
    case (2 e n2)
    then obtain err where "e = CalledProcessError err" by (cases e) auto
    with 2 have "set_revision_loop k srv app branch config namespace force release n2 = (Val (old, after), n')"
      by (auto split: if_splits)
    then show ?thesis by (rule Suc.IH)
  qed
qed (simp add: throw_def)

text \<open>A repoint that succeeds without force replaced the release branch or the branch it was asked for, or
  pointed back at the release: another lane's preview is never replaced, and the patch that did it was
  built from the read that showed the replaced branch.\<close>

theorem set_revision_spares_previews:
  assumes "set_revision srv app branch config namespace force release n = (Val res, n')"
  shows "(force \<or> branch = release \<or> py_eq (old_revision res) (JStr release) \<or> py_eq (old_revision res) (JStr branch))
    \<and> (\<exists>before body w r. target_revision before = Inr (old_revision res) \<and> patch_body branch before = Inr body \<and>
         srv (patch_argv app config namespace body) w = (r, world n') \<and> k_rc r = 0)"
proof -
  from assms obtain old after where
    l: "set_revision_loop revision_patch_attempts srv app branch config namespace force release n = (Val (old, after), n')"
    and r: "old_revision res = old"
    by (auto simp: set_revision_def abind_Val)
  from set_revision_loop_Val [OF l] r show ?thesis by (auto simp: revision_held_def)
qed

text \<open>A refused repoint sent only the read that refused it.\<close>

lemma set_revision_refused:
  assumes "read_application srv app config namespace n = (Val before, n1)"
    and "target_revision before = Inr old" and "revision_held release branch force old"
  shows "set_revision srv app branch config namespace force release n = (Exn (RevisionHeldError (py_str old)), n1)"
  using assms
  by (simp add: set_revision_def revision_patch_attempts_def numeral_2_eq_2 abind_def run_simps)

section \<open>The latest status\<close>

definition about :: "string \<Rightarrow> json \<Rightarrow> bool" where
  "about ctxt s \<longleftrightarrow> (\<exists>c. py_get s ''context'' = Inr c \<and> py_eq c (JStr ctxt))"

definition stamp_of :: "json \<Rightarrow> string" where
  "stamp_of s = (case updated_at s of Inr (JStr u) \<Rightarrow> u | _ \<Rightarrow> [])"

text \<open>The reference: the first element of a list whose stamp no other one exceeds.\<close>

definition newest :: "json list \<Rightarrow> json" where
  "newest ss = hd (filter (\<lambda>s. \<forall>t \<in> set ss. stamp_of t \<le> stamp_of s) ss)"

lemma max_status_newest:
  assumes "max_status best (JStr k) ss = Inr m" and "updated_at best = Inr (JStr k)"
  shows "m = newest (best # ss)"
  using assms
proof (induction ss arbitrary: best k)
  case Nil
  then show ?case by (simp add: newest_def)
next
  case (Cons s ss)
  from Cons.prems obtain j less where j: "updated_at s = Inr j" and less: "py_less_str (JStr k) j = Inr less"
    and m: "(if less then max_status s j ss else max_status best (JStr k) ss) = Inr m" by auto
  then obtain u where u: "j = JStr u" "less = (k < u)" by (cases j) (auto simp: py_less_str_def)
  have st: "stamp_of best = k" "stamp_of s = u" using Cons.prems(2) j u by (simp_all add: stamp_of_def)
  show ?case
  proof (cases "k < u")
    case True
    with m u have "max_status s (JStr u) ss = Inr m" by simp
    from Cons.IH [OF this] j u have m: "m = newest (s # ss)" by simp
    have "filter (\<lambda>x. \<forall>t \<in> set (best # s # ss). stamp_of t \<le> stamp_of x) (best # s # ss) =
        filter (\<lambda>x. \<forall>t \<in> set (s # ss). stamp_of t \<le> stamp_of x) (s # ss)"
      using True st by (auto intro!: filter_cong)
    with m show ?thesis by (simp only: newest_def)
  next
    case False
    with m u have "max_status best (JStr k) ss = Inr m" by simp
    from Cons.IH [OF this Cons.prems(2)] have m: "m = newest (best # ss)" .
    show ?thesis
    proof (cases "\<forall>t \<in> set ss. stamp_of t \<le> k")
      case True
      with False st show ?thesis unfolding m newest_def by auto
    next
      case nb: False
      then obtain t where t: "t \<in> set ss" "k < stamp_of t" by (auto simp: not_le)
      let ?P = "\<lambda>x. \<forall>t \<in> set ss. stamp_of t \<le> stamp_of x"
      have uk: "u \<le> k" using False by (simp add: not_less)
      have ge: "k \<le> stamp_of x" if "?P x" for x using that t by (meson less_imp_le order_trans)
      have "(\<forall>t \<in> set (best # s # ss). stamp_of t \<le> stamp_of x) \<longleftrightarrow> ?P x"
        and "(\<forall>t \<in> set (best # ss). stamp_of t \<le> stamp_of x) \<longleftrightarrow> ?P x" for x
        using ge [of x] uk st by (auto intro: order_trans)
      moreover have "\<not> ?P best" using t st by (auto simp: not_le)
      moreover have "\<not> ?P s" using t st uk by (auto simp: not_le intro: le_less_trans)
      ultimately have "filter (\<lambda>x. \<forall>t \<in> set (best # s # ss). stamp_of t \<le> stamp_of x) (best # s # ss) =
          filter (\<lambda>x. \<forall>t \<in> set (best # ss). stamp_of t \<le> stamp_of x) (best # ss)"
        by (simp only: filter.simps if_False)
      then show ?thesis unfolding m by (simp only: newest_def)
    qed
  qed
qed

text \<open>A status as the API lists it: an object whose \<open>updated_at\<close> is text, null or missing.\<close>

definition listed_status :: "json \<Rightarrow> bool" where
  "listed_status s \<longleftrightarrow> (\<exists>kvs. s = JObj kvs \<and> (oget kvs ''updated_at'' = JNull \<or> (\<exists>u. oget kvs ''updated_at'' = JStr u)))"

lemma listed_updated_at: "listed_status s \<Longrightarrow> updated_at s = Inr (JStr (stamp_of s))"
  by (auto simp: listed_status_def updated_at_def stamp_of_def py_or_def)

lemma max_status_total:
  "list_all listed_status ss \<Longrightarrow> \<exists>m. max_status best (JStr k) ss = Inr m"
  by (induction ss arbitrary: best k) (auto simp: listed_updated_at py_less_str_def)

text \<open>\<open>latest_status\<close> is the reference: among the statuses of the context, in any order, the first whose
  time stamp no other one exceeds, and nothing exactly when the context has none.\<close>

theorem latest_status_is_newest:
  assumes "list_all listed_status ss"
  shows "latest_status ss ctxt =
    Inr (if filter (about ctxt) ss = [] then None else Some (newest (filter (about ctxt) ss)))"
proof -
  have ms: "efilter (\<lambda>s. ebind (py_get s ''context'') (\<lambda>c. Inr (py_eq c (JStr ctxt)))) ss = Inr (filter (about ctxt) ss)"
    using assms by (intro efilter_total) (auto simp: list_all_iff listed_status_def about_def)
  show ?thesis
  proof (cases "filter (about ctxt) ss")
    case Nil
    with ms show ?thesis by (simp add: latest_status_def)
  next
    case (Cons s rest)
    then have "set (s # rest) \<subseteq> set ss" by (metis filter_is_subset)
    with assms have l: "listed_status s" "list_all listed_status rest" by (auto simp: list_all_iff)
    from max_status_total [OF l(2)] obtain m where m: "max_status s (JStr (stamp_of s)) rest = Inr m" by blast
    from max_status_newest [OF this listed_updated_at [OF l(1)]] have "m = newest (s # rest)" .
    with ms Cons m l show ?thesis by (simp add: latest_status_def listed_updated_at)
  qed
qed

definition sample_statuses :: "json list" where
  "sample_statuses =
     [JObj [(''context'', JStr ''argo''), (''state'', JStr ''pending''), (''updated_at'', JStr ''2026-10-01T10:00'')],
      JObj [(''context'', JStr ''ci''), (''state'', JStr ''failure''), (''updated_at'', JStr ''2026-10-01T12:00'')],
      JObj [(''context'', JStr ''argo''), (''state'', JStr ''success''), (''updated_at'', JStr ''2026-10-01T11:00'')]]"

lemma latest_status_is_newest_witness:
  "latest_status sample_statuses ''argo'' = Inr (Some (sample_statuses ! 2))"
proof -
  have "list_all listed_status sample_statuses"
    by (simp add: sample_statuses_def listed_status_def)
  moreover have "filter (about ''argo'') sample_statuses = [sample_statuses ! 0, sample_statuses ! 2]"
    by (simp add: sample_statuses_def about_def)
  moreover have "newest [sample_statuses ! 0, sample_statuses ! 2] = sample_statuses ! 2"
    by code_simp
  ultimately show ?thesis using latest_status_is_newest [of sample_statuses "''argo''"] by simp
qed

section \<open>Waiting\<close>

definition succeeded :: "json \<Rightarrow> bool" where
  "succeeded s \<longleftrightarrow> (\<exists>state. py_get s ''state'' = Inr state \<and> py_eq state (JStr ''success''))"

text \<open>What a verdict says of the last read, \<open>r\<close>: the reply of \<open>fetch\<close> or what it raised.\<close>

definition verdict_of_read :: "string \<Rightarrow> json list outcome \<Rightarrow> wait_status \<Rightarrow> bool" where
  "verdict_of_read ctxt r v \<longleftrightarrow>
     (case v of
        SUCCESS \<Rightarrow> \<exists>ss s. r = Val ss \<and> latest_status ss ctxt = Inr (Some s) \<and> succeeded s
      | FAILED \<Rightarrow> \<exists>ss res. r = Val ss \<and> latest_status ss ctxt = Inr res \<and> (\<forall>s. res = Some s \<longrightarrow> \<not> succeeded s)
      | CANNOT_CHECK \<Rightarrow> \<exists>e. r = Exn (StatusFetchError e))"

lemma efilter_error: "efilter f xs = Inl e \<Longrightarrow> \<exists>x. f x = Inl e"
  by (induction xs) (auto simp: ebind_def split: sum.splits)

lemma ebind_error: "ebind m f = Inl e \<longleftrightarrow> m = Inl e \<or> (\<exists>x. m = Inr x \<and> f x = Inl e)"
  by (cases m) auto

lemma py_get_error [simp]: "py_get x k \<noteq> Inl (StatusFetchError m)"
  by (cases x) simp_all

lemma py_less_str_error [simp]: "py_less_str x y \<noteq> Inl (StatusFetchError m)"
  by (cases x; cases y) (simp_all add: py_less_str_def)

lemma updated_at_error [simp]: "updated_at s \<noteq> Inl (StatusFetchError m)"
  by (simp add: updated_at_def ebind_error)

lemma max_status_error [simp]: "max_status best k ss \<noteq> Inl (StatusFetchError m)"
  by (induction best k ss rule: max_status.induct) (auto simp: ebind_error split: if_splits)

lemma latest_status_error: "latest_status ss ctxt \<noteq> Inl (StatusFetchError m)"
proof -
  have "efilter (\<lambda>s. ebind (py_get s ''context'') (\<lambda>c. Inr (py_eq c (JStr ctxt)))) ss \<noteq> Inl (StatusFetchError m)"
    by (auto dest!: efilter_error simp: ebind_error)
  then show ?thesis by (auto simp: latest_status_def ebind_error split: list.splits)
qed

lemma observe_status_Val:
  assumes "observe_status fetch ctxt m = (Val seen, n')"
  shows "\<exists>r. fetch m = (r, n') \<and> verdict_of_read ctxt r (case seen of Inl v \<Rightarrow> v | Inr v \<Rightarrow> v)"
proof -
  let ?reading = "abind fetch (\<lambda>ss. abind (lift (latest_status ss ctxt)) (\<lambda>s. ret (Some s)))"
  from assms obtain read n1 where
    r: "attempt ?reading (\<lambda>e. case e of StatusFetchError _ \<Rightarrow> ret None | _ \<Rightarrow> throw e) m = (Val read, n1)" and
    j: "(case read of None \<Rightarrow> ret (Inl CANNOT_CHECK) | Some status \<Rightarrow> lift (judge status)) n1 = (Val seen, n')"
    by (auto simp: observe_status_def abind_Val)
  from r consider
    ss status where "fetch m = (Val ss, n1)" "latest_status ss ctxt = Inr status" "read = Some status"
  | e n2 where "?reading m = (Exn e, n2)" "(case e of StatusFetchError _ \<Rightarrow> ret None | _ \<Rightarrow> throw e) n2 = (Val read, n1)"
    by (auto simp: attempt_Val abind_Val)
  then show ?thesis
  proof cases
    case 1
    with j show ?thesis
      by (cases status) (auto simp: judge_def verdict_of_read_def succeeded_def split: if_splits)
  next
    case (2 e n2)
    then obtain err where e: "e = StatusFetchError err" and "read = None" and "n2 = n1" by (cases e) auto
    with 2 e j latest_status_error \<open>read = None\<close> \<open>n2 = n1\<close> show ?thesis
      by (auto simp: abind_Exn verdict_of_read_def)
  qed
qed

text \<open>A wait that returns says what its last read of the statuses said: success exactly when the latest
  status of the context was, failure when there was none or it was anything else, and that it cannot
  tell only when that read itself failed.\<close>

theorem wait_status_verdict:
  assumes "wait_status tm fetch ctxt timeout every n = (Val v, n')"
  shows "\<exists>m r. fetch m = (r, n') \<and> verdict_of_read ctxt r v"
proof -
  from assms obtain fuel started where
    p: "poll fuel tm every started timeout (observe_status fetch ctxt) ret n = (Val v, n')"
    by (auto simp: wait_status_def abind_Val with_budget_def)
  from poll_returns [OF p] show ?thesis
    using observe_status_Val [of fetch ctxt] by fastforce
qed

lemma wait_status_ends:
  assumes "keeps_time tm (srv :: 'q \<Rightarrow> 's \<Rightarrow> 'r \<times> 's)" and "0 < every" and "poll_bound every timeout \<le> b"
    and "\<And>t. ends (timely tm t b) c (fetch :: ('q, 's, json list) act)"
  shows "ends (\<lambda>n. b \<le> budget n) (poll_bound every timeout * c) (wait_status tm fetch ctxt timeout every)"
proof -
  have "ends (timely tm t b) (c + 0 + 0 + 0) (observe_status fetch ctxt)" for t
    unfolding observe_status_def
    by (intro ends_abind ends_attempt ends_case_option ends_any assms(4))
      (auto intro!: ends_abind [where a = 0 and b = 0, simplified] ends_any split: exn.split)
  then have look: "ends (timely tm t b) c (observe_status fetch ctxt)" for t by simp
  show ?thesis
    unfolding wait_status_def
    by (intro ends_start ends_with_budget ends_poll [OF assms(1,2) look ends_any(1)])
      (use assms(3) in simp)
qed

definition sample_fetch :: "(unit, int, json list) act" where
  "sample_fetch = call (\<lambda>q w. (if w < 3 then take 1 sample_statuses else sample_statuses, w + 1)) ()"

definition int_timer :: "int timer" where
  "int_timer = \<lparr>t_clock = (\<lambda>w. w), t_sleep = (\<lambda>d w. w + d)\<rparr>"

definition sample_wait :: "wait_status outcome \<times> (unit, int) net" where
  "sample_wait = wait_status int_timer sample_fetch ''argo'' 60 1 \<lparr>sent = [], world = 0, budget = 9\<rparr>"

lemma wait_status_verdict_witness: "\<exists>m. verdict_of_read ''argo'' (fst (sample_fetch m)) SUCCESS"
proof -
  have "fst sample_wait = Val SUCCESS" by code_simp
  then have "sample_wait = (Val SUCCESS, snd sample_wait)" by (metis prod.collapse)
  from wait_status_verdict [OF this [unfolded sample_wait_def]] show ?thesis by (metis fst_conv)
qed

definition sample_repoint :: "set_revision_result outcome \<times> (kubectl, json) net" where
  "sample_repoint = set_revision
     (\<lambda>q app. (\<lparr>k_rc = 0, k_out = Parsed (if hd (k_args q) = ''get'' then app else
                  JObj [(''spec'', JObj [(''source'', JObj [(''targetRevision'', JStr ''feature'')])])]), k_err = []\<rparr>, app))
     ''kubelab-staging'' ''feature'' ''hub'' ''argocd'' False ''master''
     \<lparr>sent = [], world = JObj [(''metadata'', JObj [(''resourceVersion'', JStr ''7'')]),
        (''spec'', JObj [(''source'', JObj [(''targetRevision'', JStr ''master'')])])], budget = 0\<rparr>"

lemma set_revision_spares_previews_witness:
  "\<exists>res. fst sample_repoint = Val res \<and> new_revision res = JStr ''feature'' \<and>
     (py_eq (old_revision res) (JStr ''master'') \<or> py_eq (old_revision res) (JStr ''feature''))"
proof -
  have r: "fst sample_repoint = Val \<lparr>old_revision = JStr ''master'', new_revision = JStr ''feature'', sync_status = JStr ''Unknown''\<rparr>"
    by code_simp
  then have "sample_repoint = (Val \<lparr>old_revision = JStr ''master'', new_revision = JStr ''feature'',
      sync_status = JStr ''Unknown''\<rparr>, snd sample_repoint)" by (metis prod.collapse)
  from set_revision_spares_previews [OF this [unfolded sample_repoint_def]] r show ?thesis by simp
qed

end
