(* ===== verification/CronJobRun.thy ===== *)
theory CronJobRun
  imports MergePatch Kubectl
begin

text \<open>
  Running a CronJob once, of \<open>toolkit/features/cronjob_run.py\<close>: the Job it builds, the verdict it waits for
  and the removal that follows on every path.

  The five effects the function is given (\<open>get_cronjob\<close>, \<open>create\<close>, \<open>get_job\<close>, \<open>logs\<close>, \<open>delete\<close>) are the calls
  of one parameter, which may raise any exception at any of them. The \<open>finally\<close> of the source deletes
  when \<open>created\<close> was set, which is when \<open>create\<close> returned.
\<close>

section \<open>The Job\<close>

definition job_namespace :: string where
  "job_namespace = ''kubelab''"

definition default_timeout :: int where
  "default_timeout = 900 * second"

definition scheduling_headroom :: int where
  "scheduling_headroom = 120"

definition cronjob_only_annotations :: "string list" where
  "cronjob_only_annotations = [''argocd.argoproj.io/'', ''kubectl.kubernetes.io/last-applied-configuration'']"

text \<open>\<open>s[:k]\<close>: a negative bound counts from the end.\<close>

definition slice_to :: "int \<Rightarrow> string \<Rightarrow> string" where
  "slice_to k s = take (nat (if k < 0 then int (length s) + k else k)) s"

definition rstrip_dash :: "string \<Rightarrow> string" where
  "rstrip_dash s = rev (dropWhile (\<lambda>c. c = CHR ''-'') (rev s))"

definition manual_job_name :: "string \<Rightarrow> string \<Rightarrow> string" where
  "manual_job_name cronjob stamp =
     (let suffix = ''-manual-'' @ stamp
      in rstrip_dash (slice_to (63 - int (length suffix)) cronjob) @ suffix)"

definition kept_annotations :: "obj \<Rightarrow> obj" where
  "kept_annotations kvs =
     filter (\<lambda>kv. \<not> list_ex (\<lambda>p. starts_with p (fst kv)) cronjob_only_annotations) kvs"

definition job_from_cronjob :: "json \<Rightarrow> string \<Rightarrow> exn + json" where
  "job_from_cronjob cronjob name =
     ebind (index_path cronjob [''spec'', ''jobTemplate'']) (\<lambda>template.
     ebind (py_get template ''metadata'') (\<lambda>m0.
     let metadata = py_or m0 (JObj []) in
     ebind (py_get metadata ''annotations'') (\<lambda>a0.
     ebind (py_items (py_or a0 (JObj []))) (\<lambda>annotations.
     ebind (py_index template ''spec'') (\<lambda>spec.
     ebind (py_items spec) (\<lambda>spec_kvs.
     ebind (py_index cronjob ''metadata'') (\<lambda>own.
     ebind (py_get_or own ''namespace'' (JStr job_namespace)) (\<lambda>namespace.
     ebind (py_get metadata ''labels'') (\<lambda>l0.
     ebind (py_dict (py_or l0 (JObj []))) (\<lambda>labels.
       Inr (JObj
         [(''apiVersion'', JStr ''batch/v1''), (''kind'', JStr ''Job''),
          (''metadata'', JObj
             [(''name'', JStr name), (''namespace'', namespace), (''labels'', JObj labels),
              (''annotations'', JObj (oset (kept_annotations annotations) ''cronjob.kubernetes.io/instantiate'' (JStr ''manual'')))]),
          (''spec'', JObj (odelete spec_kvs ''ttlSecondsAfterFinished''))])))))))))))"

section \<open>The verdict\<close>

fun first_final :: "json list \<Rightarrow> exn + string option" where
  "first_final [] = Inr None"
| "first_final (c # cs) =
     ebind (py_get c ''status'') (\<lambda>status.
       if \<not> py_eq status (JStr ''True'') then first_final cs
       else ebind (py_get c ''type'') (\<lambda>kind.
              if py_eq kind (JStr ''Complete'') then Inr (Some ''succeeded'')
              else if py_eq kind (JStr ''Failed'') then Inr (Some ''failed'')
              else first_final cs))"

definition job_outcome :: "json \<Rightarrow> exn + string option" where
  "job_outcome job =
     ebind (py_get job ''status'') (\<lambda>s.
     ebind (py_get (py_or s (JObj [])) ''conditions'') (\<lambda>c.
     ebind (py_iter (py_or c (JArr []))) first_final))"

definition wait_budget :: "json \<Rightarrow> exn + int" where
  "wait_budget cronjob =
     ebind (index_path cronjob [''spec'', ''jobTemplate'', ''spec'']) (\<lambda>spec.
     ebind (py_get spec ''activeDeadlineSeconds'') (\<lambda>deadline.
       if \<not> truthy deadline then Inr default_timeout
       else case num_of deadline of
              None \<Rightarrow> Inl (TypeError ''unsupported operand'')
            | Some n \<Rightarrow> Inr ((n + scheduling_headroom) * second)))"

section \<open>The run\<close>

datatype job_call = GetCronJob | CreateJob json | GetJob | JobLogs | DeleteJob

type_synonym 's job_api = "job_call \<Rightarrow> 's \<Rightarrow> (exn + json) \<times> 's"

record cron_job_run_result =
  cr_outcome :: string
  cr_log :: json
  cr_waited :: int

definition teardown :: "'s job_api \<Rightarrow> string \<Rightarrow> (job_call, 's, unit) act" where
  "teardown srv name =
     attempt (abind (ask srv DeleteJob) (\<lambda>_. ret ())) (\<lambda>_. throw (CronJobRunTeardownError name))"

definition look_job :: "'s job_api \<Rightarrow> (job_call, 's, unit + string) act" where
  "look_job srv =
     abind (ask srv GetJob) (\<lambda>job.
     abind (lift (job_outcome job)) (\<lambda>out. ret (case out of None \<Rightarrow> Inl () | Some x \<Rightarrow> Inr x)))"

definition await_job ::
  "'s job_api \<Rightarrow> 's timer \<Rightarrow> nat \<Rightarrow> int \<Rightarrow> int \<Rightarrow> int \<Rightarrow> (job_call, 's, cron_job_run_result) act" where
  "await_job srv tm fuel started allowed every =
     abind (poll fuel tm every started allowed (look_job srv) (\<lambda>_. ret ''timeout'')) (\<lambda>out.
     abind (ask srv JobLogs) (\<lambda>log.
     abind (clock tm) (\<lambda>t. ret \<lparr>cr_outcome = out, cr_log = log, cr_waited = t - started\<rparr>)))"

definition run_cronjob ::
  "'s job_api \<Rightarrow> 's timer \<Rightarrow> string \<Rightarrow> int option \<Rightarrow> int \<Rightarrow> (job_call, 's, cron_job_run_result) act" where
  "run_cronjob srv tm name timeout every =
     abind (ask srv GetCronJob) (\<lambda>cronjob.
     abind (lift (case timeout of None \<Rightarrow> wait_budget cronjob | Some t \<Rightarrow> Inr t)) (\<lambda>allowed.
     abind (lift (job_from_cronjob cronjob name)) (\<lambda>job.
     abind (clock tm) (\<lambda>started.
     abind (ask srv (CreateJob job)) (\<lambda>_.
       finally_do (with_budget (\<lambda>fuel. await_job srv tm fuel started allowed every)) (teardown srv name))))))"

section \<open>The name fits a DNS label\<close>

lemma length_rstrip_dash: "length (rstrip_dash s) \<le> length s"
  unfolding rstrip_dash_def by (metis length_dropWhile_le length_rev)

text \<open>C17. The name of the manual Job is a DNS label's length whatever the CronJob is called, ends with the
  stamp, and does not put two dashes where it cut.\<close>

theorem manual_job_name_bounds:
  assumes "length stamp \<le> 55"
  shows "length (manual_job_name cronjob stamp) \<le> 63 \<and>
    (\<exists>p. manual_job_name cronjob stamp = p @ ''-manual-'' @ stamp \<and> (\<exists>q. cronjob = p @ q) \<and>
      (p = [] \<or> last p \<noteq> CHR ''-''))"
proof -
  let ?k = "55 - length stamp"
  let ?p = "rstrip_dash (take ?k cronjob)"
  have name: "manual_job_name cronjob stamp = ?p @ ''-manual-'' @ stamp"
    using assms by (simp add: manual_job_name_def slice_to_def nat_diff_distrib Let_def)
  have "length ?p \<le> ?k" using length_rstrip_dash [of "take ?k cronjob"] by simp
  with name assms have "length (manual_job_name cronjob stamp) \<le> 63" by simp
  moreover have "\<exists>q. cronjob = ?p @ q"
  proof -
    have "s = rstrip_dash s @ rev (takeWhile (\<lambda>c. c = CHR ''-'') (rev s))" for s
      unfolding rstrip_dash_def rev_append [symmetric] by simp
    then obtain r where r: "take ?k cronjob = ?p @ r" by blast
    have "cronjob = ?p @ r @ drop ?k cronjob"
      by (simp only: append.assoc [symmetric] r [symmetric] append_take_drop_id)
    then show ?thesis by blast
  qed
  moreover have "rstrip_dash s = [] \<or> last (rstrip_dash s) \<noteq> CHR ''-''" for s
  proof (cases "dropWhile (\<lambda>c. c = CHR ''-'') (rev s)")
    case (Cons x xs)
    then have "x \<noteq> CHR ''-''" using hd_dropWhile [of "\<lambda>c. c = CHR ''-''" "rev s"] by simp
    with Cons show ?thesis by (simp add: rstrip_dash_def)
  qed (simp add: rstrip_dash_def)
  ultimately show ?thesis using name by blast
qed

lemma manual_job_name_bounds_witness:
  "length (manual_job_name (replicate 80 (CHR ''a'')) ''20261001t100000'') \<le> 63"
  using manual_job_name_bounds [of "''20261001t100000''" "replicate 80 (CHR ''a'')"] by simp

section \<open>The Job is the template's, detached\<close>

text \<open>The Job has no owner, no time to live and none of the annotations that describe the CronJob; its
  specification is otherwise the template's.\<close>

lemma job_detached:
  assumes "job_from_cronjob cronjob name = Inr job"
  shows "\<exists>meta spec kvs annotations. job = JObj [(''apiVersion'', JStr ''batch/v1''), (''kind'', JStr ''Job''), (''metadata'', JObj meta), (''spec'', JObj spec)] \<and>
    map_of meta ''ownerReferences'' = None \<and>
    index_path cronjob [''spec'', ''jobTemplate'', ''spec''] = Inr (JObj kvs) \<and>
    map_of spec = (map_of kvs)(''ttlSecondsAfterFinished'' := None) \<and>
    map_of meta ''annotations'' = Some (JObj annotations) \<and>
    (\<forall>k \<in> fst ` set annotations. k = ''cronjob.kubernetes.io/instantiate'' \<or>
       \<not> list_ex (\<lambda>p. starts_with p k) cronjob_only_annotations)"
proof -
  from assms obtain template spec kvs a namespace labels where
    t: "index_path cronjob [''spec'', ''jobTemplate''] = Inr template" "py_index template ''spec'' = Inr spec" "py_items spec = Inr kvs"
    and job: "job = JObj
         [(''apiVersion'', JStr ''batch/v1''), (''kind'', JStr ''Job''),
          (''metadata'', JObj
             [(''name'', JStr name), (''namespace'', namespace), (''labels'', JObj labels),
              (''annotations'', JObj (oset (kept_annotations a) ''cronjob.kubernetes.io/instantiate'' (JStr ''manual'')))]),
          (''spec'', JObj (odelete kvs ''ttlSecondsAfterFinished''))]"
    unfolding job_from_cronjob_def Let_def ebind_eq_Inr by blast
  from t have path: "index_path cronjob [''spec'', ''jobTemplate'', ''spec''] = Inr (JObj kvs)"
    by (cases spec) auto
  have keys: "k = ''cronjob.kubernetes.io/instantiate'' \<or> \<not> list_ex (\<lambda>p. starts_with p k) cronjob_only_annotations"
    if "k \<in> fst ` set (oset (kept_annotations a) ''cronjob.kubernetes.io/instantiate'' (JStr ''manual''))" for k
    using that unfolding set_fst_oset by (auto simp: kept_annotations_def)
  show ?thesis
    by (intro exI conjI, rule job) (use path keys in \<open>auto simp del: index_path.simps set_fst_oset\<close>)
qed

section \<open>The Job is always removed\<close>

lemma ends_ask: "keeps_time tm srv \<Longrightarrow> ends (timely tm t b) 1 (ask srv q)"
  unfolding ask_def using ends_abind [OF ends_call_timely ends_any(3)] by fastforce

lemma ends_await_job:
  assumes "keeps_time tm srv" and "0 < every" and "poll_bound every allowed \<le> k"
  shows "ends (timely tm started b) (poll_bound every allowed + 1) (await_job srv tm k started allowed every)"
proof -
  have look: "ends (timely tm t b) (1 + (0 + 0)) (look_job srv)" for t
    unfolding look_job_def by (intro ends_abind ends_ask assms(1) ends_any)
  have late: "ends (timely tm t b) 0 (abind (clock tm) (\<lambda>t. ret (f t)))" for t and f :: "int \<Rightarrow> cron_job_run_result"
    by (auto simp: ends_def abind_def clock_def ret_def)
  have "ends (timely tm started b) (poll_bound every allowed * (1 + (0 + 0)) + (1 + 0)) (await_job srv tm k started allowed every)"
    unfolding await_job_def
    by (intro ends_abind ends_poll [OF assms(1,2) look ends_any(1) assms(3)] ends_ask assms(1) late)
  then show ?thesis by simp
qed

text \<open>What a waiting run sends is reads; the deletion is the last call, made on every path.\<close>

definition watches :: "job_call \<Rightarrow> bool" where
  "watches q \<longleftrightarrow> q = GetJob \<or> q = JobLogs"

lemma emits_await_job: "emits watches (await_job srv tm k started allowed every)"
  unfolding await_job_def look_job_def ask_def
  by (auto intro!: emits_intros simp: watches_def)

lemma finally_removes:
  fixes m :: "(job_call, 's, 'a) act"
  assumes "emits watches m" and "m n = (r, n1)" and "r \<noteq> Stuck"
  shows "fst (finally_do m (teardown srv name) n) \<noteq> Stuck \<and>
    (\<exists>qs. sent n1 = sent n @ qs \<and> list_all watches qs \<and>
       sent (snd (finally_do m (teardown srv name) n)) = sent n @ qs @ [DeleteJob])"
proof -
  obtain qs where qs: "sent n1 = sent n @ qs" "list_all watches qs"
    using emitsD(2) [OF assms(1,2)] by blast
  obtain d w where d: "srv DeleteJob (world n1) = (d, w)" by fastforce
  have f: "sent (snd (abind (teardown srv name) f n1)) = sent n1 @ [DeleteJob] \<and>
      fst (abind (teardown srv name) f n1) \<noteq> Stuck"
    if "\<And>m. sent (snd (f () m)) = sent m \<and> fst (f () m) \<noteq> Stuck" for f :: "unit \<Rightarrow> (job_call, 's, 'a) act"
    using d that
    by (cases d) (simp_all add: teardown_def ask_def attempt_def abind_def call_def lift_def ret_def throw_def)
  have "sent (snd (finally_do m (teardown srv name) n)) = sent n1 @ [DeleteJob] \<and>
      fst (finally_do m (teardown srv name) n) \<noteq> Stuck"
    using assms(2,3) f [of "\<lambda>_. ret x" for x] f [of "\<lambda>_. throw e" for e]
    by (cases r) (simp_all add: finally_do_def ret_def throw_def)
  with qs show ?thesis by simp
qed

text \<open>C16. Once the Job was created it is deleted, exactly once and last, whatever the cluster answers or raises
  at any later call; the run ends within its wait, and when the creation itself fails nothing is sent
  after it.\<close>

theorem manual_job_always_removed:
  assumes "keeps_time tm srv" and "0 < every"
    and "ask srv GetCronJob n = (Val cronjob, n1)" and "job_from_cronjob cronjob name = Inr job"
    and "(case timeout of None \<Rightarrow> wait_budget cronjob | Some t \<Rightarrow> Inr t) = Inr allowed"
    and "poll_bound every allowed \<le> budget n1"
    and "ask srv (CreateJob job) n1 = (created, n2)" and "run_cronjob srv tm name timeout every n = (res, n')"
  shows "res \<noteq> Stuck \<and>
    (case created of
       Val _ \<Rightarrow> \<exists>qs. sent n' = sent n2 @ qs @ [DeleteJob] \<and> list_all watches qs \<and>
                  length qs \<le> poll_bound every allowed + 1
     | _ \<Rightarrow> n' = n2)"
proof -
  let ?started = "t_clock tm (world n1)"
  let ?wait = "with_budget (\<lambda>fuel. await_job srv tm fuel ?started allowed every)"
  have run: "run_cronjob srv tm name timeout every n =
      abind (ask srv (CreateJob job)) (\<lambda>_. finally_do ?wait (teardown srv name)) n1"
    using assms(3-5) by (simp add: run_cronjob_def abind_def clock_def run_simps)
  show ?thesis
  proof (cases created)
    case (Val u)
    have "ends (timely tm ?started (budget n1)) 1 (ask srv (CreateJob job))"
      by (rule ends_ask [OF assms(1)])
    from endsD(2) [OF this _ assms(7)] have n2: "timely tm ?started (budget n1) n2"
      by (simp add: timely_def)
    have "ends (timely tm ?started (budget n1)) (poll_bound every allowed + 1) ?wait"
      using assms(6) by (intro ends_with_budget ends_await_job [OF assms(1,2)]) simp
    note e = endsD [OF this n2 prod.collapse [symmetric]]
    have w: "emits watches ?wait" by (intro emits_intros emits_await_job)
    from finally_removes [OF w prod.collapse [symmetric] e(1), of srv name] obtain qs where
      qs: "fst (finally_do ?wait (teardown srv name) n2) \<noteq> Stuck" "list_all watches qs"
        "sent (snd (?wait n2)) = sent n2 @ qs"
        "sent (snd (finally_do ?wait (teardown srv name) n2)) = sent n2 @ qs @ [DeleteJob]"
      by blast
    have "length qs \<le> poll_bound every allowed + 1" using e(3) qs(3) by simp
    moreover have "(res, n') = finally_do ?wait (teardown srv name) n2"
      using assms(7,8) Val run by (simp add: abind_def)
    then have "res = fst (finally_do ?wait (teardown srv name) n2)" and "n' = snd (finally_do ?wait (teardown srv name) n2)"
      by (simp_all add: prod_eq_iff)
    ultimately show ?thesis using qs Val by auto
  next
    case (Exn e)
    with assms(7,8) run show ?thesis by (auto simp: abind_def)
  next
    case Stuck
    have "timely tm ?started (budget n1) n1" by (simp add: timely_def)
    from endsD(1) [OF ends_ask [OF assms(1)] this assms(7)] Stuck show ?thesis by simp
  qed
qed

text \<open>A cluster on which the Job fails after three looks and its log cannot be read.\<close>

definition sample_job_api :: "int job_api" where
  "sample_job_api q w =
     (case q of
        GetCronJob \<Rightarrow> Inr (JObj [(''metadata'', JObj []),
          (''spec'', JObj [(''jobTemplate'', JObj [(''spec'', JObj [(''activeDeadlineSeconds'', JInt 60)])])])])
      | GetJob \<Rightarrow> Inr (JObj [(''status'', JObj [(''conditions'', JArr (if w < 5 then [] else
          [JObj [(''type'', JStr ''Failed''), (''status'', JStr ''True'')]]))])])
      | JobLogs \<Rightarrow> Inl (KubectlError ''logs'')
      | _ \<Rightarrow> Inr JNull, w + 1)"

definition second_timer :: "int timer" where
  "second_timer = \<lparr>t_clock = (\<lambda>w. w), t_sleep = (\<lambda>d w. w + d)\<rparr>"

definition sample_job :: json where
  "sample_job = (case job_from_cronjob (case fst (sample_job_api GetCronJob 0) of Inr j \<Rightarrow> j | Inl _ \<Rightarrow> JNull) ''watch-manual-1'' of
     Inr j \<Rightarrow> j | Inl _ \<Rightarrow> JNull)"

definition sample_job_run :: "cron_job_run_result outcome \<times> (job_call, int) net" where
  "sample_job_run = run_cronjob sample_job_api second_timer ''watch-manual-1'' (Some 10) 1 \<lparr>sent = [], world = 0, budget = 20\<rparr>"

lemma manual_job_always_removed_witness:
  "\<exists>qs. sent (snd sample_job_run) = [GetCronJob, CreateJob sample_job] @ qs @ [DeleteJob] \<and>
     fst sample_job_run = Exn (KubectlError ''logs'')"
proof -
  let ?n = "\<lparr>sent = [], world = 0, budget = 20\<rparr> :: (job_call, int) net"
  let ?cronjob = "JObj [(''metadata'', JObj []),
      (''spec'', JObj [(''jobTemplate'', JObj [(''spec'', JObj [(''activeDeadlineSeconds'', JInt 60)])])])]"
  let ?n1 = "\<lparr>sent = [GetCronJob], world = 1, budget = 20\<rparr> :: (job_call, int) net"
  let ?n2 = "\<lparr>sent = [GetCronJob, CreateJob sample_job], world = 2, budget = 20\<rparr> :: (job_call, int) net"
  have time: "keeps_time second_timer sample_job_api"
    by (simp add: keeps_time_def second_timer_def sample_job_api_def)
  have get: "ask sample_job_api GetCronJob ?n = (Val ?cronjob, ?n1)"
    by (simp add: ask_def abind_def call_def sample_job_api_def run_simps)
  have job: "job_from_cronjob ?cronjob ''watch-manual-1'' = Inr sample_job" by code_simp
  have create: "ask sample_job_api (CreateJob sample_job) ?n1 = (Val JNull, ?n2)"
    by (simp add: ask_def abind_def call_def sample_job_api_def run_simps)
  have bound: "poll_bound 1 10 \<le> budget ?n1" by code_simp
  have run: "run_cronjob sample_job_api second_timer ''watch-manual-1'' (Some 10) 1 ?n = (fst sample_job_run, snd sample_job_run)"
    by (simp add: sample_job_run_def)
  have "fst sample_job_run = Exn (KubectlError ''logs'')" by code_simp
  with manual_job_always_removed [OF time _ get job _ bound create run] show ?thesis by auto
qed

end
