(* ===== verification/SecretData.thy ===== *)
theory SecretData
  imports SecretCatalog
begin

text \<open>
  The secret catalog, \<open>SECRET_CATALOG\<close> of \<open>toolkit/features/secrets_manager.py\<close>, entry by entry and in
  order, with the key paths of \<open>toolkit/features/backup_node_credentials.py\<close> and
  \<open>toolkit/features/r2_documents_token.py\<close> it names, and \<open>IMMUTABLE_SECRETS\<close> of
  \<open>toolkit/features/credentials.py\<close>. Every field but the prose is here. The lemmas check of the data what
  the operations assume of it.
\<close>

section \<open>Patterns\<close>

definition word_chars :: "(nat \<times> nat) list" where
  "word_chars = [(65, 90), (97, 122), (48, 57)]"

definition hex_lower :: rx where
  "hex_lower = Class True [(48, 57), (97, 102)]"

text \<open>\<open>[^@\s]\<close>, with the blanks of ASCII.\<close>

definition mail_char :: rx where
  "mail_char = Class False [(64, 64), (9, 13), (28, 32)]"

definition address_char :: rx where
  "address_char = Class True [(48, 57), (65, 70), (97, 102), (58, 58), (46, 46), (47, 47)]"

definition github_classic_pat :: rx where
  "github_classic_pat = Seq (literal ''ghp_'') (plus (Class True word_chars))"

definition vikunja_token :: rx where
  "vikunja_token = Seq (literal ''tk_'') (times 40 hex_lower)"

definition mail_address :: rx where
  "mail_address = Seq (plus mail_char) (Seq (literal ''@'') (Seq (plus mail_char) (Seq (literal ''.'') (plus mail_char))))"

definition grafana_service_token :: rx where
  "grafana_service_token = Seq (literal ''glsa_'') (plus (Class True ((95, 95) # word_chars)))"

definition tavily_key :: rx where
  "tavily_key = Seq (literal ''tvly-'') (plus (Class True ((95, 95) # (45, 45) # word_chars)))"

definition address_list :: rx where
  "address_list = Seq (plus address_char) (Star (Seq (literal '','') (plus address_char)))"

definition aws_key_id :: rx where
  "aws_key_id = Seq (literal ''AKIA'') (times 16 (Class True [(48, 57), (65, 90)]))"

text \<open>\<open>.\<close> is any character but a newline.\<close>

definition wifi_name :: rx where
  "wifi_name = between 1 32 (Class False [(10, 10)])"

definition wifi_passphrase :: rx where
  "wifi_passphrase = between 8 63 (Class True [(32, 126)])"

definition mac_address :: rx where
  "mac_address = Seq (times 2 hex_lower) (times 5 (Seq (literal '':'') (times 2 hex_lower)))"

section \<open>Entries\<close>

definition access_key_path :: "string \<Rightarrow> string" where
  "access_key_path node = ''backup.r2.nodes.'' @ node @ ''.access_key_id''"

definition secret_key_path :: "string \<Rightarrow> string" where
  "secret_key_path node = ''backup.r2.nodes.'' @ node @ ''.secret_access_key''"

definition restic_password_path :: "string \<Rightarrow> string" where
  "restic_password_path node = ''backup.nodes.'' @ node @ ''.restic_password''"

definition backup_node_specs :: "string \<Rightarrow> secret_spec list" where
  "backup_node_specs node =
    [(spec (access_key_path node) EXTERNAL)
       \<lparr>ss_services := [''backup''], ss_envs := [''prod''], ss_expiry := NEVER\<rparr>,
     (spec (secret_key_path node) EXTERNAL)
       \<lparr>ss_services := [''backup''], ss_envs := [''prod''], ss_expiry := NEVER\<rparr>,
     (spec (restic_password_path node) RANDOM_TOKEN)
       \<lparr>ss_length := 48, ss_services := [''backup'', ''r2-backup-watcher''],
         ss_envs := [''staging'', ''prod'']\<rparr>]"

definition catalog_shared :: "secret_spec list" where
  "catalog_shared =
    [(spec ''apps.services.observability.uptime_kuma.admin_password'' HUB_MANAGED)
       \<lparr>ss_services := [''uptime_kuma'']\<rparr>,
     (spec ''apps.services.observability.uptime_kuma.api_key'' EXTERNAL)
       \<lparr>ss_services := [''uptime_kuma''], ss_expiry := NEVER\<rparr>,
     (spec ''apps.testing.authelia_test_password'' PASSWORD)
       \<lparr>ss_services := [''authelia'']\<rparr>,
     (spec ''hetzner.api_key'' EXTERNAL)
       \<lparr>ss_services := [''terraform''], ss_expiry := NEVER\<rparr>,
     (spec ''dockerhub.username'' EXTERNAL)\<lparr>ss_services := [''ci''], ss_expiry := NEVER\<rparr>,
     (spec ''dockerhub.token'' EXTERNAL)\<lparr>ss_services := [''ci''], ss_expiry := NEVER\<rparr>,
     (spec ''ghcr.pull_token'' EXTERNAL)
       \<lparr>ss_services := [''image_pull''], ss_value_pattern := Some github_classic_pat,
         ss_envs := [''staging'', ''prod''], ss_expiry := PROVIDER\<rparr>,
     (spec ''basic_auth.password'' PASSWORD)\<lparr>ss_services := [''traefik'']\<rparr>,
     (spec ''basic_auth.credentials'' HTPASSWD)
       \<lparr>ss_services := [''traefik''], ss_derived_from := ''basic_auth.password''\<rparr>]"

definition catalog_authelia :: "secret_spec list" where
  "catalog_authelia =
    [(spec ''apps.services.security.authelia.session_secret'' RANDOM_TOKEN)
       \<lparr>ss_services := [''authelia'']\<rparr>,
     (spec ''apps.services.security.authelia.storage_encryption_key'' RANDOM_TOKEN)
       \<lparr>ss_services := [''authelia'']\<rparr>,
     (spec ''apps.services.security.authelia.users_operator_password_hash'' ARGON2_HASH)
       \<lparr>ss_services := [''authelia''], ss_derived_from := ''(interactive password prompt)''\<rparr>,
     (spec ''apps.services.security.authelia.users_manu_password_hash'' ARGON2_HASH)
       \<lparr>ss_services := [''authelia''], ss_derived_from := ''(interactive password prompt)''\<rparr>,
     (spec ''apps.services.security.authelia.users_testuser_password_hash'' ARGON2_HASH)
       \<lparr>ss_services := [''authelia''], ss_derived_from := ''(interactive password prompt)''\<rparr>,
     (spec ''apps.services.security.authelia.oidc_hmac_secret'' RANDOM_TOKEN)
       \<lparr>ss_services := [''authelia'']\<rparr>,
     (spec ''apps.services.security.authelia.oidc_jwks_private_key'' RSA_KEY)
       \<lparr>ss_services := [''authelia'']\<rparr>]"

definition catalog_oidc :: "secret_spec list" where
  "catalog_oidc =
    [(spec ''apps.services.security.authelia.oidc_client_secret_grafana'' OIDC_CLIENT_SECRET)
       \<lparr>ss_services := [''authelia'', ''grafana'']\<rparr>,
     (spec ''apps.services.security.authelia.oidc_client_secret_grafana_hash'' ARGON2_HASH)
       \<lparr>ss_services := [''authelia''],
         ss_derived_from := ''apps.services.security.authelia.oidc_client_secret_grafana''\<rparr>,
     (spec ''apps.services.security.authelia.oidc_client_secret_gitea_hash'' ARGON2_HASH)
       \<lparr>ss_services := [''authelia''],
         ss_derived_from := ''apps.services.core.gitea.oidc_client_secret'',
         ss_envs := [''prod'']\<rparr>,
     (spec ''apps.services.security.authelia.oidc_client_secret_vikunja'' OIDC_CLIENT_SECRET)
       \<lparr>ss_services := [''authelia'', ''vikunja''], ss_envs := [''staging'', ''prod'']\<rparr>,
     (spec ''apps.services.security.authelia.oidc_client_secret_vikunja_hash'' ARGON2_HASH)
       \<lparr>ss_services := [''authelia''],
         ss_derived_from := ''apps.services.security.authelia.oidc_client_secret_vikunja'',
         ss_envs := [''staging'', ''prod'']\<rparr>,
     (spec ''apps.services.security.authelia.oidc_client_secret_open_webui'' OIDC_CLIENT_SECRET)
       \<lparr>ss_services := [''authelia'', ''open_webui''], ss_envs := [''prod'']\<rparr>,
     (spec ''apps.services.security.authelia.oidc_client_secret_open_webui_hash'' ARGON2_HASH)
       \<lparr>ss_services := [''authelia''],
         ss_derived_from := ''apps.services.security.authelia.oidc_client_secret_open_webui'',
         ss_envs := [''prod'']\<rparr>,
     (spec ''apps.services.ai.open_webui.admin_password'' RANDOM_TOKEN)
       \<lparr>ss_length := 32, ss_services := [''open_webui''], ss_envs := [''prod'']\<rparr>]"

definition catalog_observability :: "secret_spec list" where
  "catalog_observability =
    [(spec ''apps.services.observability.grafana.admin_password'' PASSWORD)
       \<lparr>ss_services := [''grafana'']\<rparr>,
     (spec ''apps.services.observability.grafana.alerts_ro_token'' EXTERNAL)
       \<lparr>ss_services := [''grafana''], ss_envs := [''staging'', ''prod''], ss_expiry := NEVER\<rparr>,
     (spec ''apps.services.observability.uptime_kuma.push_tokens.ops_backup_node_ace2'' RANDOM_TOKEN)
       \<lparr>ss_services := [''uptime-kuma'', ''node-backup''], ss_envs := [''prod'']\<rparr>,
     (spec ''apps.services.observability.uptime_kuma.push_tokens.ops_backup_node_beelink'' RANDOM_TOKEN)
       \<lparr>ss_services := [''uptime-kuma'', ''node-backup''], ss_envs := [''prod'']\<rparr>,
     (spec ''apps.services.observability.uptime_kuma.push_tokens.ops_backup_node_rpi3'' RANDOM_TOKEN)
       \<lparr>ss_services := [''uptime-kuma'', ''node-backup''], ss_envs := [''prod'']\<rparr>,
     (spec ''apps.services.observability.uptime_kuma.push_tokens.ops_backup_node_rpi4'' RANDOM_TOKEN)
       \<lparr>ss_services := [''uptime-kuma'', ''node-backup''], ss_envs := [''prod'']\<rparr>,
     (spec ''apps.services.observability.uptime_kuma.push_tokens.ops_backup_node_vps'' RANDOM_TOKEN)
       \<lparr>ss_services := [''uptime-kuma'', ''node-backup''], ss_envs := [''prod'']\<rparr>,
     (spec ''apps.services.security.crowdsec.bouncer_api_key'' CROWDSEC_API)
       \<lparr>ss_services := [''crowdsec'', ''traefik'']\<rparr>]"

definition catalog_gitea :: "secret_spec list" where
  "catalog_gitea =
    [(spec ''apps.services.core.gitea.secret_key'' RANDOM_HEX)
       \<lparr>ss_length := 32, ss_services := [''gitea''], ss_envs := [''dev'', ''prod'']\<rparr>,
     (spec ''apps.services.core.gitea.admin_password'' PASSWORD)
       \<lparr>ss_services := [''gitea''], ss_envs := [''dev'', ''prod'']\<rparr>,
     (spec ''apps.services.core.gitea.oidc_client_secret'' OIDC_CLIENT_SECRET)
       \<lparr>ss_services := [''gitea'', ''authelia''], ss_envs := [''prod'']\<rparr>,
     (spec ''apps.services.core.gitea.bot_token'' EXTERNAL)
       \<lparr>ss_services := [''gitea''], ss_envs := [''prod''], ss_expiry := NEVER\<rparr>,
     (spec ''apps.services.core.gitea.admin_token'' EXTERNAL)
       \<lparr>ss_services := [''gitea''], ss_envs := [''prod''], ss_expiry := NEVER\<rparr>,
     (spec ''apps.services.core.gitea.reviewer_token'' EXTERNAL)
       \<lparr>ss_services := [''gitea'', ''pr-agent''], ss_envs := [''prod''], ss_expiry := NEVER\<rparr>]"

definition catalog_forge_tokens :: "secret_spec list" where
  "catalog_forge_tokens =
    [(spec ''apps.services.core.gitea.review_notice_token'' EXTERNAL)
       \<lparr>ss_services := [''gitea'', ''n8n''], ss_envs := [''prod''], ss_expiry := NEVER\<rparr>,
     (spec ''apps.services.core.gitea.issue_reader_token'' EXTERNAL)
       \<lparr>ss_services := [''gitea'', ''api''], ss_envs := [''prod''], ss_expiry := NEVER\<rparr>,
     (spec ''apps.services.core.gitea.agent_token'' EXTERNAL)
       \<lparr>ss_services := [''gitea''], ss_envs := [''prod''], ss_expiry := NEVER\<rparr>,
     (spec ''apps.services.core.github_app.private_key'' EXTERNAL)
       \<lparr>ss_services := [''api''], ss_envs := [''prod''], ss_expiry := NEVER\<rparr>]"

definition catalog_forge_actions :: "secret_spec list" where
  "catalog_forge_actions =
    [(spec ''apps.services.core.gitea.actions_secrets.personal.resume.gdrive_oauth_client_id'' EXTERNAL)
       \<lparr>ss_services := [''gitea_actions''], ss_envs := [''prod''],
         ss_forge_actions := [''personal/resume''], ss_expiry := NEVER\<rparr>,
     (spec ''apps.services.core.gitea.actions_secrets.personal.resume.gdrive_oauth_client_secret'' EXTERNAL)
       \<lparr>ss_services := [''gitea_actions''], ss_envs := [''prod''],
         ss_forge_actions := [''personal/resume''], ss_expiry := NEVER\<rparr>,
     (spec ''apps.services.core.gitea.actions_secrets.personal.resume.gdrive_oauth_refresh_token'' EXTERNAL)
       \<lparr>ss_services := [''gitea_actions''], ss_envs := [''prod''],
         ss_forge_actions := [''personal/resume''], ss_expiry := NEVER\<rparr>,
     (spec ''apps.services.core.gitea.actions_secrets.personal.resume.gdrive_folder_id'' EXTERNAL)
       \<lparr>ss_services := [''gitea_actions''], ss_envs := [''prod''],
         ss_forge_actions := [''personal/resume''], ss_expiry := NEVER\<rparr>,
     (spec ''apps.services.core.gitea.actions_secrets.personal.resume.ghcr_username'' EXTERNAL)
       \<lparr>ss_services := [''gitea_actions''], ss_envs := [''prod''],
         ss_forge_actions := [''personal/resume''], ss_expiry := NEVER\<rparr>,
     (spec ''apps.services.core.gitea.actions_secrets.personal.resume.ghcr_token'' EXTERNAL)
       \<lparr>ss_services := [''gitea_actions''], ss_value_pattern := Some github_classic_pat,
         ss_envs := [''prod''], ss_forge_actions := [''personal/resume''], ss_expiry := PROVIDER\<rparr>,
     (spec ''apps.services.core.gitea.actions_secrets.personal.imagesensortool.registry_user'' EXTERNAL)
       \<lparr>ss_services := [''gitea_actions''], ss_envs := [''prod''],
         ss_forge_actions := [''personal/imagesensortool''], ss_expiry := NEVER\<rparr>,
     (spec ''apps.services.core.gitea.actions_secrets.personal.imagesensortool.registry_token'' EXTERNAL)
       \<lparr>ss_services := [''gitea_actions''], ss_envs := [''prod''],
         ss_forge_actions := [''personal/imagesensortool''], ss_expiry := NEVER\<rparr>]"

definition catalog_vikunja_n8n :: "secret_spec list" where
  "catalog_vikunja_n8n =
    [(spec ''apps.services.core.vikunja.db_password'' RANDOM_TOKEN)
       \<lparr>ss_services := [''vikunja'', ''postgres''], ss_envs := [''staging'', ''prod'']\<rparr>,
     (spec ''apps.services.core.vikunja.jwt_secret'' RANDOM_TOKEN)
       \<lparr>ss_services := [''vikunja''], ss_envs := [''staging'', ''prod'']\<rparr>,
     (spec ''apps.services.core.vikunja.oidc_client_secret'' OIDC_CLIENT_SECRET)
       \<lparr>ss_services := [''vikunja'', ''authelia''], ss_envs := [''staging'', ''prod'']\<rparr>,
     (spec ''apps.services.core.vikunja.r2_access_key'' PASSWORD)
       \<lparr>ss_services := [''vikunja''], ss_envs := [''staging'', ''prod'']\<rparr>,
     (spec ''apps.services.core.vikunja.r2_secret_key'' PASSWORD)
       \<lparr>ss_services := [''vikunja''], ss_envs := [''staging'', ''prod'']\<rparr>,
     (spec ''apps.services.automation.n8n.encryption_key'' RANDOM_HEX)
       \<lparr>ss_length := 32, ss_services := [''n8n'']\<rparr>,
     (spec ''apps.services.automation.n8n.vikunja_api_token'' EXTERNAL)
       \<lparr>ss_services := [''n8n'', ''vikunja''], ss_value_pattern := Some vikunja_token,
         ss_envs := [''staging'', ''prod''], ss_expiry := DECLARED\<rparr>,
     (spec ''apps.services.core.vikunja.reconciler_api_token'' EXTERNAL)
       \<lparr>ss_value_pattern := Some vikunja_token, ss_envs := [''staging'', ''prod''],
         ss_expiry := DECLARED\<rparr>,
     (spec ''apps.services.automation.n8n.sale_digest.analytics_token'' EXTERNAL)
       \<lparr>ss_services := [''n8n''], ss_envs := [''prod''], ss_expiry := PROVIDER\<rparr>,
     (spec ''apps.services.automation.n8n.sale_digest.recipient'' EXTERNAL)
       \<lparr>ss_services := [''n8n''], ss_value_pattern := Some mail_address, ss_envs := [''prod''],
         ss_expiry := NEVER\<rparr>,
     (spec ''apps.services.automation.n8n.forge_webhook_secret'' RANDOM_HEX)
       \<lparr>ss_length := 32, ss_services := [''n8n'']\<rparr>,
     (spec ''apps.services.automation.n8n.slack_signing_secret'' EXTERNAL)
       \<lparr>ss_services := [''n8n''], ss_expiry := NEVER\<rparr>]"

definition catalog_agents :: "secret_spec list" where
  "catalog_agents =
    [(spec ''apps.services.automation.pr_agent.webhook_secret'' RANDOM_HEX)
       \<lparr>ss_length := 32, ss_services := [''gitea'', ''pr-agent''], ss_envs := [''prod'']\<rparr>,
     (spec ''apps.services.automation.pr_agent.nan_api_key'' EXTERNAL)
       \<lparr>ss_services := [''pr-agent'', ''open_webui'', ''hermes_kubelab'', ''gitea_actions''],
         ss_envs := [''prod''], ss_forge_actions := [''teledyne/fae-brain''], ss_expiry := NEVER\<rparr>,
     (spec ''apps.services.ai.hermes_kubelab.github_token'' EXTERNAL)
       \<lparr>ss_services := [''hermes_kubelab''], ss_envs := [''prod''], ss_expiry := PROVIDER\<rparr>,
     (spec ''apps.services.ai.hermes_kubelab.slack_bot_token'' EXTERNAL)
       \<lparr>ss_services := [''hermes_kubelab''], ss_envs := [''prod''], ss_expiry := NEVER\<rparr>,
     (spec ''apps.services.ai.hermes_kubelab.slack_app_token'' EXTERNAL)
       \<lparr>ss_services := [''hermes_kubelab''], ss_envs := [''prod''], ss_expiry := NEVER\<rparr>,
     (spec ''apps.services.ai.hermes_kubelab.anthropic_api_key'' EXTERNAL)
       \<lparr>ss_services := [''hermes_kubelab''], ss_envs := [''prod''], ss_expiry := NEVER\<rparr>,
     (spec ''apps.services.ai.hermes_kubelab.grafana_token'' EXTERNAL)
       \<lparr>ss_services := [''hermes_kubelab''], ss_value_pattern := Some grafana_service_token,
         ss_envs := [''prod''], ss_expiry := NEVER\<rparr>,
     (spec ''apps.services.ai.hermes_kubelab.tavily_api_key'' EXTERNAL)
       \<lparr>ss_services := [''hermes_kubelab''], ss_value_pattern := Some tavily_key,
         ss_envs := [''prod''], ss_expiry := NEVER\<rparr>]"

definition catalog_argocd :: "secret_spec list" where
  "catalog_argocd =
    [(spec ''argocd.admin_password'' HUB_MANAGED)
       \<lparr>ss_services := [''argocd''], ss_envs := [''prod'']\<rparr>,
     (spec ''argocd.admin_password_hash'' HUB_MANAGED)
       \<lparr>ss_services := [''argocd''], ss_derived_from := ''argocd.admin_password'',
         ss_envs := [''prod''], ss_sync_to_secret_manager := True\<rparr>,
     (spec ''apps.services.security.authelia.oidc_client_secret_argocd'' HUB_MANAGED)
       \<lparr>ss_services := [''argocd'', ''authelia''], ss_envs := [''prod''],
         ss_sync_to_secret_manager := True\<rparr>,
     (spec ''apps.services.security.authelia.oidc_client_secret_argocd_hash'' HUB_MANAGED)
       \<lparr>ss_services := [''authelia''],
         ss_derived_from := ''apps.services.security.authelia.oidc_client_secret_argocd'',
         ss_envs := [''prod'']\<rparr>,
     (spec ''argocd.slack_webhook_url'' EXTERNAL)
       \<lparr>ss_services := [''argocd''], ss_envs := [''prod''], ss_sync_to_secret_manager := True,
         ss_expiry := NEVER\<rparr>,
     (spec ''argocd.github_status_token'' EXTERNAL)
       \<lparr>ss_services := [''argocd''], ss_envs := [''prod''], ss_expiry := PROVIDER,
         ss_warn_days := Some 14\<rparr>,
     (spec ''argocd.github_webhook_secret'' EXTERNAL)
       \<lparr>ss_services := [''argocd''], ss_envs := [''prod''], ss_sync_to_secret_manager := True,
         ss_expiry := NEVER\<rparr>]"

definition catalog_hosts :: "secret_spec list" where
  "catalog_hosts =
    [(spec ''apps.services.core.headscale.audit_sources.audit_automation'' EXTERNAL)
       \<lparr>ss_services := [''headscale''], ss_value_pattern := Some address_list,
         ss_optional := True, ss_envs := [''prod''], ss_expiry := NEVER\<rparr>,
     (spec ''apps.services.core.headscale.segments'' EXTERNAL)
       \<lparr>ss_services := [''headscale''], ss_envs := [''prod''], ss_expiry := NEVER\<rparr>,
     (spec ''apps.services.core.headscale.bootstrap_ssh_keys'' EXTERNAL)
       \<lparr>ss_services := [''headscale''], ss_optional := True, ss_envs := [''prod''],
         ss_expiry := NEVER\<rparr>,
     (spec ''gcp.headscale_api_key'' EXTERNAL)
       \<lparr>ss_services := [''headscale'', ''gcp1''], ss_envs := [''prod''],
         ss_sync_to_secret_manager := True, ss_expiry := PROVIDER\<rparr>,
     (spec ''gcp.billing_account_id'' EXTERNAL)
       \<lparr>ss_services := [''terraform''], ss_envs := [''prod''], ss_expiry := NEVER\<rparr>]"

definition catalog_infra :: "secret_spec list" where
  "catalog_infra =
    [(spec ''cloudflare.api_token'' EXTERNAL)
       \<lparr>ss_services := [''terraform''], ss_expiry := PROVIDER\<rparr>,
     (spec ''cloudflare.acme_dns_token'' EXTERNAL)
       \<lparr>ss_services := [''traefik''], ss_expiry := PROVIDER\<rparr>,
     (spec ''cloudflare.r2_admin_token'' EXTERNAL)
       \<lparr>ss_services := [''terraform''], ss_envs := [''prod''], ss_expiry := PROVIDER\<rparr>,
     (spec ''aws.access_key_id'' EXTERNAL)
       \<lparr>ss_services := [''terraform''], ss_value_pattern := Some aws_key_id,
         ss_envs := [''prod''], ss_expiry := NEVER\<rparr>,
     (spec ''aws.secret_access_key'' EXTERNAL)
       \<lparr>ss_services := [''terraform''], ss_envs := [''prod''], ss_expiry := NEVER\<rparr>,
     (spec ''terraform.state.access_key_id'' EXTERNAL)
       \<lparr>ss_services := [''terraform''], ss_envs := [''prod''], ss_expiry := NEVER\<rparr>,
     (spec ''terraform.state.secret_access_key'' EXTERNAL)
       \<lparr>ss_services := [''terraform''], ss_envs := [''prod''], ss_expiry := NEVER\<rparr>,
     (spec ''storage.product_documents.access_key_id'' EXTERNAL)
       \<lparr>ss_services := [''product-documents''], ss_envs := [''prod''], ss_expiry := NEVER\<rparr>,
     (spec ''storage.product_documents.secret_access_key'' EXTERNAL)
       \<lparr>ss_services := [''product-documents''], ss_envs := [''prod''], ss_expiry := NEVER\<rparr>,
     (spec ''cloudflare.r2_token_minter'' EXTERNAL)
       \<lparr>ss_services := [''toolkit''], ss_envs := [''prod''], ss_expiry := PROVIDER,
         ss_warn_days := Some 14\<rparr>]"

definition catalog_backup :: "secret_spec list" where
  "catalog_backup =
    [(spec ''backup.r2.access_key_id'' EXTERNAL)
       \<lparr>ss_services := [''backup''], ss_envs := [''prod''], ss_expiry := NEVER\<rparr>,
     (spec ''backup.r2.secret_access_key'' EXTERNAL)
       \<lparr>ss_services := [''backup''], ss_envs := [''prod''], ss_expiry := NEVER\<rparr>,
     (spec ''backup.restic_password'' RANDOM_TOKEN)
       \<lparr>ss_length := 48, ss_services := [''backup''], ss_envs := [''staging'', ''prod'']\<rparr>,
     (spec ''backup.r2.watcher.access_key_id'' EXTERNAL)
       \<lparr>ss_services := [''r2-backup-watcher''], ss_envs := [''staging'', ''prod''],
         ss_expiry := NEVER\<rparr>,
     (spec ''backup.r2.watcher.secret_access_key'' EXTERNAL)
       \<lparr>ss_services := [''r2-backup-watcher''], ss_envs := [''staging'', ''prod''],
         ss_expiry := NEVER\<rparr>]
    @ concat (map backup_node_specs [''ace2'', ''beelink'', ''rpi3'', ''rpi4'', ''vps''])"

definition catalog_automation :: "secret_spec list" where
  "catalog_automation =
    [(spec ''apps.services.automation.github_runner.token'' EXTERNAL)
       \<lparr>ss_services := [''github-runner''], ss_expiry := PROVIDER\<rparr>,
     (spec ''apps.services.automation.gitea_runner.registration_token'' EXTERNAL)
       \<lparr>ss_services := [''act-runner'', ''gitea''], ss_envs := [''prod''], ss_expiry := NEVER\<rparr>,
     (spec ''apps.services.automation.dev_node.github_token'' EXTERNAL)
       \<lparr>ss_services := [''dev-node''], ss_envs := [''staging''], ss_expiry := PROVIDER,
         ss_warn_days := Some 14\<rparr>,
     (spec ''apps.services.automation.apprise.telegram.bot_token'' EXTERNAL)
       \<lparr>ss_services := [''apprise''], ss_envs := [''staging'', ''prod''], ss_expiry := NEVER\<rparr>]"

definition catalog_notify :: "secret_spec list" where
  "catalog_notify =
    [(spec ''apps.services.automation.apprise.slack.webhook_alerts'' EXTERNAL)
       \<lparr>ss_services := [''apprise''], ss_envs := [''staging'', ''prod''], ss_expiry := NEVER\<rparr>,
     (spec ''apps.services.automation.apprise.slack.webhook_agent'' EXTERNAL)
       \<lparr>ss_services := [''apprise''], ss_envs := [''staging'', ''prod''], ss_expiry := NEVER\<rparr>,
     (spec ''apps.services.automation.apprise.slack.webhook_deployments'' EXTERNAL)
       \<lparr>ss_services := [''apprise''], ss_envs := [''staging'', ''prod''], ss_expiry := NEVER\<rparr>,
     (spec ''apps.services.automation.apprise.slack.webhook_log'' EXTERNAL)
       \<lparr>ss_services := [''apprise''], ss_envs := [''staging'', ''prod''], ss_expiry := NEVER\<rparr>,
     (spec ''apps.services.automation.apprise.slack.webhook_vault'' EXTERNAL)
       \<lparr>ss_services := [''apprise''], ss_envs := [''staging'', ''prod''], ss_expiry := NEVER\<rparr>,
     (spec ''apps.services.automation.apprise.telegram.chat_page'' EXTERNAL)
       \<lparr>ss_services := [''apprise''], ss_envs := [''staging'', ''prod''], ss_expiry := NEVER\<rparr>,
     (spec ''apps.services.automation.apprise.telegram.chat_log'' EXTERNAL)
       \<lparr>ss_services := [''apprise''], ss_envs := [''staging'', ''prod''], ss_expiry := NEVER\<rparr>,
     (spec ''apps.services.automation.notify.webhook_secret'' RANDOM_TOKEN)
       \<lparr>ss_services := [''n8n'', ''grafana''], ss_envs := [''staging'', ''prod'']\<rparr>,
     (spec ''apps.services.automation.notify.fleet_webhook_secret'' RANDOM_TOKEN)
       \<lparr>ss_services := [''n8n''], ss_envs := [''staging'', ''prod'']\<rparr>]"

definition catalog_platform :: "secret_spec list" where
  "catalog_platform =
    [(spec ''infra.smtp.pass'' EXTERNAL)
       \<lparr>ss_services := [''api'', ''authelia''], ss_expiry := NEVER\<rparr>,
     (spec ''infra.postgres.password'' RANDOM_TOKEN)
       \<lparr>ss_services := [''postgres''], ss_envs := [''staging'', ''prod'']\<rparr>,
     (spec ''apps.platform.api.forge_github_webhook_secret'' RANDOM_HEX)
       \<lparr>ss_length := 32, ss_services := [''api''], ss_envs := [''prod'']\<rparr>,
     (spec ''apps.platform.api.forge_gitea_webhook_secret'' RANDOM_HEX)
       \<lparr>ss_length := 32, ss_services := [''api'', ''gitea''], ss_envs := [''prod'']\<rparr>,
     (spec ''apps.platform.api.db_password'' RANDOM_TOKEN)
       \<lparr>ss_services := [''api'', ''postgres''], ss_envs := [''staging'', ''prod'']\<rparr>,
     (spec ''apps.platform.api.beehiiv_api_key'' EXTERNAL)
       \<lparr>ss_services := [''api''], ss_expiry := NEVER\<rparr>,
     (spec ''apps.platform.api.zoho_client_id'' EXTERNAL)
       \<lparr>ss_services := [''api''], ss_expiry := NEVER\<rparr>,
     (spec ''apps.platform.api.zoho_client_secret'' EXTERNAL)
       \<lparr>ss_services := [''api''], ss_expiry := NEVER\<rparr>,
     (spec ''networking.edge.lab_wifi.ssid'' EXTERNAL)
       \<lparr>ss_services := [''gateway''], ss_value_pattern := Some wifi_name, ss_envs := [''prod''],
         ss_expiry := NEVER\<rparr>,
     (spec ''networking.edge.lab_wifi.psk'' EXTERNAL)
       \<lparr>ss_services := [''gateway'', ''rpi3''], ss_value_pattern := Some wifi_passphrase,
         ss_envs := [''prod''], ss_expiry := NEVER\<rparr>,
     (spec ''networking.edge.uplink.mac'' EXTERNAL)
       \<lparr>ss_services := [''gateway''], ss_value_pattern := Some mac_address,
         ss_envs := [''prod''], ss_expiry := NEVER\<rparr>,
     (spec ''networking.edge.uplink.ssid'' EXTERNAL)
       \<lparr>ss_services := [''gateway''], ss_value_pattern := Some wifi_name, ss_envs := [''prod''],
         ss_expiry := NEVER\<rparr>]"

definition secret_catalog :: "secret_spec list" where
  "secret_catalog =
     catalog_shared @ catalog_authelia @ catalog_oidc @ catalog_observability
     @ catalog_gitea @ catalog_forge_tokens @ catalog_forge_actions @ catalog_vikunja_n8n
     @ catalog_agents @ catalog_argocd @ catalog_hosts @ catalog_infra
     @ catalog_backup @ catalog_automation @ catalog_notify @ catalog_platform"

definition immutable_secrets :: "string list" where
  "immutable_secrets =
     [''apps.services.security.authelia.storage_encryption_key'', ''apps.services.security.authelia.session_secret'',
      ''apps.services.security.authelia.oidc_hmac_secret'']"

end
