(* ===== verification/ConfigTree.thy ===== *)
theory ConfigTree
  imports MergePatch "HOL-Library.Sublist"
begin

text \<open>
  Nested configuration values and their dotted key paths: \<open>_deep_update\<close>, \<open>_set_nested_key\<close> and
  \<open>get_secret_by_path\<close> of \<open>toolkit/features/configuration.py\<close>, \<open>_resolve_key\<close> of
  \<open>toolkit/features/secrets_manager.py\<close> and \<open>_flatten_dict\<close> of \<open>toolkit/features/credentials.py\<close>.

  The reference is the tree of leaves, \<open>leaf_at\<close>: what a path of keys leads to, if that is not a mapping.
  The lemmas say of each operation what it does to every leaf: a merge takes each from the override or
  from the base, an assignment changes one, flattening lists all of them.
\<close>

section \<open>Paths\<close>

fun lookup_path :: "json \<Rightarrow> string list \<Rightarrow> json option" where
  "lookup_path t [] = Some t"
| "lookup_path t (k # ks) =
     (case t of JObj kvs \<Rightarrow> (case map_of kvs k of None \<Rightarrow> None | Some v \<Rightarrow> lookup_path v ks) | _ \<Rightarrow> None)"

definition path_of :: "string \<Rightarrow> string list" where
  "path_of key_path = split_on (CHR ''.'') key_path"

lemma path_of_nonempty [simp]: "path_of kp \<noteq> []"
  by (simp add: path_of_def split_on_not_Nil)

text \<open>\<open>_resolve_key\<close>: \<open>None\<close> where the path leads nowhere, which a null value reads as too.\<close>

definition resolve_key :: "json \<Rightarrow> string \<Rightarrow> json" where
  "resolve_key data key_path = (case lookup_path data (path_of key_path) of None \<Rightarrow> JNull | Some v \<Rightarrow> v)"

definition is_leaf :: "json \<Rightarrow> bool" where
  "is_leaf v \<longleftrightarrow> \<not> is_mapping v"

definition leaf_at :: "json \<Rightarrow> string list \<Rightarrow> json option" where
  "leaf_at t p = (case lookup_path t p of None \<Rightarrow> None | Some v \<Rightarrow> if is_leaf v then Some v else None)"

definition get_secret_by_path :: "json \<Rightarrow> string \<Rightarrow> string option" where
  "get_secret_by_path config path =
     (case lookup_path config (path_of path) of
        None \<Rightarrow> None
      | Some (JObj _) \<Rightarrow> None
      | Some (JArr _) \<Rightarrow> None
      | Some JNull \<Rightarrow> None
      | Some v \<Rightarrow> Some (py_str v))"

lemma lookup_path_leaf [simp]: "is_leaf t \<Longrightarrow> lookup_path t (k # ks) = None"
  by (cases t) (auto simp: is_leaf_def)

lemma leaf_at_leaf: "is_leaf t \<Longrightarrow> leaf_at t p = (if p = [] then Some t else None)"
  by (cases t; cases p) (simp_all add: leaf_at_def is_leaf_def)

lemma leaf_at_obj:
  "leaf_at (JObj kvs) [] = None"
  "leaf_at (JObj kvs) (k # ks) = (case map_of kvs k of None \<Rightarrow> None | Some v \<Rightarrow> leaf_at v ks)"
  by (auto simp: leaf_at_def is_leaf_def split: option.split)

lemma lookup_path_append:
  "lookup_path t (p @ q) = (case lookup_path t p of None \<Rightarrow> None | Some v \<Rightarrow> lookup_path v q)"
  by (induction t p rule: lookup_path.induct) (auto split: json.splits option.splits)

section \<open>Merging\<close>

text \<open>\<open>_deep_update\<close>: a mapping is merged into what is there, anything else replaces it.\<close>

fun merged_value :: "json \<Rightarrow> json \<Rightarrow> json"
  and deep_update :: "obj \<Rightarrow> obj \<Rightarrow> obj" where
  "merged_value base (JObj kvs) = JObj (deep_update (members base) kvs)"
| "merged_value base (JArr xs) = JArr xs"
| "merged_value base (JStr s) = JStr s"
| "merged_value base (JInt n) = JInt n"
| "merged_value base (JBool b) = JBool b"
| "merged_value base JNull = JNull"
| "deep_update source [] = source"
| "deep_update source ((k, v) # kvs) = deep_update (oset source k (merged_value (oget source k) v)) kvs"

lemma merged_value_leaf: "is_leaf v \<Longrightarrow> merged_value base v = v"
  by (cases v) (auto simp: is_leaf_def)

lemma map_of_deep_update:
  "distinct (map fst kvs) \<Longrightarrow>
     map_of (deep_update source kvs) k =
       (case map_of kvs k of None \<Rightarrow> map_of source k | Some v \<Rightarrow> Some (merged_value (oget source k) v))"
proof (induction kvs arbitrary: source)
  case (Cons kv kvs)
  obtain j v where kv: "kv = (j, v)" by fastforce
  then have "map_of kvs j = None" using Cons.prems by (simp add: map_of_eq_None_iff)
  with Cons kv show ?case by (auto simp: oget_def split: option.split)
qed simp

lemma oget_members: "map_of (members t) k = (if is_leaf t then None else lookup_path t [k])"
  by (cases t) (auto simp: is_leaf_def split: option.split)

text \<open>The override decides a path when it holds a value there, or a leaf on the way.\<close>

definition decides :: "json \<Rightarrow> string list \<Rightarrow> bool" where
  "decides t p \<longleftrightarrow> lookup_path t p \<noteq> None \<or> (\<exists>q r. p = q @ r \<and> leaf_at t q \<noteq> None)"

lemma decides_leaf: "is_leaf t \<Longrightarrow> decides t p"
  unfolding decides_def by (rule disjI2, rule exI [of _ "[]"]) (simp add: leaf_at_def)

lemma decides_Cons:
  "decides (JObj kvs) (k # ks) \<longleftrightarrow> (case map_of kvs k of None \<Rightarrow> False | Some v \<Rightarrow> decides v ks)"
proof -
  have "(\<exists>q r. k # ks = q @ r \<and> leaf_at (JObj kvs) q \<noteq> None) \<longleftrightarrow>
      (\<exists>q r. ks = q @ r \<and> leaf_at (JObj kvs) (k # q) \<noteq> None)" (is "?L = ?R")
  proof
    assume ?L
    then obtain q r where q: "k # ks = q @ r" "leaf_at (JObj kvs) q \<noteq> None" by blast
    then obtain q' where "q = k # q'" by (cases q) (auto simp: leaf_at_obj(1))
    with q show ?R by auto
  next
    assume ?R
    then obtain q r where "ks = q @ r" "leaf_at (JObj kvs) (k # q) \<noteq> None" by blast
    then show ?L by (intro exI [of _ "k # q"] exI [of _ r]) simp
  qed
  then show ?thesis by (auto simp: decides_def leaf_at_obj(2) split: option.split)
qed

lemma decides_obj_Nil [simp]: "decides (JObj kvs) []"
  by (simp add: decides_def)

lemma leaf_merged_value:
  "json_wf v \<Longrightarrow> leaf_at (merged_value base v) p = (if decides v p then leaf_at v p else leaf_at base p)"
proof (induction p arbitrary: base v)
  case Nil
  show ?case
    by (cases "is_leaf v") (auto simp: merged_value_leaf decides_leaf leaf_at_obj is_leaf_def elim!: is_mapping.elims)
next
  case (Cons k ks)
  show ?case
  proof (cases v)
    case (JObj kvs)
    then have wf: "distinct (map fst kvs)" "\<And>w. map_of kvs k = Some w \<Longrightarrow> json_wf w"
      using Cons.prems by (auto simp: list_all_iff dest!: map_of_SomeD)
    have base: "leaf_at base (k # ks) = (case map_of (members base) k of None \<Rightarrow> None | Some b \<Rightarrow> leaf_at b ks)"
      by (cases base) (simp_all add: leaf_at_obj leaf_at_leaf is_leaf_def)
    show ?thesis
    proof (cases "map_of kvs k")
      case None
      with JObj base show ?thesis by (simp add: leaf_at_obj map_of_deep_update [OF wf(1)] decides_Cons)
    next
      case (Some w)
      have "leaf_at (oget (members base) k) ks = leaf_at base (k # ks) \<or> map_of (members base) k = None"
        by (auto simp: base oget_def split: option.split)
      moreover have "leaf_at (merged_value JNull w) ks = (if decides w ks then leaf_at w ks else None)"
        using Cons.IH [OF wf(2) [OF Some], of JNull] decides_leaf [of w ks]
        by (cases ks) (auto simp: leaf_at_leaf is_leaf_def decides_def split: if_splits option.splits)
      ultimately show ?thesis
        using JObj Some Cons.IH [OF wf(2) [OF Some], of "oget (members base) k"]
        by (auto simp: leaf_at_obj map_of_deep_update [OF wf(1)] decides_Cons base oget_def)
    qed
  qed (use Cons.prems in \<open>simp_all add: decides_leaf is_leaf_def\<close>)
qed


text \<open>A merge takes every leaf from the override or from the base: from the override where it holds a
  value at that path or a leaf on the way to it, from the base everywhere else. In particular an empty
  mapping overrides nothing but a leaf.\<close>

theorem deep_update_leaves:
  assumes "json_wf (JObj overrides)"
  shows "leaf_at (JObj (deep_update source overrides)) p =
    (if decides (JObj overrides) p then leaf_at (JObj overrides) p else leaf_at (JObj source) p)"
  using leaf_merged_value [OF assms, of "JObj source" p] by simp

lemma deep_update_leaves_witness:
  "leaf_at (JObj (deep_update [(''cf'', JObj [(''token'', JStr ''t'')])] [(''cf'', JObj [])])) [''cf'', ''token''] =
     Some (JStr ''t'')"
proof -
  have "\<not> decides (JObj [(''cf'', JObj [])]) [''cf'', ''token'']" by (simp add: decides_Cons)
  then show ?thesis
    using deep_update_leaves [of "[(''cf'', JObj [])]" "[(''cf'', JObj [(''token'', JStr ''t'')])]" "[''cf'', ''token'']"]
    by (simp add: leaf_at_obj leaf_at_leaf is_leaf_def)
qed

section \<open>Setting\<close>

text \<open>\<open>_set_nested_key\<close>: what is on the way and is no mapping is replaced by one.\<close>

fun set_nested :: "obj \<Rightarrow> string list \<Rightarrow> json \<Rightarrow> obj" where
  "set_nested data [] v = data"
| "set_nested data [k] v = oset data k v"
| "set_nested data (k # l # ks) v = oset data k (JObj (set_nested (members (oget data k)) (l # ks) v))"

definition set_nested_key :: "obj \<Rightarrow> string \<Rightarrow> json \<Rightarrow> obj" where
  "set_nested_key data key_path v = set_nested data (path_of key_path) v"

text \<open>\<open>for key_path, value in secrets.items()\<close>.\<close>

definition set_all :: "obj \<Rightarrow> obj \<Rightarrow> obj" where
  "set_all data secrets = foldl (\<lambda>d (k, v). set_nested_key d k v) data secrets"

lemma lookup_set_nested: "p \<noteq> [] \<Longrightarrow> lookup_path (JObj (set_nested data p v)) p = Some v"
  by (induction data p v rule: set_nested.induct) simp_all

lemma lookup_members: "lookup_path (JObj (members t)) (k # ks) = lookup_path t (k # ks)"
  by (cases t) simp_all

lemma lookup_set_nested_other:
  "\<not> prefix p q \<Longrightarrow> \<not> prefix q p \<Longrightarrow> lookup_path (JObj (set_nested data p v)) q = lookup_path (JObj data) q"
proof (induction data p v arbitrary: q rule: set_nested.induct)
  case (3 data k l ks v)
  from "3.prems" obtain j js where q: "q = j # js" by (cases q) auto
  show ?case
  proof (cases "j = k")
    case True
    from True q "3.prems" have div: "\<not> prefix (l # ks) js" "\<not> prefix js (l # ks)" by simp_all
    from div(2) obtain i rs where js: "js = i # rs" by (cases js) auto
    have "lookup_path (JObj (members (oget data k))) js = (case map_of data k of None \<Rightarrow> None | Some t \<Rightarrow> lookup_path t js)"
      unfolding js lookup_members by (simp add: oget_def split: option.split)
    then show ?thesis using "3.IH" [OF div] q True by simp
  next
    case False
    then show ?thesis using q by simp
  qed
next
  case (2 data k v)
  then show ?case by (cases q) auto
qed simp

text \<open>Two key paths are apart when neither continues the other.\<close>

definition apart :: "string \<Rightarrow> string \<Rightarrow> bool" where
  "apart j k \<longleftrightarrow> \<not> prefix (path_of j) (path_of k) \<and> \<not> prefix (path_of k) (path_of j)"

lemma apart_sym: "apart j k \<Longrightarrow> apart k j"
  by (auto simp: apart_def)

lemma resolve_set_nested_key [simp]: "resolve_key (JObj (set_nested_key data k v)) k = v"
  by (simp add: resolve_key_def set_nested_key_def lookup_set_nested)

lemma resolve_set_nested_other: "apart k j \<Longrightarrow> resolve_key (JObj (set_nested_key data k v)) j = resolve_key (JObj data) j"
  by (simp add: resolve_key_def set_nested_key_def lookup_set_nested_other apart_def)

text \<open>What assigning promises of any keyed store, and what many assignments then do.\<close>

locale assignable =
  fixes get :: "'d \<Rightarrow> 'k \<Rightarrow> 'v" and put :: "'d \<Rightarrow> 'k \<Rightarrow> 'v \<Rightarrow> 'd" and separate :: "'k \<Rightarrow> 'k \<Rightarrow> bool"
  assumes get_put: "get (put d k v) k = v"
    and get_put_other: "separate k j \<Longrightarrow> get (put d k v) j = get d j"
    and separate_sym: "separate j k \<Longrightarrow> separate k j"
begin

lemma puts_other:
  "\<forall>k \<in> fst ` set kvs. separate k j \<Longrightarrow> get (foldl (\<lambda>d (k, v). put d k v) d kvs) j = get d j"
  by (induction kvs arbitrary: d) (auto simp: get_put_other)

lemma puts_get:
  assumes "distinct (map fst kvs)" and "\<forall>j \<in> fst ` set kvs. \<forall>k \<in> fst ` set kvs. j \<noteq> k \<longrightarrow> separate j k"
    and "(k, v) \<in> set kvs"
  shows "get (foldl (\<lambda>d (k, v). put d k v) d kvs) k = v"
proof -
  from assms(3) obtain xs ys where kvs: "kvs = xs @ (k, v) # ys" by (auto dest: split_list)
  have "separate j k" if "j \<in> fst ` set ys" for j
  proof -
    have "j \<noteq> k" using that assms(1) kvs by auto
    moreover have "j \<in> fst ` set kvs" and "k \<in> fst ` set kvs" using that kvs by auto
    ultimately show ?thesis using assms(2) by blast
  qed
  then have "\<forall>j \<in> fst ` set ys. separate j k" ..
  from puts_other [OF this] show ?thesis by (simp add: kvs get_put)
qed

end

interpretation nested: assignable "\<lambda>data. resolve_key (JObj data)" set_nested_key apart
  by unfold_locales (simp_all add: resolve_set_nested_other apart_sym)

lemmas resolve_set_all_other = nested.puts_other [folded set_all_def]

text \<open>Setting several keys at once sets each of them to its value and leaves every other key path as it
  was, if the keys are pairwise apart: the order of the updates does not matter then, and no update
  undoes another.\<close>

theorem set_all_resolves:
  assumes "distinct (map fst secrets)" and "\<forall>j \<in> fst ` set secrets. \<forall>k \<in> fst ` set secrets. j \<noteq> k \<longrightarrow> apart j k"
  shows "(\<forall>(k, v) \<in> set secrets. resolve_key (JObj (set_all data secrets)) k = v) \<and>
    (\<forall>j. (\<forall>k \<in> fst ` set secrets. apart k j) \<longrightarrow>
       resolve_key (JObj (set_all data secrets)) j = resolve_key (JObj data) j)"
  using nested.puts_get [OF assms] nested.puts_other unfolding set_all_def by blast

lemma set_all_resolves_witness:
  "resolve_key (JObj (set_all [(''aws'', JStr ''x'')] [(''aws.id'', JStr ''a''), (''aws.key'', JStr ''b'')])) ''aws.id'' =
     JStr ''a''"
proof -
  have "\<forall>j \<in> {''aws.id'', ''aws.key''}. \<forall>k \<in> {''aws.id'', ''aws.key''}. j \<noteq> k \<longrightarrow> apart j k"
    by (simp add: apart_def path_of_def)
  then show ?thesis
    using set_all_resolves [of "[(''aws.id'', JStr ''a''), (''aws.key'', JStr ''b'')]" "[(''aws'', JStr ''x'')]"]
    by simp
qed

section \<open>Flattening\<close>

definition py_update :: "(string \<times> 'v) list \<Rightarrow> (string \<times> 'v) list \<Rightarrow> (string \<times> 'v) list" where
  "py_update items xs = foldl (\<lambda>d (k, v). oset d k v) items xs"

definition sub_key :: "string \<Rightarrow> string \<Rightarrow> string" where
  "sub_key pre k = (if pre = [] then k else pre @ ''.'' @ k)"

text \<open>\<open>_flatten_dict\<close>: the dotted key path of every value that is no mapping.\<close>

fun flat_entry :: "string \<Rightarrow> json \<Rightarrow> obj \<Rightarrow> obj"
  and flatten_dict :: "string \<Rightarrow> obj \<Rightarrow> obj \<Rightarrow> obj" where
  "flat_entry key (JObj kvs) items = py_update items (flatten_dict key kvs [])"
| "flat_entry key (JArr xs) items = oset items key (JArr xs)"
| "flat_entry key (JStr s) items = oset items key (JStr s)"
| "flat_entry key (JInt n) items = oset items key (JInt n)"
| "flat_entry key (JBool b) items = oset items key (JBool b)"
| "flat_entry key JNull items = oset items key JNull"
| "flatten_dict pre [] items = items"
| "flatten_dict pre ((k, v) # kvs) items = flatten_dict pre kvs (flat_entry (sub_key pre k) v items)"

lemma map_of_py_update:
  "distinct (map fst xs) \<Longrightarrow> map_of (py_update items xs) x = (case map_of xs x of None \<Rightarrow> map_of items x | Some v \<Rightarrow> Some v)"
proof (induction xs arbitrary: items)
  case (Cons kv xs)
  obtain k v where kv: "kv = (k, v)" by fastforce
  then have "map_of xs k = None" using Cons.prems by (simp add: map_of_eq_None_iff)
  with Cons kv show ?case by (auto simp: py_update_def split: option.split)
qed (simp add: py_update_def)

lemma distinct_py_update: "distinct (map fst items) \<Longrightarrow> distinct (map fst (py_update items xs))"
  unfolding py_update_def by (induction xs arbitrary: items) auto

lemma distinct_flatten:
  "distinct (map fst items) \<Longrightarrow> distinct (map fst (flat_entry key v items))"
  "distinct (map fst items) \<Longrightarrow> distinct (map fst (flatten_dict pre kvs items))"
  by (induction key v items and pre kvs items rule: flat_entry_flatten_dict.induct)
    (simp_all add: distinct_py_update)

text \<open>Keys that a dotted path can spell.\<close>

definition plain_key :: "string \<Rightarrow> bool" where
  "plain_key k \<longleftrightarrow> k \<noteq> [] \<and> CHR ''.'' \<notin> set k"

fun plain_keys :: "json \<Rightarrow> bool" where
  "plain_keys (JObj kvs) = list_all (\<lambda>kv. plain_key (fst kv) \<and> plain_keys (snd kv)) kvs"
| "plain_keys _ = True"

text \<open>What a key path says below a prefix.\<close>

definition beneath :: "string \<Rightarrow> string \<Rightarrow> string list option" where
  "beneath key x =
     (if x = key then Some []
      else if starts_with (key @ ''.'') x then Some (path_of (drop (Suc (length key)) x)) else None)"

definition within :: "string \<Rightarrow> string \<Rightarrow> string list option" where
  "within pre x = (if pre = [] then Some (path_of x) else beneath pre x)"

lemma beneath_iff:
  "beneath key x = Some p \<longleftrightarrow> x = key \<and> p = [] \<or> (\<exists>r. x = key @ ''.'' @ r \<and> p = path_of r)"
  by (auto simp: beneath_def starts_with_iff)

lemma path_of_plain: "plain_key k \<Longrightarrow> path_of k = [k]"
  by (simp add: path_of_def plain_key_def split_on_no_sep)

lemma path_of_append: "plain_key k \<Longrightarrow> path_of (k @ ''.'' @ r) = k # path_of r"
  by (simp add: path_of_def plain_key_def split_on_append)

lemma path_of_Cons:
  assumes "plain_key k"
  shows "path_of x = k # js \<longleftrightarrow> beneath k x = Some js"
proof
  assume p: "path_of x = k # js"
  have x: "x = join ''.'' (path_of x)" by (simp add: path_of_def join_split_on)
  show "beneath k x = Some js"
  proof (cases js)
    case (Cons j rest)
    then have "x = k @ ''.'' @ join ''.'' js" using x p by simp
    moreover from this have "path_of (join ''.'' js) = js" using p path_of_append [OF assms] by simp
    ultimately show ?thesis unfolding beneath_iff by metis
  qed (use x p in \<open>simp add: beneath_iff\<close>)
qed (auto simp: beneath_iff path_of_plain [OF assms] path_of_append [OF assms, simplified])

lemma beneath_sub_key:
  assumes "plain_key k"
  shows "beneath (sub_key pre k) x = Some js \<longleftrightarrow> within pre x = Some (k # js)"
proof (cases "pre = []")
  case False
  have "beneath (pre @ ''.'' @ k) x = Some js \<longleftrightarrow> (\<exists>r. x = pre @ ''.'' @ r \<and> beneath k r = Some js)"
    by (simp add: beneath_iff) blast
  also have "\<dots> \<longleftrightarrow> beneath pre x = Some (k # js)"
    by (simp add: path_of_Cons [OF assms, symmetric]) (auto simp: beneath_iff)
  finally show ?thesis using False by (simp add: sub_key_def within_def)
qed (simp add: sub_key_def within_def path_of_Cons [OF assms])

lemma map_of_flatten:
  "json_wf v \<Longrightarrow> plain_keys v \<Longrightarrow> key \<noteq> [] \<Longrightarrow> map_of (flat_entry key v items) x =
     (case beneath key x of None \<Rightarrow> map_of items x
      | Some p \<Rightarrow> (case leaf_at v p of None \<Rightarrow> map_of items x | Some w \<Rightarrow> Some w))"
  "json_wf (JObj kvs) \<Longrightarrow> plain_keys (JObj kvs) \<Longrightarrow> map_of (flatten_dict pre kvs items) x =
     (case within pre x of None \<Rightarrow> map_of items x
      | Some p \<Rightarrow> (case leaf_at (JObj kvs) p of None \<Rightarrow> map_of items x | Some w \<Rightarrow> Some w))"
proof (induction key v items and pre kvs items rule: flat_entry_flatten_dict.induct)
  case (1 key kvs items)
  then have "map_of (flatten_dict key kvs []) x =
      (case beneath key x of None \<Rightarrow> None | Some p \<Rightarrow> leaf_at (JObj kvs) p)"
    by (simp add: within_def split: option.split)
  then show ?case
    by (simp add: map_of_py_update distinct_flatten split: option.split)
next
  case (8 pre k v kvs items)
  then have k: "plain_key k" and key: "sub_key pre k \<noteq> []" and no: "map_of kvs k = None"
    by (auto simp: sub_key_def plain_key_def map_of_eq_None_iff)
  have rest: "map_of (flatten_dict pre ((k, v) # kvs) items) x =
      (case within pre x of None \<Rightarrow> map_of (flat_entry (sub_key pre k) v items) x
       | Some p \<Rightarrow> (case leaf_at (JObj kvs) p of None \<Rightarrow> map_of (flat_entry (sub_key pre k) v items) x | Some w \<Rightarrow> Some w))"
    using "8.IH"(2) "8.prems" by simp
  have first: "map_of (flat_entry (sub_key pre k) v items) x =
      (case beneath (sub_key pre k) x of None \<Rightarrow> map_of items x
       | Some p \<Rightarrow> (case leaf_at v p of None \<Rightarrow> map_of items x | Some w \<Rightarrow> Some w))"
    using "8.IH"(1) "8.prems" key by simp
  show ?case
  proof (cases "beneath (sub_key pre k) x")
    case None
    then have "within pre x \<noteq> Some (k # js)" for js using beneath_sub_key [OF k, of pre x js] by simp
    then have "leaf_at (JObj ((k, v) # kvs)) p = leaf_at (JObj kvs) p" if "within pre x = Some p" for p
      using that by (cases p) (auto simp: leaf_at_obj)
    with rest first None show ?thesis by (simp split: option.split)
  next
    case (Some js)
    then have "within pre x = Some (k # js)" using beneath_sub_key [OF k] by blast
    with rest first Some no show ?thesis by (simp add: leaf_at_obj)
  qed
next
  case (7 pre items)
  have "leaf_at (JObj []) p = None" for p by (cases p) (simp_all add: leaf_at_obj)
  then show ?case by (simp split: option.split)
qed (simp_all add: beneath_def leaf_at_leaf is_leaf_def)

text \<open>Flattening lists exactly the leaves: the flat value of any text is what the nested mapping holds at
  the path the text spells, if no key holds a dot or is empty.\<close>

theorem flatten_lists_leaves:
  assumes "json_wf (JObj d)" and "plain_keys (JObj d)"
  shows "map_of (flatten_dict [] d []) key_path = leaf_at (JObj d) (path_of key_path)"
  using map_of_flatten(2) [OF assms, of "[]" "[]" key_path] by (simp add: within_def split: option.split)

lemma flatten_lists_leaves_witness:
  "map_of (flatten_dict [] [(''aws'', JObj [(''id'', JStr ''a'')]), (''x'', JNull)] []) ''aws.id'' = Some (JStr ''a'')"
proof -
  have "json_wf (JObj [(''aws'', JObj [(''id'', JStr ''a'')]), (''x'', JNull)])"
    and "plain_keys (JObj [(''aws'', JObj [(''id'', JStr ''a'')]), (''x'', JNull)])"
    by (simp_all add: plain_key_def)
  from flatten_lists_leaves [OF this, of "''aws.id''"] show ?thesis
    by (simp add: path_of_def leaf_at_obj leaf_at_leaf is_leaf_def)
qed

end
