(* ===== verification/SecretVault.thy ===== *)
theory SecretVault
  imports Effects ConfigTree
begin

text \<open>
  The encrypted files of the secret store: reading and writing them through \<open>sops\<close>, of
  \<open>toolkit/features/configuration.py\<close> (\<open>_decrypt_sops\<close>, \<open>batch_update_secrets\<close> and what it is made of) and of
  \<open>toolkit/features/secrets_manager.py\<close> (\<open>set_secret\<close>, \<open>unset_secret\<close>, \<open>show_secret\<close>).

  The file system, the \<open>sops\<close> command and the generators are one parameter, the server of the calls
  below. An answer is a value or the exception that the call raises; \<open>sops\<close> without a check answers with
  its exit code. A document is what \<open>yaml.safe_load\<close> makes of a file, and a path names a file of the
  secrets directory.
\<close>

section \<open>Calls\<close>

datatype vault_call =
    FileExists string
  | SopsInstalled
  | SopsDecrypt string
  | WriteText string json
  | SopsEncrypt string
  | Unlink string
  | SopsSet string "string list" json
  | SopsUnset string "string list"
  | TokenHex int
  | TokenUrlsafe int
  | RsaKey int
  | Argon2 string
  | Bcrypt string

type_synonym 's vault = "vault_call \<Rightarrow> 's \<Rightarrow> (exn + json) \<times> 's"

type_synonym ('s, 'a) vaulted = "(vault_call, 's, 'a) act"

definition enc_file :: "string \<Rightarrow> string" where
  "enc_file env = env @ ''.enc.yaml''"

definition ask_bool :: "'s vault \<Rightarrow> vault_call \<Rightarrow> ('s, bool) vaulted" where
  "ask_bool srv q = abind (ask srv q) (\<lambda>x. ret (truthy x))"

text \<open>\<open>try: m except CalledProcessError: h\<close>.\<close>

definition process_error :: "exn \<Rightarrow> bool" where
  "process_error e = (case e of CalledProcessError _ \<Rightarrow> True | _ \<Rightarrow> False)"

definition catch_process :: "('s, 'a) vaulted \<Rightarrow> ('s, 'a) vaulted \<Rightarrow> ('s, 'a) vaulted" where
  "catch_process m h = attempt m (\<lambda>e. if process_error e then h else throw e)"

section \<open>Whole files\<close>

text \<open>\<open>yaml.safe_load(...) or {}\<close>.\<close>

definition load_or_empty :: "'s vault \<Rightarrow> string \<Rightarrow> ('s, json) vaulted" where
  "load_or_empty srv f = abind (ask srv (SopsDecrypt f)) (\<lambda>d. ret (py_or d (JObj [])))"

definition decrypt_sops :: "'s vault \<Rightarrow> string \<Rightarrow> ('s, json) vaulted" where
  "decrypt_sops srv f =
     abind (ask_bool srv (FileExists f)) (\<lambda>there.
       if \<not> there then ret (JObj [])
       else
         abind (ask_bool srv SopsInstalled) (\<lambda>installed.
           if \<not> installed then ret (JObj [])
           else catch_process (load_or_empty srv f) (ret (JObj []))))"

definition encrypt_in_place :: "'s vault \<Rightarrow> string \<Rightarrow> ('s, bool) vaulted" where
  "encrypt_in_place srv f = abind (ask srv (SopsEncrypt f)) (\<lambda>_. ret True)"

definition ensure_sops_file :: "'s vault \<Rightarrow> string \<Rightarrow> ('s, bool) vaulted" where
  "ensure_sops_file srv f =
     abind (ask_bool srv (FileExists f)) (\<lambda>there.
       if there then ret True
       else
         abind (ask srv (WriteText f (JObj []))) (\<lambda>_.
           catch_process (encrypt_in_place srv f)
             (abind (ask srv (Unlink f)) (\<lambda>_. ret False))))"

definition encrypt_sops_file :: "'s vault \<Rightarrow> string \<Rightarrow> json \<Rightarrow> ('s, bool) vaulted" where
  "encrypt_sops_file srv f data =
     abind (ask srv (WriteText f data)) (\<lambda>_. catch_process (encrypt_in_place srv f) (ret False))"

text \<open>Assigning into a document that is no mapping raises.\<close>

definition update_document :: "json \<Rightarrow> obj \<Rightarrow> exn + json" where
  "update_document d secrets =
     (case d of
        JObj kvs \<Rightarrow> Inr (JObj (set_all kvs secrets))
      | _ \<Rightarrow> if secrets = [] then Inr d else Inl (TypeError ''item assignment''))"

definition batch_update_secrets :: "'s vault \<Rightarrow> string \<Rightarrow> obj \<Rightarrow> ('s, bool) vaulted" where
  "batch_update_secrets srv f secrets =
     abind (ask_bool srv SopsInstalled) (\<lambda>installed.
       if \<not> installed then ret False
       else
         abind (ensure_sops_file srv f) (\<lambda>ready.
           if \<not> ready then ret False
           else
             catch_process
               (abind (load_or_empty srv f) (\<lambda>d.
                abind (lift (update_document d secrets)) (\<lambda>data.
                  encrypt_sops_file srv f data)))
               (ret False)))"

definition update_secret_key :: "'s vault \<Rightarrow> string \<Rightarrow> string \<Rightarrow> json \<Rightarrow> ('s, bool) vaulted" where
  "update_secret_key srv f key_path v = batch_update_secrets srv f [(key_path, v)]"

section \<open>Single keys\<close>

definition set_secret :: "'s vault \<Rightarrow> string \<Rightarrow> string \<Rightarrow> json \<Rightarrow> ('s, bool) vaulted" where
  "set_secret srv env key_path v =
     abind (ask_bool srv (FileExists (enc_file env))) (\<lambda>there.
       if \<not> there then ret False
       else abind (ask srv (SopsSet (enc_file env) (path_of key_path) v)) (\<lambda>rc. ret (py_eq rc (JInt 0))))"

definition unset_secret :: "'s vault \<Rightarrow> string \<Rightarrow> string \<Rightarrow> ('s, bool) vaulted" where
  "unset_secret srv env key_path =
     abind (ask_bool srv (FileExists (enc_file env))) (\<lambda>there.
       if \<not> there then ret False
       else abind (ask srv (SopsUnset (enc_file env) (path_of key_path))) (\<lambda>rc. ret (py_eq rc (JInt 0))))"

text \<open>What \<open>show_secret\<close> returns: the text of a scalar, or the JSON text of a container.\<close>

datatype shown = ShownText string | ShownJson json

definition shown_of :: "json \<Rightarrow> shown option" where
  "shown_of v =
     (case v of
        JNull \<Rightarrow> None
      | JArr xs \<Rightarrow> Some (ShownJson v)
      | JObj kvs \<Rightarrow> Some (ShownJson v)
      | _ \<Rightarrow> Some (ShownText (py_str v)))"

definition show_secret :: "'s vault \<Rightarrow> string \<Rightarrow> string \<Rightarrow> ('s, shown option) vaulted" where
  "show_secret srv env key_path =
     abind (ask_bool srv (FileExists (enc_file env))) (\<lambda>there.
       if \<not> there then ret None
       else
         catch_process
           (abind (load_or_empty srv (enc_file env)) (\<lambda>d. ret (shown_of (resolve_key d key_path))))
           (ret None))"

section \<open>What they send\<close>

definition vault_reads :: "vault_call \<Rightarrow> bool" where
  "vault_reads q =
     (case q of FileExists _ \<Rightarrow> True | SopsInstalled \<Rightarrow> True | SopsDecrypt _ \<Rightarrow> True | _ \<Rightarrow> False)"

lemma emits_catch_process [emits_intros]: "emits P m \<Longrightarrow> emits P h \<Longrightarrow> emits P (catch_process m h)"
  unfolding catch_process_def by (intro emits_intros)

lemma emits_ask_bool [emits_intros]: "P q \<Longrightarrow> emits P (ask_bool srv q)"
  unfolding ask_bool_def by (intro emits_intros)

lemma emits_load_or_empty [emits_intros]: "P (SopsDecrypt f) \<Longrightarrow> emits P (load_or_empty srv f)"
  unfolding load_or_empty_def by (intro emits_intros)

lemma emits_decrypt_sops [emits_intros]:
  "(\<And>q. vault_reads q \<Longrightarrow> P q) \<Longrightarrow> emits P (decrypt_sops srv f)"
  unfolding decrypt_sops_def by (intro emits_intros) (simp_all add: vault_reads_def)

lemma emits_set_secret [emits_intros]:
  "(\<And>q. vault_reads q \<Longrightarrow> P q) \<Longrightarrow> P (SopsSet (enc_file env) (path_of key_path) v) \<Longrightarrow>
     emits P (set_secret srv env key_path v)"
  unfolding set_secret_def by (intro emits_intros) (simp_all add: vault_reads_def)

lemma catch_process_Val:
  "catch_process m h n = (Val x, n'') \<longleftrightarrow>
     m n = (Val x, n'') \<or> (\<exists>e n'. m n = (Exn e, n') \<and> process_error e \<and> h n' = (Val x, n''))"
  by (auto simp: catch_process_def attempt_Val split: if_splits)

end
