(* ===== verification/SecretsManager.thy ===== *)
theory SecretsManager
  imports SecretVault SecretCatalog
begin

text \<open>
  The operations of \<open>SecretsManager\<close> in \<open>toolkit/features/secrets_manager.py\<close>: \<open>audit\<close>,
  \<open>init_machine_secrets\<close>, \<open>generate_jwks\<close>, \<open>hash_oidc_secrets\<close>, \<open>get_catalog\<close> and \<open>rotate_secret\<close>, with
  \<open>orphan_key_paths\<close> and its baseline.

  The catalog, \<open>IMMUTABLE_SECRETS\<close> and the keys of the break-glass accounts are arguments; \<open>SecretData\<close>
  holds the first two. What is logged is left out, and so are the notes of a rotation.
\<close>

section \<open>Orphans\<close>

definition sops_metadata_key :: string where
  "sops_metadata_key = ''sops''"

definition key_paths :: "secret_spec list \<Rightarrow> string list" where
  "key_paths catalog = map ss_key_path catalog"

text \<open>\<open>walk\<close>: the leaves below \<open>pre\<close>, without the subtrees that are owned.\<close>

fun walk_orphans :: "string list \<Rightarrow> string \<Rightarrow> json \<Rightarrow> string list"
  and walk_entries :: "string list \<Rightarrow> string \<Rightarrow> obj \<Rightarrow> string list" where
  "walk_orphans owned pre (JObj kvs) = walk_entries owned pre kvs"
| "walk_orphans owned pre (JArr xs) = (if pre \<noteq> [] \<and> pre \<notin> set owned then [pre] else [])"
| "walk_orphans owned pre (JStr s) = (if pre \<noteq> [] \<and> pre \<notin> set owned then [pre] else [])"
| "walk_orphans owned pre (JInt i) = (if pre \<noteq> [] \<and> pre \<notin> set owned then [pre] else [])"
| "walk_orphans owned pre (JBool b) = (if pre \<noteq> [] \<and> pre \<notin> set owned then [pre] else [])"
| "walk_orphans owned pre JNull = (if pre \<noteq> [] \<and> pre \<notin> set owned then [pre] else [])"
| "walk_entries owned pre [] = []"
| "walk_entries owned pre ((k, v) # kvs) =
     (if pre = [] \<and> k = sops_metadata_key then []
      else if sub_key pre k \<in> set owned then []
      else walk_orphans owned (sub_key pre k) v) @ walk_entries owned pre kvs"

definition orphan_key_paths :: "secret_spec list \<Rightarrow> json \<Rightarrow> string list" where
  "orphan_key_paths catalog decrypted = sort (walk_orphans (key_paths catalog) [] decrypted)"

text \<open>\<open>None\<close> is the missing baseline file.\<close>

definition baselined_orphans :: "json option \<Rightarrow> exn + string list" where
  "baselined_orphans data =
     (case data of
        None \<Rightarrow> Inl (ValueError ''orphan baseline missing'')
      | Some d \<Rightarrow>
          ebind (py_get (py_or d (JObj [])) ''orphans'') (\<lambda>entries.
            case py_or entries (JObj []) of
              JObj kvs \<Rightarrow> Inr (map fst kvs)
            | _ \<Rightarrow> Inl (ValueError ''orphans must be a mapping'')))"

definition unbaselined_orphans :: "secret_spec list \<Rightarrow> json option \<Rightarrow> json \<Rightarrow> exn + string list" where
  "unbaselined_orphans catalog data decrypted =
     ebind (baselined_orphans data) (\<lambda>accepted.
       Inr (filter (\<lambda>k. k \<notin> set accepted) (orphan_key_paths catalog decrypted)))"

section \<open>Audit\<close>

record audit_result =
  ar_env :: string
  ar_present :: "string list"
  ar_missing :: "string list"
  ar_unexpected :: "string list"
  ar_malformed :: "string list"

definition get_catalog :: "secret_spec list \<Rightarrow> string option \<Rightarrow> secret_spec list" where
  "get_catalog catalog env =
     (case env of None \<Rightarrow> catalog | Some e \<Rightarrow> filter (\<lambda>s. e \<in> set (ss_envs s)) catalog)"

text \<open>A value that is set and is no placeholder, and one that has the declared shape.\<close>

definition configured :: "json \<Rightarrow> bool" where
  "configured v \<longleftrightarrow> v \<noteq> JNull \<and> strip (py_str v) \<noteq> [] \<and> \<not> is_placeholder v"

definition well_shaped :: "secret_spec \<Rightarrow> json \<Rightarrow> bool" where
  "well_shaped s v = (case ss_value_pattern s of None \<Rightarrow> True | Some r \<Rightarrow> fullmatch r (py_str v))"

definition audit_entry :: "json \<Rightarrow> audit_result \<Rightarrow> secret_spec \<Rightarrow> audit_result" where
  "audit_entry decrypted r s =
     (let v = resolve_key decrypted (ss_key_path s) in
      if configured v
      then (if well_shaped s v then r\<lparr>ar_present := ar_present r @ [ss_key_path s]\<rparr>
            else r\<lparr>ar_malformed := ar_malformed r @ [ss_key_path s]\<rparr>)
      else if \<not> ss_optional s then r\<lparr>ar_missing := ar_missing r @ [ss_key_path s]\<rparr> else r)"

definition audit_report :: "secret_spec list \<Rightarrow> string \<Rightarrow> obj \<Rightarrow> audit_result" where
  "audit_report catalog env decrypted =
     (let none = \<lparr>ar_env = env, ar_present = [], ar_missing = [], ar_unexpected = [], ar_malformed = []\<rparr>;
          entries = get_catalog catalog (Some env) in
      if decrypted = [] then none\<lparr>ar_missing := key_paths entries\<rparr>
      else (foldl (audit_entry (JObj decrypted)) none entries)
             \<lparr>ar_unexpected := orphan_key_paths catalog (JObj decrypted)\<rparr>)"

text \<open>One file merged over what was read so far, if it is there and holds anything.\<close>

definition merge_file :: "'s vault \<Rightarrow> string \<Rightarrow> obj \<Rightarrow> ('s, obj) vaulted" where
  "merge_file srv f decrypted =
     abind (ask_bool srv (FileExists f)) (\<lambda>there.
       if \<not> there then ret decrypted
       else
         abind (decrypt_sops srv f) (\<lambda>d.
           if \<not> truthy d then ret decrypted
           else abind (lift (py_items d)) (\<lambda>kvs. ret (deep_update decrypted kvs))))"

definition audit :: "'s vault \<Rightarrow> secret_spec list \<Rightarrow> string \<Rightarrow> ('s, audit_result) vaulted" where
  "audit srv catalog env =
     abind (merge_file srv (enc_file ''common'') []) (\<lambda>decrypted.
     abind (merge_file srv (enc_file env) decrypted) (\<lambda>decrypted.
       ret (audit_report catalog env decrypted)))"

definition audit_all :: "'s vault \<Rightarrow> secret_spec list \<Rightarrow> ('s, audit_result list) vaulted" where
  "audit_all srv catalog = amap (audit srv catalog) [''dev'', ''staging'', ''prod'']"

section \<open>Generating\<close>

definition auto_kinds :: "secret_kind list" where
  "auto_kinds = [RANDOM_HEX, RANDOM_TOKEN, OIDC_CLIENT_SECRET, RSA_KEY]"

definition rsa_key_size :: int where
  "rsa_key_size = 4096"

text \<open>An empty string where the kind has no generator.\<close>

definition generate_secret :: "'s vault \<Rightarrow> secret_spec \<Rightarrow> ('s, json) vaulted" where
  "generate_secret srv s =
     (case ss_kind s of
        RANDOM_HEX \<Rightarrow> ask srv (TokenHex (ss_length s))
      | RANDOM_TOKEN \<Rightarrow> ask srv (TokenUrlsafe (ss_length s))
      | OIDC_CLIENT_SECRET \<Rightarrow> ask srv (TokenUrlsafe (ss_length s))
      | RSA_KEY \<Rightarrow> ask srv (RsaKey rsa_key_size)
      | _ \<Rightarrow> ret (JStr []))"

text \<open>The names given to \<open>--rotate\<close> are refused together, before anything is read.\<close>

definition rotate_refused :: "secret_spec list \<Rightarrow> string list \<Rightarrow> string \<Rightarrow> string list \<Rightarrow> bool" where
  "rotate_refused catalog immutable env named \<longleftrightarrow>
     (let entries = get_catalog catalog (Some env) in
      list_ex (\<lambda>k. k \<notin> set (key_paths entries)) named \<or>
      list_ex (\<lambda>k. k \<notin> set (key_paths (filter (\<lambda>s. ss_kind s \<in> set auto_kinds) entries))) named \<or>
      list_ex (\<lambda>k. k \<in> set immutable) named)"

definition due :: "string list \<Rightarrow> string \<Rightarrow> string list \<Rightarrow> string list \<Rightarrow> secret_spec \<Rightarrow> bool" where
  "due immutable env named present s \<longleftrightarrow>
     env \<in> set (ss_envs s) \<and> ss_kind s \<in> set auto_kinds \<and> ss_key_path s \<notin> set immutable \<and>
     (named = [] \<or> ss_key_path s \<in> set named) \<and> ss_key_path s \<notin> set present"

definition generate_entry ::
  "'s vault \<Rightarrow> string list \<Rightarrow> string \<Rightarrow> string list \<Rightarrow> string list \<Rightarrow> secret_spec \<Rightarrow> obj \<Rightarrow> ('s, obj) vaulted" where
  "generate_entry srv immutable env named present s generated =
     (if \<not> due immutable env named present s then ret generated
      else
        abind (generate_secret srv s) (\<lambda>v.
          ret (if truthy v then oset generated (ss_key_path s) v else generated)))"

definition init_machine_secrets ::
  "'s vault \<Rightarrow> secret_spec list \<Rightarrow> string list \<Rightarrow> string \<Rightarrow> bool \<Rightarrow> bool \<Rightarrow> string list \<Rightarrow> ('s, obj) vaulted" where
  "init_machine_secrets srv catalog immutable env dry_run force named =
     (if named \<noteq> [] \<and> rotate_refused catalog immutable env named then ret []
      else
        abind (if force \<or> named \<noteq> [] then ret []
               else abind (audit srv catalog env) (\<lambda>r. ret (ar_present r))) (\<lambda>present.
        abind (foreach (generate_entry srv immutable env named present) catalog []) (\<lambda>generated.
          if dry_run \<or> generated = [] then ret generated
          else
            abind (batch_update_secrets srv (enc_file env) generated) (\<lambda>ok.
              ret (if ok then generated else [])))))"

definition jwks_key_path :: string where
  "jwks_key_path = ''apps.services.security.authelia.oidc_jwks_private_key''"

definition generate_jwks :: "'s vault \<Rightarrow> string \<Rightarrow> ('s, json) vaulted" where
  "generate_jwks srv env =
     abind (ask srv (RsaKey rsa_key_size)) (\<lambda>pem.
     abind (update_secret_key srv (enc_file env) jwks_key_path pem) (\<lambda>ok.
       ret (if ok then pem else JStr [])))"

section \<open>Hashing\<close>

definition hash_entry :: "'s vault \<Rightarrow> json \<Rightarrow> secret_spec \<Rightarrow> obj \<Rightarrow> ('s, obj) vaulted" where
  "hash_entry srv decrypted s hashes =
     abind (ask srv (Argon2 (py_str (resolve_key decrypted (ss_derived_from s))))) (\<lambda>h.
       ret (oset hashes (ss_key_path s) h))"

definition hash_oidc_secrets :: "'s vault \<Rightarrow> secret_spec list \<Rightarrow> string \<Rightarrow> ('s, obj) vaulted" where
  "hash_oidc_secrets srv catalog env =
     abind (decrypt_sops srv (enc_file env)) (\<lambda>decrypted.
       if \<not> truthy decrypted then throw (HashSourceMissing [])
       else
         let specs = hashed_specs catalog env;
             absent = filter (\<lambda>k. \<not> truthy (resolve_key decrypted k)) (map ss_derived_from specs) in
         if absent \<noteq> [] then throw (HashSourceMissing absent)
         else
           abind (foreach (hash_entry srv decrypted) specs []) (\<lambda>hashes.
             if hashes = [] then ret hashes
             else
               abind (batch_update_secrets srv (enc_file env) hashes) (\<lambda>ok.
                 ret (if ok then hashes else []))))"

section \<open>Rotating one secret\<close>

record secret_rotation =
  ro_key_path :: string
  ro_env :: string
  ro_derived :: "string list"
  ro_restart_services :: "string list"

definition next_steps :: "secret_rotation \<Rightarrow> string list" where
  "next_steps p =
     [''git add -A && git commit -m '' @ [CHR 0x27] @ ''chore(secrets): rotate '' @ ro_key_path p @
        '' ('' @ ro_env p @ '')'' @ [CHR 0x27],
      ''open a PR and merge it -- until then Argo CD will revert this on the next reconcile''] @
     (if ro_restart_services p = [] then []
      else [''after the merge syncs, restart the consumers so they read the new value: '' @
            join '', '' (ro_restart_services p)])"

text \<open>The digest of a derived entry, or none where the kind has no derivation.\<close>

definition derive_digest :: "'s vault \<Rightarrow> secret_spec \<Rightarrow> json \<Rightarrow> ('s, json option) vaulted" where
  "derive_digest srv s v =
     (case ss_kind s of
        ARGON2_HASH \<Rightarrow> abind (ask srv (Argon2 (py_str v))) (\<lambda>h. ret (Some h))
      | HTPASSWD \<Rightarrow> abind (ask srv (Bcrypt (py_str v))) (\<lambda>h. ret (Some h))
      | _ \<Rightarrow> ret None)"

definition rotate_entry ::
  "'s vault \<Rightarrow> string \<Rightarrow> string \<Rightarrow> json \<Rightarrow> secret_spec \<Rightarrow> string list \<Rightarrow> ('s, string list) vaulted" where
  "rotate_entry srv env source_path v s written =
     (if ss_derived_from s \<noteq> source_path \<or> env \<notin> set (ss_envs s) then ret written
      else
        abind (derive_digest srv s v) (\<lambda>digest.
          case digest of
            None \<Rightarrow> ret written
          | Some h \<Rightarrow>
              abind (set_secret srv env (ss_key_path s) h) (\<lambda>ok.
                ret (if ok then written @ [ss_key_path s] else written))))"

definition rotate_derived :: "'s vault \<Rightarrow> secret_spec list \<Rightarrow> string \<Rightarrow> string \<Rightarrow> json \<Rightarrow> ('s, string list) vaulted" where
  "rotate_derived srv catalog env source_path v =
     foreach (rotate_entry srv env source_path v) catalog []"

text \<open>What refuses a rotation before anything is generated, in the order the command asks.\<close>

definition rotation_refusal ::
  "secret_spec list \<Rightarrow> string list \<Rightarrow> string list \<Rightarrow> string \<Rightarrow> string \<Rightarrow> string + secret_spec" where
  "rotation_refusal catalog break_glass immutable env key_path =
     (case find (\<lambda>s. ss_key_path s = key_path) catalog of
        None \<Rightarrow> Inl ''not in SECRET_CATALOG''
      | Some s \<Rightarrow>
          if key_path \<in> set break_glass then Inl ''break-glass account password''
          else if key_path \<in> set immutable then Inl ''immutable''
          else if ss_kind s \<in> set [EXTERNAL, CROWDSEC_API] then Inl ''minted by another system''
          else if ss_kind s = HUB_MANAGED then Inl ''HUB_MANAGED''
          else if env \<notin> set (ss_envs s) then Inl ''not declared for env''
          else Inr s)"

definition rotate_secret ::
  "'s vault \<Rightarrow> secret_spec list \<Rightarrow> string list \<Rightarrow> string list \<Rightarrow> string \<Rightarrow> string \<Rightarrow> ('s, secret_rotation) vaulted" where
  "rotate_secret srv catalog break_glass immutable env key_path =
     (case rotation_refusal catalog break_glass immutable env key_path of
        Inl why \<Rightarrow> throw (RotationRefused why)
      | Inr s \<Rightarrow>
          abind (generate_secret srv s) (\<lambda>v.
            if \<not> truthy v then throw (RotationRefused ''no generator'')
            else
              abind (set_secret srv env key_path v) (\<lambda>ok.
                if \<not> ok then throw (RotationRefused ''failed to write'')
                else
                  abind (rotate_derived srv catalog env key_path v) (\<lambda>derived.
                    ret \<lparr>ro_key_path = key_path, ro_env = env, ro_derived = derived,
                         ro_restart_services = ss_services s\<rparr>))))"

end
