(* ===== verification/SecretsFacts.thy ===== *)
theory SecretsFacts
  imports SecretsManager
begin

text \<open>
  What the operations of the secret store do to it. The store is any server of the vault's calls that
  keeps documents as a file system and \<open>sops\<close> do, and that may fail at any call but a write of text:
  \<open>store\<close> states it of a view \<open>content\<close> of the server's state.
\<close>

section \<open>A store\<close>

definition store :: "('s \<Rightarrow> string \<Rightarrow> json option) \<Rightarrow> 's vault \<Rightarrow> bool" where
  "store content srv \<longleftrightarrow> (\<forall>q w.
     case q of
       FileExists f \<Rightarrow> content (snd (srv q w)) = content w \<and>
         (\<forall>b. fst (srv q w) = Inr b \<longrightarrow> (truthy b \<longleftrightarrow> content w f \<noteq> None))
     | SopsDecrypt f \<Rightarrow> content (snd (srv q w)) = content w \<and>
         (\<forall>d. fst (srv q w) = Inr d \<longrightarrow> content w f = Some d)
     | WriteText f d \<Rightarrow> content (snd (srv q w)) = (content w)(f \<mapsto> d) \<and> (\<exists>x. fst (srv q w) = Inr x)
     | Unlink f \<Rightarrow> content (snd (srv q w)) = (content w)(f := None)
     | SopsSet f p v \<Rightarrow>
         (if \<exists>rc. fst (srv q w) = Inr rc \<and> py_eq rc (JInt 0)
          then \<exists>kvs. content w f = Some (JObj kvs) \<and> content (snd (srv q w)) = (content w)(f \<mapsto> JObj (set_nested kvs p v))
          else content (snd (srv q w)) = content w)
     | SopsUnset f p \<Rightarrow> True
     | _ \<Rightarrow> content (snd (srv q w)) = content w)"

text \<open>The value a file holds at a key path, null where it holds none.\<close>

definition held :: "json option \<Rightarrow> string \<Rightarrow> json" where
  "held d key_path = (case d of None \<Rightarrow> JNull | Some t \<Rightarrow> resolve_key t key_path)"

abbreviation at_key :: "('s \<Rightarrow> string \<Rightarrow> json option) \<Rightarrow> string \<Rightarrow> string \<Rightarrow> json \<Rightarrow> (vault_call, 's) net \<Rightarrow> bool" where
  "at_key content f k v n \<equiv> held (content (world n) f) k = v"

definition leaves_store :: "vault_call \<Rightarrow> bool" where
  "leaves_store q =
     (case q of WriteText _ _ \<Rightarrow> False | Unlink _ \<Rightarrow> False | SopsSet _ _ _ \<Rightarrow> False | SopsUnset _ _ \<Rightarrow> False | _ \<Rightarrow> True)"

lemma store_leaves: "store content srv \<Longrightarrow> leaves_store q \<Longrightarrow> content (snd (srv q w)) = content w"
  unfolding store_def leaves_store_def by (cases q) (auto dest!: spec [of _ q] dest: spec [of _ w])

lemma call_Val: "call srv q n = (Val r, n') \<longleftrightarrow> r = fst (srv q (world n)) \<and>
    n' = n\<lparr>sent := sent n @ [q], world := snd (srv q (world n))\<rparr>"
  by (auto simp: call_def split: prod.split)

lemma ask_run:
  "ask srv q n =
     ((case fst (srv q (world n)) of Inl e \<Rightarrow> Exn e | Inr x \<Rightarrow> Val x),
      n\<lparr>sent := sent n @ [q], world := snd (srv q (world n))\<rparr>)"
  by (auto simp: ask_def call_def abind_def lift_def throw_def ret_def split: prod.split sum.split)

lemma answers_leaves [answers_intros]:
  assumes "store content srv" and "leaves_store q"
  shows "answers (at_key content f k v) (ask srv q)"
  by (auto simp: answers_def ask_run store_leaves [OF assms] split: sum.split)

lemma answers_ask_bool [answers_intros]:
  "answers I (ask srv q) \<Longrightarrow> answers I (ask_bool srv q)"
  unfolding ask_bool_def by (intro answers_intros)

lemma answers_catch_process [answers_intros]:
  "answers I m \<Longrightarrow> answers I h \<Longrightarrow> answers I (catch_process m h)"
  unfolding catch_process_def by (intro answers_intros)

lemma resolve_py_or [simp]: "resolve_key (py_or d (JObj [])) k = resolve_key d k"
proof -
  have "lookup_path d (path_of k) = None" if "\<not> truthy d"
    using that path_of_nonempty [of k] by (cases "path_of k"; cases d) auto
  moreover have "lookup_path (JObj []) (path_of k) = None"
    using path_of_nonempty [of k] by (cases "path_of k") auto
  ultimately show ?thesis by (simp add: py_or_def resolve_key_def)
qed

section \<open>Updating a file\<close>

lemmas vault_defs = decrypt_sops_def load_or_empty_def encrypt_in_place_def ensure_sops_file_def encrypt_sops_file_def

lemma answers_decrypt_sops [answers_intros]:
  "store content srv \<Longrightarrow> answers (at_key content f k v) (decrypt_sops srv g)"
  unfolding vault_defs by (intro answers_intros) (simp_all add: leaves_store_def)

lemma load_or_empty_run:
  assumes "store content srv"
  shows "(case load_or_empty srv f n of
      (Val d, n') \<Rightarrow> content (world n') = content (world n) \<and> (\<exists>d0. content (world n) f = Some d0 \<and> d = py_or d0 (JObj []))
    | (_, n') \<Rightarrow> content (world n') = content (world n))"
  using assms [unfolded store_def, rule_format, of "SopsDecrypt f" "world n"]
  by (auto simp: load_or_empty_def ask_run abind_def ret_def split: sum.split)

lemma answers_encrypt_in_place [answers_intros]:
  "store content srv \<Longrightarrow> answers (at_key content f k v) (catch_process (encrypt_in_place srv g) (ret b))"
  unfolding vault_defs by (intro answers_intros) (simp_all add: leaves_store_def)

lemma write_text_run:
  assumes "store content srv"
  shows "\<exists>x. ask srv (WriteText f d) n =
    (Val x, n\<lparr>sent := sent n @ [WriteText f d], world := snd (srv (WriteText f d) (world n))\<rparr>) \<and>
    content (snd (srv (WriteText f d) (world n))) = (content (world n))(f \<mapsto> d)"
  using assms [unfolded store_def, rule_format, of "WriteText f d" "world n"] by (auto simp: ask_run)

lemma answers_write:
  assumes "store content srv" and "answers (at_key content f k v) m"
    and "g = f \<Longrightarrow> resolve_key d k = v" and "at_key content f k v n"
  shows "fst (abind (ask srv (WriteText g d)) (\<lambda>_. m) n) \<noteq> Stuck
    \<and> at_key content f k v (snd (abind (ask srv (WriteText g d)) (\<lambda>_. m) n))"
proof -
  obtain x n' where w: "ask srv (WriteText g d) n = (Val x, n')" "content (world n') = (content (world n))(g \<mapsto> d)"
    using write_text_run [OF assms(1), where f = g and d = d and n = n] by auto
  then have "at_key content f k v n'" using assms(3,4) by (auto simp: held_def)
  then show ?thesis using assms(2) w(1) by (simp add: answers_def abind_simps)
qed

lemma answers_update:
  assumes "store content srv" and "\<forall>j \<in> fst ` set secrets. apart j k"
  shows "answers (at_key content f k v)
    (abind (load_or_empty srv g) (\<lambda>d. abind (lift (update_document d secrets)) (\<lambda>data. encrypt_sops_file srv g data)))"
  unfolding answers_def
proof (intro allI impI)
  fix n
  assume at: "at_key content f k v n"
  note run = load_or_empty_run [OF assms(1), where f = g and n = n]
  obtain r n' where l: "load_or_empty srv g n = (r, n')" by fastforce
  show "fst (abind (load_or_empty srv g) (\<lambda>d. abind (lift (update_document d secrets)) (\<lambda>data. encrypt_sops_file srv g data)) n) \<noteq> Stuck
    \<and> at_key content f k v (snd (abind (load_or_empty srv g) (\<lambda>d. abind (lift (update_document d secrets)) (\<lambda>data. encrypt_sops_file srv g data)) n))"
  proof (cases r)
    case (Val d)
    with run l obtain d0 where same: "content (world n') = content (world n)" and
      d0: "content (world n) g = Some d0" "d = py_or d0 (JObj [])" by auto
    show ?thesis
    proof (cases "update_document d secrets")
      case (Inl e)
      with l Val same at show ?thesis by (simp add: act_simps)
    next
      case (Inr data)
      have "resolve_key data k = resolve_key d k"
        using Inr resolve_set_all_other [OF assms(2)] by (auto simp: update_document_def split: json.splits if_splits)
      then have "g = f \<Longrightarrow> resolve_key data k = v" using at d0 by (simp add: held_def)
      moreover have "at_key content f k v n'" using at same by simp
      ultimately show ?thesis
        using answers_write [OF assms(1) answers_encrypt_in_place [OF assms(1)], where g = g and f = f and d = data and k = k and v = v and n = n']
        by (simp add: act_simps l Val Inr encrypt_sops_file_def)
    qed
  next
    case (Exn e)
    with run l at show ?thesis by (simp add: act_simps)
  next
    case Stuck
    then show ?thesis using l by (auto simp: load_or_empty_def ask_run abind_def ret_def split: sum.splits)
  qed
qed

lemma resolve_empty [simp]: "resolve_key (JObj []) k = JNull"
  using path_of_nonempty [of k] by (cases "path_of k") (simp_all add: resolve_key_def)

lemma ask_bool_run:
  "ask_bool srv q n =
     ((case fst (srv q (world n)) of Inl e \<Rightarrow> Exn e | Inr x \<Rightarrow> Val (truthy x)),
      n\<lparr>sent := sent n @ [q], world := snd (srv q (world n))\<rparr>)"
  by (auto simp: ask_bool_def ask_run abind_def ret_def split: sum.split)

lemma file_exists_run:
  assumes "store content srv"
  shows "(case ask_bool srv (FileExists f) n of
      (r, n') \<Rightarrow> content (world n') = content (world n) \<and> r \<noteq> Stuck \<and>
        (\<forall>there. r = Val there \<longrightarrow> there = (content (world n) f \<noteq> None)))"
  using assms [unfolded store_def, rule_format, of "FileExists f" "world n"]
  by (auto simp: ask_bool_run split: sum.split)

lemma answers_absent:
  assumes "store content srv" and "content (world n) g = None" and "at_key content f k v n"
  shows "fst (abind (ask srv (WriteText g (JObj []))) (\<lambda>_.
           catch_process (encrypt_in_place srv g) (abind (ask srv (Unlink g)) (\<lambda>_. ret False))) n) \<noteq> Stuck
    \<and> at_key content f k v (snd (abind (ask srv (WriteText g (JObj []))) (\<lambda>_.
           catch_process (encrypt_in_place srv g) (abind (ask srv (Unlink g)) (\<lambda>_. ret False))) n))"
proof -
  have v: "g = f \<Longrightarrow> v = JNull" using assms(2,3) by (auto simp: held_def)
  have unlink: "answers (at_key content f k v) (abind (ask srv (Unlink g)) (\<lambda>_. ret False))"
    using assms(1) [unfolded store_def, rule_format, of "Unlink g"] v
    by (auto simp: answers_def ask_run abind_def ret_def held_def split: sum.split)
  have "answers (at_key content f k v) (catch_process (encrypt_in_place srv g) (abind (ask srv (Unlink g)) (\<lambda>_. ret False)))"
    unfolding encrypt_in_place_def
    by (intro answers_catch_process unlink answers_abind [OF answers_leaves [OF assms(1)]] answers_ret)
      (simp_all add: leaves_store_def)
  from answers_write [OF assms(1) this _ assms(3)] v show ?thesis by simp
qed

lemma answers_ensure [answers_intros]:
  assumes "store content srv"
  shows "answers (at_key content f k v) (ensure_sops_file srv g)"
  unfolding answers_def
proof (intro allI impI)
  fix n
  assume at: "at_key content f k v n"
  obtain r n' where e: "ask_bool srv (FileExists g) n = (r, n')" by fastforce
  with file_exists_run [OF assms, where f = g and n = n] at have
    at': "at_key content f k v n'" and r: "r \<noteq> Stuck" "r = Val False \<Longrightarrow> content (world n') g = None" by auto
  show "fst (ensure_sops_file srv g n) \<noteq> Stuck \<and> at_key content f k v (snd (ensure_sops_file srv g n))"
  proof (cases r)
    case (Val there)
    then show ?thesis
      using e at' r answers_absent [OF assms _ at', of g]
      by (cases there) (simp_all add: ensure_sops_file_def act_simps)
  qed (use e at' r in \<open>simp_all add: ensure_sops_file_def act_simps\<close>)
qed

lemma answers_batch [answers_intros]:
  assumes "store content srv" and "\<forall>j \<in> fst ` set secrets. apart j k"
  shows "answers (at_key content f k v) (batch_update_secrets srv g secrets)"
  unfolding batch_update_secrets_def using assms
  by (intro answers_intros answers_update) (simp_all add: leaves_store_def)

text \<open>A key set on its own.\<close>

lemma answers_set_secret [answers_intros]:
  assumes "store content srv" and "apart j k"
  shows "answers (at_key content f k v) (set_secret srv env j x)"
proof -
  have "answers (at_key content f k v) (ask srv (SopsSet g (path_of j) x))" for g
    unfolding answers_def
  proof (intro allI impI)
    fix n
    assume at: "at_key content f k v n"
    have "resolve_key (JObj (set_nested kvs (path_of j) x)) k = resolve_key (JObj kvs) k" for kvs
      using resolve_set_nested_other [OF assms(2)] by (simp add: set_nested_key_def)
    with at show "fst (ask srv (SopsSet g (path_of j) x) n) \<noteq> Stuck
        \<and> at_key content f k v (snd (ask srv (SopsSet g (path_of j) x) n))"
      using assms(1) [unfolded store_def, rule_format, of "SopsSet g (path_of j) x" "world n"]
      by (auto simp: ask_run held_def split: sum.split if_splits)
  qed
  note set = this
  show ?thesis
    unfolding set_secret_def
    by (intro answers_abind [OF answers_ask_bool [OF answers_leaves [OF assms(1)]]] answers_if answers_ret
          answers_abind [OF set]) (simp_all add: leaves_store_def)
qed

section \<open>Initialising\<close>

lemma answers_generate [answers_intros]:
  "store content srv \<Longrightarrow> answers (at_key content f k v) (generate_secret srv s)"
  unfolding generate_secret_def
  by (cases "ss_kind s") (auto intro!: answers_intros simp: leaves_store_def)

lemma answers_merge_file [answers_intros]:
  "store content srv \<Longrightarrow> answers (at_key content f k v) (merge_file srv g d)"
  unfolding merge_file_def by (intro answers_intros) (simp_all add: leaves_store_def)

lemma answers_audit [answers_intros]:
  "store content srv \<Longrightarrow> answers (at_key content f k v) (audit srv catalog env)"
  unfolding audit_def by (intro answers_intros)

text \<open>Only entries that are due are generated.\<close>

lemma generated_due:
  assumes "foreach (generate_entry srv immutable env named present) catalog gen0 n = (Val gen, n')"
    and "j \<in> fst ` set gen"
  shows "j \<in> fst ` set gen0 \<or> (\<exists>s \<in> set catalog. ss_key_path s = j \<and> due immutable env named present s)"
  using assms
proof (induction catalog arbitrary: gen0 n)
  case (Cons s catalog)
  from Cons.prems(1) obtain gen1 n1 where
    s: "generate_entry srv immutable env named present s gen0 n = (Val gen1, n1)" and
    rest: "foreach (generate_entry srv immutable env named present) catalog gen1 n1 = (Val gen, n')"
    by (auto simp: abind_Val)
  have "fst ` set gen1 \<subseteq> fst ` set gen0 \<union> (if due immutable env named present s then {ss_key_path s} else {})"
  proof -
    have "gen1 = gen0 \<or> due immutable env named present s \<and> (\<exists>v. gen1 = oset gen0 (ss_key_path s) v)"
      using s by (auto simp: generate_entry_def abind_Val split: if_splits)
    then show ?thesis by (elim disjE conjE exE) simp_all
  qed
  with Cons.IH [OF rest Cons.prems(2)] show ?case by (auto split: if_splits)
qed simp

lemma due_present: "due immutable env named present s \<Longrightarrow> due immutable env named [] s"
  by (simp add: due_def)

definition write_generated ::
  "'s vault \<Rightarrow> secret_spec list \<Rightarrow> string list \<Rightarrow> string \<Rightarrow> bool \<Rightarrow> string list \<Rightarrow> string list \<Rightarrow> ('s, obj) vaulted" where
  "write_generated srv catalog immutable env dry_run named present =
     abind (foreach (generate_entry srv immutable env named present) catalog []) (\<lambda>generated.
       if dry_run \<or> generated = [] then ret generated
       else
         abind (batch_update_secrets srv (enc_file env) generated) (\<lambda>ok.
           ret (if ok then generated else [])))"

lemma init_generates:
  "init_machine_secrets srv catalog immutable env dry_run force named =
     (if named \<noteq> [] \<and> rotate_refused catalog immutable env named then ret []
      else
        abind (if force \<or> named \<noteq> [] then ret []
               else abind (audit srv catalog env) (\<lambda>r. ret (ar_present r)))
          (write_generated srv catalog immutable env dry_run named))"
  by (simp add: init_machine_secrets_def write_generated_def [abs_def])

lemma answers_write_generated:
  assumes "store content srv"
    and "\<forall>s \<in> set catalog. due immutable env named present s \<longrightarrow> apart (ss_key_path s) k"
  shows "answers (at_key content f k v) (write_generated srv catalog immutable env dry_run named present)"
  unfolding answers_def
proof (intro allI impI)
  fix n
  assume at: "at_key content f k v n"
  let ?gens = "foreach (generate_entry srv immutable env named present) catalog []"
  let ?rest = "\<lambda>generated. if dry_run \<or> generated = [] then ret generated
       else abind (batch_update_secrets srv (enc_file env) generated) (\<lambda>ok. ret (if ok then generated else []))"
  have gens: "answers (at_key content f k v) ?gens"
    unfolding generate_entry_def using assms(1) by (intro answers_intros)
  obtain r n' where g: "?gens n = (r, n')" by fastforce
  note a = answersD [OF gens at g]
  have "fst (abind ?gens ?rest n) \<noteq> Stuck \<and> at_key content f k v (snd (abind ?gens ?rest n))"
  proof (cases r)
    case (Val gen)
    have "\<forall>j \<in> fst ` set gen. apart j k"
      using generated_due [OF g [unfolded Val]] assms(2) by fastforce
    then have "answers (at_key content f k v) (?rest gen)"
      using assms(1) by (intro answers_intros) auto
    then show ?thesis using a(2) g Val by (simp add: answers_def abind_simps)
  qed (use a g in \<open>simp_all add: act_simps\<close>)
  then show "fst (write_generated srv catalog immutable env dry_run named present n) \<noteq> Stuck
      \<and> at_key content f k v (snd (write_generated srv catalog immutable env dry_run named present n))"
    by (simp add: write_generated_def)
qed

lemma answers_init:
  assumes "store content srv"
    and "\<forall>s \<in> set catalog. due immutable env named [] s \<longrightarrow> apart (ss_key_path s) k"
  shows "answers (at_key content f k v) (init_machine_secrets srv catalog immutable env dry_run force named)"
proof -
  have "answers (at_key content f k v) (write_generated srv catalog immutable env dry_run named present)" for present
    using assms(2) due_present by (intro answers_write_generated assms(1)) blast
  then show ?thesis
    unfolding init_generates using assms(1)
    by (intro answers_if answers_ret answers_abind answers_audit)
qed

end
