(* ===== verification/SecretsRuns.thy ===== *)
theory SecretsRuns
  imports SecretsFacts
begin

text \<open>
  Runs of the secret store's operations that return: what a batch update leaves in its file, what a
  hashing and a rotation write, and which leaves of a vault are orphans. All of it over any catalog.
\<close>

section \<open>Orphans\<close>

definition extend :: "string \<Rightarrow> string list \<Rightarrow> string" where
  "extend pre p = foldl sub_key pre p"

lemma extend_simps [simp]:
  "extend pre [] = pre"
  "extend pre (k # p) = extend (sub_key pre k) p"
  by (simp_all add: extend_def)

lemma sub_key_nonempty: "k \<noteq> [] \<Longrightarrow> sub_key pre k \<noteq> []"
  by (simp add: sub_key_def)

lemma extend_append: "pre \<noteq> [] \<Longrightarrow> p \<noteq> [] \<Longrightarrow> extend pre p = pre @ ''.'' @ join ''.'' p"
proof (induction p arbitrary: pre)
  case (Cons k p)
  then show ?case using Cons.IH [of "sub_key pre k"] by (cases p) (simp_all add: sub_key_def)
qed simp

lemma extend_join:
  assumes "p \<noteq> []" and "hd p \<noteq> []"
  shows "extend [] p = join ''.'' p"
proof -
  from assms obtain k q where p: "p = k # q" "k \<noteq> []" by (cases p) auto
  then show ?thesis using extend_append [of k q] by (cases q) (simp_all add: sub_key_def)
qed

text \<open>A leaf below \<open>pre\<close> that nothing owns, nor any mapping on the way to it.\<close>

definition free_leaf :: "string list \<Rightarrow> string \<Rightarrow> json \<Rightarrow> string list \<Rightarrow> bool" where
  "free_leaf owned pre v p \<longleftrightarrow>
     leaf_at v p \<noteq> None \<and> (\<forall>q. prefix q p \<longrightarrow> extend pre q \<notin> set owned)"

lemma free_leaf_leaf: "is_leaf v \<Longrightarrow> free_leaf owned pre v p \<longleftrightarrow> p = [] \<and> pre \<notin> set owned"
  by (auto simp: free_leaf_def leaf_at_leaf)

lemma free_leaf_pre: "free_leaf owned pre v p \<Longrightarrow> pre \<notin> set owned"
  by (auto simp: free_leaf_def dest: spec [of _ "[]"])

lemma free_leaf_Cons:
  assumes "map_of kvs k = Some v" and "pre \<notin> set owned"
  shows "free_leaf owned pre (JObj kvs) (k # p) \<longleftrightarrow> free_leaf owned (sub_key pre k) v p"
  using assms by (auto simp: free_leaf_def leaf_at_obj prefix_Cons)

lemma set_walk:
  "json_wf v \<Longrightarrow> plain_keys v \<Longrightarrow> pre \<noteq> [] \<Longrightarrow> pre \<notin> set owned \<Longrightarrow>
     set (walk_orphans owned pre v) = {x. \<exists>p. x = extend pre p \<and> free_leaf owned pre v p}"
  "json_wf (JObj kvs) \<Longrightarrow> plain_keys (JObj kvs) \<Longrightarrow>
     set (walk_entries owned pre kvs) =
       {x. \<exists>k v p. (k, v) \<in> set kvs \<and> \<not> (pre = [] \<and> k = sops_metadata_key) \<and>
             x = extend (sub_key pre k) p \<and> free_leaf owned (sub_key pre k) v p}"
proof (induction owned pre v and owned pre kvs rule: walk_orphans_walk_entries.induct)
  case (1 owned pre kvs)
  have "(\<exists>p. x = extend pre p \<and> free_leaf owned pre (JObj kvs) p) \<longleftrightarrow>
      (\<exists>k v p. (k, v) \<in> set kvs \<and> x = extend (sub_key pre k) p \<and> free_leaf owned (sub_key pre k) v p)" for x
  proof
    assume "\<exists>p. x = extend pre p \<and> free_leaf owned pre (JObj kvs) p"
    then obtain p where p: "x = extend pre p" "free_leaf owned pre (JObj kvs) p" by blast
    then obtain k q where kq: "p = k # q" by (cases p) (auto simp: free_leaf_def leaf_at_obj)
    then obtain v where "map_of kvs k = Some v"
      using p(2) by (auto simp: free_leaf_def leaf_at_obj split: option.splits)
    with p kq show "\<exists>k v p. (k, v) \<in> set kvs \<and> x = extend (sub_key pre k) p \<and> free_leaf owned (sub_key pre k) v p"
      using free_leaf_Cons [of kvs k v pre owned q] "1.prems" by (auto dest: map_of_SomeD)
  next
    assume "\<exists>k v p. (k, v) \<in> set kvs \<and> x = extend (sub_key pre k) p \<and> free_leaf owned (sub_key pre k) v p"
    then obtain k v p where e: "(k, v) \<in> set kvs" "x = extend (sub_key pre k) p" "free_leaf owned (sub_key pre k) v p"
      by blast
    with "1.prems" have "map_of kvs k = Some v" by simp
    with e show "\<exists>p. x = extend pre p \<and> free_leaf owned pre (JObj kvs) p"
      using free_leaf_Cons [of kvs k v pre owned p] "1.prems" by (intro exI [of _ "k # p"]) simp
  qed
  with "1.IH" "1.prems" show ?case by simp
next
  case (8 owned pre k v kvs)
  let ?here = "{x. \<not> (pre = [] \<and> k = sops_metadata_key) \<and> (\<exists>p. x = extend (sub_key pre k) p \<and> free_leaf owned (sub_key pre k) v p)}"
  have rest: "set (walk_entries owned pre kvs) =
       {x. \<exists>k v p. (k, v) \<in> set kvs \<and> \<not> (pre = [] \<and> k = sops_metadata_key) \<and>
             x = extend (sub_key pre k) p \<and> free_leaf owned (sub_key pre k) v p}"
    using "8.IH"(2) "8.prems" by simp
  have "sub_key pre k \<noteq> []" using "8.prems" by (simp add: sub_key_nonempty plain_key_def)
  then have here: "set (if pre = [] \<and> k = sops_metadata_key then []
      else if sub_key pre k \<in> set owned then [] else walk_orphans owned (sub_key pre k) v) = ?here"
    using "8.IH"(1) "8.prems" by (auto dest: free_leaf_pre)
  show ?case unfolding walk_entries.simps set_append rest here by auto
qed (auto simp: free_leaf_leaf is_leaf_def)

text \<open>The orphans are exactly the leaves of the vault that no catalog entry owns: dotted paths to a value
  that is no mapping, outside the metadata \<open>sops\<close> writes, such that neither the path nor any path on the
  way to it is a catalogued key. They are listed in order.\<close>

theorem orphans_are_unowned_leaves:
  assumes "json_wf (JObj vault)" and "plain_keys (JObj vault)"
  shows "sorted (orphan_key_paths catalog (JObj vault))
    \<and> set (orphan_key_paths catalog (JObj vault)) =
        {join ''.'' p | p. p \<noteq> [] \<and> hd p \<noteq> sops_metadata_key \<and> leaf_at (JObj vault) p \<noteq> None \<and>
           (\<forall>q. q \<noteq> [] \<and> prefix q p \<longrightarrow> join ''.'' q \<notin> set (key_paths catalog))}"
proof -
  have keys: "k \<noteq> []" if "map_of vault k = Some v" for k v
    using map_of_SomeD [OF that] assms(2) by (auto simp: list_all_iff plain_key_def)
  have "x \<in> set (walk_entries (key_paths catalog) [] vault) \<longleftrightarrow>
      (\<exists>p. x = join ''.'' p \<and> p \<noteq> [] \<and> hd p \<noteq> sops_metadata_key \<and> leaf_at (JObj vault) p \<noteq> None \<and>
           (\<forall>q. q \<noteq> [] \<and> prefix q p \<longrightarrow> join ''.'' q \<notin> set (key_paths catalog)))" (is "_ \<longleftrightarrow> ?R") for x
  proof -
    have free: "free_leaf (key_paths catalog) (sub_key [] k) v p \<longleftrightarrow>
        leaf_at (JObj vault) (k # p) \<noteq> None \<and>
        (\<forall>q. q \<noteq> [] \<and> prefix q (k # p) \<longrightarrow> join ''.'' q \<notin> set (key_paths catalog))"
      if v: "map_of vault k = Some v" for k v p
    proof -
      have "extend (sub_key [] k) q = join ''.'' (k # q)" for q
        using extend_join [of "k # q"] keys [OF v] by simp
      then show ?thesis by (auto simp: free_leaf_def leaf_at_obj v prefix_Cons)
    qed
    have name: "extend (sub_key [] k) p = join ''.'' (k # p)" if "map_of vault k = Some v" for k v p
      using extend_join [of "k # p"] keys [OF that] by simp
    have mem: "(k, v) \<in> set vault \<longleftrightarrow> map_of vault k = Some v" for k v
      using assms(1) by (auto dest: map_of_SomeD)
    show ?thesis
      unfolding set_walk(2) [OF assms] mem_Collect_eq mem
    proof
      assume "\<exists>k v p. map_of vault k = Some v \<and> \<not> ([] = [] \<and> k = sops_metadata_key) \<and>
          x = extend (sub_key [] k) p \<and> free_leaf (key_paths catalog) (sub_key [] k) v p"
      then obtain k v p where "map_of vault k = Some v" "k \<noteq> sops_metadata_key"
          "x = extend (sub_key [] k) p" "free_leaf (key_paths catalog) (sub_key [] k) v p" by blast
      then show ?R using free name by (intro exI [of _ "k # p"]) simp
    next
      assume ?R
      then obtain p where p: "x = join ''.'' p" "p \<noteq> []" "hd p \<noteq> sops_metadata_key" "leaf_at (JObj vault) p \<noteq> None"
          "\<forall>q. q \<noteq> [] \<and> prefix q p \<longrightarrow> join ''.'' q \<notin> set (key_paths catalog)" by blast
      then obtain k q where kq: "p = k # q" by (cases p) auto
      with p(4) obtain v where v: "map_of vault k = Some v" by (auto simp: leaf_at_obj split: option.splits)
      with p kq show "\<exists>k v p. map_of vault k = Some v \<and> \<not> ([] = [] \<and> k = sops_metadata_key) \<and>
          x = extend (sub_key [] k) p \<and> free_leaf (key_paths catalog) (sub_key [] k) v p"
        using free [OF v] name [OF v] by (intro exI [of _ k] exI [of _ v] exI [of _ q]) simp
    qed
  qed
  then show ?thesis by (auto simp: orphan_key_paths_def)
qed

section \<open>A batch update\<close>

text \<open>Reading that does not fail: files are found, \<open>sops\<close> is there and opens what is there.\<close>

definition opens :: "('s \<Rightarrow> string \<Rightarrow> json option) \<Rightarrow> 's vault \<Rightarrow> bool" where
  "opens content srv \<longleftrightarrow> (\<forall>w.
     (\<exists>x. fst (srv SopsInstalled w) = Inr x \<and> truthy x) \<and>
     (\<forall>f. \<exists>x. fst (srv (FileExists f) w) = Inr x) \<and>
     (\<forall>f d. content w f = Some d \<longrightarrow> fst (srv (SopsDecrypt f) w) = Inr d))"

lemma content_ask:
  assumes "store content srv" and "leaves_store q" and "ask srv q n = (r, n')"
  shows "content (world n') = content (world n)"
  using assms(3) store_leaves [OF assms(1,2)] by (auto simp: ask_run)

lemma encrypt_sops_file_True:
  assumes "store content srv" and "encrypt_sops_file srv f data n = (Val True, n')"
  shows "content (world n') = (content (world n))(f \<mapsto> data)"
proof -
  obtain x n1 where w: "ask srv (WriteText f data) n = (Val x, n1)" "content (world n1) = (content (world n))(f \<mapsto> data)"
    using write_text_run [OF assms(1), where f = f and d = data and n = n] by auto
  with assms(2) have "encrypt_in_place srv f n1 = (Val True, n')"
    by (auto simp: encrypt_sops_file_def abind_simps catch_process_Val)
  then have "content (world n') = content (world n1)"
    using content_ask [OF assms(1), of "SopsEncrypt f"]
    by (auto simp: encrypt_in_place_def abind_Val leaves_store_def)
  with w show ?thesis by simp
qed

lemma load_or_empty_Val:
  assumes "store content srv" and "load_or_empty srv f n = (Val d, n')"
  obtains d0 where "content (world n) f = Some d0" and "d = py_or d0 (JObj [])"
    and "content (world n') = content (world n)"
  using load_or_empty_run [OF assms(1), where f = f and n = n] assms(2) by auto

text \<open>A batch that reports success left the file's document with every key set.\<close>

lemma batch_True:
  assumes "store content srv" and "batch_update_secrets srv f secrets n = (Val True, n')" and "secrets \<noteq> []"
  shows "\<exists>w d0 kvs. content w f = Some d0 \<and> py_or d0 (JObj []) = JObj kvs \<and>
    content (world n') = (content w)(f \<mapsto> JObj (set_all kvs secrets))"
proof -
  from assms(2) obtain d data n1 n2 where
    load: "load_or_empty srv f n1 = (Val d, n2)" and upd: "update_document d secrets = Inr data" and
    enc: "encrypt_sops_file srv f data n2 = (Val True, n')"
    by (auto simp: batch_update_secrets_def abind_Val catch_process_Val split: if_splits)
  from load_or_empty_Val [OF assms(1) load] obtain d0 where
    d: "content (world n1) f = Some d0" "d = py_or d0 (JObj [])" "content (world n2) = content (world n1)" .
  from upd assms(3) obtain kvs where "d = JObj kvs" "data = JObj (set_all kvs secrets)"
    by (auto simp: update_document_def split: json.splits)
  with d encrypt_sops_file_True [OF assms(1) enc] show ?thesis
    by (intro exI [of _ "world n1"] exI [of _ d0] exI [of _ kvs]) simp
qed

definition after :: "'s vault \<Rightarrow> vault_call \<Rightarrow> (vault_call, 's) net \<Rightarrow> (vault_call, 's) net" where
  "after srv q n = n\<lparr>sent := sent n @ [q], world := snd (srv q (world n))\<rparr>"

lemma after_simps [simp]:
  "sent (after srv q n) = sent n @ [q]" "world (after srv q n) = snd (srv q (world n))"
  by (simp_all add: after_def)

lemma ask_after: "ask srv q n = ((case fst (srv q (world n)) of Inl e \<Rightarrow> Exn e | Inr x \<Rightarrow> Val x), after srv q n)"
  by (simp add: ask_run after_def)

lemma ask_bool_after:
  "ask_bool srv q n = ((case fst (srv q (world n)) of Inl e \<Rightarrow> Exn e | Inr x \<Rightarrow> Val (truthy x)), after srv q n)"
  by (simp add: ask_bool_run after_def)

lemma opens_runs:
  assumes "opens content srv"
  shows "ask_bool srv SopsInstalled n = (Val True, after srv SopsInstalled n)"
    and "store content srv \<Longrightarrow> ask_bool srv (FileExists f) n = (Val (content (world n) f \<noteq> None), after srv (FileExists f) n)"
    and "content (world n) f = Some d \<Longrightarrow> load_or_empty srv f n = (Val (py_or d (JObj [])), after srv (SopsDecrypt f) n)"
proof -
  note o = assms [unfolded opens_def, rule_format, of "world n"]
  show "ask_bool srv SopsInstalled n = (Val True, after srv SopsInstalled n)"
    using o by (auto simp: ask_bool_after)
  obtain x where x: "fst (srv (FileExists f) (world n)) = Inr x" using o by blast
  show "ask_bool srv (FileExists f) n = (Val (content (world n) f \<noteq> None), after srv (FileExists f) n)"
    if "store content srv"
    using x that [unfolded store_def, rule_format, of "FileExists f" "world n"] by (simp add: ask_bool_after)
  show "load_or_empty srv f n = (Val (py_or d (JObj [])), after srv (SopsDecrypt f) n)" if "content (world n) f = Some d"
    using o that by (simp add: load_or_empty_def ask_after abind_def ret_def)
qed

text \<open>C20. A batch update whose encryption fails leaves the file as the plain text of all its secrets, old and
  new: the last two calls are the write and the encryption that failed, and the command only returns
  false.\<close>

theorem failed_encryption_leaves_plaintext:
  assumes "store content srv" and "opens content srv"
    and "content (world n) f = Some (JObj kvs)" and "kvs \<noteq> []"
    and "\<forall>w. fst (srv (SopsEncrypt f) w) = Inl (CalledProcessError e)"
  shows "\<exists>n' qs. batch_update_secrets srv f secrets n = (Val False, n')
    \<and> sent n' = sent n @ qs @ [WriteText f (JObj (set_all kvs secrets)), SopsEncrypt f]
    \<and> content (world n') f = Some (JObj (set_all kvs secrets))"
proof -
  let ?data = "JObj (set_all kvs secrets)"
  let ?n1 = "after srv SopsInstalled n"
  let ?n2 = "after srv (FileExists f) ?n1"
  let ?n3 = "after srv (SopsDecrypt f) ?n2"
  let ?n4 = "after srv (WriteText f ?data) ?n3"
  have c: "content (world ?n1) = content (world n)" "content (world ?n2) = content (world n)"
    "content (world ?n3) = content (world n)"
    using store_leaves [OF assms(1)] by (simp_all add: leaves_store_def)
  note steps = opens_runs(1) [OF assms(2), of n] opens_runs(2) [OF assms(2,1), where f = f and n = ?n1]
    opens_runs(3) [OF assms(2), of ?n2 f "JObj kvs"]
  from write_text_run [OF assms(1), where f = f and d = ?data and n = ?n3] obtain x where
    w: "ask srv (WriteText f ?data) ?n3 = (Val x, ?n4)" "content (world ?n4) = (content (world ?n3))(f \<mapsto> ?data)"
    by (auto simp: after_def)
  have enc: "encrypt_in_place srv f ?n4 = (Exn (CalledProcessError e), after srv (SopsEncrypt f) ?n4)"
    using assms(5) by (simp add: encrypt_in_place_def ask_after abind_def)
  then have "encrypt_sops_file srv f ?data ?n3 = (Val False, after srv (SopsEncrypt f) ?n4)"
    by (simp add: encrypt_sops_file_def abind_def w catch_process_def attempt_def process_error_def ret_def)
  then have "batch_update_secrets srv f secrets n = (Val False, after srv (SopsEncrypt f) ?n4)"
    using steps c assms(3,4)
    by (simp add: batch_update_secrets_def ensure_sops_file_def abind_def ret_def catch_process_def attempt_def
        update_document_def lift_def py_or_def)
  moreover have "content (world (after srv (SopsEncrypt f) ?n4)) f = Some ?data"
    using store_leaves [OF assms(1), of "SopsEncrypt f"] w(2) by (simp add: leaves_store_def)
  ultimately show ?thesis
    by (intro exI [of _ "after srv (SopsEncrypt f) ?n4"] exI [of _ "[SopsInstalled, FileExists f, SopsDecrypt f]"]) simp
qed

section \<open>Hashing\<close>

text \<open>Every hash is what the hasher answered for the plaintext that was read.\<close>

definition hashed_as :: "'s vault \<Rightarrow> json \<Rightarrow> json \<Rightarrow> bool" where
  "hashed_as srv plain h \<longleftrightarrow> (\<exists>w. fst (srv (Argon2 (py_str plain)) w) = Inr h)"

lemma foreach_hashes:
  assumes "foreach (hash_entry srv d) specs hs0 n = (Val hs, n')" and "distinct (key_paths specs)"
    and "distinct (map fst hs0)"
  shows "distinct (map fst hs) \<and> fst ` set hs = fst ` set hs0 \<union> set (key_paths specs)
    \<and> (\<forall>k. k \<notin> set (key_paths specs) \<longrightarrow> map_of hs k = map_of hs0 k)
    \<and> (\<forall>s \<in> set specs. \<exists>h. map_of hs (ss_key_path s) = Some h \<and> hashed_as srv (resolve_key d (ss_derived_from s)) h)"
  using assms
proof (induction specs arbitrary: hs0 n)
  case (Cons s specs)
  from Cons.prems(1) obtain hs1 n1 where
    step: "hash_entry srv d s hs0 n = (Val hs1, n1)" and
    rest1: "foreach (hash_entry srv d) specs hs1 n1 = (Val hs, n')"
    by (auto simp: abind_Val)
  from step obtain h where
    a: "ask srv (Argon2 (py_str (resolve_key d (ss_derived_from s)))) n = (Val h, n1)" and
    hs1: "hs1 = oset hs0 (ss_key_path s) h"
    by (auto simp: abind_Val hash_entry_def)
  note rest = rest1 [unfolded hs1]
  from a have "hashed_as srv (resolve_key d (ss_derived_from s)) h"
    by (auto simp: ask_after hashed_as_def split: sum.splits)
  moreover have "distinct (key_paths specs)" and "ss_key_path s \<notin> set (key_paths specs)"
    using Cons.prems(2) by (simp_all add: key_paths_def)
  moreover from this Cons.IH [OF rest] Cons.prems(3) have "map_of hs (ss_key_path s) = Some h" by simp
  ultimately show ?case
    using Cons.IH [OF rest] Cons.prems(3) by (auto simp: key_paths_def simp del: map_of_eq_Some_iff)
qed (simp add: key_paths_def)

lemma decrypt_sops_run:
  assumes "store content srv" and "opens content srv" and "content (world n) f = Some d"
  shows "decrypt_sops srv f n =
    (Val (py_or d (JObj [])), after srv (SopsDecrypt f) (after srv SopsInstalled (after srv (FileExists f) n)))"
proof -
  have "content (world (after srv SopsInstalled (after srv (FileExists f) n))) f = Some d"
    using store_leaves [OF assms(1)] assms(3) by (simp add: leaves_store_def)
  then show ?thesis
    using opens_runs(1) [OF assms(2), of "after srv (FileExists f) n"] opens_runs(2) [OF assms(2,1), where f = f and n = n]
      opens_runs(3) [OF assms(2), of "after srv SopsInstalled (after srv (FileExists f) n)" f d] assms(3)
    by (simp add: decrypt_sops_def abind_def ret_def catch_process_def attempt_def)
qed

lemma content_decrypt:
  assumes "store content srv"
  shows "content (world (after srv (SopsDecrypt f) (after srv SopsInstalled (after srv (FileExists f) n)))) =
    content (world n)"
  using store_leaves [OF assms] by (simp add: leaves_store_def)

section \<open>Writing one key\<close>

lemma set_secret_Val:
  assumes "store content srv" and "set_secret srv env k v n = (Val ok, n')"
  shows "(if ok then held (content (world n') (enc_file env)) k = v else content (world n') = content (world n))"
proof -
  from assms(2) obtain there n1 where e: "ask_bool srv (FileExists (enc_file env)) n = (Val there, n1)" and
    r: "(if \<not> there then ret False
       else abind (ask srv (SopsSet (enc_file env) (path_of k) v)) (\<lambda>rc. ret (py_eq rc (JInt 0)))) n1 = (Val ok, n')"
    by (auto simp: set_secret_def abind_Val)
  have same: "content (world n1) = content (world n)"
    using file_exists_run [OF assms(1), where f = "enc_file env" and n = n] e by simp
  show ?thesis
  proof (cases there)
    case True
    with r obtain rc where rc: "fst (srv (SopsSet (enc_file env) (path_of k) v) (world n1)) = Inr rc"
      "ok = py_eq rc (JInt 0)" "n' = after srv (SopsSet (enc_file env) (path_of k) v) n1"
      by (auto simp: abind_Val ask_after split: sum.splits)
    have "resolve_key (JObj (set_nested kvs (path_of k) v)) k = v" for kvs
      using resolve_set_nested_key [of kvs k v] by (simp add: set_nested_key_def)
    then show ?thesis
      using assms(1) [unfolded store_def, rule_format, of "SopsSet (enc_file env) (path_of k) v" "world n1"] rc same
      by (auto simp: held_def split: if_splits)
  qed (use r same in auto)
qed

section \<open>Rotating\<close>

text \<open>An entry whose value is derived from another's, in an environment.\<close>

definition derives :: "string \<Rightarrow> string \<Rightarrow> secret_spec \<Rightarrow> bool" where
  "derives env source_path s \<longleftrightarrow>
     ss_derived_from s = source_path \<and> env \<in> set (ss_envs s) \<and> ss_kind s \<in> set [ARGON2_HASH, HTPASSWD]"

definition digest_of :: "'s vault \<Rightarrow> secret_spec \<Rightarrow> json \<Rightarrow> json \<Rightarrow> bool" where
  "digest_of srv s v h \<longleftrightarrow>
     (\<exists>w. fst (srv (if ss_kind s = ARGON2_HASH then Argon2 (py_str v) else Bcrypt (py_str v)) w) = Inr h)"

lemma derive_digest_Val:
  "derive_digest srv s v n = (Val (Some h), n') \<Longrightarrow> ss_kind s \<in> set [ARGON2_HASH, HTPASSWD] \<and> digest_of srv s v h"
  by (auto simp: derive_digest_def abind_Val ask_after digest_of_def split: secret_kind.splits sum.splits)

lemma derive_digest_None: "derive_digest srv s v n = (Val None, n') \<Longrightarrow> ss_kind s \<notin> set [ARGON2_HASH, HTPASSWD]"
  by (auto simp: derive_digest_def abind_Val split: secret_kind.splits)

lemma answers_derive [answers_intros]:
  "store content srv \<Longrightarrow> answers (at_key content f k x) (derive_digest srv s v)"
  unfolding derive_digest_def by (cases "ss_kind s") (auto intro!: answers_intros simp: leaves_store_def)

lemma answers_rotate_entry:
  assumes "store content srv" and "derives env source_path s \<Longrightarrow> apart (ss_key_path s) k"
  shows "answers (at_key content f k x) (rotate_entry srv env source_path v s written)"
proof (cases "derives env source_path s")
  case True
  then show ?thesis
    unfolding rotate_entry_def using assms by (intro answers_intros) auto
next
  case False
  then show ?thesis
    unfolding rotate_entry_def using assms(1)
    by (cases "ss_kind s") (auto intro!: answers_intros simp: derives_def derive_digest_def)
qed

lemma answers_rotate_derived:
  assumes "store content srv" and "\<forall>s \<in> set catalog. derives env source_path s \<longrightarrow> apart (ss_key_path s) k"
  shows "answers (at_key content f k x) (foreach (rotate_entry srv env source_path v) catalog written)"
  using assms(2)
proof (induction catalog arbitrary: written)
  case (Cons s catalog)
  then show ?case
    by (auto intro!: answers_abind answers_rotate_entry [OF assms(1)] Cons.IH)
qed (simp add: answers_ret)

text \<open>A catalog no entry of which is reached by a write of another.\<close>

definition separate_keys :: "secret_spec list \<Rightarrow> bool" where
  "separate_keys catalog \<longleftrightarrow> distinct (key_paths catalog) \<and> pairwise apart (set (key_paths catalog))"

lemma separate_apart:
  "separate_keys catalog \<Longrightarrow> s \<in> set catalog \<Longrightarrow> t \<in> set catalog \<Longrightarrow> ss_key_path s \<noteq> ss_key_path t \<Longrightarrow>
     apart (ss_key_path s) (ss_key_path t)"
  by (auto simp: separate_keys_def key_paths_def pairwise_def)

lemma separate_inj:
  "separate_keys catalog \<Longrightarrow> s \<in> set catalog \<Longrightarrow> t \<in> set catalog \<Longrightarrow> ss_key_path s = ss_key_path t \<Longrightarrow> s = t"
  by (auto simp: separate_keys_def key_paths_def distinct_map dest: inj_onD)

lemma separate_Cons:
  assumes "separate_keys (s # catalog)"
  shows "separate_keys catalog" and "ss_key_path s \<notin> set (key_paths catalog)"
    and "t \<in> set catalog \<Longrightarrow> apart (ss_key_path t) (ss_key_path s)"
    and "t \<in> set catalog \<Longrightarrow> apart (ss_key_path s) (ss_key_path t)"
proof -
  show "separate_keys catalog" and no: "ss_key_path s \<notin> set (key_paths catalog)"
    using assms by (auto simp: separate_keys_def key_paths_def pairwise_def)
  assume t: "t \<in> set catalog"
  then have "ss_key_path t \<in> set (key_paths catalog)" by (simp add: key_paths_def)
  with no have "ss_key_path t \<noteq> ss_key_path s" by metis
  then show "apart (ss_key_path t) (ss_key_path s)" and "apart (ss_key_path s) (ss_key_path t)"
    using separate_apart [OF assms, of t s] separate_apart [OF assms, of s t] t by simp_all
qed

lemma key_paths_Cons [simp]: "key_paths (s # catalog) = ss_key_path s # key_paths catalog"
  by (simp add: key_paths_def)

lemma rotate_entry_Val:
  assumes "store content srv" and "rotate_entry srv env src v s written n = (Val written', n')"
  shows "(written' = written @ [ss_key_path s] \<and> derives env src s
      \<and> digest_of srv s v (held (content (world n') (enc_file env)) (ss_key_path s)))
    \<or> written' = written \<and> content (world n') = content (world n)"
proof (cases "ss_derived_from s \<noteq> src \<or> env \<notin> set (ss_envs s)")
  case False
  with assms(2) obtain digest n1 where
    d: "derive_digest srv s v n = (Val digest, n1)" and
    r: "(case digest of None \<Rightarrow> ret written
          | Some h \<Rightarrow> abind (set_secret srv env (ss_key_path s) h) (\<lambda>ok. ret (if ok then written @ [ss_key_path s] else written))) n1
        = (Val written', n')"
    by (auto simp: rotate_entry_def abind_Val)
  have same: "content (world n1) = content (world n)"
    using d store_leaves [OF assms(1)]
    by (auto simp: derive_digest_def abind_Val ask_after leaves_store_def split: secret_kind.splits sum.splits)
  show ?thesis
  proof (cases digest)
    case (Some h)
    with r obtain ok where ok: "set_secret srv env (ss_key_path s) h n1 = (Val ok, n')"
      "written' = (if ok then written @ [ss_key_path s] else written)" by (auto simp: abind_Val)
    show ?thesis
    proof (cases ok)
      case True
      with set_secret_Val [OF assms(1) ok(1)] ok(2) derive_digest_Val [OF d [unfolded Some]] False
      show ?thesis by (auto simp: derives_def)
    next
      case False
      with set_secret_Val [OF assms(1) ok(1)] ok(2) same show ?thesis by simp
    qed
  qed (use r same in simp)
qed (use assms(2) in \<open>auto simp: rotate_entry_def\<close>)

text \<open>The derived entries that are reported hold the digest of the new value; the others are as they were.\<close>

lemma foreach_rotates:
  assumes "store content srv"
    and "foreach (rotate_entry srv env src v) catalog written0 n = (Val written, n')"
    and "separate_keys catalog" and "set written0 \<inter> set (key_paths catalog) = {}"
  shows "set written \<subseteq> set written0 \<union> set (key_paths catalog) \<and> set written0 \<subseteq> set written
    \<and> (\<forall>s \<in> set catalog.
         if ss_key_path s \<in> set written
         then derives env src s \<and> digest_of srv s v (held (content (world n') (enc_file env)) (ss_key_path s))
         else \<forall>f. held (content (world n') f) (ss_key_path s) = held (content (world n) f) (ss_key_path s))"
  using assms(2-4)
proof (induction catalog arbitrary: written0 n)
  case (Cons s catalog)
  from Cons.prems(1) obtain w1 n1 where
    step: "rotate_entry srv env src v s written0 n = (Val w1, n1)" and
    rest: "foreach (rotate_entry srv env src v) catalog w1 n1 = (Val written, n')"
    by (auto simp: abind_Val)
  note sep = separate_Cons [OF Cons.prems(2)]
  have w1: "w1 = written0 @ [ss_key_path s] \<or> w1 = written0"
    using rotate_entry_Val [OF assms(1) step] by auto
  then have "set w1 \<inter> set (key_paths catalog) = {}" using Cons.prems(3) sep(2) by auto
  note IH = Cons.IH [OF rest sep(1) this]
  have later: "held (content (world n') f) (ss_key_path s) = held (content (world n1) f) (ss_key_path s)" for f
    using answersD(2) [OF answers_rotate_derived [OF assms(1), of catalog env src "ss_key_path s" f
          "held (content (world n1) f) (ss_key_path s)" v w1] refl rest] sep(3) by auto
  have here: "held (content (world n1) f) (ss_key_path t) = held (content (world n) f) (ss_key_path t)"
    if "t \<in> set catalog" for t f
    using answersD(2) [OF answers_rotate_entry [OF assms(1), of env src s "ss_key_path t" f
          "held (content (world n) f) (ss_key_path t)" v written0] refl step] sep(4) [OF that] by auto
  have s: "if ss_key_path s \<in> set written
      then derives env src s \<and> digest_of srv s v (held (content (world n') (enc_file env)) (ss_key_path s))
      else \<forall>f. held (content (world n') f) (ss_key_path s) = held (content (world n) f) (ss_key_path s)"
    using rotate_entry_Val [OF assms(1) step]
  proof
    assume a: "w1 = written0 @ [ss_key_path s] \<and> derives env src s
      \<and> digest_of srv s v (held (content (world n1) (enc_file env)) (ss_key_path s))"
    then have "ss_key_path s \<in> set written" using IH by auto
    with a later show ?thesis by simp
  next
    assume a: "w1 = written0 \<and> content (world n1) = content (world n)"
    then have "ss_key_path s \<notin> set written" using IH Cons.prems(3) sep(2) by (auto simp: key_paths_def)
    with a later show ?thesis by simp
  qed
  have "if ss_key_path t \<in> set written
      then derives env src t \<and> digest_of srv t v (held (content (world n') (enc_file env)) (ss_key_path t))
      else \<forall>f. held (content (world n') f) (ss_key_path t) = held (content (world n) f) (ss_key_path t)"
    if "t \<in> set catalog" for t
    using IH that here [OF that] by (auto split: if_splits)
  with s IH w1 show ?case by (auto simp: key_paths_def)
qed simp

lemma refusal_Inr:
  "rotation_refusal catalog bg immutable env key_path = Inr s \<Longrightarrow>
     s \<in> set catalog \<and> ss_key_path s = key_path \<and> key_path \<notin> set bg \<and> key_path \<notin> set immutable \<and>
     ss_kind s \<notin> set [EXTERNAL, CROWDSEC_API, HUB_MANAGED] \<and> env \<in> set (ss_envs s)"
  by (auto simp: rotation_refusal_def find_Some_iff split: option.splits if_splits)

lemma generate_machine:
  "generate_secret srv s n = (Val v, n') \<Longrightarrow> truthy v \<Longrightarrow> ss_kind s \<in> set auto_kinds"
  by (auto simp: generate_secret_def auto_kinds_def split: secret_kind.splits)

lemma rotate_secret_Val:
  assumes "store content srv" and "separate_keys catalog"
    and "rotate_secret srv catalog bg immutable env key_path n = (Val p, n')"
  shows "\<exists>s v. s \<in> set catalog \<and> ss_key_path s = key_path \<and> env \<in> set (ss_envs s)
    \<and> ss_kind s \<in> set auto_kinds \<and> key_path \<notin> set bg \<and> key_path \<notin> set immutable
    \<and> truthy v \<and> ro_restart_services p = ss_services s
    \<and> (if derives env key_path s then True else held (content (world n') (enc_file env)) key_path = v)
    \<and> (\<forall>t \<in> set catalog. t \<noteq> s \<longrightarrow>
         (if ss_key_path t \<in> set (ro_derived p)
          then derives env key_path t \<and> digest_of srv t v (held (content (world n') (enc_file env)) (ss_key_path t))
          else \<forall>f. held (content (world n') f) (ss_key_path t) = held (content (world n) f) (ss_key_path t)))"
proof -
  from assms(3) obtain s where ref: "rotation_refusal catalog bg immutable env key_path = Inr s"
    by (auto simp: rotate_secret_def split: sum.splits)
  note s = refusal_Inr [OF ref]
  from assms(3) ref obtain v ok written n1 n2 where
    g: "generate_secret srv s n = (Val v, n1)" "truthy v" and
    w: "set_secret srv env key_path v n1 = (Val True, n2)" and
    d: "rotate_derived srv catalog env key_path v n2 = (Val written, n')" and
    p: "p = \<lparr>ro_key_path = key_path, ro_env = env, ro_derived = written, ro_restart_services = ss_services s\<rparr>"
    by (auto simp: rotate_secret_def abind_Val split: if_splits)
  have keep: "held (content (world n2) f) (ss_key_path t) = held (content (world n) f) (ss_key_path t)"
    if "t \<in> set catalog" "t \<noteq> s" for t f
  proof -
    have "ss_key_path t \<noteq> key_path" using separate_inj [OF assms(2) that(1)] s that(2) by metis
    then have "apart key_path (ss_key_path t)" using separate_apart [OF assms(2), of s t] s that(1) by auto
    then show ?thesis
      using answersD(2) [OF answers_generate [OF assms(1), of f "ss_key_path t" "held (content (world n) f) (ss_key_path t)" s] refl g(1)]
        answersD(2) [OF answers_set_secret [OF assms(1), of key_path "ss_key_path t" f
            "held (content (world n1) f) (ss_key_path t)" env v] refl w] by simp
  qed
  from foreach_rotates [OF assms(1) d [unfolded rotate_derived_def] assms(2)]
  have rot: "if ss_key_path t \<in> set written
         then derives env key_path t \<and> digest_of srv t v (held (content (world n') (enc_file env)) (ss_key_path t))
         else \<forall>f. held (content (world n') f) (ss_key_path t) = held (content (world n2) f) (ss_key_path t)"
    if "t \<in> set catalog" for t
    using that by simp
  have "held (content (world n') (enc_file env)) key_path = v" if "\<not> derives env key_path s"
    using rot [of s] s that set_secret_Val [OF assms(1) w] by (auto split: if_splits)
  then show ?thesis
    using s g p rot keep generate_machine [OF g] by (intro exI [of _ s] exI [of _ v]) auto
qed

lemma answers_rotate_secret:
  assumes "store content srv"
    and "\<forall>s \<in> set catalog. ss_key_path s = key_path \<or> derives env key_path s \<longrightarrow> apart (ss_key_path s) k"
  shows "answers (at_key content f k x) (rotate_secret srv catalog bg immutable env key_path)"
proof (cases "rotation_refusal catalog bg immutable env key_path")
  case (Inl why)
  then show ?thesis by (simp add: rotate_secret_def answers_throw)
next
  case (Inr s)
  then have "apart key_path k" using refusal_Inr [OF Inr] assms(2) by blast
  with Inr show ?thesis
    unfolding rotate_secret_def rotate_derived_def using assms
    by (auto intro!: answers_abind answers_if answers_generate answers_set_secret answers_rotate_derived
        answers_ret answers_throw)
qed

section \<open>Hashes all or none\<close>

lemma hash_missing:
  assumes "store content srv" and "opens content srv" and "content (world n) (enc_file env) = Some d"
    and "s \<in> set (hashed_specs catalog env)" and "\<not> truthy (resolve_key d (ss_derived_from s))"
  shows "\<exists>ms. hash_oidc_secrets srv catalog env n =
      (Exn (HashSourceMissing ms), snd (decrypt_sops srv (enc_file env) n))"
proof -
  have "filter (\<lambda>k. \<not> truthy (resolve_key (py_or d (JObj [])) k)) (map ss_derived_from (hashed_specs catalog env)) \<noteq> []"
    using assms(4,5) by (auto simp: filter_empty_conv)
  then show ?thesis
    using decrypt_sops_run [OF assms(1-3)]
    by (auto simp: hash_oidc_secrets_def Let_def abind_def throw_def)
qed

lemma hash_written:
  assumes "store content srv" and "opens content srv" and "content (world n) (enc_file env) = Some d"
    and "separate_keys catalog"
    and "hash_oidc_secrets srv catalog env n = (Val hashes, n')" and "hashes \<noteq> []"
    and "s \<in> set (hashed_specs catalog env)"
  shows "truthy (resolve_key d (ss_derived_from s)) \<and>
    hashed_as srv (resolve_key d (ss_derived_from s)) (held (content (world n') (enc_file env)) (ss_key_path s))"
proof -
  let ?specs = "hashed_specs catalog env"
  note dec = decrypt_sops_run [OF assms(1-3)]
  have truthy: "truthy (resolve_key d (ss_derived_from t))" if "t \<in> set ?specs" for t
    using hash_missing [OF assms(1-3) that] assms(5) by (cases "truthy (resolve_key d (ss_derived_from t))") auto
  from assms(5,6) dec obtain n1 n2 where
    h: "foreach (hash_entry srv (py_or d (JObj []))) ?specs [] n1 = (Val hashes, n2)" and
    b: "batch_update_secrets srv (enc_file env) hashes n2 = (Val True, n')"
    by (auto simp: hash_oidc_secrets_def Let_def abind_Val split: if_splits)
  have sub: "set (key_paths ?specs) \<subseteq> set (key_paths catalog)" by (auto simp: key_paths_def hashed_specs_def)
  have dist: "distinct (key_paths ?specs)"
    using assms(4) by (auto simp: separate_keys_def key_paths_def hashed_specs_def distinct_map_filter)
  note hs = foreach_hashes [OF h dist, simplified]
  then have keys: "distinct (map fst hashes)" "fst ` set hashes = set (key_paths ?specs)" by blast+
  from batch_True [OF assms(1) b assms(6)] obtain w d0 kvs where
    c: "content (world n') = (content w)(enc_file env \<mapsto> JObj (set_all kvs hashes))" by blast
  have "\<forall>j \<in> fst ` set hashes. \<forall>k \<in> fst ` set hashes. j \<noteq> k \<longrightarrow> apart j k"
    using assms(4) sub unfolding keys(2) separate_keys_def pairwise_def by blast
  note r = nested.puts_get [OF keys(1) this, folded set_all_def]
  from hs assms(7) obtain x where x: "map_of hashes (ss_key_path s) = Some x"
      "hashed_as srv (resolve_key d (ss_derived_from s)) x" by blast
  then have "held (content (world n') (enc_file env)) (ss_key_path s) = x"
    using r [OF map_of_SomeD [OF x(1)]] c by (simp add: held_def)
  with x(2) truthy [OF assms(7)] show ?thesis by simp
qed

section \<open>Initialising what is there already\<close>

lemma same_ask:
  "store content srv \<Longrightarrow> leaves_store q \<Longrightarrow> answers (\<lambda>n. content (world n) = c) (ask srv q)"
  by (auto simp: answers_def ask_run store_leaves split: sum.split)

lemma same_merge_file: "store content srv \<Longrightarrow> answers (\<lambda>n. content (world n) = c) (merge_file srv g d)"
  unfolding merge_file_def decrypt_sops_def load_or_empty_def
  by (intro answers_abind answers_ask_bool answers_if answers_ret answers_lift answers_catch_process same_ask)
    (simp_all add: leaves_store_def)

lemma same_audit: "store content srv \<Longrightarrow> answers (\<lambda>n. content (world n) = c) (audit srv catalog env)"
  unfolding audit_def by (intro answers_abind same_merge_file answers_ret)

text \<open>The audit reports the environment's file merged over something.\<close>

lemma audit_Val:
  assumes "store content srv" and "opens content srv"
    and "content (world n) (enc_file env) = Some (JObj kvs)" and "kvs \<noteq> []"
    and "audit srv catalog env n = (Val r, n')"
  shows "\<exists>common. r = audit_report catalog env (deep_update common kvs)"
proof -
  from assms(5) obtain common d n1 n2 where
    c: "merge_file srv (enc_file ''common'') [] n = (Val common, n1)" and
    e: "merge_file srv (enc_file env) common n1 = (Val d, n2)" and
    r: "r = audit_report catalog env d"
    by (auto simp: audit_def abind_Val)
  have n1: "content (world n1) (enc_file env) = Some (JObj kvs)"
    using answersD(2) [OF same_merge_file [OF assms(1)] refl c] assms(3) by simp
  let ?n2 = "after srv (FileExists (enc_file env)) n1"
  have n2: "content (world ?n2) (enc_file env) = Some (JObj kvs)"
    using n1 store_leaves [OF assms(1)] by (simp add: leaves_store_def)
  have "d = deep_update common kvs"
    using e n1 opens_runs(2) [OF assms(2,1), where f = "enc_file env" and n = n1]
      decrypt_sops_run [OF assms(1,2) n2] assms(4)
    by (auto simp: merge_file_def abind_def ret_def lift_def py_or_def)
  with r show ?thesis by blast
qed

lemma foldl_present:
  "k \<in> set (ar_present (foldl (audit_entry d) r entries)) \<longleftrightarrow>
     k \<in> set (ar_present r) \<or>
     (\<exists>s \<in> set entries. ss_key_path s = k \<and> configured (resolve_key d k) \<and> well_shaped s (resolve_key d k))"
  by (induction entries arbitrary: r) (auto simp: audit_entry_def Let_def)

text \<open>A value of the environment's file that is set and has the declared shape reads as present.\<close>

lemma audit_present:
  assumes "json_wf (JObj kvs)" and "resolve_key (JObj kvs) (ss_key_path s) = JStr t"
    and "configured (JStr t)" and "well_shaped s (JStr t)" and "s \<in> set catalog" and "env \<in> set (ss_envs s)"
  shows "ss_key_path s \<in> set (ar_present (audit_report catalog env (deep_update common kvs)))"
proof -
  let ?p = "path_of (ss_key_path s)"
  from assms(2) have leaf: "leaf_at (JObj kvs) ?p = Some (JStr t)"
    by (auto simp: resolve_key_def leaf_at_def is_leaf_def split: option.splits)
  then have "decides (JObj kvs) ?p" by (auto simp: decides_def leaf_at_def split: option.splits)
  then have "leaf_at (JObj (deep_update common kvs)) ?p = Some (JStr t)"
    using leaf_merged_value [OF assms(1), of "JObj common" ?p] leaf by simp
  then have r: "resolve_key (JObj (deep_update common kvs)) (ss_key_path s) = JStr t"
    by (auto simp: resolve_key_def leaf_at_def split: option.splits if_splits)
  then have "deep_update common kvs \<noteq> []" by auto
  then show ?thesis
    using assms(3-6) r by (auto simp: audit_report_def Let_def foldl_present get_catalog_def)
qed

lemma init_keeps:
  assumes "store content srv" and "opens content srv" and "separate_keys catalog"
    and "content (world n) (enc_file env) = Some (JObj kvs)" and "json_wf (JObj kvs)"
    and "resolve_key (JObj kvs) (ss_key_path s) = JStr t" and "configured (JStr t)" and "well_shaped s (JStr t)"
    and "s \<in> set catalog" and "env \<in> set (ss_envs s)"
    and "init_machine_secrets srv catalog immutable env dry_run False [] n = (res, n')"
  shows "held (content (world n') f) (ss_key_path s) = held (content (world n) f) (ss_key_path s)"
proof -
  have kvs: "kvs \<noteq> []" using assms(6) by auto
  obtain ra na where a: "audit srv catalog env n = (ra, na)" by fastforce
  note same = answersD(2) [OF same_audit [OF assms(1)] refl a]
  show ?thesis
  proof (cases ra)
    case (Val r)
    from audit_Val [OF assms(1,2,4) kvs a [unfolded Val]] obtain common where
      "r = audit_report catalog env (deep_update common kvs)" by blast
    with audit_present [OF assms(5-10)] have present: "ss_key_path s \<in> set (ar_present r)" by simp
    have "\<forall>t \<in> set catalog. due immutable env [] (ar_present r) t \<longrightarrow> apart (ss_key_path t) (ss_key_path s)"
      using present separate_apart [OF assms(3) _ assms(9)] by (metis due_def)
    then have keep: "answers (at_key content f (ss_key_path s) v)
        (write_generated srv catalog immutable env dry_run [] (ar_present r))" for v
      by (intro answers_write_generated assms(1))
    have run: "write_generated srv catalog immutable env dry_run [] (ar_present r) na = (res, n')"
      using assms(11) a Val by (simp add: init_generates abind_def ret_def)
    show ?thesis using answersD(2) [OF keep refl run] same by simp
  qed (use assms(11) a same in \<open>auto simp: init_generates abind_def\<close>)
qed

section \<open>Auditing what was initialised\<close>

text \<open>Generators answer with text that is set and is no placeholder.\<close>

definition mints :: "'s vault \<Rightarrow> bool" where
  "mints srv \<longleftrightarrow> (\<forall>q w. case q of
     TokenHex k \<Rightarrow> \<exists>t. fst (srv q w) = Inr (JStr t) \<and> configured (JStr t)
   | TokenUrlsafe k \<Rightarrow> \<exists>t. fst (srv q w) = Inr (JStr t) \<and> configured (JStr t)
   | RsaKey k \<Rightarrow> \<exists>t. fst (srv q w) = Inr (JStr t) \<and> configured (JStr t)
   | _ \<Rightarrow> True)"

lemma generate_minted:
  assumes "mints srv" and "generate_secret srv s n = (Val v, n')" and "truthy v"
  shows "\<exists>t. v = JStr t \<and> configured (JStr t)"
proof -
  note m = assms(1) [unfolded mints_def, rule_format]
  show ?thesis
    using assms(2,3) m [of "TokenHex (ss_length s)" "world n"] m [of "TokenUrlsafe (ss_length s)" "world n"]
      m [of "RsaKey rsa_key_size" "world n"]
    by (auto simp: generate_secret_def ask_after split: secret_kind.splits sum.splits)
qed

lemma foreach_minted:
  assumes "mints srv"
    and "foreach (generate_entry srv immutable env named present) catalog gen0 n = (Val gen, n')"
    and "distinct (map fst gen0)"
    and "\<forall>(k, v) \<in> set gen0. \<exists>t. v = JStr t \<and> configured (JStr t)"
  shows "distinct (map fst gen) \<and> (\<forall>(k, v) \<in> set gen. \<exists>t. v = JStr t \<and> configured (JStr t))"
  using assms(2-4)
proof (induction catalog arbitrary: gen0 n)
  case (Cons s catalog)
  from Cons.prems(1) obtain gen1 n1 where
    step: "generate_entry srv immutable env named present s gen0 n = (Val gen1, n1)" and
    rest: "foreach (generate_entry srv immutable env named present) catalog gen1 n1 = (Val gen, n')"
    by (auto simp: abind_Val)
  then consider "gen1 = gen0" | v where "gen1 = oset gen0 (ss_key_path s) v" "generate_secret srv s n = (Val v, n1)" "truthy v"
    by (auto simp: generate_entry_def abind_Val split: if_splits)
  then have "distinct (map fst gen1) \<and> (\<forall>(k, v) \<in> set gen1. \<exists>t. v = JStr t \<and> configured (JStr t))"
  proof cases
    case (2 v)
    obtain t where t: "v = JStr t" "configured (JStr t)" using generate_minted [OF assms(1) 2(2,3)] by blast
    have "\<exists>t. x = JStr t \<and> configured (JStr t)" if "(k, x) \<in> set (oset gen0 (ss_key_path s) v)" for k x
      using subsetD [OF set_oset that] Cons.prems(3) t by auto
    then show ?thesis using 2(1) Cons.prems(2) by auto
  qed (use Cons.prems in simp)
  with Cons.IH [OF rest] show ?case by blast
qed simp

lemma init_then_audit:
  assumes "store content srv" and "opens content srv" and "mints srv" and "separate_keys catalog"
    and "\<forall>s \<in> set catalog. ss_kind s \<in> set auto_kinds \<longrightarrow> ss_value_pattern s = None"
    and "init_machine_secrets srv catalog immutable env False force named n = (Val gen, n1)" and "gen \<noteq> []"
    and "\<forall>d. content (world n1) (enc_file env) = Some d \<longrightarrow> json_wf d"
    and "audit srv catalog env n1 = (Val r, n2)"
  shows "fst ` set gen \<subseteq> set (ar_present r)"
proof
  fix k
  assume k: "k \<in> fst ` set gen"
  from assms(6,7) obtain present na where
    "write_generated srv catalog immutable env False named present na = (Val gen, n1)"
    by (auto simp: init_generates abind_Val split: if_splits)
  with assms(7) obtain nb where
    gens: "foreach (generate_entry srv immutable env named present) catalog [] na = (Val gen, nb)" and
    batch: "batch_update_secrets srv (enc_file env) gen nb = (Val True, n1)"
    by (auto simp: write_generated_def abind_Val split: if_splits)
  note minted = foreach_minted [OF assms(3) gens, simplified]
  have due: "\<exists>s \<in> set catalog. ss_key_path s = j \<and> due immutable env named present s" if "j \<in> fst ` set gen" for j
    using generated_due [OF gens that] by simp
  from due [OF k] obtain s where s: "s \<in> set catalog" "ss_key_path s = k" "env \<in> set (ss_envs s)" "ss_kind s \<in> set auto_kinds"
    by (auto simp: due_def)
  have "\<forall>i \<in> fst ` set gen. \<forall>j \<in> fst ` set gen. i \<noteq> j \<longrightarrow> apart i j"
    using due separate_apart [OF assms(4)] by metis
  note get = nested.puts_get [OF _ this, folded set_all_def]
  from batch_True [OF assms(1) batch assms(7)] obtain kvs where
    c: "content (world n1) (enc_file env) = Some (JObj (set_all kvs gen))" by auto
  from k minted obtain t where t: "(k, JStr t) \<in> set gen" "configured (JStr t)" by fastforce
  then have v: "resolve_key (JObj (set_all kvs gen)) k = JStr t" using get minted by blast
  then have "set_all kvs gen \<noteq> []" by auto
  from audit_Val [OF assms(1,2) c this assms(9)] obtain common where
    r: "r = audit_report catalog env (deep_update common (set_all kvs gen))" by blast
  have "well_shaped s (JStr t)" using assms(5) s by (simp add: well_shaped_def)
  with audit_present [of "set_all kvs gen" s t catalog env common] assms(8) c v t(2) s r
  show "k \<in> set (ar_present r)" by simp
qed

end
