(* ===== verification/CatalogFacts.thy ===== *)
theory CatalogFacts
  imports SecretData SecretsRuns
begin

text \<open>
  What holds of the repository's own catalog: that its key paths are apart, so that no write of one
  entry reaches another, that its names are valid, and that every hash has a source. The checks are
  evaluated on the data. \<open>heads_apart\<close> is a fast way to compare all pairs of key paths: it groups them
  by their first key.
\<close>

section \<open>Key paths that are apart\<close>

fun tails :: "'a \<Rightarrow> 'a list list \<Rightarrow> 'a list list" where
  "tails h [] = []"
| "tails h (q # qs) =
     (case q of [] \<Rightarrow> tails h qs | x # xs \<Rightarrow> if x = h then xs # tails h qs else tails h qs)"

fun others :: "'a \<Rightarrow> 'a list list \<Rightarrow> 'a list list" where
  "others h [] = []"
| "others h (q # qs) =
     (case q of [] \<Rightarrow> others h qs | x # xs \<Rightarrow> if x = h then others h qs else q # others h qs)"

lemma size_tails: "size_list length (tails h qs) \<le> size_list length qs"
  and size_others: "size_list length (others h qs) \<le> size_list length qs"
  by (induction qs) (auto split: list.split)

function heads_apart :: "'a list list \<Rightarrow> bool" where
  "heads_apart [] = True"
| "heads_apart ([] # qs) = (qs = [])"
| "heads_apart ((h # t) # qs) =
     ([] \<notin> set qs \<and> heads_apart (t # tails h qs) \<and> heads_apart (others h qs))"
  by pat_completeness auto
termination
  by (relation "measure (size_list length)")
    (auto simp: le_imp_less_Suc size_tails intro: le_less_trans [OF size_others])

lemma set_tails: "xs \<in> set (tails h qs) \<longleftrightarrow> h # xs \<in> set qs"
  by (induction qs) (auto split: list.split)

lemma set_others: "q \<in> set (others h qs) \<longleftrightarrow> q \<in> set qs \<and> q \<noteq> [] \<and> hd q \<noteq> h"
  by (induction qs) (auto split: list.split)

lemma distinct_groups:
  "[] \<notin> set qs \<Longrightarrow> distinct (tails h qs) \<Longrightarrow> distinct (others h qs) \<Longrightarrow> distinct qs"
  by (induction qs) (auto simp: set_tails set_others split: list.splits if_splits)

lemma heads_apart_sound:
  "heads_apart ps \<Longrightarrow> distinct ps \<and> (\<forall>p \<in> set ps. \<forall>q \<in> set ps. prefix p q \<longrightarrow> p = q)"
proof (induction ps rule: heads_apart.induct)
  case (3 h t qs)
  then have IH: "distinct (t # tails h qs)" "distinct (others h qs)" "[] \<notin> set qs"
    "\<And>p q. p \<in> set (t # tails h qs) \<Longrightarrow> q \<in> set (t # tails h qs) \<Longrightarrow> prefix p q \<Longrightarrow> p = q"
    "\<And>p q. p \<in> set (others h qs) \<Longrightarrow> q \<in> set (others h qs) \<Longrightarrow> prefix p q \<Longrightarrow> p = q"
    by auto
  have "p = q" if "p \<in> set ((h # t) # qs)" "q \<in> set ((h # t) # qs)" "prefix p q" for p q
  proof (cases p)
    case (Cons i is')
    with that(3) obtain js where q: "q = i # js" "prefix is' js" by (cases q) auto
    show ?thesis
    proof (cases "i = h")
      case True
      with that(1,2) Cons q have "is' \<in> set (t # tails h qs)" "js \<in> set (t # tails h qs)"
        by (auto simp: set_tails)
      with IH(4) q Cons show ?thesis by blast
    next
      case False
      with that(1,2) Cons q have "p \<in> set (others h qs)" "q \<in> set (others h qs)"
        by (auto simp: set_others)
      with IH(5) that(3) show ?thesis by blast
    qed
  qed (use that IH(3) in auto)
  moreover have "distinct ((h # t) # qs)"
    using IH(1-3) distinct_groups [of qs h] by (auto simp: set_tails)
  ultimately show ?case by blast
qed simp_all

lemma catalog_heads_apart: "heads_apart (map path_of (key_paths secret_catalog))"
  by code_simp

lemma path_of_inj: "path_of j = path_of k \<Longrightarrow> j = k"
  unfolding path_of_def by (metis join_split_on)

lemma catalog_distinct: "distinct (key_paths secret_catalog)"
  using heads_apart_sound [OF catalog_heads_apart] by (simp add: distinct_map)

lemma catalog_apart:
  assumes "j \<in> set (key_paths secret_catalog)" and "k \<in> set (key_paths secret_catalog)" and "j \<noteq> k"
  shows "apart j k"
proof -
  have "\<not> prefix (path_of a) (path_of b)"
    if "a \<in> set (key_paths secret_catalog)" "b \<in> set (key_paths secret_catalog)" "a \<noteq> b" for a b
    using heads_apart_sound [OF catalog_heads_apart] that path_of_inj by fastforce
  with assms show ?thesis by (simp add: apart_def)
qed

section \<open>The catalog is sound\<close>

lemma catalog_valid: "list_all (\<lambda>s. post_init s = Inr ()) secret_catalog"
  by code_simp

lemma catalog_names:
  "list_all (\<lambda>s. secret_manager_name (ss_key_path s) = Inr (dashed (ss_key_path s)))
     (secrets_synced_to_secret_manager secret_catalog)
   \<and> distinct (map (\<lambda>s. dashed (ss_key_path s)) (secrets_synced_to_secret_manager secret_catalog))"
  by code_simp

lemma catalog_machine_shape:
  "list_all (\<lambda>s. ss_kind s \<notin> set auto_kinds \<or> ss_value_pattern s = None) secret_catalog"
  by code_simp

text \<open>An entry that holds the plaintext of a hash, in an environment.\<close>

definition source_of :: "string \<Rightarrow> secret_spec \<Rightarrow> secret_spec \<Rightarrow> bool" where
  "source_of env h s \<longleftrightarrow>
     ss_key_path s = ss_derived_from h \<and> env \<in> set (ss_envs s) \<and> ss_kind s = OIDC_CLIENT_SECRET"

lemma oidc_sources:
  "list_all (\<lambda>env. list_all (\<lambda>h. list_ex (source_of env h) (catalog_oidc @ catalog_gitea)) (hashed_specs secret_catalog env))
     [''dev'', ''staging'', ''prod'']"
  by code_simp

lemma catalog_parts: "set (catalog_authelia @ catalog_oidc @ catalog_gitea) \<subseteq> set secret_catalog"
  unfolding secret_catalog_def set_append by blast

lemma immutable_tokens:
  "list_all (\<lambda>k. list_ex (\<lambda>s. ss_key_path s = k \<and> ss_kind s = RANDOM_TOKEN) catalog_authelia) immutable_secrets"
  by code_simp

text \<open>C18. The repository's catalog is sound: every entry passes the validation of its class, key paths are
  distinct and none continues another, the synced entries have valid Secret Manager ids that do not
  collide, every hash of a client secret has its plaintext in the catalog for the same environment, and
  every immutable key is a catalogued random token.\<close>

theorem catalog_sound:
  "list_all (\<lambda>s. post_init s = Inr ()) secret_catalog
   \<and> distinct (key_paths secret_catalog) \<and> pairwise apart (set (key_paths secret_catalog))
   \<and> list_all (\<lambda>s. secret_manager_name (ss_key_path s) = Inr (dashed (ss_key_path s)))
       (secrets_synced_to_secret_manager secret_catalog)
   \<and> distinct (map (\<lambda>s. dashed (ss_key_path s)) (secrets_synced_to_secret_manager secret_catalog))
   \<and> list_all (\<lambda>env. list_all (\<lambda>h. list_ex (source_of env h) secret_catalog) (hashed_specs secret_catalog env))
       [''dev'', ''staging'', ''prod'']
   \<and> list_all (\<lambda>k. list_ex (\<lambda>s. ss_key_path s = k \<and> ss_kind s = RANDOM_TOKEN) secret_catalog) immutable_secrets"
proof -
  have "list_ex P catalog_authelia \<or> list_ex P (catalog_oidc @ catalog_gitea) \<Longrightarrow> list_ex P secret_catalog" for P
    using catalog_parts by (auto simp: list_ex_iff)
  then have sources: "list_all (\<lambda>env. list_all (\<lambda>h. list_ex (source_of env h) secret_catalog)
        (hashed_specs secret_catalog env)) [''dev'', ''staging'', ''prod'']"
    and tokens: "list_all (\<lambda>k. list_ex (\<lambda>s. ss_key_path s = k \<and> ss_kind s = RANDOM_TOKEN) secret_catalog) immutable_secrets"
    using oidc_sources immutable_tokens by (fastforce simp: list_all_iff)+
  from catalog_apart have "pairwise apart (set (key_paths secret_catalog))" by (simp add: pairwise_def)
  with catalog_valid catalog_distinct catalog_names sources tokens show ?thesis by (intro conjI) simp_all
qed

section \<open>What initialising changes\<close>

lemma catalog_separate: "separate_keys secret_catalog"
  unfolding separate_keys_def pairwise_def using catalog_distinct catalog_apart by blast


text \<open>Without flags \<open>secrets init\<close> never replaces a live value: what the environment's file holds, and is
  set and has the declared shape, is as it was in every file after the run, whatever fails.\<close>

theorem init_keeps_live_values:
  assumes "store content srv" and "opens content srv"
    and "content (world n) (enc_file env) = Some (JObj kvs)" and "json_wf (JObj kvs)"
    and "s \<in> set secret_catalog" and "env \<in> set (ss_envs s)"
    and "resolve_key (JObj kvs) (ss_key_path s) = JStr t" and "configured (JStr t)" and "well_shaped s (JStr t)"
    and "init_machine_secrets srv secret_catalog immutable_secrets env dry_run False [] n = (res, n')"
  shows "held (content (world n') f) (ss_key_path s) = held (content (world n) f) (ss_key_path s)"
  by (rule init_keeps [OF assms(1,2) catalog_separate assms(3,4,7-9,5,6,10)])

text \<open>What \<open>secrets init\<close> reports as written, the audit that follows finds present: every generated key
  reached the environment's file, overrides the shared one, and has the shape its entry declares.\<close>

theorem init_fills_the_audit:
  assumes "store content srv" and "opens content srv" and "mints srv"
    and "init_machine_secrets srv secret_catalog immutable_secrets env False force named n = (Val gen, n1)" and "gen \<noteq> []"
    and "\<forall>d. content (world n1) (enc_file env) = Some d \<longrightarrow> json_wf d"
    and "audit srv secret_catalog env n1 = (Val r, n2)"
  shows "fst ` set gen \<subseteq> set (ar_present r)"
  using catalog_machine_shape
  by (intro init_then_audit [OF assms(1-3) catalog_separate _ assms(4-7)]) (auto simp: list_all_iff)

section \<open>What rotating changes\<close>

text \<open>Whatever fails, rotating a key changes no other catalogued value in any file but those derived from
  it, and a key that is not in the catalog changes nothing.\<close>

theorem rotation_changes_only_derived:
  assumes "store content srv"
    and "rotate_secret srv secret_catalog bg immutable_secrets env key_path n = (res, n')"
    and "s \<in> set secret_catalog" and "ss_key_path s \<noteq> key_path" and "\<not> derives env key_path s"
  shows "held (content (world n') f) (ss_key_path s) = held (content (world n) f) (ss_key_path s)"
proof -
  have "apart (ss_key_path t) (ss_key_path s)"
    if "t \<in> set secret_catalog" "ss_key_path t = key_path \<or> derives env key_path t" for t
    using that assms(3-5) separate_inj [OF catalog_separate that(1) assms(3)]
    by (intro separate_apart [OF catalog_separate]) auto
  then have "answers (at_key content f (ss_key_path s) (held (content (world n) f) (ss_key_path s)))
      (rotate_secret srv secret_catalog bg immutable_secrets env key_path)"
    by (intro answers_rotate_secret assms(1)) blast
  from answersD(2) [OF this _ assms(2)] show ?thesis by simp
qed

text \<open>A rotation that returns was allowed, and took effect: the entry is machine-generable, declared for the
  environment, neither immutable nor a break-glass account; the environment's file holds the new value;
  and every derived entry either is reported and holds the digest of that value, or is as it was. A
  digest that could not be written is left out of the report and does not fail the rotation.\<close>

theorem rotation_effective:
  assumes "store content srv"
    and "rotate_secret srv secret_catalog bg immutable_secrets env key_path n = (Val p, n')"
  shows "\<exists>s v. s \<in> set secret_catalog \<and> ss_key_path s = key_path \<and> env \<in> set (ss_envs s)
    \<and> ss_kind s \<in> set auto_kinds \<and> key_path \<notin> set bg \<and> key_path \<notin> set immutable_secrets
    \<and> truthy v \<and> ro_restart_services p = ss_services s
    \<and> held (content (world n') (enc_file env)) key_path = v
    \<and> (\<forall>t \<in> set secret_catalog. t \<noteq> s \<longrightarrow>
         (if ss_key_path t \<in> set (ro_derived p)
          then derives env key_path t \<and> digest_of srv t v (held (content (world n') (enc_file env)) (ss_key_path t))
          else \<forall>f. held (content (world n') f) (ss_key_path t) = held (content (world n) f) (ss_key_path t)))"
proof -
  from rotate_secret_Val [OF assms(1) catalog_separate assms(2)] obtain s v where
    r: "s \<in> set secret_catalog \<and> ss_key_path s = key_path \<and> env \<in> set (ss_envs s)
    \<and> ss_kind s \<in> set auto_kinds \<and> key_path \<notin> set bg \<and> key_path \<notin> set immutable_secrets
    \<and> truthy v \<and> ro_restart_services p = ss_services s
    \<and> (if derives env key_path s then True else held (content (world n') (enc_file env)) key_path = v)
    \<and> (\<forall>t \<in> set secret_catalog. t \<noteq> s \<longrightarrow>
         (if ss_key_path t \<in> set (ro_derived p)
          then derives env key_path t \<and> digest_of srv t v (held (content (world n') (enc_file env)) (ss_key_path t))
          else \<forall>f. held (content (world n') f) (ss_key_path t) = held (content (world n) f) (ss_key_path t)))"
    by blast
  then have "\<not> derives env key_path s" by (auto simp: derives_def auto_kinds_def)
  with r show ?thesis by (intro exI [of _ s] exI [of _ v]) simp
qed

text \<open>Hashing is all or none: if the plaintext of one client secret of the environment is missing or empty,
  it raises and the vault is as it was; otherwise a run that reports hashes left in the environment's
  file, for every one of them, the digest of the plaintext that file held.\<close>

theorem hashes_all_or_none:
  assumes "store content srv" and "opens content srv" and "content (world n) (enc_file env) = Some d"
    and "hash_oidc_secrets srv secret_catalog env n = (res, n')"
  shows "if list_all (\<lambda>s. truthy (resolve_key d (ss_derived_from s))) (hashed_specs secret_catalog env)
    then \<forall>hashes. res = Val hashes \<and> hashes \<noteq> [] \<longrightarrow>
      (\<forall>s \<in> set (hashed_specs secret_catalog env).
         hashed_as srv (resolve_key d (ss_derived_from s)) (held (content (world n') (enc_file env)) (ss_key_path s)))
    else (\<exists>ms. res = Exn (HashSourceMissing ms)) \<and> content (world n') = content (world n)"
proof (cases "list_all (\<lambda>s. truthy (resolve_key d (ss_derived_from s))) (hashed_specs secret_catalog env)")
  case True
  then show ?thesis
    using hash_written [OF assms(1-3) catalog_separate] assms(4) by simp
next
  case False
  then obtain s where s: "s \<in> set (hashed_specs secret_catalog env)" "\<not> truthy (resolve_key d (ss_derived_from s))"
    by (auto simp: list_all_iff)
  show ?thesis
    using False hash_missing [OF assms(1-3) s] assms(4) decrypt_sops_run [OF assms(1-3)]
      content_decrypt [OF assms(1), where f = "enc_file env" and n = n]
    by auto
qed

end
