(* ===== verification/SecretsSamples.thy ===== *)
theory SecretsSamples
  imports CatalogFacts
begin

text \<open>
  The properties of the secret store at concrete inputs: a store that is an association list of
  documents, with encryption that works or fails, fixed generated values, and hashers that mark their
  input.
\<close>

section \<open>A concrete store\<close>

definition sample_vault :: "bool \<Rightarrow> obj vault" where
  "sample_vault encrypts q w =
     (case q of
        FileExists f \<Rightarrow> (Inr (JBool (map_of w f \<noteq> None)), w)
      | SopsInstalled \<Rightarrow> (Inr (JBool True), w)
      | SopsDecrypt f \<Rightarrow>
          ((case map_of w f of None \<Rightarrow> Inl (CalledProcessError ''no such file'') | Some d \<Rightarrow> Inr d), w)
      | WriteText f d \<Rightarrow> (Inr JNull, oset w f d)
      | SopsEncrypt f \<Rightarrow> ((if encrypts then Inr JNull else Inl (CalledProcessError ''no key'')), w)
      | Unlink f \<Rightarrow> (Inr JNull, filter (\<lambda>kv. fst kv \<noteq> f) w)
      | SopsSet f p v \<Rightarrow>
          (case map_of w f of
             Some (JObj kvs) \<Rightarrow> (Inr (JInt 0), oset w f (JObj (set_nested kvs p v)))
           | _ \<Rightarrow> (Inr (JInt 1), w))
      | SopsUnset f p \<Rightarrow> (Inr (JInt 1), w)
      | TokenHex k \<Rightarrow> (Inr (JStr ''5f3a''), w)
      | TokenUrlsafe k \<Rightarrow> (Inr (JStr ''kPz3'') , w)
      | RsaKey k \<Rightarrow> (Inr (JStr ''pem''), w)
      | Argon2 s \<Rightarrow> (Inr (JStr (''argon2:'' @ s)), w)
      | Bcrypt s \<Rightarrow> (Inr (JStr (''bcrypt:'' @ s)), w))"

lemma map_of_drop: "map_of (filter (\<lambda>kv. fst kv \<noteq> f) w) = (map_of w)(f := None)"
  by (induction w) auto

lemma sample_vault_store: "store map_of (sample_vault e)"
  unfolding store_def
  by (auto simp: sample_vault_def map_of_drop split: vault_call.split option.split json.split)

lemma sample_vault_opens: "opens map_of (sample_vault e)"
  by (simp add: opens_def sample_vault_def)

lemma sample_vault_mints: "mints (sample_vault e)"
proof -
  have "configured (JStr ''5f3a'')" and "configured (JStr ''kPz3'')" and "configured (JStr ''pem'')"
    by code_simp+
  then show ?thesis unfolding mints_def by (simp add: sample_vault_def split: vault_call.split)
qed

definition vault_net :: "obj \<Rightarrow> (vault_call, obj) net" where
  "vault_net files = \<lparr>sent = [], world = files, budget = 1\<rparr>"

section \<open>Orphans, and an encryption that fails\<close>

definition sample_doc :: obj where
  "sample_doc = [(''aws'', JObj [(''id'', JStr ''x''), (''old'', JStr ''y'')]), (''sops'', JStr ''m'')]"

lemma orphans_are_unowned_leaves_witness:
  "''aws.old'' \<in> set (orphan_key_paths [spec ''aws.id'' EXTERNAL] (JObj sample_doc))"
proof -
  have doc: "json_wf (JObj sample_doc)" "plain_keys (JObj sample_doc)" by code_simp+
  have leaf: "leaf_at (JObj sample_doc) [''aws'', ''old''] \<noteq> None" by code_simp
  have "join ''.'' q \<notin> set (key_paths [spec ''aws.id'' EXTERNAL])" if "q \<noteq> []" "prefix q [''aws'', ''old'']" for q
  proof -
    from that have "q = [''aws''] \<or> q = [''aws'', ''old'']" by (auto simp: prefix_Cons)
    then show ?thesis by (elim disjE) (simp_all add: key_paths_def spec_def)
  qed
  then have "join ''.'' [''aws'', ''old''] \<in> set (orphan_key_paths [spec ''aws.id'' EXTERNAL] (JObj sample_doc))"
    using leaf unfolding orphans_are_unowned_leaves [OF doc, THEN conjunct2]
    by (intro CollectI exI [of _ "[''aws'', ''old'']"]) (simp add: sops_metadata_key_def)
  then show ?thesis by simp
qed

lemma failed_encryption_leaves_plaintext_witness:
  "\<exists>n'. batch_update_secrets (sample_vault False) ''prod.enc.yaml'' [(''aws.key'', JStr ''z'')]
      (vault_net [(''prod.enc.yaml'', JObj sample_doc)]) = (Val False, n')
    \<and> map_of (world n') ''prod.enc.yaml'' = Some (JObj (set_all sample_doc [(''aws.key'', JStr ''z'')]))"
proof -
  have at: "map_of (world (vault_net [(''prod.enc.yaml'', JObj sample_doc)])) ''prod.enc.yaml'' = Some (JObj sample_doc)"
    by (simp add: vault_net_def)
  have "sample_doc \<noteq> []" by (simp add: sample_doc_def)
  moreover have "\<forall>w. fst (sample_vault False (SopsEncrypt ''prod.enc.yaml'') w) = Inl (CalledProcessError ''no key'')"
    by (simp add: sample_vault_def)
  ultimately show ?thesis
    using failed_encryption_leaves_plaintext [OF sample_vault_store sample_vault_opens at] by blast
qed

section \<open>Runs over the repository's catalog\<close>

definition grafana :: string where
  "grafana = ''apps.services.security.authelia.oidc_client_secret_grafana''"

definition live_doc :: obj where
  "live_doc = set_all []
     [(grafana, JStr ''old''), (''apps.services.security.authelia.session_secret'', JStr ''kept'')]"

definition live :: "(vault_call, obj) net" where
  "live = vault_net [(''dev.enc.yaml'', JObj live_doc)]"

definition session :: secret_spec where
  "session = hd catalog_authelia"

lemma session_catalogued: "session \<in> set secret_catalog"
  using catalog_parts by (auto simp: session_def catalog_authelia_def)

lemma session_path: "ss_key_path session = ''apps.services.security.authelia.session_secret''"
  by code_simp

definition init_run :: "(obj outcome) \<times> (vault_call, obj) net" where
  "init_run = init_machine_secrets (sample_vault True) secret_catalog immutable_secrets ''dev'' False True [grafana] live"

definition rotate_run :: "(secret_rotation outcome) \<times> (vault_call, obj) net" where
  "rotate_run = rotate_secret (sample_vault True) secret_catalog [] immutable_secrets ''dev'' grafana live"

definition hash_run :: "(obj outcome) \<times> (vault_call, obj) net" where
  "hash_run = hash_oidc_secrets (sample_vault True) secret_catalog ''dev'' live"

lemma init_run_generated: "fst init_run = Val [(grafana, JStr ''kPz3'')]"
  by code_simp

lemma init_run_files: "list_all (\<lambda>kv. json_wf (snd kv)) (world (snd init_run))"
  by code_simp

lemma audit_run_returns:
  "(case fst (audit (sample_vault True) secret_catalog ''dev'' (snd init_run)) of Val r \<Rightarrow> True | _ \<Rightarrow> False)"
  by code_simp

lemma rotate_run_returns: "(case fst rotate_run of Val p \<Rightarrow> ro_derived p = [grafana @ ''_hash''] | _ \<Rightarrow> False)"
  by code_simp

lemma hash_run_hashes: "fst hash_run = Val [(grafana @ ''_hash'', JStr ''argon2:old'')]"
  by code_simp

lemma live_sources:
  "list_all (\<lambda>s. truthy (resolve_key (JObj live_doc) (ss_derived_from s))) (hashed_specs secret_catalog ''dev'')"
  by code_simp



lemma live_doc_session: "resolve_key (JObj live_doc) (ss_key_path session) = JStr ''kept''"
  by code_simp

lemma live_doc_wf: "json_wf (JObj live_doc)"
  by code_simp

lemma init_keeps_live_values_witness:
  "held (map_of (world (snd (init_machine_secrets (sample_vault True) secret_catalog immutable_secrets ''dev''
      False False [] live))) ''dev.enc.yaml'') (ss_key_path session) = JStr ''kept''"
proof -
  have at: "map_of (world live) (enc_file ''dev'') = Some (JObj live_doc)"
    by (simp add: live_def vault_net_def enc_file_def)
  have envs: "''dev'' \<in> set (ss_envs session)" by code_simp
  have set: "configured (JStr ''kept'')" by code_simp
  have shape: "well_shaped session (JStr ''kept'')" by code_simp
  have "held (map_of (world (snd (init_machine_secrets (sample_vault True) secret_catalog immutable_secrets ''dev''
      False False [] live))) ''dev.enc.yaml'') (ss_key_path session) =
    held (map_of (world live) ''dev.enc.yaml'') (ss_key_path session)"
    by (rule init_keeps_live_values [OF sample_vault_store sample_vault_opens at live_doc_wf session_catalogued envs
          live_doc_session set shape prod.collapse [symmetric]])
  with at live_doc_session show ?thesis by (simp add: held_def enc_file_def)
qed

lemma init_fills_the_audit_witness:
  "\<exists>r n2. audit (sample_vault True) secret_catalog ''dev'' (snd init_run) = (Val r, n2) \<and> grafana \<in> set (ar_present r)"
proof -
  obtain r n2 where audited: "audit (sample_vault True) secret_catalog ''dev'' (snd init_run) = (Val r, n2)"
    using audit_run_returns by (cases "audit (sample_vault True) secret_catalog ''dev'' (snd init_run)")
      (auto split: outcome.splits)
  have ran: "init_machine_secrets (sample_vault True) secret_catalog immutable_secrets ''dev'' False True [grafana] live
    = (Val [(grafana, JStr ''kPz3'')], snd init_run)"
    using init_run_generated prod.collapse [of init_run] by (simp add: init_run_def)
  have wf: "\<forall>d. map_of (world (snd init_run)) (enc_file ''dev'') = Some d \<longrightarrow> json_wf d"
    using init_run_files by (fastforce simp: list_all_iff dest: map_of_SomeD)
  from init_fills_the_audit [OF sample_vault_store sample_vault_opens sample_vault_mints ran _ wf audited] audited
  show ?thesis by simp
qed

lemma rotation_changes_only_derived_witness:
  "held (map_of (world (snd rotate_run)) ''dev.enc.yaml'') (ss_key_path session) =
   held (map_of (world live) ''dev.enc.yaml'') (ss_key_path session)"
proof (rule rotation_changes_only_derived [OF sample_vault_store _ session_catalogued])
  show "rotate_secret (sample_vault True) secret_catalog [] immutable_secrets ''dev'' grafana live
    = (fst rotate_run, snd rotate_run)"
    by (simp add: rotate_run_def)
  show "ss_key_path session \<noteq> grafana" by (simp add: session_path grafana_def)
  show "\<not> derives ''dev'' grafana session" by code_simp
qed

lemma rotation_effective_witness:
  "\<exists>p v. fst rotate_run = Val p \<and> truthy v \<and> held (map_of (world (snd rotate_run)) ''dev.enc.yaml'') grafana = v"
proof -
  obtain p where p: "fst rotate_run = Val p" using rotate_run_returns by (auto split: outcome.splits)
  then have "rotate_secret (sample_vault True) secret_catalog [] immutable_secrets ''dev'' grafana live = (Val p, snd rotate_run)"
    using prod.collapse [of rotate_run] by (simp add: rotate_run_def)
  from rotation_effective [OF sample_vault_store this] p show ?thesis by (auto simp: enc_file_def)
qed

lemma hashes_all_or_none_witness:
  "list_all (\<lambda>s. hashed_as (sample_vault True) (resolve_key (JObj live_doc) (ss_derived_from s))
       (held (map_of (world (snd hash_run)) ''dev.enc.yaml'') (ss_key_path s))) (hashed_specs secret_catalog ''dev'')"
proof -
  have at: "map_of (world live) (enc_file ''dev'') = Some (JObj live_doc)"
    by (simp add: live_def vault_net_def enc_file_def)
  have "hash_oidc_secrets (sample_vault True) secret_catalog ''dev'' live = (fst hash_run, snd hash_run)"
    by (simp add: hash_run_def)
  from hashes_all_or_none [OF sample_vault_store sample_vault_opens at this] live_sources hash_run_hashes
  show ?thesis by (simp add: enc_file_def list_all_iff)
qed

end
