(* ===== verification/Transcript.thy ===== *)
theory Transcript
  imports Effects
begin

text \<open>
  What an action was told. The log of an action holds its calls; replaying them gives the answers, so
  calls and answers together are a transcript. \<open>says srv m R\<close> says that \<open>m\<close> reaches its outside party
  only through \<open>srv\<close>, and that \<open>R\<close> holds of every value it returns and the transcript of that run. The rules
  compute such statements along the code: a call prepends its answer, and a handler starts from any
  transcript, since a failed attempt may have read anything.
\<close>

named_theorems says_intros \<open>rules for what an action was told\<close>

fun replay :: "('q \<Rightarrow> 's \<Rightarrow> 'r \<times> 's) \<Rightarrow> 'q list \<Rightarrow> 's \<Rightarrow> 's" where
  "replay srv [] w = w"
| "replay srv (q # qs) w = replay srv qs (snd (srv q w))"

fun transcript :: "('q \<Rightarrow> 's \<Rightarrow> 'r \<times> 's) \<Rightarrow> 'q list \<Rightarrow> 's \<Rightarrow> ('q \<times> 'r) list" where
  "transcript srv [] w = []"
| "transcript srv (q # qs) w = (q, fst (srv q w)) # transcript srv qs (snd (srv q w))"

lemma replay_append [simp]: "replay srv (qs @ rs) w = replay srv rs (replay srv qs w)"
  by (induction qs arbitrary: w) simp_all

lemma transcript_append [simp]:
  "transcript srv (qs @ rs) w = transcript srv qs w @ transcript srv rs (replay srv qs w)"
  by (induction qs arbitrary: w) simp_all

definition says ::
  "('q \<Rightarrow> 's \<Rightarrow> 'r \<times> 's) \<Rightarrow> ('q, 's, 'a) act \<Rightarrow> ('a \<Rightarrow> ('q \<times> 'r) list \<Rightarrow> bool) \<Rightarrow> bool" where
  "says srv m R \<longleftrightarrow> (\<forall>n. \<exists>qs. sent (snd (m n)) = sent n @ qs \<and> world (snd (m n)) = replay srv qs (world n) \<and>
     (\<forall>x. fst (m n) = Val x \<longrightarrow> R x (transcript srv qs (world n))))"

text \<open>The transcript of one run.\<close>

definition told :: "('q \<Rightarrow> 's \<Rightarrow> 'r \<times> 's) \<Rightarrow> ('q, 's, 'a) act \<Rightarrow> ('q, 's) net \<Rightarrow> ('q \<times> 'r) list" where
  "told srv m n = transcript srv (sends m n) (world n)"

lemma saysD: "says srv m R \<Longrightarrow> m n = (Val x, n') \<Longrightarrow> R x (told srv m n)"
  unfolding says_def told_def sends_def by (metis append_eq_conv_conj fst_conv)

lemma saysE:
  assumes "says srv m R"
  obtains qs where "sent (snd (m n)) = sent n @ qs" "world (snd (m n)) = replay srv qs (world n)"
    "\<And>x. fst (m n) = Val x \<Longrightarrow> R x (transcript srv qs (world n))"
  using assms unfolding says_def by blast

lemma says_mono: "says srv m P \<Longrightarrow> (\<And>x tr. P x tr \<Longrightarrow> R x tr) \<Longrightarrow> says srv m R"
  unfolding says_def by metis

lemma says_ret [says_intros]: "R x [] \<Longrightarrow> says srv (ret x) R"
  by (simp add: says_def ret_def)

lemma says_throw [says_intros]: "says srv (throw e) R"
  by (simp add: says_def throw_def)

lemma says_call [says_intros]: "(\<And>r. R r [(q, r)]) \<Longrightarrow> says srv (call srv q) R"
  by (auto simp: says_def call_def split: prod.split intro!: exI [of _ "[q]"])

lemma says_lift: "(\<And>x. r = Inr x \<Longrightarrow> R x []) \<Longrightarrow> says srv (lift r) R"
  by (cases r) (simp_all add: act_simps says_ret says_throw)

lemma says_abind:
  assumes m: "says srv m P" and f: "\<And>x tr. P x tr \<Longrightarrow> says srv (f x) (\<lambda>y tr'. R y (tr @ tr'))"
  shows "says srv (abind m f) R"
  unfolding says_def
proof
  fix n
  obtain r n' where mn: "m n = (r, n')" by fastforce
  from m obtain qs where q: "sent n' = sent n @ qs" "world n' = replay srv qs (world n)"
    "\<And>x. r = Val x \<Longrightarrow> P x (transcript srv qs (world n))"
    by (rule saysE [where n = n]) (simp add: mn)
  show "\<exists>qs. sent (snd (abind m f n)) = sent n @ qs \<and> world (snd (abind m f n)) = replay srv qs (world n) \<and>
      (\<forall>y. fst (abind m f n) = Val y \<longrightarrow> R y (transcript srv qs (world n)))"
  proof (cases r)
    case (Val x)
    with q(3) f have "says srv (f x) (\<lambda>y tr'. R y (transcript srv qs (world n) @ tr'))" by blast
    then obtain ps where "sent (snd (f x n')) = sent n' @ ps" "world (snd (f x n')) = replay srv ps (world n')"
      "\<And>y. fst (f x n') = Val y \<Longrightarrow> R y (transcript srv qs (world n) @ transcript srv ps (world n'))"
      by (rule saysE [where n = n']) blast
    with q Val mn show ?thesis by (intro exI [of _ "qs @ ps"]) (simp add: act_simps)
  qed (use q mn in \<open>auto simp: act_simps\<close>)
qed

lemma says_attempt:
  assumes m: "says srv m P" and "\<And>x tr. P x tr \<Longrightarrow> R x tr"
    and h: "\<And>e tr. says srv (h e) (\<lambda>y tr'. R y (tr @ tr'))"
  shows "says srv (attempt m h) R"
  unfolding says_def
proof
  fix n
  obtain r n' where mn: "m n = (r, n')" by fastforce
  from m obtain qs where q: "sent n' = sent n @ qs" "world n' = replay srv qs (world n)"
    "\<And>x. r = Val x \<Longrightarrow> P x (transcript srv qs (world n))"
    by (rule saysE [where n = n]) (simp add: mn)
  show "\<exists>qs. sent (snd (attempt m h n)) = sent n @ qs \<and> world (snd (attempt m h n)) = replay srv qs (world n) \<and>
      (\<forall>y. fst (attempt m h n) = Val y \<longrightarrow> R y (transcript srv qs (world n)))"
  proof (cases r)
    case (Exn e)
    from h [of e "transcript srv qs (world n)"] obtain ps where
      "sent (snd (h e n')) = sent n' @ ps" "world (snd (h e n')) = replay srv ps (world n')"
      "\<And>y. fst (h e n') = Val y \<Longrightarrow> R y (transcript srv qs (world n) @ transcript srv ps (world n'))"
      by (rule saysE [where n = n']) blast
    with q Exn mn show ?thesis by (intro exI [of _ "qs @ ps"]) (simp add: attempt_def)
  qed (use q mn assms(2) in \<open>auto simp: attempt_def\<close>)
qed

lemma says_ask [says_intros]: "(\<And>v. R v [(q, Inr v)]) \<Longrightarrow> says srv (ask srv q) R"
  unfolding ask_def
  by (rule says_abind [OF says_call [where R = "\<lambda>r tr. tr = [(q, r)]"]]) (auto intro!: says_lift)

text \<open>One step of the code, then the rest.\<close>

lemma says_ask_then [says_intros]:
  assumes "\<And>v. says srv (f v) (\<lambda>y tr. R y ((q, Inr v) # tr))"
  shows "says srv (abind (ask srv q) f) R"
  by (rule says_abind [OF says_ask [where R = "\<lambda>v tr. tr = [(q, Inr v)]"]]) (use assms in auto)

lemma says_lift_then [says_intros]:
  assumes "\<And>x. r = Inr x \<Longrightarrow> says srv (f x) R"
  shows "says srv (abind (lift r) f) R"
  by (rule says_abind [OF says_lift [where R = "\<lambda>x tr. r = Inr x \<and> tr = []"]]) (use assms in auto)

lemma says_if [says_intros]:
  "(c \<Longrightarrow> says srv a R) \<Longrightarrow> (\<not> c \<Longrightarrow> says srv b R) \<Longrightarrow> says srv (if c then a else b) R"
  by simp

lemma says_case_option [says_intros]:
  "(x = None \<Longrightarrow> says srv a R) \<Longrightarrow> (\<And>y. x = Some y \<Longrightarrow> says srv (b y) R) \<Longrightarrow>
     says srv (case x of None \<Rightarrow> a | Some y \<Rightarrow> b y) R"
  by (cases x) auto

lemma says_case_prod [says_intros]:
  "(\<And>y z. x = (y, z) \<Longrightarrow> says srv (b y z) R) \<Longrightarrow> says srv (case x of (y, z) \<Rightarrow> b y z) R"
  by (cases x) auto

lemma says_amap:
  assumes "\<And>x. x \<in> set xs \<Longrightarrow> says srv (f x) (P x)"
  shows "says srv (amap f xs) (\<lambda>ys tr. list_all2 (\<lambda>x y. \<exists>tr'. P x y tr' \<and> set tr' \<subseteq> set tr) xs ys)"
  using assms
proof (induction xs)
  case (Cons x xs)
  let ?R = "\<lambda>tr0 ys tr. list_all2 (\<lambda>x y. \<exists>tr'. P x y tr' \<and> set tr' \<subseteq> set (tr0 @ tr)) xs ys"
  have rest: "says srv (amap f xs) (?R tr0)" for tr0
    by (rule says_mono [OF Cons.IH]) (use Cons.prems in \<open>auto elim!: list_all2_mono\<close>)
  show ?case
    unfolding amap.simps
    by (rule says_abind [OF Cons.prems [of x]], simp)
      (rule says_abind [OF rest], auto intro!: says_ret)
qed (simp add: says_ret)

text \<open>Raising nothing.\<close>

lemma no_raise_attempt: "(\<And>e. no_raise (h e)) \<Longrightarrow> no_raise (attempt m h)"
  by (rule no_raise_intros)

end
