(* ===== verification/DeployShape.thy ===== *)
theory DeployShape
  imports Transcript Regex
begin

text \<open>
  \<open>toolkit/features/deploy_shape.py\<close>: is a pull request a mechanical staging deploy? One version moved to
  an immutable tag, the overlay moved the same image, nothing else changed, and the tag is newer and on
  the default branch.

  A reason is named by the statement that gives it. The forge's API, \<open>yaml.safe_load\<close>,
  \<open>yaml.safe_load_all\<close> and \<open>re.compile\<close> are parameters; the declared tag pattern is kept as its syntax
  tree. A product of the registry keeps the two fields that are read here.
\<close>

section \<open>The declaration\<close>

record shape_declaration =
  decl_name :: string
  decl_check :: string
  decl_env :: string
  values_file :: string
  overlay_files :: "string list"
  version_path :: "string list"
  tag_pattern :: rx

definition decl_files :: "shape_declaration \<Rightarrow> string list" where
  "decl_files decl = values_file decl # overlay_files decl"

fun some_text :: "json \<Rightarrow> bool" where
  "some_text (JStr s) = (s \<noteq> [])"
| "some_text _ = False"

fun some_texts :: "json \<Rightarrow> bool" where
  "some_texts (JArr xs) = (xs \<noteq> [] \<and> list_all some_text xs)"
| "some_texts _ = False"

fun texts_of :: "json \<Rightarrow> string list" where
  "texts_of (JArr xs) = map py_str xs"
| "texts_of _ = []"

definition unreadable :: "exn \<Rightarrow> bool" where
  "unreadable e =
     (case e of OSError _ \<Rightarrow> True | ValueError _ \<Rightarrow> True | JSONDecodeError _ \<Rightarrow> True | AttributeError _ \<Rightarrow> True
      | _ \<Rightarrow> False)"

text \<open>The registry document is what reading the file gives, or the exception it raises.\<close>

definition app_slot :: string where
  "app_slot = ''{app}''"

definition load_mechanical :: "(string \<Rightarrow> rx option) \<Rightarrow> exn + json \<Rightarrow> exn + shape_declaration" where
  "load_mechanical compile doc =
     (case ebind doc (\<lambda>d. py_get d ''mechanical'') of
        Inl e \<Rightarrow> Inl (if unreadable e then DeclarationError ''cannot read'' else e)
      | Inr (JObj block) \<Rightarrow>
          if \<not> list_all (\<lambda>k. some_text (oget block k)) [''name'', ''check'', ''env'', ''values_file'', ''tag_pattern''] \<or>
             \<not> list_all (\<lambda>k. some_texts (oget block k)) [''overlay_files'', ''version_path'']
          then Inl (DeclarationError ''needs every field'')
          else if app_slot \<notin> set (texts_of (oget block ''version_path''))
          then Inl (DeclarationError ''version_path must name the app'')
          else
            (case compile (py_str (oget block ''tag_pattern'')) of
               None \<Rightarrow> Inl (DeclarationError ''tag_pattern is not a regex'')
             | Some r \<Rightarrow>
                 Inr \<lparr>decl_name = py_str (oget block ''name''), decl_check = py_str (oget block ''check''),
                      decl_env = py_str (oget block ''env''), values_file = py_str (oget block ''values_file''),
                      overlay_files = texts_of (oget block ''overlay_files''),
                      version_path = texts_of (oget block ''version_path''), tag_pattern = r\<rparr>)
      | Inr _ \<Rightarrow> Inl (DeclarationError ''declares no block''))"

section \<open>Verdicts\<close>

datatype verdict = MECHANICAL | NOT_MECHANICAL | UNKNOWN

record shape =
  sh_verdict :: verdict
  sh_reason :: string
  sh_app :: "string option"
  sh_old :: "string option"
  sh_new :: "string option"
  sh_head_sha :: "json option"

definition mk_shape :: "verdict \<Rightarrow> string \<Rightarrow> shape" where
  "mk_shape v reason =
     \<lparr>sh_verdict = v, sh_reason = reason, sh_app = None, sh_old = None, sh_new = None, sh_head_sha = None\<rparr>"

section \<open>What differs between two documents\<close>

text \<open>A path is made of mapping keys and sequence positions; a missing side is \<open>None\<close>.\<close>

datatype path_step = Key string | Item nat

type_synonym changed = "path_step list \<times> json option \<times> json option"

definition both_keys :: "obj \<Rightarrow> obj \<Rightarrow> string list" where
  "both_keys kvs kws = map fst kvs @ filter (\<lambda>k. k \<notin> fst ` set kvs) (map fst kws)"

lemma size_map_of: "map_of kvs k = Some v \<Longrightarrow> size v < size_list (size_prod (\<lambda>_. 0) size) kvs"
  by (induction kvs) (auto split: if_splits)

lemma size_in_list: "x \<in> set xs \<Longrightarrow> size x < size_list size xs + 1"
  by (induction xs) auto

abbreviation doc_size :: "json option \<Rightarrow> nat" where
  "doc_size v \<equiv> (case v of None \<Rightarrow> 0 | Some x \<Rightarrow> size x)"

function changed_paths :: "json option \<Rightarrow> json option \<Rightarrow> path_step list \<Rightarrow> changed list" where
  "changed_paths before after path =
     (case (before, after) of
        (Some (JObj kvs), Some (JObj kws)) \<Rightarrow>
          concat (map (\<lambda>k. changed_paths (map_of kvs k) (map_of kws k) (path @ [Key k])) (both_keys kvs kws))
      | (Some (JArr xs), Some (JArr ys)) \<Rightarrow>
          if length xs = length ys
          then concat (map (\<lambda>i. changed_paths (Some (xs ! i)) (Some (ys ! i)) (path @ [Item i])) [0..<length xs])
          else [(path, before, after)]
      | _ \<Rightarrow> if before = after then [] else [(path, before, after)])"
  by pat_completeness auto
termination
proof (relation "measure (\<lambda>(b, a, p). doc_size b + doc_size a)"; clarsimp)
  fix kvs kws k
  assume "k \<in> set (both_keys kvs kws)"
  then have "map_of kvs k \<noteq> None \<or> map_of kws k \<noteq> None"
    by (auto simp: both_keys_def map_of_eq_None_iff)
  moreover have "doc_size (map_of kvs k) \<le> size_list (size_prod (\<lambda>_. 0) size) kvs" for kvs :: obj
    using size_map_of [of kvs k] by (cases "map_of kvs k") auto
  ultimately show "doc_size (map_of kvs k) + doc_size (map_of kws k) <
      Suc (Suc (size_list (size_prod (\<lambda>_. 0) size) kvs + size_list (size_prod (\<lambda>_. 0) size) kws))"
    by (metis add_mono le_imp_less_Suc less_SucI)
next
  fix xs ys :: "json list" and i
  assume "length xs = length ys" "i < length ys"
  then show "size (xs ! i) + size (ys ! i) < Suc (Suc (size_list size xs + size_list size ys))"
    using size_in_list [of "xs ! i" xs] size_in_list [of "ys ! i" ys] by simp
qed

declare changed_paths.simps [simp del]

text \<open>The \<open>name\<close> of the mapping that holds the value at a path.\<close>

fun walk_to :: "json \<Rightarrow> path_step list \<Rightarrow> json option" where
  "walk_to node [] = Some node"
| "walk_to (JObj kvs) (Key k # p) = (case map_of kvs k of None \<Rightarrow> None | Some v \<Rightarrow> walk_to v p)"
| "walk_to (JArr xs) (Item i # p) = (if i < length xs then walk_to (xs ! i) p else None)"
| "walk_to (JStr s) (Item i # p) = (if i < length s then walk_to (JStr [s ! i]) p else None)"
| "walk_to _ _ = None"

definition owner :: "json \<Rightarrow> path_step list \<Rightarrow> json" where
  "owner docs path = (case walk_to docs (butlast path) of Some (JObj kvs) \<Rightarrow> oget kvs ''name'' | _ \<Rightarrow> JNull)"

section \<open>Judging a diff\<close>

definition file_set_refusal :: "json \<Rightarrow> shape_declaration \<Rightarrow> exn + shape option" where
  "file_set_refusal changes decl =
     ebind (py_iter changes) (\<lambda>cs.
     ebind (emap (\<lambda>c. py_get c ''filename'') cs) (\<lambda>fs.
     ebind (py_set fs) (\<lambda>names.
       if \<not> (list_all (\<lambda>x. py_mem x (map JStr (decl_files decl))) names \<and>
             list_all (\<lambda>f. py_mem (JStr f) names) (decl_files decl)) \<or> length cs \<noteq> length (decl_files decl)
       then Inr (Some (mk_shape NOT_MECHANICAL ''not exactly the declared files''))
       else
         ebind (efilter (\<lambda>c. ebind (py_get c ''status'') (\<lambda>s. Inr (\<not> py_eq s (JStr ''modified'')))) cs) (\<lambda>others.
           Inr (if others \<noteq> [] then Some (mk_shape NOT_MECHANICAL ''not modified'') else None)))))"

type_synonym overlay_changed = "path_step list \<times> json option \<times> json option \<times> json"

definition changed_overlay ::
  "(string \<Rightarrow> exn + json list) \<Rightarrow> (string \<times> string) list \<Rightarrow> (string \<times> string) list \<Rightarrow> string \<Rightarrow>
     exn + overlay_changed list" where
  "changed_overlay yaml_all before after f =
     ebind (ebind (index before f) yaml_all) (\<lambda>docs_before.
     ebind (ebind (index after f) yaml_all) (\<lambda>docs_after.
       Inr (map (\<lambda>(p, b, a). (p, b, a, owner (JArr docs_after) p))
              (changed_paths (Some (JArr docs_before)) (Some (JArr docs_after)) []))))"

definition changed_leaves ::
  "(string \<Rightarrow> exn + json) \<Rightarrow> (string \<Rightarrow> exn + json list) \<Rightarrow> (string \<times> string) list \<Rightarrow> (string \<times> string) list \<Rightarrow>
     shape_declaration \<Rightarrow> exn + changed list \<times> overlay_changed list" where
  "changed_leaves yaml yaml_all before after decl =
     ebind (ebind (index before (values_file decl)) yaml) (\<lambda>b.
     ebind (ebind (index after (values_file decl)) yaml) (\<lambda>a.
     ebind (emap (changed_overlay yaml_all before after) (overlay_files decl)) (\<lambda>overlays.
       Inr (changed_paths (Some b) (Some a) [], concat overlays))))"

fun position :: "'a \<Rightarrow> 'a list \<Rightarrow> nat option" where
  "position x [] = None"
| "position x (y # ys) = (if y = x then Some 0 else map_option Suc (position x ys))"

definition expected_path :: "shape_declaration \<Rightarrow> string \<Rightarrow> path_step list" where
  "expected_path decl app = map (\<lambda>part. Key (if part = app_slot then app else part)) (version_path decl)"

definition version_move ::
  "changed list \<Rightarrow> string list \<Rightarrow> shape_declaration \<Rightarrow> exn + (shape + string \<times> string \<times> string)" where
  "version_move values apps decl =
     (case values of
        [(leaf, old, new)] \<Rightarrow>
          (case position app_slot (version_path decl) of
             None \<Rightarrow> Inl (ValueError ''index'')
           | Some slot \<Rightarrow>
               (case (if length leaf = length (version_path decl) then leaf ! slot else Item 0) of
                  Item i \<Rightarrow> Inr (Inl (mk_shape NOT_MECHANICAL ''not a version''))
                | Key app \<Rightarrow>
                    if leaf \<noteq> expected_path decl app \<or> app \<notin> set apps
                    then Inr (Inl (mk_shape NOT_MECHANICAL ''not a version''))
                    else
                      (case (old, new) of
                         (Some (JStr o'), Some (JStr n')) \<Rightarrow>
                           if fullmatch (tag_pattern decl) n' then Inr (Inr (app, o', n'))
                           else Inr (Inl (mk_shape NOT_MECHANICAL ''not an admitted tag''))
                       | _ \<Rightarrow> Inr (Inl (mk_shape NOT_MECHANICAL ''not an admitted tag'')))))
      | _ \<Rightarrow> Inr (Inl (mk_shape NOT_MECHANICAL ''moves exactly one version'')))"

definition image_refusal :: "string \<Rightarrow> string \<Rightarrow> string \<Rightarrow> overlay_changed \<Rightarrow> shape option" where
  "image_refusal app old new leaf =
     (case leaf of (path, b, a, own) \<Rightarrow>
        if path = [] \<or> last path \<noteq> Key ''image'' then Some (mk_shape NOT_MECHANICAL ''not an image'')
        else
          (case (b, a) of
             (Some (JStr x), Some (JStr y)) \<Rightarrow>
               let (repo, tag_before) = str_rpartition (CHR '':'') x; (repo_after, tag_after) = str_rpartition (CHR '':'') y in
               if repo = [] \<or> repo \<noteq> repo_after \<or> tag_before \<noteq> old \<or> tag_after \<noteq> new
               then Some (mk_shape NOT_MECHANICAL ''not old to new'')
               else if \<not> py_eq own (JStr app) then Some (mk_shape NOT_MECHANICAL ''not the app's container'')
               else None
           | _ \<Rightarrow> Some (mk_shape NOT_MECHANICAL ''not a string'')))"

definition overlay_refusal :: "overlay_changed list \<Rightarrow> string \<Rightarrow> string \<Rightarrow> string \<Rightarrow> shape option" where
  "overlay_refusal overlay app old new =
     (if overlay = [] then Some (mk_shape NOT_MECHANICAL ''the overlay did not move'')
      else
        (case filter (\<lambda>leaf. image_refusal app old new leaf \<noteq> None) overlay of
           [] \<Rightarrow> None
         | leaf # _ \<Rightarrow> image_refusal app old new leaf))"

text \<open>\<open>except (KeyError, yaml.YAMLError)\<close>.\<close>

definition unread :: "exn \<Rightarrow> bool" where
  "unread e = (case e of KeyError _ \<Rightarrow> True | YAMLError _ \<Rightarrow> True | _ \<Rightarrow> False)"

definition classify_diff ::
  "(string \<Rightarrow> exn + json) \<Rightarrow> (string \<Rightarrow> exn + json list) \<Rightarrow> json \<Rightarrow> (string \<times> string) list \<Rightarrow> (string \<times> string) list \<Rightarrow>
     string list \<Rightarrow> shape_declaration \<Rightarrow> exn + shape" where
  "classify_diff yaml yaml_all changes before after apps decl =
     ebind (file_set_refusal changes decl) (\<lambda>refusal.
       case refusal of
         Some s \<Rightarrow> Inr s
       | None \<Rightarrow>
           (case changed_leaves yaml yaml_all before after decl of
              Inl e \<Rightarrow> if unread e then Inr (mk_shape UNKNOWN ''cannot read the declared files'') else Inl e
            | Inr (values, overlay) \<Rightarrow>
                ebind (version_move values apps decl) (\<lambda>moved.
                  case moved of
                    Inl s \<Rightarrow> Inr s
                  | Inr (app, old, new) \<Rightarrow>
                      Inr (case overlay_refusal overlay app old new of
                             Some s \<Rightarrow> s
                           | None \<Rightarrow> (mk_shape MECHANICAL ''overlay image only'')
                               \<lparr>sh_app := Some app, sh_old := Some old, sh_new := Some new\<rparr>))))"

end
