(* ===== verification/DeployMerge.thy ===== *)
theory DeployMerge
  imports DeployShape
begin

text \<open>
  Reading a pull request and judging it: \<open>evaluate\<close> with the provenance of the tag, of
  \<open>toolkit/features/deploy_shape.py\<close>; \<open>judge\<close>, \<open>pause_reason\<close> and the contexts, of
  \<open>toolkit/features/deploy_merge.py\<close>; and the command that judges every open pull request, of
  \<open>toolkit/cli/tools.py\<close>.

  The forge's API is a parameter: a call is a path, answered by the document or by the exception that
  reading it raises. A reason is named by the statement that gives it.
\<close>

section \<open>The API\<close>

datatype api_call = ApiJson string | ApiRaw string

type_synonym 's api = "api_call \<Rightarrow> 's \<Rightarrow> (exn + json) \<times> 's"

type_synonym ('s, 'a) api_act = "(api_call, 's, 'a) act"

definition get_field :: "'s api \<Rightarrow> string \<Rightarrow> string \<Rightarrow> ('s, json) api_act" where
  "get_field srv path k = abind (ask srv (ApiJson path)) (\<lambda>d. lift (py_index d k))"

definition pull_path :: "string \<Rightarrow> json \<Rightarrow> string" where
  "pull_path repo number = ''repos/'' @ repo @ ''/pulls/'' @ py_str number"

definition files_path :: "string \<Rightarrow> json \<Rightarrow> string" where
  "files_path repo number = pull_path repo number @ ''/files?per_page=100''"

definition commit_path :: "string \<Rightarrow> string \<Rightarrow> string" where
  "commit_path repo ref = ''repos/'' @ repo @ ''/commits/'' @ ref"

definition compare_path :: "string \<Rightarrow> string \<Rightarrow> string \<Rightarrow> string" where
  "compare_path repo base head = ''repos/'' @ repo @ ''/compare/'' @ base @ ''...'' @ head"

definition contents_path :: "string \<Rightarrow> string \<Rightarrow> string \<Rightarrow> string" where
  "contents_path repo f ref = ''repos/'' @ repo @ ''/contents/'' @ f @ ''?ref='' @ ref"

definition head_of :: "json \<Rightarrow> exn + json" where
  "head_of pr = index_path pr [''head'', ''sha'']"

definition base_of :: "json \<Rightarrow> exn + json" where
  "base_of pr = index_path pr [''base'', ''ref'']"

definition default_of :: "json \<Rightarrow> exn + json" where
  "default_of pr = index_path pr [''base'', ''repo'', ''default_branch'']"

definition read_head :: "'s api \<Rightarrow> string \<Rightarrow> json \<Rightarrow> ('s, json \<times> json \<times> json) api_act" where
  "read_head srv repo number =
     abind (ask srv (ApiJson (pull_path repo number))) (\<lambda>pr.
     abind (lift (head_of pr)) (\<lambda>head.
     abind (lift (base_of pr)) (\<lambda>base.
     abind (lift (default_of pr)) (\<lambda>default_branch.
       ret (head, base, default_branch)))))"

section \<open>The provenance of a tag\<close>

definition sha_tag :: rx where
  "sha_tag = Seq (literal ''sha-'') (between 7 40 (Class True [(48, 57), (97, 102)]))"

definition full_sha :: rx where
  "full_sha = times 40 (Class True [(48, 57), (97, 102)])"

text \<open>The commit a tag names, or why it names none.\<close>

definition commit_of :: "'s api \<Rightarrow> string \<Rightarrow> string \<Rightarrow> ('s, string + string) api_act" where
  "commit_of srv repository tag =
     (if \<not> fullmatch sha_tag tag then ret (Inl ''not a sha tag'')
      else
        let short = snd (str_partition (CHR ''-'') tag) in
        abind (get_field srv (commit_path repository short) ''sha'') (\<lambda>sha.
          case py_or sha (JStr []) of
            JStr s \<Rightarrow>
              if \<not> fullmatch full_sha s \<or> \<not> starts_with short s then ret (Inl ''not a commit of the tag'')
              else ret (Inr s)
          | _ \<Rightarrow> throw (TypeError ''fullmatch'')))"

definition provenance :: "'s api \<Rightarrow> string \<Rightarrow> string \<Rightarrow> string \<Rightarrow> ('s, string option) api_act" where
  "provenance srv repository old new =
     abind (commit_of srv repository new) (\<lambda>c. case c of
       Inl why \<Rightarrow> ret (Some why)
     | Inr sha \<Rightarrow>
         abind (get_field srv (''repos/'' @ repository) ''default_branch'') (\<lambda>branch.
         abind (get_field srv (compare_path repository (py_str branch) sha) ''status'') (\<lambda>status.
           if \<not> py_mem status [JStr ''identical'', JStr ''behind''] then ret (Some ''not on the default branch'')
           else
             abind (commit_of srv repository old) (\<lambda>c. case c of
               Inl why \<Rightarrow> ret (Some why)
             | Inr previous \<Rightarrow>
                 abind (get_field srv (compare_path repository previous sha) ''status'') (\<lambda>order.
                   ret (if py_eq order (JStr ''ahead'') then None else Some ''does not move forward''))))))"

section \<open>Evaluating a pull request\<close>

record product =
  pr_forge :: string
  pr_repository :: "string option"

type_synonym products = "(string \<times> product) list"

text \<open>\<open>yaml.safe_load\<close> and \<open>yaml.safe_load_all\<close>.\<close>

record yaml_loader =
  yaml_one :: "string \<Rightarrow> exn + json"
  yaml_all :: "string \<Rightarrow> exn + json list"

definition texts_at :: "'s api \<Rightarrow> string \<Rightarrow> string list \<Rightarrow> json \<Rightarrow> ('s, (string \<times> string) list) api_act" where
  "texts_at srv repo fs ref =
     abind (amap (\<lambda>f. ask srv (ApiRaw (contents_path repo f (py_str ref)))) fs) (\<lambda>vs.
       ret (rev (zip fs (map py_str vs))))"

definition source_repository :: "string \<Rightarrow> product \<Rightarrow> string option" where
  "source_repository repo p =
     (if pr_forge p = ''in-tree'' then Some repo
      else if pr_forge p = ''github'' \<and> pr_repository p \<noteq> None \<and> pr_repository p \<noteq> Some [] then pr_repository p
      else None)"

text \<open>The part after the file list is known to be the declared one; \<open>Inl\<close> is an early return.\<close>

definition judge_files ::
  "'s api \<Rightarrow> yaml_loader \<Rightarrow> string \<Rightarrow> shape_declaration \<Rightarrow> products \<Rightarrow> json \<Rightarrow> json \<Rightarrow> json \<Rightarrow> ('s, shape + shape) api_act" where
  "judge_files srv yaml repo decl products changes head default_branch =
     abind (ask srv (ApiJson (compare_path repo (py_str default_branch) (py_str head)))) (\<lambda>cmp.
     abind (lift (index_path cmp [''merge_base_commit'', ''sha''])) (\<lambda>merge_base.
     abind (texts_at srv repo (decl_files decl) merge_base) (\<lambda>before.
     abind (texts_at srv repo (decl_files decl) head) (\<lambda>after.
     abind (lift (classify_diff (yaml_one yaml) (yaml_all yaml) changes before after (map fst products) decl)) (\<lambda>shape.
       if sh_verdict shape \<noteq> MECHANICAL then ret (Inr shape)
       else
         let text = (\<lambda>x. case x of None \<Rightarrow> [] | Some s \<Rightarrow> s) in
         abind (lift (index products (text (sh_app shape)))) (\<lambda>product.
           case source_repository repo product of
             None \<Rightarrow> ret (Inl (mk_shape NOT_MECHANICAL ''the forge cannot be proven here''))
           | Some repository \<Rightarrow>
               abind (provenance srv repository (text (sh_old shape)) (text (sh_new shape))) (\<lambda>why.
                 ret (Inr (case why of
                   None \<Rightarrow> shape
                 | Some w \<Rightarrow> (mk_shape NOT_MECHANICAL w)
                     \<lparr>sh_app := sh_app shape, sh_old := sh_old shape, sh_new := sh_new shape\<rparr>)))))))))"

definition exact_files :: "json \<Rightarrow> shape_declaration \<Rightarrow> exn + bool" where
  "exact_files changes decl =
     ebind (py_iter changes) (\<lambda>cs.
     ebind (emap (\<lambda>c. py_get c ''filename'') cs) (\<lambda>fs.
     ebind (py_set fs) (\<lambda>names.
       Inr (list_all (\<lambda>x. py_mem x (map JStr (decl_files decl))) names \<and>
            list_all (\<lambda>f. py_mem (JStr f) names) (decl_files decl)))))"

definition evaluate ::
  "'s api \<Rightarrow> yaml_loader \<Rightarrow> json \<Rightarrow> string \<Rightarrow> shape_declaration \<Rightarrow> products \<Rightarrow> ('s, shape) api_act" where
  "evaluate srv yaml number repo decl products =
     attempt
       (abind (read_head srv repo number) (\<lambda>(head, base, default_branch).
          if \<not> py_eq base default_branch
          then ret ((mk_shape NOT_MECHANICAL ''targets another branch'')\<lparr>sh_head_sha := Some head\<rparr>)
          else
            abind (ask srv (ApiJson (files_path repo number))) (\<lambda>changes.
            abind (lift (exact_files changes decl)) (\<lambda>exact.
            abind (if \<not> exact then ret (Inr (mk_shape NOT_MECHANICAL ''not exactly the declared files''))
                   else judge_files srv yaml repo decl products changes head default_branch) (\<lambda>judged. case judged of
              Inl s \<Rightarrow> ret s
            | Inr s \<Rightarrow>
                abind (read_head srv repo number) (\<lambda>(head', _, _).
                  ret (if \<not> py_eq head' head then mk_shape UNKNOWN ''the head moved''
                       else s\<lparr>sh_head_sha := Some head\<rparr>)))))))
       (\<lambda>e. ret (mk_shape UNKNOWN ''cannot evaluate''))"

section \<open>Contexts\<close>

definition status_ok :: "json list" where
  "status_ok = [JStr ''success'']"

definition check_ok :: "json list" where
  "check_ok = [JStr ''success'', JStr ''neutral'', JStr ''skipped'']"

definition merge_states_ok :: "json list" where
  "merge_states_ok = [JStr ''clean'', JStr ''unstable'']"

definition allowed_unstable :: "json list" where
  "allowed_unstable = [JStr ''add-to-project'']"

text \<open>\<open>x in frozenset(...)\<close>, and \<open>sorted(xs, key=...)\<close> with the keys beside the elements.\<close>

definition in_set :: "json \<Rightarrow> json list \<Rightarrow> exn + bool" where
  "in_set x xs = (if hashable x then Inr (py_mem x xs) else Inl (TypeError ''unhashable''))"

definition sorted_by :: "(json \<times> 'a) list \<Rightarrow> exn + 'a list" where
  "sorted_by kxs =
     (if length kxs \<le> 1 then Inr (map snd kxs)
      else if list_all (\<lambda>kx. str_of (fst kx) \<noteq> None) kxs then Inr (map snd (sort_key (\<lambda>kx. the (str_of (fst kx))) kxs))
      else if list_all (\<lambda>kx. num_of (fst kx) \<noteq> None) kxs then Inr (map snd (sort_key (\<lambda>kx. the (num_of (fst kx))) kxs))
      else Inl (TypeError ''unorderable''))"

text \<open>The latest run of each check, by name; the last one of a name comes first.\<close>

definition latest_runs :: "json list \<Rightarrow> exn + (json \<times> json) list" where
  "latest_runs runs =
     ebind (emap (\<lambda>r. ebind (py_index r ''id'') (\<lambda>i. Inr (i, r))) runs) (\<lambda>keyed.
     ebind (sorted_by keyed) (\<lambda>ordered.
     ebind (emap (\<lambda>r. ebind (py_index r ''name'') (\<lambda>k. if hashable k then Inr (k, r) else Inl (TypeError ''unhashable''))) ordered) (\<lambda>named.
       Inr (rev named))))"

definition latest_of :: "(json \<times> json) list \<Rightarrow> json \<Rightarrow> json option" where
  "latest_of latest k = map_option snd (find (\<lambda>kr. py_eq (fst kr) k) latest)"

definition status_failing :: "json \<Rightarrow> json \<Rightarrow> exn + (json \<times> json) list" where
  "status_failing ctxt s =
     ebind (py_index s ''context'') (\<lambda>c.
       if \<not> py_eq c ctxt then Inr []
       else ebind (py_index s ''state'') (\<lambda>st. ebind (in_set st status_ok) (\<lambda>ok. Inr (if ok then [] else [(ctxt, st)]))))"

definition run_failing :: "json \<Rightarrow> json \<Rightarrow> exn + (json \<times> json) list" where
  "run_failing ctxt r =
     ebind (py_index r ''status'') (\<lambda>status.
     ebind (if \<not> py_eq status (JStr ''completed'') then Inr False
            else ebind (py_index r ''conclusion'') (\<lambda>c. in_set c check_ok)) (\<lambda>ok.
       if ok then Inr []
       else ebind (py_index r ''conclusion'') (\<lambda>c. Inr [(ctxt, py_or c status)])))"

definition not_passing :: "json list \<Rightarrow> (json \<times> json) list \<Rightarrow> json \<Rightarrow> exn + (json \<times> json) list" where
  "not_passing statuses latest ctxt =
     ebind (emap (status_failing ctxt) statuses) (\<lambda>outs.
     ebind (case latest_of latest ctxt of None \<Rightarrow> Inr [] | Some r \<Rightarrow> run_failing ctxt r) (\<lambda>out.
       Inr (concat outs @ out)))"

definition judge_contexts ::
  "json list \<Rightarrow> json list \<Rightarrow> json list \<Rightarrow> exn + (json \<times> json) list \<times> (json \<times> json) list" where
  "judge_contexts statuses runs required =
     ebind (latest_runs runs) (\<lambda>latest.
     ebind (emap (\<lambda>s. py_index s ''context'') statuses) (\<lambda>cs.
     ebind (py_set cs) (\<lambda>cs.
       let reported = cs @ map fst latest;
           missing = map (\<lambda>c. (c, JStr ''missing'')) (filter (\<lambda>c. \<not> py_mem c reported) required) in
       ebind (emap (not_passing statuses latest) (filter (\<lambda>c. py_mem c reported) required)) (\<lambda>failing.
       ebind (py_sorted (py_diff reported (required @ allowed_unstable))) (\<lambda>others.
       ebind (emap (not_passing statuses latest) others) (\<lambda>unexcused.
         Inr (missing @ concat failing, concat unexcused)))))))"

definition status_path :: "string \<Rightarrow> string \<Rightarrow> string" where
  "status_path repo sha = commit_path repo sha @ ''/status''"

definition runs_path :: "string \<Rightarrow> string \<Rightarrow> string" where
  "runs_path repo sha = commit_path repo sha @ ''/check-runs?per_page=100''"

definition failing_contexts ::
  "'s api \<Rightarrow> string \<Rightarrow> string \<Rightarrow> string list \<Rightarrow> ('s, (json \<times> json) list \<times> (json \<times> json) list) api_act" where
  "failing_contexts srv repo sha required =
     abind (get_field srv (status_path repo sha) ''statuses'') (\<lambda>statuses.
     abind (get_field srv (runs_path repo sha) ''check_runs'') (\<lambda>runs.
     abind (lift (py_iter runs)) (\<lambda>rs.
     abind (lift (py_iter statuses)) (\<lambda>ss.
       lift (judge_contexts ss rs (map JStr required))))))"

section \<open>The pause\<close>

definition context_prefix :: string where
  "context_prefix = ''argocd/kubelab-''"

definition verdict_runs_path :: "string \<Rightarrow> string \<Rightarrow> string" where
  "verdict_runs_path repo branch =
     ''repos/'' @ repo @ ''/actions/workflows/deploy-verify.yml/runs?branch='' @ branch @ ''&status=completed&per_page=100''"

definition jobs_path :: "string \<Rightarrow> json \<Rightarrow> string" where
  "jobs_path repo run_id = ''repos/'' @ repo @ ''/actions/runs/'' @ py_str run_id @ ''/jobs?per_page=100''"

definition is_verdict :: "string \<Rightarrow> json \<Rightarrow> exn + bool" where
  "is_verdict suffix j =
     ebind (py_index j ''name'') (\<lambda>k. case k of
       JStr s \<Rightarrow>
         if \<not> ends_with suffix s then Inr False
         else ebind (py_index j ''conclusion'') (\<lambda>c. Inr (\<not> py_eq c (JStr ''skipped'')))
     | _ \<Rightarrow> Inl (AttributeError ''endswith''))"

text \<open>What one run says: \<open>None\<close> is no verdict, \<open>Some None\<close> is green.\<close>

definition run_verdict :: "string \<Rightarrow> json \<Rightarrow> json \<Rightarrow> exn + string option option" where
  "run_verdict suffix run jobs =
     ebind (if truthy jobs then Inr False
            else ebind (py_index run ''conclusion'') (\<lambda>c. Inr (\<not> py_eq c (JStr ''success'')))) (\<lambda>unstarted.
       if unstarted then ebind (py_index run ''html_url'') (\<lambda>_. Inr (Some (Some ''failed to start'')))
       else
         ebind (py_iter jobs) (\<lambda>js.
         ebind (efilter (is_verdict suffix) js) (\<lambda>verdicts.
           if verdicts = [] then Inr None
           else
             ebind (emap (\<lambda>j. py_index j ''conclusion'') verdicts) (\<lambda>cs.
               if list_all (\<lambda>c. py_eq c (JStr ''success'')) cs then Inr (Some None)
               else ebind (py_index run ''html_url'') (\<lambda>_. Inr (Some (Some ''red'')))))))"

fun look_runs :: "'s api \<Rightarrow> string \<Rightarrow> string \<Rightarrow> json list \<Rightarrow> ('s, string option) api_act" where
  "look_runs srv repo suffix [] = ret (Some ''no verdict'')"
| "look_runs srv repo suffix (run # runs) =
     abind (lift (py_index run ''id'')) (\<lambda>run_id.
     abind (get_field srv (jobs_path repo run_id) ''jobs'') (\<lambda>jobs.
     abind (lift (run_verdict suffix run jobs)) (\<lambda>v.
       case v of None \<Rightarrow> look_runs srv repo suffix runs | Some paused \<Rightarrow> ret paused)))"

definition verdict_suffix :: "string \<Rightarrow> string" where
  "verdict_suffix env = ''('' @ context_prefix @ env @ '')''"

definition pause_reason :: "'s api \<Rightarrow> string \<Rightarrow> string \<Rightarrow> string \<Rightarrow> ('s, string option) api_act" where
  "pause_reason srv repo branch env =
     attempt
       (abind (get_field srv (verdict_runs_path repo branch) ''workflow_runs'') (\<lambda>runs.
        abind (lift (py_iter runs)) (\<lambda>rs. look_runs srv repo (verdict_suffix env) rs)))
       (\<lambda>e. ret (Some ''cannot read''))"

section \<open>The decision\<close>

datatype merge_action = MERGE | CLOSE | SKIP

record decision =
  dc_pr :: json
  dc_action :: merge_action
  dc_reason :: string
  dc_head_sha :: "json option"
  dc_subject :: "string option"
  dc_body :: "string option"

definition decide :: "json \<Rightarrow> merge_action \<Rightarrow> string \<Rightarrow> json option \<Rightarrow> decision" where
  "decide number action reason head =
     \<lparr>dc_pr = number, dc_action = action, dc_reason = reason, dc_head_sha = head, dc_subject = None, dc_body = None\<rparr>"

definition not_ready ::
  "'s api \<Rightarrow> json \<Rightarrow> string \<Rightarrow> json \<Rightarrow> string list \<Rightarrow> ('s, string option) api_act" where
  "not_ready srv number repo head required =
     abind (failing_contexts srv repo (py_str head) required) (\<lambda>(failing, unexcused).
       if failing \<noteq> [] then ret (Some ''required contexts not passing'')
       else if unexcused \<noteq> [] then ret (Some ''contexts not passing that nothing excuses'')
       else
         abind (ask srv (ApiJson (pull_path repo number))) (\<lambda>final.
         abind (lift (head_of final)) (\<lambda>head'.
           if \<not> py_eq head' head then ret (Some ''the head moved'')
           else
             abind (lift (py_get final ''mergeable_state'')) (\<lambda>state.
             abind (lift (in_set state merge_states_ok)) (\<lambda>ok.
               ret (if ok then None else Some ''merge state''))))))"

definition text_of :: "string option \<Rightarrow> string" where
  "text_of x = (case x of None \<Rightarrow> ''None'' | Some s \<Rightarrow> s)"

definition merge_decision :: "json \<Rightarrow> json \<Rightarrow> shape \<Rightarrow> decision" where
  "merge_decision number head shape =
     (decide number MERGE ''every context passing or excused'' (Some head))
       \<lparr>dc_subject := Some (''chore(staging): deploy '' @ text_of (sh_app shape) @ '' '' @ text_of (sh_new shape) @
                         '' (#'' @ py_str number @ '')''),
        dc_body := Some (''Staging promotion of '' @ text_of (sh_app shape) @ '' to '' @ text_of (sh_new shape) @
                      '', merged as a mechanical deploy (#1619).'')\<rparr>"

definition judge_pull ::
  "'s api \<Rightarrow> yaml_loader \<Rightarrow> json \<Rightarrow> string \<Rightarrow> shape_declaration \<Rightarrow> products \<Rightarrow> string list \<Rightarrow> string option \<Rightarrow>
     ('s, decision) api_act" where
  "judge_pull srv yaml number repo decl products required paused =
     (if paused \<noteq> None then ret (decide number SKIP ''paused'' None)
      else
        attempt
          (abind (ask srv (ApiJson (pull_path repo number))) (\<lambda>pr.
           abind (lift (head_of pr)) (\<lambda>head.
           abind (lift (py_get pr ''draft'')) (\<lambda>draft.
             if draft \<noteq> JBool False then ret (decide number SKIP ''a draft'' (Some head))
             else
               abind (lift (base_of pr)) (\<lambda>base.
               abind (lift (default_of pr)) (\<lambda>default_branch.
                 if \<not> py_eq base default_branch then ret (decide number SKIP ''targets another branch'' (Some head))
                 else
                   abind (ask srv (ApiJson (files_path repo number))) (\<lambda>changes.
                     if py_eq changes (JArr []) then ret (decide number CLOSE ''no changed files'' (Some head))
                     else
                       abind (evaluate srv yaml number repo decl products) (\<lambda>shape.
                         if sh_verdict shape \<noteq> MECHANICAL \<or>
                            \<not> py_eq (case sh_head_sha shape of None \<Rightarrow> JNull | Some h \<Rightarrow> h) head
                         then ret (decide number SKIP (sh_reason shape) (sh_head_sha shape))
                         else
                           abind (not_ready srv number repo head required) (\<lambda>refusal.
                             ret (case refusal of
                                    Some why \<Rightarrow> decide number SKIP why (Some head)
                                  | None \<Rightarrow> merge_decision number head shape))))))))))
          (\<lambda>e. ret (decide number SKIP ''cannot judge'' None)))"

end
