(* ===== verification/DeployShapeFacts.thy ===== *)
theory DeployShapeFacts
  imports DeployShape "HOL-Library.Sublist"
begin

text \<open>
  What a \<open>MECHANICAL\<close> verdict on a diff means. \<open>value_at\<close> and \<open>agree\<close> say when two documents have the same
  node at a path; the listing of the code is proved to be exactly the topmost paths where they do not.
  From there on the rules of the class become statements about the documents.
\<close>

section \<open>The listing of differences\<close>

fun value_at :: "json option \<Rightarrow> path_step list \<Rightarrow> json option" where
  "value_at v [] = v"
| "value_at (Some (JObj kvs)) (Key k # p) = value_at (map_of kvs k) p"
| "value_at (Some (JArr xs)) (Item i # p) = (if i < length xs then value_at (Some (xs ! i)) p else None)"
| "value_at _ _ = None"

text \<open>The same kind of node: both mappings, sequences of one length, equal scalars, or both absent.\<close>

definition agree :: "json option \<Rightarrow> json option \<Rightarrow> bool" where
  "agree x y =
     (case (x, y) of
        (Some (JObj _), Some (JObj _)) \<Rightarrow> True
      | (Some (JArr xs), Some (JArr ys)) \<Rightarrow> length xs = length ys
      | _ \<Rightarrow> x = y)"

lemma value_at_None [simp]: "value_at None p = None"
  by (cases p) simp_all

lemma changed_obj:
  "changed_paths (Some (JObj kvs)) (Some (JObj kws)) path =
     concat (map (\<lambda>k. changed_paths (map_of kvs k) (map_of kws k) (path @ [Key k])) (both_keys kvs kws))"
  by (subst changed_paths.simps) simp

lemma changed_arr:
  "length xs = length ys \<Longrightarrow> changed_paths (Some (JArr xs)) (Some (JArr ys)) path =
     concat (map (\<lambda>i. changed_paths (Some (xs ! i)) (Some (ys ! i)) (path @ [Item i])) [0..<length xs])"
  by (subst changed_paths.simps) simp

lemma changed_leaf:
  "\<not> agree b a \<Longrightarrow> changed_paths b a path = [(path, b, a)]"
  by (subst changed_paths.simps) (auto simp: agree_def split: option.splits json.splits)

lemma changed_same:
  "agree b a \<Longrightarrow> (\<And>kvs kws. (b, a) \<noteq> (Some (JObj kvs), Some (JObj kws))) \<Longrightarrow>
     (\<And>xs ys. (b, a) \<noteq> (Some (JArr xs), Some (JArr ys))) \<Longrightarrow> changed_paths b a path = []"
  by (subst changed_paths.simps) (auto simp: agree_def split: option.splits json.splits)

text \<open>How two documents can stand to each other.\<close>

lemma compare_cases:
  obtains (objs) kvs kws where "b = Some (JObj kvs)" "a = Some (JObj kws)"
  | (arrs) xs ys where "b = Some (JArr xs)" "a = Some (JArr ys)" "length xs = length ys"
  | (differ) "\<not> agree b a"
  | (same) "agree b a" "b = a" "\<And>p. p \<noteq> [] \<Longrightarrow> value_at b p = None" "\<And>path. changed_paths b a path = []"
proof (cases "agree b a")
  case True
  show thesis
  proof (cases "\<exists>kvs kws. b = Some (JObj kvs) \<and> a = Some (JObj kws)")
    case False
    show thesis
    proof (cases "\<exists>xs ys. b = Some (JArr xs) \<and> a = Some (JArr ys)")
      case no_arrs: False
      have "b = a" "\<And>kvs. b \<noteq> Some (JObj kvs)" "\<And>xs. b \<noteq> Some (JArr xs)"
        using True False no_arrs by (auto simp: agree_def split: option.splits json.splits)
      moreover have "value_at b p = None" if "p \<noteq> []" for p
        using calculation(2,3) that by (cases "(b, p)" rule: value_at.cases) auto
      moreover have "changed_paths b a path = []" for path
        using True False no_arrs by (intro changed_same) auto
      ultimately show thesis using True same by blast
    qed (use True arrs in \<open>auto simp: agree_def\<close>)
  qed (use objs in blast)
qed (use differ in blast)

lemma changed_complete:
  "\<not> agree (value_at b q) (value_at a q) \<Longrightarrow>
     \<exists>p x y. (path @ p, x, y) \<in> set (changed_paths b a path) \<and> prefix p q"
proof (induction q arbitrary: b a path)
  case Nil
  then show ?case by (auto simp: changed_leaf)
next
  case (Cons s q)
  show ?case
  proof (cases rule: compare_cases [of b a])
    case (objs kvs kws)
    with Cons.prems obtain k where s: "s = Key k" by (cases s) (auto simp: agree_def)
    with objs Cons.prems have d: "\<not> agree (value_at (map_of kvs k) q) (value_at (map_of kws k) q)" by simp
    from Cons.IH [OF this, of "path @ [Key k]"] obtain p x y where
      p: "(path @ Key k # p, x, y) \<in> set (changed_paths (map_of kvs k) (map_of kws k) (path @ [Key k]))" "prefix p q"
      by auto
    have "k \<in> set (both_keys kvs kws)"
    proof (rule ccontr)
      assume "k \<notin> set (both_keys kvs kws)"
      then have "map_of kvs k = None" "map_of kws k = None" by (auto simp: both_keys_def map_of_eq_None_iff)
      with d show False by (simp add: agree_def)
    qed
    with p objs s show ?thesis
      by (intro exI [of _ "Key k # p"] exI [of _ x] exI [of _ y]) (auto simp: changed_obj)
  next
    case (arrs xs ys)
    with Cons.prems obtain i where i: "s = Item i" "i < length xs"
      by (cases s) (auto simp: agree_def split: if_splits)
    with arrs Cons.prems have d: "\<not> agree (value_at (Some (xs ! i)) q) (value_at (Some (ys ! i)) q)" by simp
    from Cons.IH [OF this, of "path @ [Item i]"] obtain p x y where
      p: "(path @ Item i # p, x, y) \<in> set (changed_paths (Some (xs ! i)) (Some (ys ! i)) (path @ [Item i]))" "prefix p q"
      by auto
    with arrs i show ?thesis
      by (intro exI [of _ "Item i # p"] exI [of _ x] exI [of _ y]) (auto simp: changed_arr)
  next
    case differ
    then show ?thesis by (intro exI [of _ "[]"] exI [of _ b] exI [of _ a]) (simp add: changed_leaf)
  next
    case same
    with Cons.prems show ?thesis by (simp add: agree_def)
  qed
qed

lemma agree_prefix_obj: "agree (Some (JObj kvs)) (Some (JObj kws))"
  and agree_prefix_arr: "length xs = length ys \<Longrightarrow> agree (Some (JArr xs)) (Some (JArr ys))"
  by (simp_all add: agree_def)

lemma changed_sound:
  "(p, x, y) \<in> set (changed_paths b a path) \<Longrightarrow>
     \<exists>q. p = path @ q \<and> x = value_at b q \<and> y = value_at a q \<and> \<not> agree x y \<and>
       (\<forall>r. strict_prefix r q \<longrightarrow> agree (value_at b r) (value_at a r))"
proof (induction b a path arbitrary: p rule: changed_paths.induct)
  case (1 b a path)
  show ?case
  proof (cases rule: compare_cases [of b a])
    case (objs kvs kws)
    with "1.prems" obtain k where k: "k \<in> set (both_keys kvs kws)"
      "(p, x, y) \<in> set (changed_paths (map_of kvs k) (map_of kws k) (path @ [Key k]))"
      by (auto simp: changed_obj)
    from "1.IH"(2) [OF refl objs(1) refl objs(2) refl k] obtain q where
      q: "p = (path @ [Key k]) @ q" "x = value_at (map_of kvs k) q" "y = value_at (map_of kws k) q" "\<not> agree x y"
      "\<forall>r. strict_prefix r q \<longrightarrow> agree (value_at (map_of kvs k) r) (value_at (map_of kws k) r)" by blast
    have "agree (value_at b r) (value_at a r)" if "strict_prefix r (Key k # q)" for r
      using that q(5) objs agree_prefix_obj by (cases r) auto
    with q objs show ?thesis by (intro exI [of _ "Key k # q"]) simp
  next
    case (arrs xs ys)
    with "1.prems" obtain i where i: "i < length xs"
      "(p, x, y) \<in> set (changed_paths (Some (xs ! i)) (Some (ys ! i)) (path @ [Item i]))"
      by (auto simp: changed_arr)
    from "1.IH"(1) [OF refl arrs(1) refl arrs(2) refl arrs(3) _ i(2)] i(1) obtain q where
      q: "p = (path @ [Item i]) @ q" "x = value_at (Some (xs ! i)) q" "y = value_at (Some (ys ! i)) q" "\<not> agree x y"
      "\<forall>r. strict_prefix r q \<longrightarrow> agree (value_at (Some (xs ! i)) r) (value_at (Some (ys ! i)) r)" by auto
    have "agree (value_at b r) (value_at a r)" if "strict_prefix r (Item i # q)" for r
      using that q(5) arrs i(1) agree_prefix_arr by (cases r) auto
    with q arrs i(1) show ?thesis by (intro exI [of _ "Item i # q"]) simp
  next
    case differ
    with "1.prems" show ?thesis by (intro exI [of _ "[]"]) (simp add: changed_leaf)
  next
    case same
    with "1.prems" show ?thesis by simp
  qed
qed

text \<open>The listing of differences is exact: it holds, each with both values, exactly the topmost paths at
  which the two documents have different nodes. So an empty listing means that they agree everywhere, in
  any order of their keys.\<close>

theorem changed_paths_exact:
  "set (changed_paths b a []) =
     {(p, value_at b p, value_at a p) | p. \<not> agree (value_at b p) (value_at a p) \<and>
        (\<forall>r. strict_prefix r p \<longrightarrow> agree (value_at b r) (value_at a r))}"
proof (intro equalityI subsetI)
  fix leaf
  assume "leaf \<in> set (changed_paths b a [])"
  moreover obtain p x y where "leaf = (p, x, y)" by (rule prod_cases3)
  ultimately show "leaf \<in> {(p, value_at b p, value_at a p) | p. \<not> agree (value_at b p) (value_at a p) \<and>
        (\<forall>r. strict_prefix r p \<longrightarrow> agree (value_at b r) (value_at a r))}"
    using changed_sound [of p x y b a "[]"] by auto
next
  fix leaf
  assume "leaf \<in> {(p, value_at b p, value_at a p) | p. \<not> agree (value_at b p) (value_at a p) \<and>
        (\<forall>r. strict_prefix r p \<longrightarrow> agree (value_at b r) (value_at a r))}"
  then obtain p where leaf: "leaf = (p, value_at b p, value_at a p)" and p: "\<not> agree (value_at b p) (value_at a p)"
    "\<forall>r. strict_prefix r p \<longrightarrow> agree (value_at b r) (value_at a r)" by blast
  from changed_complete [OF p(1), of "[]"] obtain q x y where
    q: "(q, x, y) \<in> set (changed_paths b a [])" "prefix q p" by auto
  from changed_sound [OF q(1)] have "x = value_at b q" "y = value_at a q" "\<not> agree x y" by auto
  with p(2) q(2) have "q = p" by (metis prefix_order.le_neq_trans)
  with q(1) \<open>x = value_at b q\<close> \<open>y = value_at a q\<close> leaf show "leaf \<in> set (changed_paths b a [])" by simp
qed

section \<open>A mechanical diff\<close>

lemma value_at_append: "value_at v (p @ q) = value_at (value_at v p) q"
  by (induction v p rule: value_at.induct) simp_all

lemma value_at_text: "value_at (Some (JStr s)) p = (if p = [] then Some (JStr s) else None)"
  by (cases p) simp_all

text \<open>Where only texts differ, whatever disagrees is listed.\<close>

lemma differs_listed:
  assumes "\<not> agree (value_at b q) (value_at a q)"
    and "\<And>p x y. (p, x, y) \<in> set (changed_paths b a []) \<Longrightarrow> \<exists>s t. x = Some (JStr s) \<and> y = Some (JStr t)"
  shows "(q, value_at b q, value_at a q) \<in> set (changed_paths b a [])"
proof -
  from changed_complete [OF assms(1), of "[]"] obtain p x y where
    p: "(p, x, y) \<in> set (changed_paths b a [])" "prefix p q" by auto
  from changed_sound [OF p(1)] have xy: "x = value_at b p" "y = value_at a p" by auto
  from assms(2) [OF p(1)] obtain s t where st: "x = Some (JStr s)" "y = Some (JStr t)" by blast
  from p(2) obtain r where r: "q = p @ r" by (auto elim: prefixE)
  have "r = []"
  proof (rule ccontr)
    assume "r \<noteq> []"
    then have "value_at b q = None" "value_at a q = None"
      unfolding r value_at_append xy [symmetric] st by (simp_all add: value_at_text)
    with assms(1) show False by (simp add: agree_def)
  qed
  with p xy r show ?thesis by simp
qed

lemma rpartition_join:
  assumes "str_rpartition c s = (r, t)" and "r \<noteq> []"
  shows "s = r @ c # t"
proof -
  obtain a b where p: "str_partition c (rev s) = (a, b)" by fastforce
  with assms have "c \<in> set (rev s)" "r = rev b" "t = rev a" by (auto simp: str_rpartition_def split: if_splits)
  moreover from str_partition_rejoin [OF p this(1)] have "rev (rev s) = rev (a @ c # b)" by simp
  ultimately show ?thesis by simp
qed

lemma image_refusal_None:
  assumes "image_refusal app old new (p, b, a, own) = None"
  shows "p \<noteq> [] \<and> last p = Key ''image'' \<and> own = JStr app \<and>
    (\<exists>repo. repo \<noteq> [] \<and> b = Some (JStr (repo @ CHR '':'' # old)) \<and> a = Some (JStr (repo @ CHR '':'' # new)))"
proof -
  from assms obtain x y where xy: "b = Some (JStr x)" "a = Some (JStr y)" "p \<noteq> []" "last p = Key ''image''"
    by (auto simp: image_refusal_def split: if_splits option.splits json.splits)
  obtain r t r' t' where parts: "str_rpartition (CHR '':'') x = (r, t)" "str_rpartition (CHR '':'') y = (r', t')"
    by fastforce
  with assms xy have "r \<noteq> []" "r' = r" "t = old" "t' = new" "py_eq own (JStr app)"
    by (auto simp: image_refusal_def split: if_splits)
  moreover from this(5) have "own = JStr app" by (cases own) auto
  ultimately show ?thesis using xy rpartition_join [OF parts(1)] rpartition_join [OF parts(2)] by blast
qed

lemma overlay_refusal_None:
  "overlay_refusal overlay app old new = None \<longleftrightarrow>
     overlay \<noteq> [] \<and> (\<forall>leaf \<in> set overlay. image_refusal app old new leaf = None)"
proof (cases "filter (\<lambda>leaf. image_refusal app old new leaf \<noteq> None) overlay")
  case Nil
  then show ?thesis by (auto simp: overlay_refusal_def filter_empty_conv)
next
  case (Cons leaf rest)
  then have "leaf \<in> set (filter (\<lambda>leaf. image_refusal app old new leaf \<noteq> None) overlay)" by simp
  then have "leaf \<in> set overlay \<and> image_refusal app old new leaf \<noteq> None" by simp
  then show ?thesis unfolding overlay_refusal_def Cons list.case by auto
qed

lemma version_move_Inr:
  assumes "version_move values apps decl = Inr (Inr (app, old, new))"
  shows "values = [(expected_path decl app, Some (JStr old), Some (JStr new))] \<and> app \<in> set apps
    \<and> fullmatch (tag_pattern decl) new"
proof -
  obtain leaf b a where v: "values = [(leaf, b, a)]"
    using assms by (auto simp: version_move_def split: list.splits)
  with assms obtain slot where "position app_slot (version_path decl) = Some slot"
    by (auto simp: version_move_def split: option.splits)
  with v assms show ?thesis
    by (auto simp: version_move_def Let_def split: path_step.splits option.splits json.splits if_splits)
qed

text \<open>What the overlay of one file may have changed: images of the app's own containers.\<close>

definition only_images :: "string \<Rightarrow> string \<Rightarrow> string \<Rightarrow> json list \<Rightarrow> json list \<Rightarrow> bool" where
  "only_images app old new docs docs' \<longleftrightarrow> (\<forall>q.
     agree (value_at (Some (JArr docs)) q) (value_at (Some (JArr docs')) q) \<or>
     (q \<noteq> [] \<and> last q = Key ''image'' \<and> owner (JArr docs') q = JStr app \<and>
      (\<exists>repo. repo \<noteq> [] \<and> value_at (Some (JArr docs)) q = Some (JStr (repo @ CHR '':'' # old)) \<and>
               value_at (Some (JArr docs')) q = Some (JStr (repo @ CHR '':'' # new)))))"

lemma changed_overlay_images:
  assumes "changed_overlay yaml_all before after f = Inr leaves"
    and "\<forall>leaf \<in> set leaves. image_refusal app old new leaf = None"
  shows "\<exists>docs docs'. ebind (index before f) yaml_all = Inr docs \<and> ebind (index after f) yaml_all = Inr docs'
    \<and> only_images app old new docs docs'"
proof -
  from assms(1) obtain docs docs' where
    d: "ebind (index before f) yaml_all = Inr docs" "ebind (index after f) yaml_all = Inr docs'" and
    leaves: "leaves = map (\<lambda>(p, b, a). (p, b, a, owner (JArr docs') p)) (changed_paths (Some (JArr docs)) (Some (JArr docs')) [])"
    by (auto simp: changed_overlay_def)
  have listed: "image_refusal app old new (p, x, y, owner (JArr docs') p) = None"
    if "(p, x, y) \<in> set (changed_paths (Some (JArr docs)) (Some (JArr docs')) [])" for p x y
    using assms(2) that by (force simp: leaves)
  have "only_images app old new docs docs'"
    unfolding only_images_def
  proof
    fix q
    show "agree (value_at (Some (JArr docs)) q) (value_at (Some (JArr docs')) q) \<or>
     (q \<noteq> [] \<and> last q = Key ''image'' \<and> owner (JArr docs') q = JStr app \<and>
      (\<exists>repo. repo \<noteq> [] \<and> value_at (Some (JArr docs)) q = Some (JStr (repo @ CHR '':'' # old)) \<and>
               value_at (Some (JArr docs')) q = Some (JStr (repo @ CHR '':'' # new))))"
    proof (cases "agree (value_at (Some (JArr docs)) q) (value_at (Some (JArr docs')) q)")
      case False
      have "(q, value_at (Some (JArr docs)) q, value_at (Some (JArr docs')) q)
          \<in> set (changed_paths (Some (JArr docs)) (Some (JArr docs')) [])"
        by (rule differs_listed [OF False]) (blast dest: listed image_refusal_None)
      from image_refusal_None [OF listed [OF this]] show ?thesis by blast
    qed simp
  qed
  with d show ?thesis by blast
qed

text \<open>The changed files are the declared ones, each modified.\<close>

definition only_declared_files :: "json \<Rightarrow> shape_declaration \<Rightarrow> bool" where
  "only_declared_files changes decl \<longleftrightarrow> (\<exists>cs. py_iter changes = Inr cs \<and> length cs = length (decl_files decl) \<and>
     list_all (\<lambda>c. list_ex (\<lambda>f. py_get c ''filename'' = Inr (JStr f)) (decl_files decl) \<and>
                  py_get c ''status'' = Inr (JStr ''modified'')) cs)"

lemma file_set_refusal_None:
  assumes "file_set_refusal changes decl = Inr None"
  shows "only_declared_files changes decl"
proof -
  from assms obtain cs fs others where cs: "py_iter changes = Inr cs" "length cs = length (decl_files decl)" and
    fs: "emap (\<lambda>c. py_get c ''filename'') cs = Inr fs" "list_all (\<lambda>x. py_mem x (map JStr (decl_files decl))) fs" and
    m: "efilter (\<lambda>c. ebind (py_get c ''status'') (\<lambda>s. Inr (\<not> py_eq s (JStr ''modified'')))) cs = Inr others" "others = []"
    by (auto simp: file_set_refusal_def py_set_def split: if_splits)
  have "list_ex (\<lambda>f. py_get c ''filename'' = Inr (JStr f)) (decl_files decl)" if "c \<in> set cs" for c
  proof -
    from emap_image [OF fs(1) that] obtain x where x: "x \<in> set fs" "py_get c ''filename'' = Inr x" .
    with fs(2) show ?thesis by (auto simp: list_all_iff list_ex_iff py_mem_def py_eq_text)
  qed
  moreover have "py_get c ''status'' = Inr (JStr ''modified'')" if "c \<in> set cs" for c
    using m that by (auto simp: efilter_None py_eq_text)
  ultimately show ?thesis using cs by (auto simp: only_declared_files_def list_all_iff)
qed

text \<open>A refusal never says \<open>MECHANICAL\<close>.\<close>

lemma refusals:
  "file_set_refusal changes decl = Inr (Some s) \<Longrightarrow> sh_verdict s \<noteq> MECHANICAL"
  "version_move vs apps decl = Inr (Inl s) \<Longrightarrow> sh_verdict s \<noteq> MECHANICAL"
  "image_refusal app old new leaf = Some s \<Longrightarrow> sh_verdict s \<noteq> MECHANICAL"
  "overlay_refusal overlay app old new = Some s \<Longrightarrow> sh_verdict s \<noteq> MECHANICAL"
proof -
  show image: "image_refusal app old new leaf = Some s \<Longrightarrow> sh_verdict s \<noteq> MECHANICAL" for leaf
    by (auto simp: image_refusal_def mk_shape_def case_prod_beta Let_def split: prod.splits option.splits json.splits if_splits)
  show "file_set_refusal changes decl = Inr (Some s) \<Longrightarrow> sh_verdict s \<noteq> MECHANICAL"
    by (auto simp: file_set_refusal_def mk_shape_def split: if_splits)
  show "version_move vs apps decl = Inr (Inl s) \<Longrightarrow> sh_verdict s \<noteq> MECHANICAL"
    by (auto simp: version_move_def mk_shape_def split: list.splits prod.splits option.splits path_step.splits json.splits if_splits)
  show "overlay_refusal overlay app old new = Some s \<Longrightarrow> sh_verdict s \<noteq> MECHANICAL"
    by (auto simp: overlay_refusal_def mk_shape_def image split: list.splits if_splits)
qed

lemma classify_mechanical:
  assumes "classify_diff yaml yaml_all changes before after apps decl = Inr s" and "sh_verdict s = MECHANICAL"
  shows "\<exists>vs overlay app old new. file_set_refusal changes decl = Inr None
    \<and> changed_leaves yaml yaml_all before after decl = Inr (vs, overlay)
    \<and> version_move vs apps decl = Inr (Inr (app, old, new)) \<and> overlay_refusal overlay app old new = None
    \<and> sh_app s = Some app \<and> sh_old s = Some old \<and> sh_new s = Some new"
proof -
  obtain r where r: "file_set_refusal changes decl = Inr r"
    using assms(1) by (cases "file_set_refusal changes decl") (simp_all add: classify_diff_def)
  have files: "file_set_refusal changes decl = Inr None"
  proof (cases r)
    case (Some t)
    with r assms(1) have "t = s" by (simp add: classify_diff_def)
    with Some r assms(2) refusals(1) show ?thesis by blast
  qed (use r in simp)
  with assms obtain vs overlay where leaves: "changed_leaves yaml yaml_all before after decl = Inr (vs, overlay)"
    by (cases "changed_leaves yaml yaml_all before after decl")
      (auto simp: classify_diff_def mk_shape_def split: if_splits)
  with files assms obtain moved where m: "version_move vs apps decl = Inr moved" by (auto simp: classify_diff_def)
  show ?thesis
  proof (cases moved)
    case (Inr move)
    obtain app old new where move: "move = (app, old, new)" by (rule prod_cases3)
    with assms files leaves m Inr have "overlay_refusal overlay app old new = None"
      using refusals(4) [of overlay app old new s] by (auto simp: classify_diff_def split: option.splits)
    with assms files leaves m Inr move show ?thesis by (auto simp: classify_diff_def mk_shape_def)
  qed (use assms files leaves m refusals(2) in \<open>auto simp: classify_diff_def\<close>)
qed

text \<open>C27. A mechanical verdict is right: exactly the declared files were modified; the values files before and
  after have the same node at every path but the version path of one registered app, where the text
  moved to a tag the class admits; in every overlay the only nodes that differ are images of that app's
  own containers, moved from the old tag to the new one of the same repository; and some overlay moved.\<close>

theorem mechanical_diff:
  assumes "classify_diff yaml yaml_all changes before after apps decl = Inr s" and "sh_verdict s = MECHANICAL"
  shows "\<exists>app old new vb va. sh_app s = Some app \<and> sh_old s = Some old \<and> sh_new s = Some new
    \<and> only_declared_files changes decl \<and> app \<in> set apps \<and> fullmatch (tag_pattern decl) new
    \<and> ebind (index before (values_file decl)) yaml = Inr vb \<and> ebind (index after (values_file decl)) yaml = Inr va
    \<and> value_at (Some vb) (expected_path decl app) = Some (JStr old)
    \<and> value_at (Some va) (expected_path decl app) = Some (JStr new) \<and> old \<noteq> new
    \<and> (\<forall>q. q \<noteq> expected_path decl app \<longrightarrow> agree (value_at (Some vb) q) (value_at (Some va) q))
    \<and> list_all (\<lambda>f. \<exists>docs docs'. ebind (index before f) yaml_all = Inr docs \<and> ebind (index after f) yaml_all = Inr docs'
        \<and> only_images app old new docs docs') (overlay_files decl)
    \<and> list_ex (\<lambda>f. changed_overlay yaml_all before after f \<noteq> Inr []) (overlay_files decl)"
proof -
  from classify_mechanical [OF assms] obtain vs overlay app old new where
    refused: "file_set_refusal changes decl = Inr None" and
    leaves: "changed_leaves yaml yaml_all before after decl = Inr (vs, overlay)" and
    moved: "version_move vs apps decl = Inr (Inr (app, old, new))" and
    kept: "overlay_refusal overlay app old new = None" and
    s: "sh_app s = Some app" "sh_old s = Some old" "sh_new s = Some new" by blast
  note move = version_move_Inr [OF moved]
  from leaves obtain vb va overlays where
    docs: "ebind (index before (values_file decl)) yaml = Inr vb" "ebind (index after (values_file decl)) yaml = Inr va" and
    vs: "vs = changed_paths (Some vb) (Some va) []" and
    overlays: "emap (changed_overlay yaml_all before after) (overlay_files decl) = Inr overlays" "overlay = concat overlays"
    by (auto simp: changed_leaves_def)
  have at: "(expected_path decl app, Some (JStr old), Some (JStr new)) \<in> set (changed_paths (Some vb) (Some va) [])"
    using move vs by simp
  from changed_sound [OF at] have moves: "value_at (Some vb) (expected_path decl app) = Some (JStr old)"
    "value_at (Some va) (expected_path decl app) = Some (JStr new)" "old \<noteq> new"
    by (auto simp: agree_def)
  have same: "agree (value_at (Some vb) q) (value_at (Some va) q)" if "q \<noteq> expected_path decl app" for q
  proof (rule ccontr)
    assume "\<not> agree (value_at (Some vb) q) (value_at (Some va) q)"
    from differs_listed [OF this] move vs that show False by auto
  qed
  have each: "\<exists>leaves. changed_overlay yaml_all before after f = Inr leaves \<and> leaves \<in> set overlays"
    if "f \<in> set (overlay_files decl)" for f
    using emap_image [OF overlays(1) that] by blast
  have images: "\<forall>leaf \<in> set overlay. image_refusal app old new leaf = None" and "overlay \<noteq> []"
    using kept by (simp_all add: overlay_refusal_None)
  have "\<exists>docs docs'. ebind (index before f) yaml_all = Inr docs \<and> ebind (index after f) yaml_all = Inr docs'
      \<and> only_images app old new docs docs'" if f: "f \<in> set (overlay_files decl)" for f
  proof -
    from each [OF f] obtain leaves where l: "changed_overlay yaml_all before after f = Inr leaves" "leaves \<in> set overlays"
      by blast
    then show ?thesis using images overlays(2) by (intro changed_overlay_images [OF l(1)]) auto
  qed
  then have kept: "list_all (\<lambda>f. \<exists>docs docs'. ebind (index before f) yaml_all = Inr docs \<and> ebind (index after f) yaml_all = Inr docs'
        \<and> only_images app old new docs docs') (overlay_files decl)" by (auto simp: list_all_iff)
  have some: "list_ex (\<lambda>f. changed_overlay yaml_all before after f \<noteq> Inr []) (overlay_files decl)"
  proof -
    from \<open>overlay \<noteq> []\<close> overlays(2) obtain leaves where l: "leaves \<in> set overlays" "leaves \<noteq> []" by auto
    from emap_elem [OF overlays(1) l(1)] obtain f where
      "f \<in> set (overlay_files decl)" "changed_overlay yaml_all before after f = Inr leaves" by blast
    with l(2) show ?thesis by (auto simp: list_ex_iff intro!: bexI [of _ f])
  qed
  show ?thesis
    by (rule exI [of _ app], rule exI [of _ old], rule exI [of _ new], rule exI [of _ vb], rule exI [of _ va],
        intro conjI allI impI)
      (rule s docs moves same kept some move [THEN conjunct2, THEN conjunct1] move [THEN conjunct2, THEN conjunct2]
         file_set_refusal_None [OF refused] | assumption)+
qed

end
