(* ===== verification/DeployMergeFacts.thy ===== *)
theory DeployMergeFacts
  imports DeployMerge DeployShapeFacts
begin

text \<open>
  What the forge must have answered for a pull request to be merged. Evidence is a statement about the
  answers of one run: a set of calls with what was answered. Each part of the reading yields its evidence
  (\<open>says\<close>), and the decision to merge collects them, ending with the last look at the head.
\<close>

type_synonym answers_set = "(api_call \<times> (exn + json)) set"

section \<open>Evidence\<close>

definition answered :: "answers_set \<Rightarrow> string \<Rightarrow> json \<Rightarrow> bool" where
  "answered A path doc \<longleftrightarrow> (ApiJson path, Inr doc) \<in> A"

definition field_answered :: "answers_set \<Rightarrow> string \<Rightarrow> string \<Rightarrow> json \<Rightarrow> bool" where
  "field_answered A path k v \<longleftrightarrow> (\<exists>doc. answered A path doc \<and> py_index doc k = Inr v)"

definition names_commit :: "answers_set \<Rightarrow> string \<Rightarrow> string \<Rightarrow> string \<Rightarrow> bool" where
  "names_commit A repository tag sha \<longleftrightarrow>
     fullmatch sha_tag tag \<and> fullmatch full_sha sha \<and> starts_with (snd (str_partition (CHR ''-'') tag)) sha \<and>
     field_answered A (commit_path repository (snd (str_partition (CHR ''-'') tag))) ''sha'' (JStr sha)"

text \<open>The new tag is on the default branch and ahead of the old one.\<close>

definition moves_forward :: "answers_set \<Rightarrow> string \<Rightarrow> string \<Rightarrow> string \<Rightarrow> bool" where
  "moves_forward A repository old new \<longleftrightarrow> (\<exists>sha previous branch status.
     names_commit A repository new sha \<and> names_commit A repository old previous \<and>
     field_answered A (''repos/'' @ repository) ''default_branch'' branch \<and>
     field_answered A (compare_path repository (py_str branch) sha) ''status'' status \<and>
     status \<in> {JStr ''identical'', JStr ''behind''} \<and>
     field_answered A (compare_path repository previous sha) ''status'' (JStr ''ahead''))"

text \<open>The texts of the declared files at a ref.\<close>

definition fetched :: "answers_set \<Rightarrow> string \<Rightarrow> string list \<Rightarrow> json \<Rightarrow> (string \<times> string) list \<Rightarrow> bool" where
  "fetched A repo fs ref texts \<longleftrightarrow> (\<exists>vs. texts = rev (zip fs (map py_str vs)) \<and>
     list_all2 (\<lambda>f v. (ApiRaw (contents_path repo f (py_str ref)), Inr v) \<in> A) fs vs)"

definition mechanical_files ::
  "answers_set \<Rightarrow> yaml_loader \<Rightarrow> string \<Rightarrow> shape_declaration \<Rightarrow> products \<Rightarrow> json \<Rightarrow> json \<Rightarrow> shape \<Rightarrow> bool" where
  "mechanical_files A yaml repo decl products changes head s \<longleftrightarrow> (\<exists>merge_base before after product repository.
     fetched A repo (decl_files decl) merge_base before \<and> fetched A repo (decl_files decl) head after \<and>
     classify_diff (yaml_one yaml) (yaml_all yaml) changes before after (map fst products) decl = Inr s \<and>
     map_of products (text_of (sh_app s)) = Some product \<and> source_repository repo product = Some repository \<and>
     moves_forward A repository (text_of (sh_old s)) (text_of (sh_new s)))"

lemma answered_mono: "A \<subseteq> B \<Longrightarrow> answered A p d \<Longrightarrow> answered B p d"
  by (auto simp: answered_def)

lemma field_answered_mono: "A \<subseteq> B \<Longrightarrow> field_answered A p k v \<Longrightarrow> field_answered B p k v"
  by (auto simp: field_answered_def intro: answered_mono)

lemma names_commit_mono: "A \<subseteq> B \<Longrightarrow> names_commit A r t sha \<Longrightarrow> names_commit B r t sha"
  by (auto simp: names_commit_def intro: field_answered_mono)

lemma moves_forward_mono: "A \<subseteq> B \<Longrightarrow> moves_forward A r old new \<Longrightarrow> moves_forward B r old new"
  unfolding moves_forward_def by (blast intro: names_commit_mono field_answered_mono)

lemma fetched_mono: "A \<subseteq> B \<Longrightarrow> fetched A repo fs ref texts \<Longrightarrow> fetched B repo fs ref texts"
  unfolding fetched_def by (blast intro: list_all2_mono)

section \<open>What each part was told\<close>

lemma says_get_field: "says srv (get_field srv path k) (\<lambda>v tr. field_answered (set tr) path k v)"
  unfolding get_field_def
  by (intro says_intros says_lift) (auto simp: field_answered_def answered_def)

lemma not_full_sha [simp]: "\<not> fullmatch full_sha []"
  by code_simp

lemma says_commit_of:
  "says srv (commit_of srv repository tag) (\<lambda>c tr. \<forall>sha. c = Inr sha \<longrightarrow> names_commit (set tr) repository tag sha)"
  unfolding commit_of_def Let_def
  by (intro says_if says_ret says_abind [OF says_get_field]; (simp; fail)?)
    (auto simp: names_commit_def py_or_def intro!: says_ret says_throw says_if split: json.splits if_splits)

lemma says_provenance:
  "says srv (provenance srv repository old new) (\<lambda>why tr. why = None \<longrightarrow> moves_forward (set tr) repository old new)"
proof -
  have last: "says srv (abind (get_field srv (compare_path repository previous sha) ''status'') (\<lambda>order.
      ret (if py_eq order (JStr ''ahead'') then None else Some ''does not move forward'')))
      (\<lambda>why tr. why = None \<longrightarrow> field_answered (set tr) (compare_path repository previous sha) ''status'' (JStr ''ahead''))"
    for previous sha
    by (rule says_abind [OF says_get_field]) (auto intro!: says_ret simp: py_eq_text)
  show ?thesis
    unfolding provenance_def
  proof (rule says_abind [OF says_commit_of], goal_cases)
    case (1 c tr)
    show ?case
    proof (cases c)
      case (Inr sha)
      with 1 have new: "names_commit (set tr) repository new sha" by simp
      show ?thesis
        unfolding Inr sum.case
      proof (rule says_abind [OF says_get_field], rule says_abind [OF says_get_field], rule says_if)
        fix branch tr1 status tr2
        assume branch: "field_answered (set tr1) (''repos/'' @ repository) ''default_branch'' branch"
          and status: "field_answered (set tr2) (compare_path repository (py_str branch) sha) ''status'' status"
          and ok: "\<not> \<not> py_mem status [JStr ''identical'', JStr ''behind'']"
        from ok have st: "status \<in> {JStr ''identical'', JStr ''behind''}" by (cases status) (auto simp: py_mem_def)
        show "says srv (abind (commit_of srv repository old) (\<lambda>c. case c of Inl why \<Rightarrow> ret (Some why)
           | Inr previous \<Rightarrow> abind (get_field srv (compare_path repository previous sha) ''status'')
               (\<lambda>order. ret (if py_eq order (JStr ''ahead'') then None else Some ''does not move forward''))))
          (\<lambda>y tr'. y = None \<longrightarrow> moves_forward (set (tr @ tr1 @ tr2 @ tr')) repository old new)"
        proof (rule says_abind [OF says_commit_of], goal_cases)
          case (1 c tr3)
          show ?case
          proof (cases c)
            case (Inr previous)
            with 1 have old: "names_commit (set tr3) repository old previous" by simp
            show ?thesis
              unfolding Inr sum.case
            proof (rule says_mono [OF last], intro impI)
              fix why tr4
              assume "why = None \<longrightarrow> field_answered (set tr4) (compare_path repository previous sha) ''status'' (JStr ''ahead'')"
                and "why = (None :: string option)"
              then have ahead: "field_answered (set tr4) (compare_path repository previous sha) ''status'' (JStr ''ahead'')"
                by simp
              let ?A = "set (tr @ tr1 @ tr2 @ tr3 @ tr4)"
              have sub: "set tr \<subseteq> ?A" "set tr1 \<subseteq> ?A" "set tr2 \<subseteq> ?A" "set tr3 \<subseteq> ?A" "set tr4 \<subseteq> ?A" by auto
              note names_commit_mono [OF sub(1) new] names_commit_mono [OF sub(4) old]
                field_answered_mono [OF sub(2) branch] field_answered_mono [OF sub(3) status]
                field_answered_mono [OF sub(5) ahead]
              with st show "moves_forward ?A repository old new" unfolding moves_forward_def by blast
            qed
          qed (simp add: says_ret)
        qed
      qed (simp add: says_ret)
    qed (simp add: says_ret)
  qed
qed

lemma says_texts_at:
  "says srv (texts_at srv repo fs ref) (\<lambda>texts tr. fetched (set tr) repo fs ref texts)"
proof -
  have "says srv (ask srv (ApiRaw (contents_path repo f (py_str ref))))
      (\<lambda>v tr. (ApiRaw (contents_path repo f (py_str ref)), Inr v) \<in> set tr)" for f
    by (rule says_ask) simp
  note reads = says_amap [of fs, OF this]
  show ?thesis
    unfolding texts_at_def
    by (rule says_abind [OF reads]) (auto intro!: says_ret simp: fetched_def elim!: list_all2_mono)
qed

lemma mk_shape_verdict [simp]: "sh_verdict (mk_shape v why) = v"
  by (simp add: mk_shape_def)

lemma says_judge_files:
  "says srv (judge_files srv yaml repo decl products changes head default_branch) (\<lambda>r tr. case r of
     Inl s \<Rightarrow> sh_verdict s \<noteq> MECHANICAL
   | Inr s \<Rightarrow> sh_verdict s = MECHANICAL \<longrightarrow> mechanical_files (set tr) yaml repo decl products changes head s)"
  unfolding judge_files_def Let_def
proof (intro says_ask_then says_lift_then, rule says_abind [OF says_texts_at], rule says_abind [OF says_texts_at],
    intro says_lift_then, rule says_if, simp_all add: says_ret, intro says_lift_then, goal_cases)
  case (1 cmp merge_base before tr1 after tr2 s product)
  note before = 1(2) and after = 1(3) and s = 1(4,5) and product = 1(6)
  from classify_mechanical [OF s] obtain app old new where
    named: "sh_app s = Some app" "sh_old s = Some old" "sh_new s = Some new" by blast
  show ?case
  proof (cases "source_repository repo product")
    case (Some repository)
    show ?thesis
      unfolding Some option.case
    proof (rule says_abind [OF says_provenance], rule says_ret, goal_cases)
      case (1 why tr3)
      show ?case
      proof (cases why)
        case None
        with 1 have forward: "moves_forward (set tr3) repository old new" by (simp add: named)
        let ?A = "set ((ApiJson (compare_path repo (py_str default_branch) (py_str head)), Inr cmp) # tr1 @ tr2 @ tr3 @ [])"
        have sub: "set tr1 \<subseteq> ?A" "set tr2 \<subseteq> ?A" "set tr3 \<subseteq> ?A" by auto
        have "mechanical_files ?A yaml repo decl products changes head s"
          unfolding mechanical_files_def
          using fetched_mono [OF sub(1) before] fetched_mono [OF sub(2) after] s Some product
            moves_forward_mono [OF sub(3) forward]
          by (intro exI conjI) (simp_all add: named text_of_def)
        with None show ?thesis by simp
      qed simp
    qed
  qed (simp add: says_ret)
qed

lemma says_read_head:
  "says srv (read_head srv repo number) (\<lambda>(head, base, default_branch) tr. \<exists>pr. tr = [(ApiJson (pull_path repo number), Inr pr)]
     \<and> head_of pr = Inr head \<and> base_of pr = Inr base \<and> default_of pr = Inr default_branch)"
  unfolding read_head_def by (intro says_intros says_ret) auto

text \<open>The evidence for a mechanical verdict on a head.\<close>

definition mechanical_evidence ::
  "answers_set \<Rightarrow> yaml_loader \<Rightarrow> json \<Rightarrow> string \<Rightarrow> shape_declaration \<Rightarrow> products \<Rightarrow> shape \<Rightarrow> bool" where
  "mechanical_evidence A yaml number repo decl products s \<longleftrightarrow> (\<exists>changes head s0.
     answered A (files_path repo number) changes \<and> mechanical_files A yaml repo decl products changes head s0 \<and>
     s = s0\<lparr>sh_head_sha := Some head\<rparr>)"

lemma mechanical_files_mono:
  "A \<subseteq> B \<Longrightarrow> mechanical_files A yaml repo decl products changes head s \<Longrightarrow>
     mechanical_files B yaml repo decl products changes head s"
  unfolding mechanical_files_def by (blast intro: fetched_mono moves_forward_mono)

lemma mechanical_evidence_mono:
  "A \<subseteq> B \<Longrightarrow> mechanical_evidence A yaml number repo decl products s \<Longrightarrow>
     mechanical_evidence B yaml number repo decl products s"
  unfolding mechanical_evidence_def by (blast intro: answered_mono mechanical_files_mono)

lemma says_evaluate:
  "says srv (evaluate srv yaml number repo decl products) (\<lambda>s tr. sh_verdict s = MECHANICAL \<longrightarrow>
     mechanical_evidence (set tr) yaml number repo decl products s)"
  unfolding evaluate_def
proof (rule says_attempt [where P = "\<lambda>s tr. sh_verdict s = MECHANICAL \<longrightarrow>
     mechanical_evidence (set tr) yaml number repo decl products s"])
  fix e tr
  show "says srv (ret (mk_shape UNKNOWN ''cannot evaluate''))
      (\<lambda>y tr'. sh_verdict y = MECHANICAL \<longrightarrow> mechanical_evidence (set (tr @ tr')) yaml number repo decl products y)"
    by (simp add: says_ret)
next
  show "says srv (abind (read_head srv repo number) (\<lambda>(head, base, default_branch).
          if \<not> py_eq base default_branch
          then ret ((mk_shape NOT_MECHANICAL ''targets another branch'')\<lparr>sh_head_sha := Some head\<rparr>)
          else
            abind (ask srv (ApiJson (files_path repo number))) (\<lambda>changes.
            abind (lift (exact_files changes decl)) (\<lambda>exact.
            abind (if \<not> exact then ret (Inr (mk_shape NOT_MECHANICAL ''not exactly the declared files''))
                   else judge_files srv yaml repo decl products changes head default_branch) (\<lambda>judged. case judged of
              Inl s \<Rightarrow> ret s
            | Inr s \<Rightarrow>
                abind (read_head srv repo number) (\<lambda>(head', _, _).
                  ret (if \<not> py_eq head' head then mk_shape UNKNOWN ''the head moved''
                       else s\<lparr>sh_head_sha := Some head\<rparr>)))))))
      (\<lambda>s tr. sh_verdict s = MECHANICAL \<longrightarrow> mechanical_evidence (set tr) yaml number repo decl products s)"
  proof (rule says_abind [OF says_read_head], clarsimp, intro conjI impI says_ask_then says_lift_then, goal_cases)
    case (1 head base default_branch pr)
    then show ?case by (simp add: says_ret)
  next
    case (2 head base default_branch pr changes exact)
    have judged: "says srv (if \<not> exact then ret (Inr (mk_shape NOT_MECHANICAL ''not exactly the declared files''))
        else judge_files srv yaml repo decl products changes head default_branch) (\<lambda>r tr. case r of
          Inl s \<Rightarrow> sh_verdict s \<noteq> MECHANICAL
        | Inr s \<Rightarrow> sh_verdict s = MECHANICAL \<longrightarrow> mechanical_files (set tr) yaml repo decl products changes head s)"
      by (intro says_if says_ret says_judge_files) simp
    show ?case
    proof (rule says_abind [OF judged], goal_cases)
      case (1 judged tr)
      show ?case
      proof (cases judged)
        case (Inr s)
        show ?thesis
          unfolding Inr sum.case
        proof (rule says_abind [OF says_read_head])
          fix hb :: "json \<times> json \<times> json" and tr2 :: "(api_call \<times> (exn + json)) list"
          obtain head' base' default' where hb: "hb = (head', base', default')" by (rule prod_cases3)
          let ?A = "set ((ApiJson (pull_path repo number), Inr pr) # (ApiJson (files_path repo number), Inr changes) # tr @ tr2)"
          have "mechanical_evidence ?A yaml number repo decl products (s\<lparr>sh_head_sha := Some head\<rparr>)"
            if "sh_verdict s = MECHANICAL"
          proof -
            have "mechanical_files (set tr) yaml repo decl products changes head s" using 1 that by (simp add: Inr)
            then have "mechanical_files ?A yaml repo decl products changes head s" by (rule mechanical_files_mono [rotated]) auto
            then show ?thesis unfolding mechanical_evidence_def by (auto simp: answered_def)
          qed
          then show "says srv (case hb of (head', _, _) \<Rightarrow> ret (if \<not> py_eq head' head then mk_shape UNKNOWN ''the head moved''
                 else s\<lparr>sh_head_sha := Some head\<rparr>))
              (\<lambda>y tr'. sh_verdict y = MECHANICAL \<longrightarrow> mechanical_evidence (insert (ApiJson (pull_path repo number), Inr pr)
                (set ((ApiJson (files_path repo number), Inr changes) # tr @ tr2 @ tr'))) yaml number repo decl products y)"
            unfolding hb prod.case by (intro says_ret) auto
        qed
      qed (use 1 in \<open>simp add: says_ret\<close>)
    qed
  qed
qed simp

text \<open>Every context that counts was read as passing at a commit.\<close>

definition contexts_read :: "answers_set \<Rightarrow> string \<Rightarrow> string \<Rightarrow> string list \<Rightarrow> bool" where
  "contexts_read A repo sha required \<longleftrightarrow> (\<exists>statuses runs ss rs.
     field_answered A (status_path repo sha) ''statuses'' statuses \<and> py_iter statuses = Inr ss \<and>
     field_answered A (runs_path repo sha) ''check_runs'' runs \<and> py_iter runs = Inr rs \<and>
     judge_contexts ss rs (map JStr required) = Inr ([], []))"

lemma contexts_read_mono: "A \<subseteq> B \<Longrightarrow> contexts_read A repo sha required \<Longrightarrow> contexts_read B repo sha required"
  unfolding contexts_read_def by (blast intro: field_answered_mono)

lemma says_failing_contexts:
  "says srv (failing_contexts srv repo sha required) (\<lambda>r tr. r = ([], []) \<longrightarrow> contexts_read (set tr) repo sha required)"
  unfolding failing_contexts_def
proof (rule says_abind [OF says_get_field], rule says_abind [OF says_get_field], intro says_lift_then says_lift impI, goal_cases)
  case (1 statuses tr1 runs tr2 rs ss r)
  have "field_answered (set (tr1 @ tr2 @ [])) (status_path repo sha) ''statuses'' statuses"
    by (rule field_answered_mono [OF _ 1(1)]) auto
  moreover have "field_answered (set (tr1 @ tr2 @ [])) (runs_path repo sha) ''check_runs'' runs"
    by (rule field_answered_mono [OF _ 1(2)]) auto
  ultimately show ?case unfolding contexts_read_def using 1(3-6) by blast
qed

text \<open>The last answer of a run: the pull request still has the head, and may be merged.\<close>

definition last_look :: "(api_call \<times> (exn + json)) list \<Rightarrow> string \<Rightarrow> json \<Rightarrow> json \<Rightarrow> bool" where
  "last_look tr repo number head \<longleftrightarrow> (\<exists>before final head' state. tr = before @ [(ApiJson (pull_path repo number), Inr final)] \<and>
     head_of final = Inr head' \<and> py_eq head' head \<and> py_get final ''mergeable_state'' = Inr state \<and> py_mem state merge_states_ok)"

lemma last_look_append: "last_look tr repo number head \<Longrightarrow> last_look (tr0 @ tr) repo number head"
  unfolding last_look_def by (metis append.assoc)

lemma says_not_ready:
  "says srv (not_ready srv number repo head required) (\<lambda>why tr. why = None \<longrightarrow>
     contexts_read (set tr) repo (py_str head) required \<and> last_look tr repo number head)"
  unfolding not_ready_def
proof (rule says_abind [OF says_failing_contexts])
  fix r tr
  assume read: "r = ([], []) \<longrightarrow> contexts_read (set tr) repo (py_str head) required"
  obtain failing unexcused where r: "r = (failing, unexcused)" by fastforce
  show "says srv (case r of (failing, unexcused) \<Rightarrow>
       if failing \<noteq> [] then ret (Some ''required contexts not passing'')
       else if unexcused \<noteq> [] then ret (Some ''contexts not passing that nothing excuses'')
       else
         abind (ask srv (ApiJson (pull_path repo number))) (\<lambda>final.
         abind (lift (head_of final)) (\<lambda>head'.
           if \<not> py_eq head' head then ret (Some ''the head moved'')
           else
             abind (lift (py_get final ''mergeable_state'')) (\<lambda>state.
             abind (lift (in_set state merge_states_ok)) (\<lambda>ok.
               ret (if ok then None else Some ''merge state''))))))
     (\<lambda>why tr'. why = None \<longrightarrow>
       contexts_read (set (tr @ tr')) repo (py_str head) required \<and> last_look (tr @ tr') repo number head)"
    unfolding r prod.case
  proof (intro says_if says_ask_then says_lift_then says_ret; clarsimp)
    fix final head' state ok
    assume "failing = []" "unexcused = []" "head_of final = Inr head'" "py_eq head' head"
      "py_get final ''mergeable_state'' = Inr state" "in_set state merge_states_ok = Inr True"
    moreover from this have "py_mem state merge_states_ok" by (auto simp: in_set_def split: if_splits)
    moreover have "contexts_read (insert (ApiJson (pull_path repo number), Inr final) (set tr)) repo (py_str head) required"
      using read r calculation(1,2) by (auto intro: contexts_read_mono [of "set tr"])
    ultimately show "contexts_read (insert (ApiJson (pull_path repo number), Inr final) (set tr)) repo (py_str head) required
        \<and> last_look (tr @ [(ApiJson (pull_path repo number), Inr final)]) repo number head"
      unfolding last_look_def by blast
  qed
qed

section \<open>Decisions\<close>

definition open_to_default :: "answers_set \<Rightarrow> string \<Rightarrow> json \<Rightarrow> json \<Rightarrow> bool" where
  "open_to_default A repo number head \<longleftrightarrow> (\<exists>pr base default_branch.
     answered A (pull_path repo number) pr \<and> head_of pr = Inr head \<and> py_get pr ''draft'' = Inr (JBool False) \<and>
     base_of pr = Inr base \<and> default_of pr = Inr default_branch \<and> py_eq base default_branch)"

definition sha_of :: "shape \<Rightarrow> json" where
  "sha_of s = (case sh_head_sha s of None \<Rightarrow> JNull | Some h \<Rightarrow> h)"

definition merge_grounds ::
  "(api_call \<times> (exn + json)) list \<Rightarrow> yaml_loader \<Rightarrow> json \<Rightarrow> string \<Rightarrow> shape_declaration \<Rightarrow> products \<Rightarrow>
     string list \<Rightarrow> decision \<Rightarrow> bool" where
  "merge_grounds tr yaml number repo decl products required d \<longleftrightarrow> (\<exists>head s.
     open_to_default (set tr) repo number head \<and>
     sh_verdict s = MECHANICAL \<and> py_eq (sha_of s) head \<and> mechanical_evidence (set tr) yaml number repo decl products s \<and>
     contexts_read (set tr) repo (py_str head) required \<and> last_look tr repo number head \<and>
     d = merge_decision number head s)"

definition decision_grounds ::
  "(api_call \<times> (exn + json)) list \<Rightarrow> yaml_loader \<Rightarrow> json \<Rightarrow> string \<Rightarrow> shape_declaration \<Rightarrow> products \<Rightarrow>
     string list \<Rightarrow> decision \<Rightarrow> bool" where
  "decision_grounds tr yaml number repo decl products required d =
     (case dc_action d of
        MERGE \<Rightarrow> merge_grounds tr yaml number repo decl products required d
      | CLOSE \<Rightarrow> \<exists>head changes. open_to_default (set tr) repo number head \<and>
                    answered (set tr) (files_path repo number) changes \<and> py_eq changes (JArr [])
      | SKIP \<Rightarrow> True)"

lemma decide_simps [simp]: "dc_action (decide number a why head) = a"
  "dc_action (merge_decision number sha s) = MERGE"
  by (simp_all add: decide_def merge_decision_def)

lemma skip_grounds [simp]: "decision_grounds tr yaml number repo decl products required (decide number SKIP why head)"
  by (simp add: decision_grounds_def)

lemma says_judged_shape:
  assumes pr: "head_of pr = Inr head" "py_get pr ''draft'' = Inr (JBool False)" "base_of pr = Inr base"
      "default_of pr = Inr default_branch" "py_eq base default_branch"
  shows "says srv (abind (evaluate srv yaml number repo decl products) (\<lambda>shape.
      if sh_verdict shape \<noteq> MECHANICAL \<or> \<not> py_eq (case sh_head_sha shape of None \<Rightarrow> JNull | Some h \<Rightarrow> h) head
      then ret (decide number SKIP (sh_reason shape) (sh_head_sha shape))
      else
        abind (not_ready srv number repo head required) (\<lambda>refusal.
          ret (case refusal of Some why \<Rightarrow> decide number SKIP why (Some head)
               | None \<Rightarrow> merge_decision number head shape))))
    (\<lambda>d tr. decision_grounds ((ApiJson (pull_path repo number), Inr pr) # (ApiJson (files_path repo number), Inr changes) # tr)
      yaml number repo decl products required d)"
proof (rule says_abind [OF says_evaluate], intro says_if says_ret, simp, rule says_abind [OF says_not_ready], rule says_ret)
  fix s :: shape and why :: "string option" and tr1 tr2 :: "(api_call \<times> (exn + json)) list"
  let ?pre = "[(ApiJson (pull_path repo number), Inr pr), (ApiJson (files_path repo number), Inr changes)]"
  let ?tr = "?pre @ tr1 @ tr2 @ []"
  assume s: "\<not> (sh_verdict s \<noteq> MECHANICAL \<or> \<not> py_eq (case sh_head_sha s of None \<Rightarrow> JNull | Some h \<Rightarrow> h) head)"
    and mech: "sh_verdict s = MECHANICAL \<longrightarrow> mechanical_evidence (set tr1) yaml number repo decl products s"
    and ready: "why = None \<longrightarrow> contexts_read (set tr2) repo (py_str head) required \<and> last_look tr2 repo number head"
  have "merge_grounds ?tr yaml number repo decl products required (merge_decision number head s)" if "why = None"
  proof -
    have sub: "set tr1 \<subseteq> set ?tr" "set tr2 \<subseteq> set ?tr" by auto
    have "open_to_default (set ?tr) repo number head"
      using pr by (auto simp: open_to_default_def answered_def)
    moreover from s mech have "mechanical_evidence (set ?tr) yaml number repo decl products s"
      using mechanical_evidence_mono [OF sub(1)] by blast
    moreover from ready that have "contexts_read (set ?tr) repo (py_str head) required"
      using contexts_read_mono [OF sub(2)] by blast
    moreover have "last_look ?tr repo number head"
      using last_look_append [of tr2 repo number head "?pre @ tr1"] ready that by simp
    ultimately show ?thesis using s unfolding merge_grounds_def sha_of_def by blast
  qed
  then show "decision_grounds ((ApiJson (pull_path repo number), Inr pr) # (ApiJson (files_path repo number), Inr changes)
       # tr1 @ tr2 @ []) yaml number repo decl products required
      (case why of Some why \<Rightarrow> decide number SKIP why (Some head) | None \<Rightarrow> merge_decision number head s)"
    by (cases why) (simp_all add: decision_grounds_def)
qed

lemma says_judge:
  "says srv (judge_pull srv yaml number repo decl products required paused) (\<lambda>d tr.
     decision_grounds tr yaml number repo decl products required d \<and> (paused \<noteq> None \<longrightarrow> dc_action d = SKIP))"
proof (cases "paused = None")
  case True
  have grounds: "says srv (judge_pull srv yaml number repo decl products required None) (\<lambda>d tr.
      decision_grounds tr yaml number repo decl products required d)"
    unfolding judge_pull_def
  proof (simp, rule says_attempt [where P = "\<lambda>d tr. decision_grounds tr yaml number repo decl products required d"])
    show "says srv (abind (ask srv (ApiJson (pull_path repo number))) (\<lambda>pr.
           abind (lift (head_of pr)) (\<lambda>head.
           abind (lift (py_get pr ''draft'')) (\<lambda>draft.
             if draft \<noteq> JBool False then ret (decide number SKIP ''a draft'' (Some head))
             else
               abind (lift (base_of pr)) (\<lambda>base.
               abind (lift (default_of pr)) (\<lambda>default_branch.
                 if \<not> py_eq base default_branch then ret (decide number SKIP ''targets another branch'' (Some head))
                 else
                   abind (ask srv (ApiJson (files_path repo number))) (\<lambda>changes.
                     if py_eq changes (JArr []) then ret (decide number CLOSE ''no changed files'' (Some head))
                     else
                       abind (evaluate srv yaml number repo decl products) (\<lambda>shape.
                         if sh_verdict shape \<noteq> MECHANICAL \<or>
                            \<not> py_eq (case sh_head_sha shape of None \<Rightarrow> JNull | Some h \<Rightarrow> h) head
                         then ret (decide number SKIP (sh_reason shape) (sh_head_sha shape))
                         else
                           abind (not_ready srv number repo head required) (\<lambda>refusal.
                             ret (case refusal of
                                    Some why \<Rightarrow> decide number SKIP why (Some head)
                                  | None \<Rightarrow> merge_decision number head shape))))))))))
        (\<lambda>d tr. decision_grounds tr yaml number repo decl products required d)"
    proof (intro says_ask_then says_lift_then says_if, goal_cases)
      case (3 pr head draft base default_branch changes)
      then show ?case
        by (intro says_ret) (auto simp: decision_grounds_def open_to_default_def answered_def)
    next
      case (4 pr head draft base default_branch changes)
      then show ?case using says_judged_shape [of pr head base default_branch] by simp
    qed (simp_all add: says_ret)
  qed (simp_all add: says_ret)
  with True show ?thesis by simp
next
  case False
  then show ?thesis by (simp add: judge_pull_def says_ret)
qed

text \<open>C26. A pull request is merged only on evidence the run itself read: nothing was paused; it is open, no
  draft and targets the default branch; its diff, read at one head, is mechanical, and the tag it moves
  to is a commit of the product's default branch ahead of the old one; every context that counts passes
  at that head; and the last thing read is the pull request again, still at that head and in a state
  GitHub merges. The squash message is made of the judged app and tag.\<close>

theorem judge_merges_on_evidence:
  assumes "judge_pull srv yaml number repo decl products required paused n = (Val d, n')" and "dc_action d = MERGE"
  shows "paused = None \<and> merge_grounds (told srv (judge_pull srv yaml number repo decl products required paused) n)
    yaml number repo decl products required d"
  using saysD [OF says_judge assms(1)] assms(2) by (auto simp: decision_grounds_def)

section \<open>The pause\<close>

text \<open>A run whose verdict jobs for the environment all succeeded, and one that says nothing of it.\<close>

definition green_jobs :: "string \<Rightarrow> json \<Rightarrow> bool" where
  "green_jobs sfx jobs \<longleftrightarrow> (\<exists>js. py_iter jobs = Inr js \<and> (\<exists>j \<in> set js. is_verdict sfx j = Inr True) \<and>
     (\<forall>j \<in> set js. is_verdict sfx j = Inr True \<longrightarrow> py_index j ''conclusion'' = Inr (JStr ''success'')))"

definition silent_run :: "string \<Rightarrow> json \<Rightarrow> json \<Rightarrow> bool" where
  "silent_run sfx run jobs \<longleftrightarrow>
     (truthy jobs \<or> py_index run ''conclusion'' = Inr (JStr ''success'')) \<and>
     (\<exists>js. py_iter jobs = Inr js \<and> (\<forall>j \<in> set js. is_verdict sfx j = Inr False))"

lemma run_verdict_green:
  assumes "run_verdict sfx run jobs = Inr (Some None)"
  shows "green_jobs sfx jobs"
proof -
  from assms obtain js verdicts cs where
    js: "py_iter jobs = Inr js" and v: "efilter (is_verdict sfx) js = Inr verdicts" "verdicts \<noteq> []" and
    cs: "emap (\<lambda>j. py_index j ''conclusion'') verdicts = Inr cs" "list_all (\<lambda>c. py_eq c (JStr ''success'')) cs"
    by (auto simp: run_verdict_def split: if_splits)
  note kept = efilter_eq_Inr [OF v(1)]
  from kept v(2) have "\<exists>j \<in> set js. is_verdict sfx j = Inr True" by (auto simp: filter_empty_conv)
  moreover have "py_index j ''conclusion'' = Inr (JStr ''success'')"
    if "j \<in> set js" "is_verdict sfx j = Inr True" for j
  proof -
    from kept that have "j \<in> set verdicts" by simp
    from emap_image [OF cs(1) this] obtain c where "c \<in> set cs" "py_index j ''conclusion'' = Inr c" .
    with cs(2) show ?thesis by (auto simp: list_all_iff py_eq_text)
  qed
  ultimately show ?thesis using js unfolding green_jobs_def by blast
qed

lemma run_verdict_silent: "run_verdict sfx run jobs = Inr None \<Longrightarrow> silent_run sfx run jobs"
  by (auto simp: run_verdict_def silent_run_def efilter_None py_eq_text split: if_splits)

definition jobs_answered :: "answers_set \<Rightarrow> string \<Rightarrow> json \<Rightarrow> json \<Rightarrow> bool" where
  "jobs_answered A repo run jobs \<longleftrightarrow>
     (\<exists>run_id. py_index run ''id'' = Inr run_id \<and> field_answered A (jobs_path repo run_id) ''jobs'' jobs)"

definition latest_verdict_green :: "answers_set \<Rightarrow> string \<Rightarrow> string \<Rightarrow> json list \<Rightarrow> bool" where
  "latest_verdict_green A repo sfx runs \<longleftrightarrow> (\<exists>newer run older jobs. runs = newer @ run # older \<and>
     (\<forall>r \<in> set newer. \<exists>js. jobs_answered A repo r js \<and> silent_run sfx r js) \<and>
     jobs_answered A repo run jobs \<and> green_jobs sfx jobs)"

lemma jobs_answered_mono: "A \<subseteq> B \<Longrightarrow> jobs_answered A repo run jobs \<Longrightarrow> jobs_answered B repo run jobs"
  unfolding jobs_answered_def by (blast intro: field_answered_mono)

lemma latest_verdict_green_mono:
  "A \<subseteq> B \<Longrightarrow> latest_verdict_green A repo sfx runs \<Longrightarrow> latest_verdict_green B repo sfx runs"
proof -
  assume sub: "A \<subseteq> B" and "latest_verdict_green A repo sfx runs"
  then obtain newer r older js where "runs = newer @ r # older"
    "\<forall>r \<in> set newer. \<exists>js. jobs_answered A repo r js \<and> silent_run sfx r js"
    "jobs_answered A repo r js" "green_jobs sfx js"
    unfolding latest_verdict_green_def by blast
  with jobs_answered_mono [OF sub] show "latest_verdict_green B repo sfx runs"
    unfolding latest_verdict_green_def
    by (intro exI [of _ newer] exI [of _ r] exI [of _ older] exI [of _ js]) blast
qed

lemma says_look_runs:
  "says srv (look_runs srv repo sfx runs) (\<lambda>p tr. p = None \<longrightarrow> latest_verdict_green (set tr) repo sfx runs)"
proof (induction runs)
  case (Cons run runs)
  show ?case
    unfolding look_runs.simps
  proof (intro says_lift_then, rule says_abind [OF says_get_field], intro says_lift_then, goal_cases)
    case (1 run_id jobs tr v)
    then have here: "jobs_answered (set tr) repo run jobs" by (auto simp: jobs_answered_def)
    show ?case
    proof (cases v)
      case None
      with 1 have quiet: "silent_run sfx run jobs" by (simp add: run_verdict_silent)
      show ?thesis
        unfolding None option.case
      proof (rule says_mono [OF Cons.IH], intro impI)
        fix p tr'
        assume "p = None \<longrightarrow> latest_verdict_green (set tr') repo sfx runs" and "p = (None :: string option)"
        then obtain newer r older js where runs: "runs = newer @ r # older"
          "\<forall>r \<in> set newer. \<exists>js. jobs_answered (set tr') repo r js \<and> silent_run sfx r js"
          "jobs_answered (set tr') repo r js" "green_jobs sfx js"
          unfolding latest_verdict_green_def by blast
        let ?A = "set (tr @ tr')"
        have sub: "set tr \<subseteq> ?A" "set tr' \<subseteq> ?A" by auto
        have "\<forall>r \<in> set (run # newer). \<exists>js. jobs_answered ?A repo r js \<and> silent_run sfx r js"
          using jobs_answered_mono [OF sub(1) here] quiet runs(2) jobs_answered_mono [OF sub(2)] by simp blast
        with runs jobs_answered_mono [OF sub(2) runs(3)] show "latest_verdict_green ?A repo sfx (run # runs)"
          unfolding latest_verdict_green_def
          by (intro exI [of _ "run # newer"] exI [of _ r] exI [of _ older] exI [of _ js]) simp
      qed
    next
      case (Some p)
      have "latest_verdict_green (set (tr @ [])) repo sfx (run # runs)" if "p = None"
        unfolding latest_verdict_green_def
        using here run_verdict_green [of sfx run jobs] 1(3) Some that
        by (intro exI [of _ "[]"] exI [of _ run] exI [of _ runs] exI [of _ jobs]) simp
      with Some show ?thesis by (simp add: says_ret)
    qed
  qed
qed (simp add: says_ret)

definition green_read :: "answers_set \<Rightarrow> string \<Rightarrow> string \<Rightarrow> string \<Rightarrow> bool" where
  "green_read A repo branch env \<longleftrightarrow> (\<exists>runs rs.
     field_answered A (verdict_runs_path repo branch) ''workflow_runs'' runs \<and> py_iter runs = Inr rs \<and>
     latest_verdict_green A repo (verdict_suffix env) rs)"

lemma says_pause_reason:
  "says srv (pause_reason srv repo branch env) (\<lambda>p tr. p = None \<longrightarrow> green_read (set tr) repo branch env)"
proof -
  have body: "says srv (abind (get_field srv (verdict_runs_path repo branch) ''workflow_runs'') (\<lambda>runs.
        abind (lift (py_iter runs)) (\<lambda>rs. look_runs srv repo (verdict_suffix env) rs)))
      (\<lambda>p tr. p = None \<longrightarrow> green_read (set tr) repo branch env)"
  proof (rule says_abind [OF says_get_field], intro says_lift_then, rule says_mono [OF says_look_runs], intro impI, goal_cases)
    case (1 runs tr rs p tr')
    moreover have "latest_verdict_green (set (tr @ tr')) repo (verdict_suffix env) rs"
      using 1(3,4) by (auto intro: latest_verdict_green_mono [of "set tr'"])
    moreover have "field_answered (set (tr @ tr')) (verdict_runs_path repo branch) ''workflow_runs'' runs"
      by (rule field_answered_mono [OF _ 1(1)]) simp
    ultimately show ?case unfolding green_read_def by blast
  qed
  show ?thesis
    unfolding pause_reason_def by (rule says_attempt [OF body]) (simp_all add: says_ret)
qed

lemma no_raise_pause_reason: "no_raise (pause_reason srv repo branch env)"
  unfolding pause_reason_def by (intro no_raise_intros)

text \<open>Merging is unpaused only by a green verdict: in the list of runs that was read, some run's verdict jobs
  for the environment all succeeded, and every run listed before it started and holds no verdict for it.
  Whatever cannot be read pauses, and raises nothing.\<close>

theorem unpaused_only_by_green:
  assumes "pause_reason srv repo branch env n = (res, n')"
  shows "(\<forall>e. res \<noteq> Exn e) \<and> (res = Val None \<longrightarrow> (\<exists>runs rs.
    field_answered (set (told srv (pause_reason srv repo branch env) n)) (verdict_runs_path repo branch) ''workflow_runs'' runs
    \<and> py_iter runs = Inr rs
    \<and> latest_verdict_green (set (told srv (pause_reason srv repo branch env) n)) repo (verdict_suffix env) rs))"
  using assms saysD [OF says_pause_reason, of srv repo branch env n] no_raise_pause_reason [of srv repo branch env]
  by (auto simp: no_raise_def green_read_def)

end
