(* ===== verification/BranchProtection.thy ===== *)
theory BranchProtection
  imports Transcript "HOL-Library.Multiset"
begin

text \<open>
  The reconciliation of GitHub's branch protection, \<open>toolkit/features/branch_protection.py\<close>. The outside party
  is the \<open>gh\<close> program: a call is its arguments with the payload on its input, answered by its output or by
  what it printed when it failed; the JSON reader is a parameter.
\<close>

section \<open>The declaration\<close>

record declared_protection =
  dp_strict :: bool
  dp_contexts :: "string list"

fun is_text :: "json \<Rightarrow> bool" where
  "is_text (JStr _) = True"
| "is_text _ = False"

fun text_list :: "json \<Rightarrow> string list option" where
  "text_list (JArr xs) = (if list_all is_text xs then Some (List.map_filter str_of xs) else None)"
| "text_list _ = None"

definition protection_from_config :: "json \<Rightarrow> exn + declared_protection" where
  "protection_from_config raw =
     ebind (py_get raw ''required_contexts'') (\<lambda>c.
     case text_list (py_or c (JArr [])) of
       None \<Rightarrow> Inl (BranchProtectionError ''required_contexts must be a list of check names'')
     | Some contexts \<Rightarrow>
         (case py_index raw ''strict'' of
            Inl _ \<Rightarrow> Inl (BranchProtectionError ''strict must be declared explicitly'')
          | Inr s \<Rightarrow> Inr \<lparr>dp_strict = truthy s, dp_contexts = contexts\<rparr>))"

definition load_branch :: "string \<times> json \<Rightarrow> exn + string \<times> declared_protection" where
  "load_branch kv = ebind (protection_from_config (snd kv)) (\<lambda>d. Inr (fst kv, d))"

definition load_repo :: "string \<times> json \<Rightarrow> exn + string \<times> (string \<times> declared_protection) list" where
  "load_repo kv =
     (if count_list (fst kv) (CHR ''/'') \<noteq> 1 \<or> \<not> is_mapping (snd kv)
      then Inl (BranchProtectionError ''not a repository'')
      else ebind (py_items (snd kv)) (\<lambda>branches. ebind (emap load_branch branches) (\<lambda>ds. Inr (fst kv, ds))))"

definition load_declared :: "json \<Rightarrow> exn + (string \<times> (string \<times> declared_protection) list) list" where
  "load_declared config =
     ebind (py_get config ''ci'') (\<lambda>ci.
     ebind (py_get (py_or ci (JObj [])) ''branch_protection'') (\<lambda>d.
     ebind (py_items (py_or d (JObj []))) (emap load_repo)))"

section \<open>The predicate and the body\<close>

type_synonym protection_change = "string \<times> json \<times> json"

definition texts :: "string list \<Rightarrow> json" where
  "texts ss = JArr (map JStr ss)"

definition protection_changes :: "json \<Rightarrow> declared_protection \<Rightarrow> exn + protection_change list" where
  "protection_changes live d =
     ebind (py_get live ''required_status_checks'') (\<lambda>c.
     let checks = py_or c (JObj []) in
     ebind (py_get_or checks ''strict'' (JBool False)) (\<lambda>s.
     ebind (py_get checks ''contexts'') (\<lambda>cs.
     ebind (py_iter (py_or cs (JArr []))) (\<lambda>live_contexts.
     ebind (py_sorted live_contexts) (\<lambda>a.
     ebind (py_sorted (map JStr (dp_contexts d))) (\<lambda>b.
       Inr ((if truthy s \<noteq> dp_strict d
             then [(''required_status_checks.strict'', JBool (truthy s), JBool (dp_strict d))] else []) @
            (if \<not> py_eq (JArr a) (JArr b)
             then [(''required_status_checks.contexts'', JArr live_contexts, texts (dp_contexts d))] else []))))))))"

definition enabled_wrapped :: "string list" where
  "enabled_wrapped =
     [''enforce_admins'', ''required_linear_history'', ''allow_force_pushes'', ''allow_deletions'', ''block_creations'',
      ''required_conversation_resolution'', ''lock_branch'', ''allow_fork_syncing'']"

definition read_only_on_put :: "string list" where
  "read_only_on_put = [''url'', ''required_signatures'', ''contexts_url'']"

definition unwrap :: "json \<Rightarrow> bool" where
  "unwrap v = (case v of JObj kvs \<Rightarrow> truthy (oget_or kvs ''enabled'' (JBool False)) | _ \<Rightarrow> truthy v)"

definition kept_reviews :: "json \<Rightarrow> json" where
  "kept_reviews v = (case v of JObj kvs \<Rightarrow> JObj (filter (\<lambda>kv. fst kv \<notin> set read_only_on_put) kvs) | _ \<Rightarrow> JNull)"

definition entry_name :: "json \<Rightarrow> exn + json" where
  "entry_name entry =
     ebind (py_get entry ''login'') (\<lambda>l. if truthy l then Inr l else py_get entry ''slug'')"

definition kept_restrictions :: "json \<Rightarrow> exn + json" where
  "kept_restrictions v =
     (case v of
        JObj kvs \<Rightarrow>
          ebind (emap (\<lambda>k. ebind (py_iter (py_or (oget kvs k) (JArr []))) (\<lambda>es.
                           ebind (emap entry_name es) (\<lambda>ns. Inr (k, JArr ns)))) [''users'', ''teams'', ''apps''])
            (\<lambda>lists. Inr (JObj lists))
      | _ \<Rightarrow> Inr JNull)"

definition put_body :: "json \<Rightarrow> declared_protection \<Rightarrow> exn + json" where
  "put_body live d =
     ebind (emap (\<lambda>f. ebind (py_get live f) (\<lambda>v. Inr (f, JBool (unwrap v)))) enabled_wrapped) (\<lambda>toggles.
     ebind (py_get live ''required_pull_request_reviews'') (\<lambda>reviews.
     ebind (py_get live ''restrictions'') (\<lambda>r.
     ebind (kept_restrictions r) (\<lambda>restrictions.
       Inr (JObj (toggles @
         [(''required_pull_request_reviews'', kept_reviews reviews),
          (''restrictions'', restrictions),
          (''required_status_checks'', JObj [(''strict'', JBool (dp_strict d)), (''contexts'', texts (dp_contexts d))])]))))))"

section \<open>The client\<close>

text \<open>\<open>gh api\<close> with its arguments and the payload it reads.\<close>

type_synonym gh_call = "string list \<times> json option"

datatype gh_reply = GhPrinted string | GhFailed string

type_synonym 's gh = "gh_call \<Rightarrow> 's \<Rightarrow> gh_reply \<times> 's"

type_synonym ('s, 'a) gh_act = "(gh_call, 's, 'a) act"

definition gh_failure :: "string list \<Rightarrow> string \<Rightarrow> string" where
  "gh_failure args err = ''gh api '' @ join '' '' args @ '' failed: '' @ strip err"

definition gh_run :: "'s gh \<Rightarrow> string list \<Rightarrow> json option \<Rightarrow> ('s, string) gh_act" where
  "gh_run srv args payload =
     abind (call srv (args, payload)) (\<lambda>r. case r of
       GhPrinted out \<Rightarrow> ret out
     | GhFailed err \<Rightarrow> throw (BranchProtectionError (gh_failure args err)))"

definition protection_path :: "string \<Rightarrow> string \<Rightarrow> string" where
  "protection_path repo branch = ''repos/'' @ repo @ ''/branches/'' @ branch @ ''/protection''"

definition get_call :: "string \<Rightarrow> string \<Rightarrow> gh_call" where
  "get_call repo branch = ([protection_path repo branch], None)"

definition put_call :: "string \<Rightarrow> string \<Rightarrow> json \<Rightarrow> gh_call" where
  "put_call repo branch body = ([''--method'', ''PUT'', protection_path repo branch, ''--input'', ''-''], Some body)"

definition unprotected :: "exn \<Rightarrow> bool" where
  "unprotected e = (case e of BranchProtectionError text \<Rightarrow> str_contains ''Branch not protected'' text | _ \<Rightarrow> False)"

definition get_protection :: "'s gh \<Rightarrow> (string \<Rightarrow> exn + json) \<Rightarrow> string \<Rightarrow> string \<Rightarrow> ('s, json option) gh_act" where
  "get_protection srv loads repo branch =
     abind (attempt (abind (gh_run srv (fst (get_call repo branch)) None) (\<lambda>raw. ret (Some raw)))
                    (\<lambda>e. if unprotected e then ret None else throw e)) (\<lambda>raw.
       case raw of None \<Rightarrow> ret None | Some text \<Rightarrow> abind (lift (loads text)) (\<lambda>doc. ret (Some doc)))"

definition put_protection :: "'s gh \<Rightarrow> string \<Rightarrow> string \<Rightarrow> json \<Rightarrow> ('s, unit) gh_act" where
  "put_protection srv repo branch body =
     abind (gh_run srv (fst (put_call repo branch body)) (Some body)) (\<lambda>_. ret ())"

definition admins_enforced :: "json \<Rightarrow> exn + bool" where
  "admins_enforced doc =
     ebind (py_get doc ''enforce_admins'') (\<lambda>a.
     ebind (py_get (py_or a (JObj [])) ''enabled'') (\<lambda>e. Inr (truthy e)))"

definition ensure_protection ::
  "'s gh \<Rightarrow> (string \<Rightarrow> exn + json) \<Rightarrow> string \<Rightarrow> string \<Rightarrow> declared_protection \<Rightarrow> ('s, protection_change list) gh_act" where
  "ensure_protection srv loads repo branch d =
     abind (get_protection srv loads repo branch) (\<lambda>live. case live of
       None \<Rightarrow> throw (BranchProtectionError ''not protected at all'')
     | Some live \<Rightarrow>
         abind (lift (protection_changes live d)) (\<lambda>pending.
           if pending = [] then ret []
           else
             abind (lift (put_body live d)) (\<lambda>body.
             abind (put_protection srv repo branch body) (\<lambda>_.
             abind (get_protection srv loads repo branch) (\<lambda>after. case after of
               None \<Rightarrow> throw (BranchProtectionError ''does not read back as protected'')
             | Some after \<Rightarrow>
                 abind (lift (protection_changes after d)) (\<lambda>remaining.
                   if remaining \<noteq> [] then throw (BranchProtectionError ''still disagrees after a PUT'')
                   else
                     abind (lift (admins_enforced after)) (\<lambda>a.
                     abind (lift (admins_enforced live)) (\<lambda>b.
                       if a \<noteq> b then throw (BranchProtectionError ''enforce_admins changed'')
                       else ret pending))))))))"

end
