(* ===== verification/DeployCommands.thy ===== *)
theory DeployCommands
  imports DeployMergeFacts BranchProtection
begin

text \<open>
  The commands over the deploy gate, \<open>toolkit deploy-shape\<close> and \<open>toolkit deploy-merge\<close> of
  \<open>toolkit/cli/tools.py\<close>, with \<open>merge_enabled\<close> and \<open>required_contexts\<close> of
  \<open>toolkit/features/deploy_merge.py\<close>. The files are parameters: what reading the registry, the products and
  the common values gives, the regular expression compiler, and whether writing the output succeeds. A
  command returns its exit code and what it wrote.
\<close>

section \<open>The switch and the required contexts\<close>

definition merge_enabled :: "exn + json \<Rightarrow> exn + bool" where
  "merge_enabled registry =
     (case ebind registry (\<lambda>d. py_get d ''mechanical'') of
        Inl e \<Rightarrow> if unreadable e then Inr False else Inl e
      | Inr block \<Rightarrow> Inr (case block of JObj kvs \<Rightarrow> oget kvs ''merge'' = JBool True | _ \<Rightarrow> False))"

definition required_contexts :: "exn + json \<Rightarrow> string \<Rightarrow> json \<Rightarrow> exn + string list" where
  "required_contexts common repo branch =
     ebind common (\<lambda>config.
     ebind (load_declared config) (\<lambda>declared.
     ebind (index declared repo) (\<lambda>branches.
       case branch of
         JStr b \<Rightarrow> ebind (index branches b) (\<lambda>d. Inr (dp_contexts d))
       | _ \<Rightarrow> Inl (if hashable branch then KeyError ''branch'' else TypeError ''unhashable''))))"

section \<open>Judging the shape of one pull request\<close>

definition shape_exit :: "verdict \<Rightarrow> nat" where
  "shape_exit v = (case v of MECHANICAL \<Rightarrow> 0 | NOT_MECHANICAL \<Rightarrow> 1 | UNKNOWN \<Rightarrow> 2)"

definition wrote_out :: "exn + unit \<Rightarrow> ('s, nat \<times> 'a option) api_act \<Rightarrow> ('s, nat \<times> 'a option) api_act" where
  "wrote_out wrote rest =
     (case wrote of Inl (OSError _) \<Rightarrow> ret (2, None) | Inl e \<Rightarrow> throw e | Inr _ \<Rightarrow> rest)"

definition deploy_shape_cmd ::
  "'s api \<Rightarrow> yaml_loader \<Rightarrow> (string \<Rightarrow> rx option) \<Rightarrow> exn + json \<Rightarrow> exn + products \<Rightarrow> (exn + unit) option \<Rightarrow>
     json \<Rightarrow> string \<Rightarrow> ('s, nat \<times> shape option) api_act" where
  "deploy_shape_cmd srv yaml compile registry products out number repo =
     abind (case ebind (load_mechanical compile registry) (\<lambda>decl. ebind products (\<lambda>ps. Inr (decl, ps))) of
              Inl e \<Rightarrow> ret (mk_shape UNKNOWN ''cannot load the declaration'')
            | Inr (decl, ps) \<Rightarrow> evaluate srv yaml number repo decl ps) (\<lambda>s.
       let exit = ret (shape_exit (sh_verdict s), Some s) in
       case out of None \<Rightarrow> exit | Some wrote \<Rightarrow> wrote_out wrote exit)"

section \<open>Judging every open pull request\<close>

definition open_path :: "string \<Rightarrow> json \<Rightarrow> nat \<Rightarrow> string" where
  "open_path repo branch page =
     ''repos/'' @ repo @ ''/pulls?state=open&base='' @ py_str branch @ ''&per_page=100&page='' @ show_nat page"

fun open_pulls :: "'s api \<Rightarrow> string \<Rightarrow> json \<Rightarrow> nat list \<Rightarrow> json list \<Rightarrow> ('s, json list) api_act" where
  "open_pulls srv repo branch [] acc = ret acc"
| "open_pulls srv repo branch (page # pages) acc =
     abind (ask srv (ApiJson (open_path repo branch page))) (\<lambda>batch.
     abind (lift (py_iter batch)) (\<lambda>xs.
       if length xs < 100 then ret (acc @ xs) else open_pulls srv repo branch pages (acc @ xs)))"

record merge_inputs =
  mi_decl :: shape_declaration
  mi_products :: products
  mi_branch :: json
  mi_required :: "string list"
  mi_open :: "json list"

definition merge_inputs_read ::
  "'s api \<Rightarrow> (string \<Rightarrow> rx option) \<Rightarrow> exn + json \<Rightarrow> exn + products \<Rightarrow> exn + json \<Rightarrow> string \<Rightarrow> ('s, merge_inputs) api_act" where
  "merge_inputs_read srv compile registry products common repo =
     abind (lift (load_mechanical compile registry)) (\<lambda>decl.
     abind (lift products) (\<lambda>ps.
     abind (get_field srv (''repos/'' @ repo) ''default_branch'') (\<lambda>branch.
     abind (lift (required_contexts common repo branch)) (\<lambda>req.
     abind (open_pulls srv repo branch [1..<51] []) (\<lambda>prs.
       ret \<lparr>mi_decl = decl, mi_products = ps, mi_branch = branch, mi_required = req, mi_open = prs\<rparr>)))))"

record merge_payload =
  mp_enabled :: bool
  mp_paused :: "string option"
  mp_decisions :: "decision list"

definition judge_open ::
  "'s api \<Rightarrow> yaml_loader \<Rightarrow> string \<Rightarrow> merge_inputs \<Rightarrow> string option \<Rightarrow> json \<Rightarrow> ('s, decision) api_act" where
  "judge_open srv yaml repo i paused pr =
     abind (lift (py_index pr ''number'')) (\<lambda>number.
       judge_pull srv yaml number repo (mi_decl i) (mi_products i) (mi_required i) paused)"

definition deploy_merge_cmd ::
  "'s api \<Rightarrow> yaml_loader \<Rightarrow> (string \<Rightarrow> rx option) \<Rightarrow> exn + json \<Rightarrow> exn + products \<Rightarrow> exn + json \<Rightarrow> exn + unit \<Rightarrow> string \<Rightarrow>
     ('s, nat \<times> merge_payload option) api_act" where
  "deploy_merge_cmd srv yaml compile registry products common wrote repo =
     abind (attempt (abind (merge_inputs_read srv compile registry products common repo) (\<lambda>i. ret (Some i)))
                    (\<lambda>e. ret None)) (\<lambda>inputs. case inputs of
       None \<Rightarrow> ret (2, None)
     | Some i \<Rightarrow>
         abind (lift (merge_enabled registry)) (\<lambda>enabled.
         abind (pause_reason srv repo (py_str (mi_branch i)) (decl_env (mi_decl i))) (\<lambda>paused.
         abind (amap (judge_open srv yaml repo i paused) (mi_open i)) (\<lambda>decisions.
           wrote_out wrote
             (ret (0, Some \<lparr>mp_enabled = enabled, mp_paused = paused, mp_decisions = decisions\<rparr>))))))"

end
