(* ===== verification/DeployCommandFacts.thy ===== *)
theory DeployCommandFacts
  imports DeployCommands
begin

text \<open>
  What the two commands say when they return: the shape command exits with zero only on a mechanical pull
  request, and the merge command writes one decision per listed pull request, each with its grounds.
\<close>

section \<open>The listing\<close>

text \<open>The open pull requests as the pages that were read give them, up to the first page that is not full.\<close>

fun listed :: "answers_set \<Rightarrow> string \<Rightarrow> json \<Rightarrow> nat list \<Rightarrow> json list \<Rightarrow> bool" where
  "listed A repo branch [] prs = (prs = [])"
| "listed A repo branch (page # pages) prs \<longleftrightarrow>
     (\<exists>batch xs rest. answered A (open_path repo branch page) batch \<and> py_iter batch = Inr xs \<and> prs = xs @ rest \<and>
        (if length xs < 100 then rest = [] else listed A repo branch pages rest))"

lemma listed_mono: "A \<subseteq> B \<Longrightarrow> listed A repo branch pages prs \<Longrightarrow> listed B repo branch pages prs"
proof (induction pages arbitrary: prs)
  case (Cons page pages)
  from Cons.prems(2) obtain batch xs rest where
    "answered A (open_path repo branch page) batch" "py_iter batch = Inr xs" "prs = xs @ rest"
    "if length xs < 100 then rest = [] else listed A repo branch pages rest"
    by auto
  with Cons.prems(1) Cons.IH [of rest] show ?case
    unfolding listed.simps by (intro exI [of _ batch] exI [of _ xs] exI [of _ rest]) (auto simp: answered_def split: if_splits)
qed simp

lemma says_open_pulls:
  "says srv (open_pulls srv repo branch pages acc) (\<lambda>prs tr. \<exists>more. prs = acc @ more \<and> listed (set tr) repo branch pages more)"
proof (induction pages arbitrary: acc)
  case (Cons page pages)
  show ?case
    unfolding open_pulls.simps
  proof (intro says_ask_then says_lift_then says_if says_ret)
    fix batch xs
    assume "py_iter batch = Inr xs" "length xs < 100"
    then show "\<exists>more. acc @ xs = acc @ more \<and>
        listed (set [(ApiJson (open_path repo branch page), Inr batch)]) repo branch (page # pages) more"
      by (intro exI [of _ xs]) (simp add: answered_def)
  next
    fix batch xs
    assume iter: "py_iter batch = Inr xs" and full: "\<not> length xs < 100"
    show "says srv (open_pulls srv repo branch pages (acc @ xs)) (\<lambda>prs tr. \<exists>more. prs = acc @ more \<and>
        listed (set ((ApiJson (open_path repo branch page), Inr batch) # tr)) repo branch (page # pages) more)"
    proof (rule says_mono [OF Cons.IH], elim exE conjE)
      fix prs tr more
      assume "prs = (acc @ xs) @ more" "listed (set tr) repo branch pages more"
      with iter full show "\<exists>more. prs = acc @ more \<and>
          listed (set ((ApiJson (open_path repo branch page), Inr batch) # tr)) repo branch (page # pages) more"
        by (intro exI [of _ "xs @ more"]) (auto simp: answered_def intro: listed_mono [of "set tr"])
    qed
  qed
qed (simp add: says_ret)

section \<open>The shape of one pull request\<close>

lemma says_deploy_shape:
  "says srv (deploy_shape_cmd srv yaml compile registry products out number repo) (\<lambda>r tr. fst r = 0 \<longrightarrow>
     (\<exists>decl ps s. load_mechanical compile registry = Inr decl \<and> products = Inr ps \<and> snd r = Some s \<and>
        sh_verdict s = MECHANICAL \<and> mechanical_evidence (set tr) yaml number repo decl ps s))"
proof -
  let ?loaded = "ebind (load_mechanical compile registry) (\<lambda>decl. ebind products (\<lambda>ps. Inr (decl, ps)))"
  let ?ok = "\<lambda>s tr. sh_verdict s = MECHANICAL \<longrightarrow>
     (\<exists>decl ps. ?loaded = Inr (decl, ps) \<and> mechanical_evidence (set tr) yaml number repo decl ps s)"
  have shape: "says srv (case ?loaded of Inl e \<Rightarrow> ret (mk_shape UNKNOWN ''cannot load the declaration'')
      | Inr (decl, ps) \<Rightarrow> evaluate srv yaml number repo decl ps) ?ok"
  proof (cases ?loaded)
    case (Inr r)
    then show ?thesis
      by (cases r) (auto intro!: says_mono [OF says_evaluate])
  qed (simp add: says_ret mk_shape_def)
  have written: "says srv (case out of None \<Rightarrow> ret (shape_exit (sh_verdict s), Some s)
        | Some wrote \<Rightarrow> wrote_out wrote (ret (shape_exit (sh_verdict s), Some s)))
      (\<lambda>r tr. (r = (2, None) \<or> r = (shape_exit (sh_verdict s), Some s)) \<and> tr = [])" for s
    by (auto simp: wrote_out_def split: option.split sum.split exn.split intro!: says_ret says_throw)
  show ?thesis
    unfolding deploy_shape_cmd_def Let_def
    by (rule says_abind [OF shape], rule says_mono [OF written])
      (fastforce simp: shape_exit_def split: verdict.splits)
qed

text \<open>The shape command exits with zero only for a mechanical pull request: the class was declared, the
  products were read, and what the API answered in this run is the evidence, up to the head being read
  again at the end. A declaration that cannot be read exits with two, never with one, which is published as
  neutral.\<close>

theorem deploy_shape_exit_zero:
  assumes "deploy_shape_cmd srv yaml compile registry products out number repo n = (Val (0, s), n')"
  shows "\<exists>decl ps s'. load_mechanical compile registry = Inr decl \<and> products = Inr ps \<and> s = Some s' \<and>
    sh_verdict s' = MECHANICAL \<and> mechanical_evidence
      (set (told srv (deploy_shape_cmd srv yaml compile registry products out number repo) n)) yaml number repo decl ps s'"
  using saysD [OF says_deploy_shape assms] by simp

section \<open>Every open pull request\<close>

definition inputs_read ::
  "answers_set \<Rightarrow> (string \<Rightarrow> rx option) \<Rightarrow> exn + json \<Rightarrow> exn + products \<Rightarrow> exn + json \<Rightarrow> string \<Rightarrow> merge_inputs \<Rightarrow> bool" where
  "inputs_read A compile registry products common repo i \<longleftrightarrow>
     load_mechanical compile registry = Inr (mi_decl i) \<and> products = Inr (mi_products i) \<and>
     field_answered A (''repos/'' @ repo) ''default_branch'' (mi_branch i) \<and>
     required_contexts common repo (mi_branch i) = Inr (mi_required i) \<and>
     listed A repo (mi_branch i) [1..<51] (mi_open i)"

lemma inputs_read_mono:
  "A \<subseteq> B \<Longrightarrow> inputs_read A compile registry products common repo i \<Longrightarrow> inputs_read B compile registry products common repo i"
  unfolding inputs_read_def by (blast intro: field_answered_mono listed_mono)

lemma says_merge_inputs:
  "says srv (merge_inputs_read srv compile registry products common repo)
     (\<lambda>i tr. inputs_read (set tr) compile registry products common repo i)"
  unfolding merge_inputs_read_def
proof (intro says_lift_then, rule says_abind [OF says_get_field], intro says_lift_then, rule says_abind [OF says_open_pulls],
    rule says_ret, elim exE conjE, goal_cases)
  case (1 decl ps branch tr req prs tr' more)
  then show ?case
    by (auto simp: inputs_read_def intro: field_answered_mono [of "set tr"] listed_mono [of "set tr'"])
qed

text \<open>The grounds of a decision on one entry of the listing.\<close>

definition entry_judged ::
  "(api_call \<times> (exn + json)) list \<Rightarrow> yaml_loader \<Rightarrow> string \<Rightarrow> merge_inputs \<Rightarrow> string option \<Rightarrow> json \<Rightarrow> decision \<Rightarrow> bool" where
  "entry_judged tr yaml repo i paused pr d \<longleftrightarrow> (\<exists>number. py_index pr ''number'' = Inr number \<and>
     decision_grounds tr yaml number repo (mi_decl i) (mi_products i) (mi_required i) d \<and>
     (paused \<noteq> None \<longrightarrow> dc_action d = SKIP))"

lemma says_judge_open:
  "says srv (judge_open srv yaml repo i paused pr) (\<lambda>d tr. entry_judged tr yaml repo i paused pr d)"
  unfolding judge_open_def
  by (intro says_lift_then, rule says_mono [OF says_judge]) (auto simp: entry_judged_def)

definition payload_sound ::
  "answers_set \<Rightarrow> yaml_loader \<Rightarrow> (string \<Rightarrow> rx option) \<Rightarrow> exn + json \<Rightarrow> exn + products \<Rightarrow> exn + json \<Rightarrow> string \<Rightarrow>
     merge_payload \<Rightarrow> bool" where
  "payload_sound A yaml compile registry products common repo p \<longleftrightarrow>
     merge_enabled registry = Inr (mp_enabled p) \<and>
     (\<exists>i. inputs_read A compile registry products common repo i \<and>
        (mp_paused p = None \<longrightarrow> green_read A repo (py_str (mi_branch i)) (decl_env (mi_decl i))) \<and>
        list_all2 (\<lambda>pr d. \<exists>tr. entry_judged tr yaml repo i (mp_paused p) pr d \<and> set tr \<subseteq> A) (mi_open i) (mp_decisions p))"

lemma green_read_mono: "A \<subseteq> B \<Longrightarrow> green_read A repo branch env \<Longrightarrow> green_read B repo branch env"
  unfolding green_read_def by (blast intro: field_answered_mono latest_verdict_green_mono)

lemma says_deploy_merge:
  "says srv (deploy_merge_cmd srv yaml compile registry products common wrote repo) (\<lambda>r tr.
     case snd r of None \<Rightarrow> fst r = 2 | Some p \<Rightarrow> fst r = 0 \<and> payload_sound (set tr) yaml compile registry products common repo p)"
  (is "says srv _ ?R")
proof -
  have read: "says srv (attempt (abind (merge_inputs_read srv compile registry products common repo) (\<lambda>i. ret (Some i))) (\<lambda>e. ret None))
      (\<lambda>i tr. \<forall>j. i = Some j \<longrightarrow> inputs_read (set tr) compile registry products common repo j)"
    by (rule says_attempt [OF says_abind [OF says_merge_inputs]]) (auto intro!: says_ret)
  show ?thesis
    unfolding deploy_merge_cmd_def
  proof (rule says_abind [OF read], goal_cases)
    case (1 inputs tr)
    show ?case
    proof (cases inputs)
      case (Some i)
      with 1 have inputs: "inputs_read (set tr) compile registry products common repo i" by simp
      show ?thesis
        unfolding Some option.case
      proof (intro says_lift_then, rule says_abind [OF says_pause_reason],
          rule says_abind [OF says_amap [OF says_judge_open]], goal_cases)
        case (1 enabled paused tr1 decisions tr2)
        let ?A = "set (tr @ tr1 @ tr2)"
        have sub: "set tr \<subseteq> ?A" "set tr1 \<subseteq> ?A" "set tr2 \<subseteq> ?A" by auto
        have "list_all2 (\<lambda>pr d. \<exists>tr. entry_judged tr yaml repo i paused pr d \<and> set tr \<subseteq> ?A) (mi_open i) decisions"
          using 1(3) sub(3) by (auto elim!: list_all2_mono)
        with 1 inputs_read_mono [OF sub(1) inputs] green_read_mono [OF sub(2)]
        have "payload_sound ?A yaml compile registry products common repo
            \<lparr>mp_enabled = enabled, mp_paused = paused, mp_decisions = decisions\<rparr>"
          unfolding payload_sound_def by (intro conjI exI [of _ i]) simp_all
        then show ?case
          by (auto simp: wrote_out_def intro!: says_ret says_throw split: sum.split exn.split)
      qed
    qed (simp add: says_ret)
  qed
qed

text \<open>The merge command writes its decisions only when everything was read, one for every pull request of the
  listing, in its order, and each rests on answers of this run: a MERGE on the full evidence, a CLOSE on an
  empty list of changes. While no green verdict was read, every one of them is a SKIP. A run that could not
  read its inputs, or could not write, exits with two and gives no decision.\<close>

theorem deploy_merge_payload:
  assumes "deploy_merge_cmd srv yaml compile registry products common wrote repo n = (Val (code, payload), n')"
  shows "case payload of None \<Rightarrow> code = 2
    | Some p \<Rightarrow> code = 0 \<and> payload_sound
        (set (told srv (deploy_merge_cmd srv yaml compile registry products common wrote repo) n))
        yaml compile registry products common repo p"
  using saysD [OF says_deploy_merge assms] by (simp split: option.splits)

end
