(* ===== verification/DeployContexts.thy ===== *)
theory DeployContexts
  imports DeployMerge
begin

text \<open>
  Which contexts hold a merge back. The reference speaks of reports: commit statuses and check-runs as
  GitHub documents them. On such reports \<open>judge_contexts\<close> finds nothing exactly when every required context
  is reported and every reporter of every context that counts passes.
\<close>

section \<open>Reports\<close>

record commit_status =
  st_context :: string
  st_state :: string

record check_run =
  cr_id :: int
  cr_name :: string
  cr_status :: string
  cr_conclusion :: "string option"

definition status_doc :: "commit_status \<Rightarrow> json" where
  "status_doc s = JObj [(''context'', JStr (st_context s)), (''state'', JStr (st_state s))]"

definition run_doc :: "check_run \<Rightarrow> json" where
  "run_doc r = JObj [(''id'', JInt (cr_id r)), (''name'', JStr (cr_name r)), (''status'', JStr (cr_status r)),
     (''conclusion'', case cr_conclusion r of None \<Rightarrow> JNull | Some c \<Rightarrow> JStr c)]"

definition run_passes :: "check_run \<Rightarrow> bool" where
  "run_passes r \<longleftrightarrow> cr_status r = ''completed'' \<and>
     cr_conclusion r \<in> Some ` {''success'', ''neutral'', ''skipped''}"

definition latest_run :: "check_run list \<Rightarrow> check_run \<Rightarrow> bool" where
  "latest_run runs r \<longleftrightarrow> r \<in> set runs \<and> (\<forall>r' \<in> set runs. cr_name r' = cr_name r \<longrightarrow> cr_id r' \<le> cr_id r)"

definition context_passes :: "commit_status list \<Rightarrow> check_run list \<Rightarrow> string \<Rightarrow> bool" where
  "context_passes statuses runs c \<longleftrightarrow>
     (\<forall>s \<in> set statuses. st_context s = c \<longrightarrow> st_state s = ''success'') \<and>
     (\<forall>r. latest_run runs r \<and> cr_name r = c \<longrightarrow> run_passes r)"

section \<open>Sorting and sets of texts\<close>

lemma insort_key_map: "insort_key f (g x) (map g xs) = map g (insort_key (\<lambda>x. f (g x)) x xs)"
  by (induction xs) auto

lemma sort_key_map: "sort_key f (map g xs) = map g (sort_key (\<lambda>x. f (g x)) xs)"
  by (induction xs) (simp_all add: insort_key_map)

lemma sorted_by_ints:
  "sorted_by (map (\<lambda>x. (JInt (f x), g x)) xs) = Inr (map g (sort_key f xs))"
proof (cases "length xs \<le> 1")
  case True
  then show ?thesis by (cases xs; cases "tl xs") (auto simp: sorted_by_def)
next
  case False
  then have "xs \<noteq> []" by auto
  with False show ?thesis by (auto simp: sorted_by_def sort_key_map list_all_iff comp_def)
qed

lemma py_mem_texts [simp]: "py_mem (JStr x) (map JStr xs) \<longleftrightarrow> x \<in> set xs"
  by (auto simp: py_mem_def list_ex_iff)

lemma set_remdups_texts: "set (py_remdups (map JStr xs)) = JStr ` set xs"
  by (induction xs) auto

lemma set_diff_texts: "set (py_diff (map JStr xs) (map JStr ys)) = JStr ` (set xs - set ys)"
proof -
  have "filter (\<lambda>x. \<not> py_mem x (map JStr ys)) (map JStr xs) = map JStr (filter (\<lambda>x. x \<notin> set ys) xs)"
    by (induction xs) auto
  then show ?thesis by (simp add: py_diff_def set_remdups_texts set_diff_eq)
qed

lemma sorted_diff_texts:
  obtains others where "py_sorted (py_diff (map JStr xs) (map JStr ys)) = Inr (map JStr others)"
    and "set others = set xs - set ys"
proof -
  let ?d = "py_diff (map JStr xs) (map JStr ys)"
  have strings: "list_all (\<lambda>x. str_of x \<noteq> None) ?d" by (auto simp: list_all_iff set_diff_texts)
  obtain out where out: "py_sorted ?d = Inr out" "set out = set ?d"
    using py_sorted_strings [OF strings] py_sorted_set by blast
  then have "map JStr (map py_str out) = out" unfolding map_map by (intro map_idI) (auto simp: set_diff_texts)
  moreover from out(2) have "set (map py_str out) = set xs - set ys" by (force simp: set_diff_texts)
  ultimately show thesis using that [of "map py_str out"] out(1) by simp
qed

section \<open>The latest runs\<close>

lemma latest_runs_docs:
  "latest_runs (map run_doc runs) = Inr (rev (map (\<lambda>r. (JStr (cr_name r), run_doc r)) (sort_key cr_id runs)))"
proof -
  have keyed: "emap (\<lambda>r. ebind (py_index r ''id'') (\<lambda>i. Inr (i, r))) (map run_doc runs) =
      Inr (map (\<lambda>r. (JInt (cr_id r), run_doc r)) runs)"
    by (induction runs) (simp_all add: run_doc_def lookup_or_def)
  have named: "emap (\<lambda>r. ebind (py_index r ''name'') (\<lambda>k. if hashable k then Inr (k, r) else Inl (TypeError ''unhashable'')))
      (map run_doc rs) = Inr (map (\<lambda>r. (JStr (cr_name r), run_doc r)) rs)" for rs
    by (induction rs) (simp_all add: run_doc_def lookup_or_def)
  show ?thesis by (simp add: latest_runs_def keyed sorted_by_ints named)
qed

lemma latest_of_docs:
  "latest_of (rev (map (\<lambda>r. (JStr (cr_name r), run_doc r)) rs)) (JStr c) =
     map_option run_doc (find (\<lambda>r. cr_name r = c) (rev rs))"
proof -
  have "latest_of (map (\<lambda>r. (JStr (cr_name r), run_doc r)) qs) (JStr c) = map_option run_doc (find (\<lambda>r. cr_name r = c) qs)"
    for qs by (induction qs) (auto simp: latest_of_def)
  then show ?thesis by (simp add: rev_map)
qed

lemma find_latest:
  assumes "distinct (map cr_id runs)"
  shows "find (\<lambda>r. cr_name r = c) (rev (sort_key cr_id runs)) = Some r \<longleftrightarrow> latest_run runs r \<and> cr_name r = c"
proof -
  have found: "latest_run runs r \<and> cr_name r = c"
    if "find (\<lambda>r. cr_name r = c) (rev (sort_key cr_id runs)) = Some r" for r
  proof -
    let ?rs = "rev (sort_key cr_id runs)"
    from that obtain i where i: "i < length ?rs" "cr_name (?rs ! i) = c" "r = ?rs ! i" "\<forall>j<i. cr_name (?rs ! j) \<noteq> c"
      by (auto simp: find_Some_iff)
    have desc: "sorted_wrt (\<lambda>x y. cr_id y \<le> cr_id x) ?rs"
      using sorted_sort_key [of cr_id runs] by (simp add: sorted_wrt_rev sorted_wrt_map)
    have "cr_id r' \<le> cr_id r" if "r' \<in> set runs" "cr_name r' = c" for r'
    proof -
      from that(1) have "r' \<in> set ?rs" by simp
      then obtain j where j: "j < length ?rs" "?rs ! j = r'" by (metis in_set_conv_nth)
      have "i \<le> j" using that(2) i(4) j(2) by (metis not_le)
      with desc j i(3) show ?thesis by (cases "i = j") (auto simp: sorted_wrt_iff_nth_less)
    qed
    moreover have "r \<in> set runs" using i(1,3) nth_mem [OF i(1)] by simp
    ultimately show ?thesis using i(2,3) by (auto simp: latest_run_def)
  qed
  show ?thesis
  proof
    assume r: "latest_run runs r \<and> cr_name r = c"
    then have "\<exists>x \<in> set (rev (sort_key cr_id runs)). cr_name x = c" by (auto simp: latest_run_def)
    then obtain r' where r': "find (\<lambda>r. cr_name r = c) (rev (sort_key cr_id runs)) = Some r'"
      by (meson find_None_iff not_None_eq)
    from found [OF r'] r have "cr_id r' = cr_id r" "r' \<in> set runs" "r \<in> set runs"
      by (auto simp: latest_run_def intro: order.antisym)
    with assms have "r' = r" by (auto simp: distinct_map dest: inj_onD)
    with r' show "find (\<lambda>r. cr_name r = c) (rev (sort_key cr_id runs)) = Some r" by simp
  qed (rule found)
qed

section \<open>One context\<close>

lemma status_failing_doc:
  "status_failing (JStr c) (status_doc s) =
     Inr (if st_context s = c \<and> st_state s \<noteq> ''success'' then [(JStr c, JStr (st_state s))] else [])"
  by (auto simp: status_failing_def status_doc_def lookup_or_def in_set_def status_ok_def py_mem_def)

lemma run_failing_doc:
  "\<exists>out. run_failing (JStr c) (run_doc r) = Inr out \<and> (out = [] \<longleftrightarrow> run_passes r)"
  by (cases "cr_conclusion r")
    (auto simp: run_failing_def run_doc_def lookup_or_def in_set_def check_ok_def py_mem_def run_passes_def)

lemma not_passing_docs:
  assumes "distinct (map cr_id runs)"
  shows "\<exists>out. not_passing (map status_doc statuses) (rev (map (\<lambda>r. (JStr (cr_name r), run_doc r)) (sort_key cr_id runs))) (JStr c)
      = Inr out \<and> (out = [] \<longleftrightarrow> context_passes statuses runs c)"
proof -
  have all: "emap (status_failing (JStr c)) (map status_doc statuses) = Inr (map (\<lambda>s.
      if st_context s = c \<and> st_state s \<noteq> ''success'' then [(JStr c, JStr (st_state s))] else []) statuses)"
    by (induction statuses) (simp_all add: status_failing_doc)
  show ?thesis
  proof (cases "find (\<lambda>r. cr_name r = c) (rev (sort_key cr_id runs))")
    case None
    then have "\<And>r. cr_name r = c \<Longrightarrow> \<not> latest_run runs r" using find_latest [OF assms] by (metis option.distinct(1))
    with None show ?thesis by (auto simp: not_passing_def all latest_of_docs context_passes_def)
  next
    case (Some r)
    obtain out where out: "run_failing (JStr c) (run_doc r) = Inr out" "out = [] \<longleftrightarrow> run_passes r"
      using run_failing_doc by blast
    have "(\<forall>r. latest_run runs r \<and> cr_name r = c \<longrightarrow> run_passes r) \<longleftrightarrow> run_passes r"
      using Some find_latest [OF assms, of c] by (metis option.inject)
    with Some out show ?thesis by (auto simp: not_passing_def all latest_of_docs context_passes_def)
  qed
qed

lemma not_passing_all:
  assumes "distinct (map cr_id runs)"
  shows "\<exists>outs. emap (not_passing (map status_doc statuses) (rev (map (\<lambda>r. (JStr (cr_name r), run_doc r)) (sort_key cr_id runs))))
      (map JStr cs) = Inr outs \<and> (concat outs = [] \<longleftrightarrow> (\<forall>c \<in> set cs. context_passes statuses runs c))"
proof (induction cs)
  case (Cons c cs)
  with not_passing_docs [OF assms, of statuses c] show ?case by auto
qed simp

text \<open>C28. The contexts hold a merge back exactly when they should: nothing is found failing if and only if every
  required context is reported by a status or a check-run, and every status of, and the latest check-run
  of, every context that is required or is not the one excused, passes.\<close>

theorem contexts_judged:
  assumes "distinct (map cr_id runs)"
  shows "judge_contexts (map status_doc statuses) (map run_doc runs) (map JStr required) = Inr ([], []) \<longleftrightarrow>
    (\<forall>c \<in> set required. c \<in> st_context ` set statuses \<union> cr_name ` set runs) \<and>
    (\<forall>c. c \<in> set required \<or> c \<noteq> ''add-to-project'' \<longrightarrow> context_passes statuses runs c)"
proof -
  let ?latest = "rev (map (\<lambda>r. (JStr (cr_name r), run_doc r)) (sort_key cr_id runs))"
  define named where "named = map st_context statuses @ map cr_name (rev (sort_key cr_id runs))"
  have contexts: "emap (\<lambda>s. py_index s ''context'') (map status_doc statuses) = Inr (map (\<lambda>s. JStr (st_context s)) statuses)"
    by (induction statuses) (simp_all add: status_doc_def lookup_or_def)
  have reported: "map (\<lambda>s. JStr (st_context s)) statuses @ map fst ?latest = map JStr named"
    by (simp add: named_def rev_map comp_def)
  obtain others where others: "py_sorted (py_diff (map JStr named) (map JStr (required @ [''add-to-project'']))) = Inr (map JStr others)"
    "set others = set named - set (required @ [''add-to-project''])"
    by (rule sorted_diff_texts)
  have required: "filter (\<lambda>c. py_mem c (map JStr named)) (map JStr required) = map JStr (filter (\<lambda>c. c \<in> set named) required)"
    "filter (\<lambda>c. \<not> py_mem c (map JStr named)) (map JStr required) = map JStr (filter (\<lambda>c. c \<notin> set named) required)"
    by (induction required) auto
  obtain fails where fails: "emap (not_passing (map status_doc statuses) ?latest) (map JStr (filter (\<lambda>c. c \<in> set named) required)) = Inr fails"
    "concat fails = [] \<longleftrightarrow> (\<forall>c \<in> set (filter (\<lambda>c. c \<in> set named) required). context_passes statuses runs c)"
    using not_passing_all [OF assms] by blast
  obtain excess where excess: "emap (not_passing (map status_doc statuses) ?latest) (map JStr others) = Inr excess"
    "concat excess = [] \<longleftrightarrow> (\<forall>c \<in> set others. context_passes statuses runs c)"
    using not_passing_all [OF assms] by blast
  have unnamed: "context_passes statuses runs c" if "c \<notin> set named" for c
    using that by (auto simp: context_passes_def named_def latest_run_def)
  have "judge_contexts (map status_doc statuses) (map run_doc runs) (map JStr required) =
      Inr (map (\<lambda>c. (c, JStr ''missing'')) (map JStr (filter (\<lambda>c. c \<notin> set named) required)) @ concat fails, concat excess)"
    using others(1) fails(1) excess(1)
    by (simp add: judge_contexts_def latest_runs_docs contexts py_set_def list_all_iff reported required allowed_unstable_def
        del: map_map)
  then have "judge_contexts (map status_doc statuses) (map run_doc runs) (map JStr required) = Inr ([], []) \<longleftrightarrow>
      (\<forall>c \<in> set required. c \<in> set named) \<and> (\<forall>c \<in> set required. c \<in> set named \<longrightarrow> context_passes statuses runs c) \<and>
      (\<forall>c \<in> set named - set (required @ [''add-to-project'']). context_passes statuses runs c)"
    using fails(2) excess(2) others(2) by (auto simp: filter_empty_conv)
  also have "\<dots> \<longleftrightarrow> (\<forall>c \<in> set required. c \<in> set named) \<and>
      (\<forall>c. c \<in> set required \<or> c \<noteq> ''add-to-project'' \<longrightarrow> context_passes statuses runs c)"
    using unnamed by auto
  finally show ?thesis by (simp add: named_def)
qed

end
