(* ===== verification/DeploySamples.thy ===== *)
theory DeploySamples
  imports DeployCommandFacts DeployContexts
begin

text \<open>The properties of the deploy gate at a concrete pull request that moves one app.\<close>

section \<open>A pull request\<close>

definition sample_class :: shape_declaration where
  "sample_class =
     \<lparr>decl_name = ''deploy'', decl_check = ''shape'', decl_env = ''staging'', values_file = ''v'', overlay_files = [''o''],
      version_path = [''apps'', ''{app}''], tag_pattern = sha_tag\<rparr>"

definition old_tag :: string where
  "old_tag = ''sha-0000000''"

definition new_tag :: string where
  "new_tag = ''sha-1111111''"

definition pinned :: "string \<Rightarrow> json" where
  "pinned tag = JObj [(''apps'', JObj [(''api'', JStr tag), (''web'', JStr ''1'')])]"

definition overlay_of :: "string \<Rightarrow> json list" where
  "overlay_of tag = [JObj [(''name'', JStr ''api''), (''image'', JStr (''r/api:'' @ tag))]]"

text \<open>The text of a file is the tag it pins.\<close>

definition sample_yaml :: yaml_loader where
  "sample_yaml = \<lparr>yaml_one = (\<lambda>t. Inr (pinned t)), yaml_all = (\<lambda>t. Inr (overlay_of t))\<rparr>"

definition sample_changes :: json where
  "sample_changes = JArr (map (\<lambda>f. JObj [(''filename'', JStr f), (''status'', JStr ''modified'')]) [''v'', ''o''])"

definition sample_verdict :: "exn + shape" where
  "sample_verdict = classify_diff (yaml_one sample_yaml) (yaml_all sample_yaml) sample_changes
     [(''o'', old_tag), (''v'', old_tag)] [(''o'', new_tag), (''v'', new_tag)] [''api''] sample_class"

lemma sample_mechanical: "(case sample_verdict of Inr s \<Rightarrow> sh_verdict s = MECHANICAL \<and> sh_app s = Some ''api'' | _ \<Rightarrow> False)"
  by code_simp

lemma mechanical_diff_witness:
  "\<exists>s vb va. sample_verdict = Inr s \<and> yaml_one sample_yaml old_tag = Inr vb \<and> yaml_one sample_yaml new_tag = Inr va
    \<and> (\<forall>k. k \<noteq> ''api'' \<longrightarrow> agree (value_at (Some vb) [Key ''apps'', Key k]) (value_at (Some va) [Key ''apps'', Key k]))"
proof -
  from sample_mechanical obtain s where s: "sample_verdict = Inr s" "sh_verdict s = MECHANICAL" "sh_app s = Some ''api''"
    by (auto split: sum.splits)
  have path: "expected_path sample_class ''api'' = [Key ''apps'', Key ''api'']" by code_simp
  from mechanical_diff [OF s(1) [unfolded sample_verdict_def] s(2)] s(3) obtain vb va where
    "yaml_one sample_yaml old_tag = Inr vb" "yaml_one sample_yaml new_tag = Inr va"
    "\<forall>q. q \<noteq> expected_path sample_class ''api'' \<longrightarrow> agree (value_at (Some vb) q) (value_at (Some va) q)"
    by (auto simp: sample_class_def)
  with s(1) path show ?thesis by auto
qed

section \<open>The forge\<close>

definition sha :: "char \<Rightarrow> string" where
  "sha c = replicate 40 c"

definition pull_doc :: json where
  "pull_doc = JObj [(''head'', JObj [(''sha'', JStr (sha (CHR ''a'')))]),
     (''base'', JObj [(''ref'', JStr ''main''), (''repo'', JObj [(''default_branch'', JStr ''main'')])]),
     (''draft'', JBool False), (''mergeable_state'', JStr ''clean'')]"

definition sample_docs :: "(string \<times> json) list" where
  "sample_docs =
     [(pull_path ''o/r'' (JInt 7), pull_doc),
      (files_path ''o/r'' (JInt 7), sample_changes),
      (compare_path ''o/r'' ''main'' (sha (CHR ''a'')), JObj [(''merge_base_commit'', JObj [(''sha'', JStr (sha (CHR ''b'')))])]),
      (commit_path ''o/r'' ''1111111'', JObj [(''sha'', JStr (sha (CHR ''1'')))]),
      (commit_path ''o/r'' ''0000000'', JObj [(''sha'', JStr (sha (CHR ''0'')))]),
      (''repos/o/r'', JObj [(''default_branch'', JStr ''main'')]),
      (open_path ''o/r'' (JStr ''main'') 1, JArr [JObj [(''number'', JInt 7)]]),
      (compare_path ''o/r'' ''main'' (sha (CHR ''1'')), JObj [(''status'', JStr ''behind'')]),
      (compare_path ''o/r'' (sha (CHR ''0'')) (sha (CHR ''1'')), JObj [(''status'', JStr ''ahead'')]),
      (status_path ''o/r'' (sha (CHR ''a'')), JObj [(''statuses'', JArr [status_doc \<lparr>st_context = ''ci'', st_state = ''success''\<rparr>])]),
      (runs_path ''o/r'' (sha (CHR ''a'')), JObj [(''check_runs'', JArr [])]),
      (verdict_runs_path ''o/r'' ''main'', JObj [(''workflow_runs'', JArr [JObj [(''id'', JInt 1)]])]),
      (jobs_path ''o/r'' (JInt 1), JObj [(''jobs'', JArr [JObj [(''name'', JStr ''verify (argocd/kubelab-staging)''),
         (''conclusion'', JStr ''success'')]])])]"

definition sample_api :: "unit api" where
  "sample_api q w =
     ((case q of
         ApiJson p \<Rightarrow> (case map_of sample_docs p of None \<Rightarrow> Inl (RuntimeError ''gh api'') | Some d \<Rightarrow> Inr d)
       | ApiRaw p \<Rightarrow> Inr (JStr (if ends_with (''ref='' @ sha (CHR ''a'')) p then new_tag else old_tag))), w)"

text \<open>The forge keeps no state, so what an action returns does not depend on when it runs.\<close>

definition returns :: "(api_call, unit, 'a) act \<Rightarrow> 'a \<Rightarrow> bool" where
  "returns m x \<longleftrightarrow> (\<forall>n. fst (m n) = Val x)"

lemma returnsD: "returns m x \<Longrightarrow> m n = (Val x, snd (m n))"
  by (simp add: returns_def prod_eq_iff)

lemma returns_ret: "returns (ret x) x"
  by (simp add: returns_def ret_def)

lemma returns_abind: "returns m x \<Longrightarrow> returns (f x) y \<Longrightarrow> returns (abind m f) y"
proof (unfold returns_def, rule allI)
  fix n
  assume "\<forall>n. fst (m n) = Val x" "\<forall>n. fst (f x n) = Val y"
  then show "fst (abind m f n) = Val y" by (cases "m n") (metis abind_simps(1) fst_conv)
qed

lemma returns_attempt: "returns m x \<Longrightarrow> returns (attempt m h) x"
proof (unfold returns_def, rule allI)
  fix n
  assume "\<forall>n. fst (m n) = Val x"
  then have "fst (m n) = Val x" ..
  then show "fst (attempt m h n) = Val x" by (cases "m n") (simp add: attempt_def)
qed

lemma returns_lift: "r = Inr x \<Longrightarrow> returns (lift r) x"
  by (simp add: returns_def lift_def ret_def)

lemma returns_json: "map_of sample_docs p = Some d \<Longrightarrow> returns (ask sample_api (ApiJson p)) d"
  by (simp add: returns_def ask_def call_def sample_api_def abind_def lift_def ret_def)

lemma returns_raw:
  "returns (ask sample_api (ApiRaw p)) (JStr (if ends_with (''ref='' @ sha (CHR ''a'')) p then new_tag else old_tag))"
  by (simp add: returns_def ask_def call_def sample_api_def abind_def lift_def ret_def)

lemma py_index_first: "py_index (JObj ((k, v) # kvs)) k = Inr v"
  by simp

lemma returns_field: "map_of sample_docs p = Some d \<Longrightarrow> py_index d k = Inr v \<Longrightarrow> returns (get_field sample_api p k) v"
  unfolding get_field_def by (rule returns_abind, erule returns_json) (erule returns_lift)

lemma sample_replies:
  "map_of sample_docs (pull_path ''o/r'' (JInt 7)) = Some pull_doc"
  "map_of sample_docs (files_path ''o/r'' (JInt 7)) = Some sample_changes"
  "map_of sample_docs (compare_path ''o/r'' ''main'' (sha (CHR ''a''))) =
     Some (JObj [(''merge_base_commit'', JObj [(''sha'', JStr (sha (CHR ''b'')))])])"
  by code_simp+

lemma sample_head:
  "head_of pull_doc = Inr (JStr (sha (CHR ''a'')))" "base_of pull_doc = Inr (JStr ''main'')"
  "default_of pull_doc = Inr (JStr ''main'')" "py_get pull_doc ''draft'' = Inr (JBool False)"
  "py_get pull_doc ''mergeable_state'' = Inr (JStr ''clean'')"
  by code_simp+

lemma returns_read_head:
  "returns (read_head sample_api ''o/r'' (JInt 7)) (JStr (sha (CHR ''a'')), JStr ''main'', JStr ''main'')"
  unfolding read_head_def
  by (rule returns_abind, rule returns_json, rule sample_replies)
    ((rule returns_abind, rule returns_lift, rule sample_head)+, rule returns_ret)

lemma returns_raws:
  "returns (amap (\<lambda>f. ask sample_api (ApiRaw (p f))) fs)
     (map (\<lambda>f. JStr (if ends_with (''ref='' @ sha (CHR ''a'')) (p f) then new_tag else old_tag)) fs)"
  by (induction fs) (auto intro!: returns_ret returns_abind [OF returns_raw] elim: returns_abind)

lemma sample_commits:
  "map_of sample_docs (commit_path ''o/r'' ''1111111'') = Some (JObj [(''sha'', JStr (sha (CHR ''1'')))])"
  "map_of sample_docs (commit_path ''o/r'' ''0000000'') = Some (JObj [(''sha'', JStr (sha (CHR ''0'')))])"
  "map_of sample_docs (''repos/'' @ ''o/r'') = Some (JObj [(''default_branch'', JStr ''main'')])"
  "map_of sample_docs (compare_path ''o/r'' (py_str (JStr ''main'')) (sha (CHR ''1''))) = Some (JObj [(''status'', JStr ''behind'')])"
  "map_of sample_docs (compare_path ''o/r'' (sha (CHR ''0'')) (sha (CHR ''1''))) = Some (JObj [(''status'', JStr ''ahead'')])"
  by code_simp+

lemma returns_commit:
  "fullmatch sha_tag tag \<Longrightarrow> snd (str_partition (CHR ''-'') tag) = short \<Longrightarrow>
   map_of sample_docs (commit_path ''o/r'' short) = Some d \<Longrightarrow> py_index d ''sha'' = Inr (JStr s) \<Longrightarrow>
   s \<noteq> [] \<Longrightarrow> fullmatch full_sha s \<Longrightarrow> starts_with short s \<Longrightarrow> returns (commit_of sample_api ''o/r'' tag) (Inr s)"
  unfolding commit_of_def Let_def
  by (simp, rule returns_abind, erule returns_field, assumption) (simp add: py_or_def returns_ret)

lemma returns_commits:
  "returns (commit_of sample_api ''o/r'' new_tag) (Inr (sha (CHR ''1'')))"
  "returns (commit_of sample_api ''o/r'' old_tag) (Inr (sha (CHR ''0'')))"
  by (rule returns_commit [OF _ _ sample_commits(1)]; code_simp)
    (rule returns_commit [OF _ _ sample_commits(2)]; code_simp)

lemma sample_orders:
  "py_mem (JStr ''behind'') [JStr ''identical'', JStr ''behind'']" "py_eq (JStr ''ahead'') (JStr ''ahead'')"
  "py_eq (JStr ''main'') (JStr ''main'')"
  by code_simp+

lemma returns_provenance: "returns (provenance sample_api ''o/r'' old_tag new_tag) None"
  unfolding provenance_def
  apply (rule returns_abind, rule returns_commits, simp only: sum.case)
  apply (rule returns_abind, rule returns_field, rule sample_commits, rule py_index_first)
  apply (rule returns_abind, rule returns_field, rule sample_commits, rule py_index_first)
  apply (simp only: sample_orders not_True_eq_False if_False if_True)
  apply (rule returns_abind, rule returns_commits, simp only: sum.case)
  apply (rule returns_abind, rule returns_field, rule sample_commits, rule py_index_first)
  apply (simp only: sample_orders if_True)
  apply (rule returns_ret)
  done

lemma sample_classified:
  "classify_diff (yaml_one sample_yaml) (yaml_all sample_yaml) sample_changes
     [(''o'', old_tag), (''v'', old_tag)] [(''o'', new_tag), (''v'', new_tag)] [''api''] sample_class =
   Inr \<lparr>sh_verdict = MECHANICAL, sh_reason = ''overlay image only'', sh_app = Some ''api'', sh_old = Some old_tag,
     sh_new = Some new_tag, sh_head_sha = None\<rparr>"
  by code_simp

lemma sample_texts:
  "rev (zip (decl_files sample_class) (map py_str (map (\<lambda>f. JStr (if ends_with (''ref='' @ sha (CHR ''a''))
       (contents_path ''o/r'' f (py_str (JStr (sha (CHR ''b''))))) then new_tag else old_tag)) (decl_files sample_class)))) =
     [(''o'', old_tag), (''v'', old_tag)]"
  "rev (zip (decl_files sample_class) (map py_str (map (\<lambda>f. JStr (if ends_with (''ref='' @ sha (CHR ''a''))
       (contents_path ''o/r'' f (py_str (JStr (sha (CHR ''a''))))) then new_tag else old_tag)) (decl_files sample_class)))) =
     [(''o'', new_tag), (''v'', new_tag)]"
  by code_simp+

lemma returns_texts:
  "returns (texts_at sample_api ''o/r'' (decl_files sample_class) (JStr (sha (CHR ''b'')))) [(''o'', old_tag), (''v'', old_tag)]"
  "returns (texts_at sample_api ''o/r'' (decl_files sample_class) (JStr (sha (CHR ''a'')))) [(''o'', new_tag), (''v'', new_tag)]"
  unfolding texts_at_def sample_texts [symmetric] by (rule returns_abind, rule returns_raws, rule returns_ret)+

definition sample_products :: products where
  "sample_products = [(''api'', \<lparr>pr_forge = ''in-tree'', pr_repository = None\<rparr>)]"

definition sample_shape :: shape where
  "sample_shape =
     \<lparr>sh_verdict = MECHANICAL, sh_reason = ''overlay image only'', sh_app = Some ''api'', sh_old = Some old_tag,
      sh_new = Some new_tag, sh_head_sha = None\<rparr>"

lemma sample_product: "index sample_products ''api'' = Inr \<lparr>pr_forge = ''in-tree'', pr_repository = None\<rparr>"
  by (simp add: sample_products_def)

lemma returns_judged:
  "returns (judge_files sample_api sample_yaml ''o/r'' sample_class sample_products sample_changes (JStr (sha (CHR ''a'')))
      (JStr ''main'')) (Inr sample_shape)"
  unfolding judge_files_def
  apply (rule returns_abind, rule returns_json, simp only: py_str.simps, rule sample_replies)
  apply (rule returns_abind, rule returns_lift [where x = "JStr (sha (CHR ''b''))"], simp)
  apply (rule returns_abind, rule returns_texts)
  apply (rule returns_abind, rule returns_texts)
  apply (rule returns_abind, rule returns_lift, simp only: sample_products_def list.map fst_conv, rule sample_classified)
  apply (simp only: shape.simps not_True_eq_False if_False Let_def option.case simp_thms)
  apply (rule returns_abind, rule returns_lift, rule sample_product)
  apply (simp only: source_repository_def product.simps if_True simp_thms option.case)
  apply (rule returns_abind, rule returns_provenance)
  apply (simp add: returns_ret sample_shape_def)
  done

lemma sample_exact: "exact_files sample_changes sample_class = Inr True"
  by code_simp

lemma sample_same: "py_eq (JStr (sha (CHR ''a''))) (JStr (sha (CHR ''a'')))"
  by code_simp

lemma returns_evaluated:
  "returns (evaluate sample_api sample_yaml (JInt 7) ''o/r'' sample_class sample_products)
     (sample_shape\<lparr>sh_head_sha := Some (JStr (sha (CHR ''a'')))\<rparr>)"
  unfolding evaluate_def
  apply (rule returns_attempt)
  apply (rule returns_abind, rule returns_read_head, simp only: prod.case sample_orders not_True_eq_False if_False)
  apply (rule returns_abind, rule returns_json, rule sample_replies)
  apply (rule returns_abind, rule returns_lift, rule sample_exact, simp only: not_True_eq_False if_False)
  apply (rule returns_abind, rule returns_judged, simp only: sum.case)
  apply (rule returns_abind, rule returns_read_head, simp only: prod.case sample_same not_True_eq_False if_False)
  apply (rule returns_ret)
  done

lemma sample_contexts:
  "map_of sample_docs (status_path ''o/r'' (sha (CHR ''a''))) =
     Some (JObj [(''statuses'', JArr [status_doc \<lparr>st_context = ''ci'', st_state = ''success''\<rparr>])])"
  "map_of sample_docs (runs_path ''o/r'' (sha (CHR ''a''))) = Some (JObj [(''check_runs'', JArr [])])"
  "judge_contexts [status_doc \<lparr>st_context = ''ci'', st_state = ''success''\<rparr>] [] (map JStr [''ci'']) = Inr ([], [])"
  "in_set (JStr ''clean'') merge_states_ok = Inr True"
  by code_simp+

lemma returns_ready:
  "returns (not_ready sample_api (JInt 7) ''o/r'' (JStr (sha (CHR ''a''))) [''ci'']) None"
  unfolding not_ready_def failing_contexts_def py_str.simps
  apply (rule returns_abind, rule returns_abind, rule returns_field, rule sample_contexts, rule py_index_first)
  apply (rule returns_abind, rule returns_field, rule sample_contexts, rule py_index_first)
  apply (rule returns_abind, rule returns_lift, rule py_iter.simps)
  apply (rule returns_abind, rule returns_lift, rule py_iter.simps)
  apply (rule returns_lift, rule sample_contexts, simp only: prod.case simp_thms if_False)
  apply (rule returns_abind, rule returns_json, rule sample_replies)
  apply (rule returns_abind, rule returns_lift, rule sample_head, simp only: sample_same not_True_eq_False if_False)
  apply (rule returns_abind, rule returns_lift, rule sample_head)
  apply (rule returns_abind, rule returns_lift, rule sample_contexts, simp only: if_True)
  apply (rule returns_ret)
  done

definition sample_judge :: "decision outcome \<times> (api_call, unit) net" where
  "sample_judge = judge_pull sample_api sample_yaml (JInt 7) ''o/r'' sample_class
     [(''api'', \<lparr>pr_forge = ''in-tree'', pr_repository = None\<rparr>)] [''ci''] None \<lparr>sent = [], world = (), budget = 1\<rparr>"

definition sample_merge :: decision where
  "sample_merge =
     merge_decision (JInt 7) (JStr (sha (CHR ''a''))) (sample_shape\<lparr>sh_head_sha := Some (JStr (sha (CHR ''a'')))\<rparr>)"

lemma sample_files_changed: "\<not> py_eq sample_changes (JArr [])"
  by code_simp

lemma returns_judge:
  "returns (judge_pull sample_api sample_yaml (JInt 7) ''o/r'' sample_class sample_products [''ci''] None) sample_merge"
  unfolding judge_pull_def
  apply (simp only: simp_thms if_False not_False_eq_True)
  apply (rule returns_attempt)
  apply (rule returns_abind, rule returns_json, rule sample_replies)
  apply (rule returns_abind, rule returns_lift, rule sample_head)+
  apply (simp only: simp_thms if_False)
  apply (rule returns_abind, rule returns_lift, rule sample_head)+
  apply (simp only: sample_orders not_True_eq_False if_False)
  apply (rule returns_abind, rule returns_json, rule sample_replies, simp only: sample_files_changed if_False)
  apply (rule returns_abind, rule returns_evaluated)
  apply (simp only: sample_shape_def shape.simps option.case sample_same simp_thms if_False)
  apply (rule returns_abind, rule returns_ready, simp only: option.case)
  apply (simp only: sample_merge_def sample_shape_def shape.simps, rule returns_ret)
  done

lemma sample_judge_merges: "\<exists>d. fst sample_judge = Val d \<and> dc_action d = MERGE"
  using returns_judge by (auto simp: returns_def sample_judge_def sample_products_def sample_merge_def)

lemma judge_merges_on_evidence_witness:
  "\<exists>d tr. fst sample_judge = Val d \<and> merge_grounds tr sample_yaml (JInt 7) ''o/r'' sample_class
     [(''api'', \<lparr>pr_forge = ''in-tree'', pr_repository = None\<rparr>)] [''ci''] d"
proof -
  from sample_judge_merges obtain d where d: "fst sample_judge = Val d" "dc_action d = MERGE" by blast
  then have "sample_judge = (Val d, snd sample_judge)" by (metis prod.collapse)
  from judge_merges_on_evidence [OF this [unfolded sample_judge_def] d(2)] d(1) show ?thesis by blast
qed

definition sample_pause :: "string option outcome \<times> (api_call, unit) net" where
  "sample_pause = pause_reason sample_api ''o/r'' ''main'' ''staging'' \<lparr>sent = [], world = (), budget = 1\<rparr>"

lemma sample_unpaused: "fst sample_pause = Val None"
  by code_simp

lemma unpaused_only_by_green_witness:
  "\<exists>A rs. latest_verdict_green A ''o/r'' ''(argocd/kubelab-staging)'' rs"
proof -
  have "sample_pause = (Val None, snd sample_pause)" using sample_unpaused by (metis prod.collapse)
  from unpaused_only_by_green [OF this [unfolded sample_pause_def]]
  have "\<exists>A rs. latest_verdict_green A ''o/r'' (verdict_suffix ''staging'') rs" by blast
  then show ?thesis by (simp add: verdict_suffix_def context_prefix_def)
qed

section \<open>The commands\<close>

definition sample_registry :: json where
  "sample_registry = JObj [(''mechanical'', JObj [(''name'', JStr ''deploy''), (''check'', JStr ''shape''), (''env'', JStr ''staging''),
     (''values_file'', JStr ''v''), (''tag_pattern'', JStr ''sha''), (''overlay_files'', texts [''o'']),
     (''version_path'', texts [''apps'', ''{app}'']), (''merge'', JBool True)])]"

definition sample_compile :: "string \<Rightarrow> rx option" where
  "sample_compile text = Some sha_tag"

lemma sample_loads: "load_mechanical sample_compile (Inr sample_registry) = Inr sample_class"
  by (simp add: load_mechanical_def sample_registry_def sample_compile_def sample_class_def texts_def app_slot_def)

lemma deploy_shape_exit_zero_witness:
  "\<exists>A s. sh_verdict s = MECHANICAL \<and> mechanical_evidence A sample_yaml (JInt 7) ''o/r'' sample_class sample_products s"
proof -
  let ?cmd = "deploy_shape_cmd sample_api sample_yaml sample_compile (Inr sample_registry) (Inr sample_products) None (JInt 7) ''o/r''"
  let ?s = "sample_shape\<lparr>sh_head_sha := Some (JStr (sha (CHR ''a'')))\<rparr>"
  let ?n = "\<lparr>sent = [], world = (), budget = 0\<rparr>"
  have "returns ?cmd (0, Some ?s)"
    unfolding deploy_shape_cmd_def sample_loads ebind_simps sum.case prod.case Let_def option.case
    by (rule returns_abind, rule returns_evaluated)
      (simp add: shape_exit_def sample_shape_def returns_ret)
  then have "?cmd ?n = (Val (0, Some ?s), snd (?cmd ?n))"
    by (rule returnsD)
  from deploy_shape_exit_zero [OF this] obtain decl ps s where "load_mechanical sample_compile (Inr sample_registry) = Inr decl"
    "(Inr sample_products :: exn + products) = Inr ps" "sh_verdict s = MECHANICAL"
    "mechanical_evidence (set (told sample_api ?cmd ?n)) sample_yaml (JInt 7) ''o/r'' decl ps s" by blast
  then show ?thesis by (auto simp: sample_loads)
qed

definition sample_common :: json where
  "sample_common = JObj [(''ci'', JObj [(''branch_protection'', JObj [(''o/r'', JObj [(''main'',
     JObj [(''required_contexts'', texts [''ci'']), (''strict'', JBool True)])])])])]"

definition sample_inputs :: merge_inputs where
  "sample_inputs = \<lparr>mi_decl = sample_class, mi_products = sample_products, mi_branch = JStr ''main'', mi_required = [''ci''],
     mi_open = [JObj [(''number'', JInt 7)]]\<rparr>"

lemma sample_required: "required_contexts (Inr sample_common) ''o/r'' (JStr ''main'') = Inr [''ci'']"
  by code_simp

lemma sample_open:
  "map_of sample_docs (open_path ''o/r'' (JStr ''main'') 1) = Some (JArr [JObj [(''number'', JInt 7)]])"
  "map_of sample_docs (verdict_runs_path ''o/r'' ''main'') = Some (JObj [(''workflow_runs'', JArr [JObj [(''id'', JInt 1)]])])"
  "map_of sample_docs (jobs_path ''o/r'' (JInt 1)) = Some (JObj [(''jobs'', JArr [JObj
     [(''name'', JStr ''verify (argocd/kubelab-staging)''), (''conclusion'', JStr ''success'')]])])"
  "run_verdict (verdict_suffix ''staging'') (JObj [(''id'', JInt 1)]) (JArr [JObj
     [(''name'', JStr ''verify (argocd/kubelab-staging)''), (''conclusion'', JStr ''success'')]]) = Inr (Some None)"
  by code_simp+

lemma returns_open: "returns (open_pulls sample_api ''o/r'' (JStr ''main'') [1..<51] []) [JObj [(''number'', JInt 7)]]"
proof -
  have "[1..<51] = (1 :: nat) # [2..<51]" by (simp add: upt_conv_Cons)
  then show ?thesis
    by (simp only: open_pulls.simps) (rule returns_abind, rule returns_json, rule sample_open,
      rule returns_abind, rule returns_lift, rule py_iter.simps, simp add: returns_ret)
qed

lemma returns_inputs:
  "returns (merge_inputs_read sample_api sample_compile (Inr sample_registry) (Inr sample_products) (Inr sample_common) ''o/r'')
     sample_inputs"
  unfolding merge_inputs_read_def sample_inputs_def
  by (rule returns_abind, rule returns_lift, rule sample_loads)
    (rule returns_abind, rule returns_lift, rule refl,
     rule returns_abind, rule returns_field, rule sample_commits, rule py_index_first,
     rule returns_abind, rule returns_lift, rule sample_required,
     rule returns_abind, rule returns_open, rule returns_ret)

lemma returns_unpaused: "returns (pause_reason sample_api ''o/r'' ''main'' ''staging'') None"
  unfolding pause_reason_def
  by (rule returns_attempt, rule returns_abind, rule returns_field, rule sample_open, rule py_index_first)
    (rule returns_abind, rule returns_lift, rule py_iter.simps, simp only: look_runs.simps,
     rule returns_abind, rule returns_lift, rule py_index_first,
     rule returns_abind, rule returns_field, rule sample_open, rule py_index_first,
     rule returns_abind, rule returns_lift, rule sample_open, simp only: option.case, rule returns_ret)

lemma deploy_merge_payload_witness:
  "\<exists>A. payload_sound A sample_yaml sample_compile (Inr sample_registry) (Inr sample_products) (Inr sample_common) ''o/r''
     \<lparr>mp_enabled = True, mp_paused = None, mp_decisions = [sample_merge]\<rparr>"
proof -
  let ?cmd = "deploy_merge_cmd sample_api sample_yaml sample_compile (Inr sample_registry) (Inr sample_products)
    (Inr sample_common) (Inr ()) ''o/r''"
  let ?p = "\<lparr>mp_enabled = True, mp_paused = None, mp_decisions = [sample_merge]\<rparr>"
  let ?n = "\<lparr>sent = [], world = (), budget = 0\<rparr>"
  have "returns (judge_open sample_api sample_yaml ''o/r'' sample_inputs None (JObj [(''number'', JInt 7)])) sample_merge"
    unfolding judge_open_def sample_inputs_def merge_inputs.simps
    by (rule returns_abind, rule returns_lift, rule py_index_first, rule returns_judge)
  then have judged: "returns (amap (judge_open sample_api sample_yaml ''o/r'' sample_inputs None) [JObj [(''number'', JInt 7)]]) [sample_merge]"
    unfolding amap.simps by (rule returns_abind) (rule returns_abind, rule returns_ret, rule returns_ret)
  have enabled: "merge_enabled (Inr sample_registry) = Inr True"
    by (simp add: merge_enabled_def sample_registry_def)
  have env: "py_str (mi_branch sample_inputs) = ''main''" "decl_env (mi_decl sample_inputs) = ''staging''"
    "mi_open sample_inputs = [JObj [(''number'', JInt 7)]]"
    by (simp_all add: sample_inputs_def sample_class_def)
  have "returns ?cmd (0, Some ?p)"
    unfolding deploy_merge_cmd_def
    by (rule returns_abind, rule returns_attempt, rule returns_abind, rule returns_inputs, rule returns_ret, simp only: option.case env)
      (rule returns_abind, rule returns_lift, rule enabled, rule returns_abind, rule returns_unpaused,
       rule returns_abind, rule judged, simp add: wrote_out_def returns_ret)
  then have "?cmd ?n = (Val (0, Some ?p), snd (?cmd ?n))"
    by (rule returnsD)
  from deploy_merge_payload [OF this] show ?thesis by auto
qed

section \<open>Contexts\<close>

lemma contexts_judged_witness:
  "judge_contexts (map status_doc []) (map run_doc [\<lparr>cr_id = 2, cr_name = ''ci'', cr_status = ''completed'', cr_conclusion = Some ''failure''\<rparr>])
     (map JStr [''ci'']) \<noteq> Inr ([], [])"
proof -
  let ?r = "\<lparr>cr_id = 2, cr_name = ''ci'', cr_status = ''completed'', cr_conclusion = Some ''failure''\<rparr>"
  have "distinct (map cr_id [?r])" by simp
  moreover have "\<not> context_passes [] [?r] ''ci''"
    by (auto simp: context_passes_def latest_run_def run_passes_def)
  ultimately show ?thesis using contexts_judged [of "[?r]" "[]" "[''ci'']"] by fastforce
qed

end
