(* ===== verification/BranchProtectionFacts.thy ===== *)
theory BranchProtectionFacts
  imports BranchProtection
begin

text \<open>
  When the reconciliation of a branch returns: what was read and written on the way, and what the last
  reading says.
\<close>

section \<open>Agreement\<close>

text \<open>The contexts a protection document lists, and whether it holds what is declared.\<close>

definition live_contexts :: "json \<Rightarrow> json list \<Rightarrow> bool" where
  "live_contexts doc cs \<longleftrightarrow> (\<exists>c l. py_get doc ''required_status_checks'' = Inr c \<and>
     py_get (py_or c (JObj [])) ''contexts'' = Inr l \<and> py_iter (py_or l (JArr [])) = Inr cs)"

definition live_strict :: "json \<Rightarrow> bool \<Rightarrow> bool" where
  "live_strict doc b \<longleftrightarrow> (\<exists>c s. py_get doc ''required_status_checks'' = Inr c \<and>
     py_get_or (py_or c (JObj [])) ''strict'' (JBool False) = Inr s \<and> truthy s = b)"

definition holds_declared :: "json \<Rightarrow> declared_protection \<Rightarrow> bool" where
  "holds_declared doc d \<longleftrightarrow> live_strict doc (dp_strict d) \<and>
     (\<exists>cs. live_contexts doc cs \<and> mset cs = mset (map JStr (dp_contexts d)))"

lemma py_sorted_mset: "py_sorted xs = Inr ys \<Longrightarrow> mset ys = mset xs"
  by (auto simp: py_sorted_def split: if_splits)

lemma py_eq_texts: "py_eq (JArr xs) (JArr (map JStr ss)) \<longleftrightarrow> xs = map JStr ss"
  by (simp, induction xs arbitrary: ss) (auto simp: py_eq_text Cons_eq_map_conv split: list.splits)

lemma sorted_same_texts:
  assumes "py_sorted xs = Inr ys" and "py_sorted (map JStr ss) = Inr zs"
  shows "py_eq (JArr ys) (JArr zs) \<longleftrightarrow> mset xs = mset (map JStr ss)"
proof
  have zs: "zs = map JStr (sort ss)" using assms(2) py_sorted_texts by simp
  assume "py_eq (JArr ys) (JArr zs)"
  then have "ys = map JStr (sort ss)" unfolding zs by (simp add: py_eq_texts del: py_eq.simps)
  then show "mset xs = mset (map JStr ss)" using py_sorted_mset [OF assms(1)] by simp
next
  assume same: "mset xs = mset (map JStr ss)"
  then obtain ts where ts: "xs = map JStr ts"
    by (metis ex_map_conv imageE list.set_map mset_eq_setD)
  with same have "mset ts = mset ss"
    by (metis (no_types, opaque_lifting) inj_onI json.inject(3) mset_map multiset.inj_map_strong)
  then have "sort ts = sort ss" by (metis properties_for_sort mset_sort sorted_sort)
  with ts assms py_sorted_texts have "ys = map JStr (sort ss)" "zs = map JStr (sort ss)" by simp_all
  then show "py_eq (JArr ys) (JArr zs)" by (simp add: py_eq_texts del: py_eq.simps)
qed

lemma protection_changes_agree: "protection_changes doc d = Inr [] \<Longrightarrow> holds_declared doc d"
  unfolding protection_changes_def Let_def holds_declared_def live_strict_def live_contexts_def
  by (auto split: if_splits simp: sorted_same_texts simp del: py_eq.simps)

section \<open>The body\<close>

lemma distinct_keys_of_body: "distinct (enabled_wrapped @ [''required_pull_request_reviews'', ''restrictions'', ''required_status_checks''])"
  by (simp add: enabled_wrapped_def)

lemma toggles_read:
  assumes "emap (\<lambda>f. ebind (py_get live f) (\<lambda>v. Inr (f, JBool (unwrap v)))) fs = Inr kvs"
  shows "map fst kvs = fs" and "f \<in> set fs \<Longrightarrow> \<exists>v. py_get live f = Inr v \<and> (f, JBool (unwrap v)) \<in> set kvs"
  using assms by (induction fs arbitrary: kvs) auto

text \<open>The body that replaces the protection leaves nothing out and changes nothing but the status checks: its
  keys are exactly the fields the API takes, every switch has the value that was read, the review rules are
  those read without the fields that cannot be written, no restriction is dropped or invented, and the
  status checks are the declared ones.\<close>

theorem put_body_carries_all:
  assumes "put_body live d = Inr body"
  shows "\<exists>kvs reviews restrictions. body = JObj kvs
    \<and> map fst kvs = enabled_wrapped @ [''required_pull_request_reviews'', ''restrictions'', ''required_status_checks'']
    \<and> (\<forall>f \<in> set enabled_wrapped. \<exists>v. py_get live f = Inr v \<and> map_of kvs f = Some (JBool (unwrap v)))
    \<and> py_get live ''required_pull_request_reviews'' = Inr reviews
    \<and> map_of kvs ''required_pull_request_reviews'' = Some (kept_reviews reviews)
    \<and> py_get live ''restrictions'' = Inr restrictions
    \<and> Some (kept_restrictions restrictions) = map_option Inr (map_of kvs ''restrictions'')
    \<and> map_of kvs ''required_status_checks'' =
        Some (JObj [(''strict'', JBool (dp_strict d)), (''contexts'', texts (dp_contexts d))])"
proof -
  from assms obtain toggles reviews restrictions kept where
    toggles: "emap (\<lambda>f. ebind (py_get live f) (\<lambda>v. Inr (f, JBool (unwrap v)))) enabled_wrapped = Inr toggles" and
    rest: "py_get live ''required_pull_request_reviews'' = Inr reviews" "py_get live ''restrictions'' = Inr restrictions"
      "kept_restrictions restrictions = Inr kept" and
    body: "body = JObj (toggles @ [(''required_pull_request_reviews'', kept_reviews reviews), (''restrictions'', kept),
      (''required_status_checks'', JObj [(''strict'', JBool (dp_strict d)), (''contexts'', texts (dp_contexts d))])])"
      (is "_ = JObj ?kvs")
    by (auto simp: put_body_def)
  have keys: "map fst ?kvs = enabled_wrapped @ [''required_pull_request_reviews'', ''restrictions'', ''required_status_checks'']"
    using toggles_read(1) [OF toggles] by simp
  then have look: "(f, v) \<in> set ?kvs \<Longrightarrow> map_of ?kvs f = Some v" for f v
    using distinct_keys_of_body by (metis map_of_is_SomeI)
  have "map_of ?kvs f = Some (JBool (unwrap v))" if "(f, JBool (unwrap v)) \<in> set toggles" for f v
    by (rule look) (use that in simp)
  then have "\<forall>f \<in> set enabled_wrapped. \<exists>v. py_get live f = Inr v \<and> map_of ?kvs f = Some (JBool (unwrap v))"
    using toggles_read(2) [OF toggles] by blast
  moreover have "map_of ?kvs ''required_pull_request_reviews'' = Some (kept_reviews reviews)"
    "map_of ?kvs ''restrictions'' = Some kept"
    "map_of ?kvs ''required_status_checks'' =
        Some (JObj [(''strict'', JBool (dp_strict d)), (''contexts'', texts (dp_contexts d))])"
    by (rule look, simp)+
  ultimately show ?thesis
    unfolding body using keys rest by (intro exI conjI) (rule refl | assumption | simp only: option.map)+
qed

section \<open>A run\<close>

type_synonym gh_transcript = "(gh_call \<times> gh_reply) list"

definition printed :: "(string \<Rightarrow> exn + json) \<Rightarrow> string \<Rightarrow> string \<Rightarrow> json \<Rightarrow> gh_transcript \<Rightarrow> bool" where
  "printed loads repo branch doc tr \<longleftrightarrow> (\<exists>text. tr = [(get_call repo branch, GhPrinted text)] \<and> loads text = Inr doc)"

lemma says_gh_run: "says srv (gh_run srv args payload) (\<lambda>out tr. tr = [((args, payload), GhPrinted out)])"
  unfolding gh_run_def
  by (rule says_abind [OF says_call [where R = "\<lambda>r tr. tr = [((args, payload), r)]"]])
    (auto intro!: says_ret says_throw split: gh_reply.split)

lemma says_get_protection:
  "says srv (get_protection srv loads repo branch) (\<lambda>doc tr. \<forall>d. doc = Some d \<longrightarrow> printed loads repo branch d tr)"
proof -
  let ?read = "\<lambda>raw tr. \<forall>text. raw = Some text \<longrightarrow> tr = [(get_call repo branch, GhPrinted text)]"
  have "says srv (attempt (abind (gh_run srv (fst (get_call repo branch)) None) (\<lambda>raw. ret (Some raw)))
      (\<lambda>e. if unprotected e then ret None else throw e)) ?read"
    by (rule says_attempt [OF says_abind [OF says_gh_run]])
      (auto intro!: says_ret says_throw says_if simp: get_call_def)
  then show ?thesis
    unfolding get_protection_def
    by (rule says_abind) (auto intro!: says_ret says_lift_then simp: printed_def split: option.split)
qed

lemma says_put_protection:
  "says srv (put_protection srv repo branch body) (\<lambda>_ tr. \<exists>out. tr = [(put_call repo branch body, GhPrinted out)])"
  unfolding put_protection_def by (rule says_abind [OF says_gh_run]) (auto intro!: says_ret simp: put_call_def)

text \<open>What a returned list of changes says.\<close>

definition reconciled ::
  "(string \<Rightarrow> exn + json) \<Rightarrow> string \<Rightarrow> string \<Rightarrow> declared_protection \<Rightarrow> protection_change list \<Rightarrow> gh_transcript \<Rightarrow> bool" where
  "reconciled loads repo branch d changes tr \<longleftrightarrow>
     (\<exists>live first. printed loads repo branch live first \<and> protection_changes live d = Inr changes \<and>
       (if changes = [] then tr = first \<and> holds_declared live d
        else \<exists>body out after last. put_body live d = Inr body \<and> printed loads repo branch after last \<and>
          tr = first @ (put_call repo branch body, GhPrinted out) # last \<and>
          holds_declared after d \<and> (\<exists>b. admins_enforced live = Inr b \<and> admins_enforced after = Inr b)))"

lemma says_ensure_protection:
  "says srv (ensure_protection srv loads repo branch d) (reconciled loads repo branch d)"
  unfolding ensure_protection_def
proof (rule says_abind [OF says_get_protection], goal_cases)
  case (1 live first)
  show ?case
  proof (cases live)
    case (Some doc)
    with 1 have first: "printed loads repo branch doc first" by simp
    show ?thesis unfolding Some option.case
    proof (intro says_lift_then says_if says_ret, goal_cases)
      case (1 pending)
      then show ?case using first protection_changes_agree by (auto simp: reconciled_def)
    next
      case (2 pending body)
      show ?case
      proof (rule says_abind [OF says_put_protection], rule says_abind [OF says_get_protection], goal_cases)
        case (1 u tr1 after last)
        show ?case
        proof (cases after)
          case (Some doc')
          with 1 have "printed loads repo branch doc' last" by simp
          then show ?thesis unfolding Some option.case
            using first 1 2 protection_changes_agree [of doc' d]
            by (intro says_lift_then says_if says_ret says_throw)
              (fastforce simp: reconciled_def)
        qed (simp add: says_throw)
      qed
    qed
  qed (simp add: says_throw)
qed

section \<open>The property\<close>

text \<open>C29. The reconciliation of a protected branch returns only on what it read back: either the branch held the
  declaration and nothing was written, or exactly one write was sent, the body built from the first
  reading, and the reading after it has the declared strictness, the same contexts, each as often as
  declared, and the administrators enforced as before. The changes returned are those of the first reading.\<close>

theorem ensure_protection_verified:
  assumes "ensure_protection srv loads repo branch d n = (Val changes, n')"
  shows "reconciled loads repo branch d changes (told srv (ensure_protection srv loads repo branch d) n)"
  by (rule saysD [OF says_ensure_protection assms])


section \<open>A branch\<close>

definition sample_live :: json where
  "sample_live = JObj [(''enforce_admins'', JObj [(''enabled'', JBool True)]),
     (''required_status_checks'', JObj [(''strict'', JBool False), (''contexts'', texts [''ci''])])]"

definition sample_declared :: declared_protection where
  "sample_declared = \<lparr>dp_strict = True, dp_contexts = [''ci'']\<rparr>"

definition sample_after :: json where
  "sample_after = JObj [(''enforce_admins'', JObj [(''enabled'', JBool True)]),
     (''required_status_checks'', JObj [(''strict'', JBool True), (''contexts'', texts [''ci''])])]"

lemma put_body_carries_all_witness:
  "\<exists>kvs. put_body sample_live sample_declared = Inr (JObj kvs) \<and> map_of kvs ''enforce_admins'' = Some (JBool True)"
proof -
  have "\<exists>body. put_body sample_live sample_declared = Inr body"
    by (simp add: put_body_def sample_live_def enabled_wrapped_def kept_restrictions_def)
  then obtain body where body: "put_body sample_live sample_declared = Inr body" by blast
  from put_body_carries_all [OF this] obtain kvs where kvs: "body = JObj kvs"
    "\<forall>f \<in> set enabled_wrapped. \<exists>v. py_get sample_live f = Inr v \<and> map_of kvs f = Some (JBool (unwrap v))" by blast
  moreover have "''enforce_admins'' \<in> set enabled_wrapped" by (simp add: enabled_wrapped_def)
  ultimately have "map_of kvs ''enforce_admins'' = Some (JBool True)" by (force simp: sample_live_def unwrap_def)
  with body kvs(1) show ?thesis by simp
qed

text \<open>A forge that shows the document it was last given, or the first one.\<close>

definition sample_gh :: "bool gh" where
  "sample_gh q w = (case snd q of None \<Rightarrow> (GhPrinted (if w then ''after'' else ''live''), w) | Some _ \<Rightarrow> (GhPrinted [], True))"

definition sample_loads :: "string \<Rightarrow> exn + json" where
  "sample_loads t = Inr (if t = ''after'' then sample_after else sample_live)"

definition sample_run :: "protection_change list outcome \<times> (gh_call, bool) net" where
  "sample_run = ensure_protection sample_gh sample_loads ''o/r'' ''main'' sample_declared \<lparr>sent = [], world = False, budget = 0\<rparr>"

lemma sample_run_changes: "fst sample_run = Val [(''required_status_checks.strict'', JBool False, JBool True)]"
  by code_simp

lemma ensure_protection_verified_witness:
  "fst sample_run = Val [(''required_status_checks.strict'', JBool False, JBool True)] \<and>
   (\<exists>after. holds_declared after sample_declared \<and> admins_enforced after = Inr True)"
proof -
  have run: "sample_run = (Val [(''required_status_checks.strict'', JBool False, JBool True)], snd sample_run)"
    using sample_run_changes by (metis prod.collapse)
  from ensure_protection_verified [OF run [unfolded sample_run_def]]
  obtain live after b where "holds_declared after sample_declared" "admins_enforced live = Inr b" "admins_enforced after = Inr b"
    "\<exists>first. printed sample_loads ''o/r'' ''main'' live first" "\<exists>last. printed sample_loads ''o/r'' ''main'' after last"
    by (auto simp: reconciled_def)
  moreover from this have "after = sample_after \<or> after = sample_live" by (auto simp: printed_def sample_loads_def)
  moreover have "admins_enforced sample_after = Inr True" "admins_enforced sample_live = Inr True" by code_simp+
  ultimately show ?thesis using sample_run_changes by auto
qed

end
