(* ===== verification/DockerReclaim.thy ===== *)
theory DockerReclaim
  imports Transcript Regex
begin

text \<open>
  The reclaim of Docker residue, \<open>toolkit/features/docker_reclaim.py\<close>, and the command \<open>toolkit infra node reclaim\<close> of
  \<open>toolkit/cli/infra.py\<close>. The outside party is the shell of the host, which runs one command line at a time.
  Time is a number of microseconds from the first instant a \<open>datetime\<close> has, so that an instant before it
  cannot be formed; the reading of an ISO date (a naive one as UTC) and of JSON text are parameters.
\<close>

section \<open>Containers and volumes\<close>

record container =
  ct_name :: string
  ct_created :: int
  ct_running :: bool
  ct_volumes :: "string list"

record volume =
  vl_name :: string
  vl_created :: "int option"
  vl_anonymous :: bool

definition hour :: int where
  "hour = 3600 * 10 ^ 6"

definition ct_age :: "container \<Rightarrow> int \<Rightarrow> int" where
  "ct_age c now = now - ct_created c"

text \<open>\<open>splitlines\<close>, stripped and without the empty lines.\<close>

definition line_break :: "char \<Rightarrow> bool" where
  "line_break c = (let n = (of_char c :: nat) in (10 \<le> n \<and> n \<le> 13) \<or> (28 \<le> n \<and> n \<le> 30) \<or> n = 133)"

fun split_lines :: "string \<Rightarrow> string \<Rightarrow> string list" where
  "split_lines acc [] = (if acc = [] then [] else [rev acc])"
| "split_lines acc (c # cs) = (if line_break c then rev acc # split_lines [] cs else split_lines (c # acc) cs)"

definition filled_lines :: "string \<Rightarrow> string list" where
  "filled_lines payload = filter (\<lambda>l. l \<noteq> []) (map strip (split_lines [] payload))"

text \<open>\<open>_parse_created\<close>: the fraction is cut to microseconds, then the date is read.\<close>

definition is_digit :: "char \<Rightarrow> bool" where
  "is_digit c = (let n = (of_char c :: nat) in 48 \<le> n \<and> n \<le> 57)"

fun replace_Z :: "string \<Rightarrow> string" where
  "replace_Z [] = []"
| "replace_Z (c # cs) = (if c = CHR ''Z'' then ''+00:00'' @ replace_Z cs else c # replace_Z cs)"

definition cut_fraction :: "string \<Rightarrow> string" where
  "cut_fraction text =
     (if CHR ''.'' \<notin> set text then text
      else
        let (head, tail) = str_partition (CHR ''.'') text; digits = takeWhile is_digit tail in
        if digits = [] then text
        else head @ ''.'' @ take 6 (digits @ replicate 6 (CHR ''0'')) @ dropWhile is_digit tail)"

definition parse_created :: "(string \<Rightarrow> int option) \<Rightarrow> string \<Rightarrow> exn + int" where
  "parse_created iso_date raw =
     (case iso_date (cut_fraction (replace_Z (strip raw))) of
        None \<Rightarrow> Inl (DockerUnavailableError ''creation time'')
      | Some t \<Rightarrow> Inr t)"

definition parse_container :: "(string \<Rightarrow> int option) \<Rightarrow> string \<Rightarrow> exn + container" where
  "parse_container iso_date line =
     (case split_on (CHR ''|'') line of
        [name, created, running, mounts] \<Rightarrow>
          ebind (parse_created iso_date created) (\<lambda>t.
            Inr \<lparr>ct_name = dropWhile (\<lambda>c. c = CHR ''/'') name, ct_created = t,
                 ct_running = (lower (strip running) = ''true''),
                 ct_volumes = filter (\<lambda>v. v \<noteq> []) (split_on (CHR '','') mounts)\<rparr>)
      | _ \<Rightarrow> Inl (DockerUnavailableError ''container line''))"

definition parse_containers :: "(string \<Rightarrow> int option) \<Rightarrow> string \<Rightarrow> exn + container list" where
  "parse_containers iso_date payload = emap (parse_container iso_date) (filled_lines payload)"

text \<open>\<open>k in labels\<close> on what the labels parse to.\<close>

definition anonymous_label :: string where
  "anonymous_label = ''com.docker.volume.anonymous''"

definition has_label :: "json \<Rightarrow> exn + bool" where
  "has_label labels =
     (case py_or labels (JObj []) of
        JObj kvs \<Rightarrow> Inr (map_of kvs anonymous_label \<noteq> None)
      | JArr xs \<Rightarrow> Inr (py_mem (JStr anonymous_label) xs)
      | JStr s \<Rightarrow> Inr (str_contains anonymous_label s)
      | _ \<Rightarrow> Inl (TypeError ''in''))"

definition is_value_error :: "exn \<Rightarrow> bool" where
  "is_value_error e = (case e of ValueError _ \<Rightarrow> True | JSONDecodeError _ \<Rightarrow> True | _ \<Rightarrow> False)"

definition parse_volume :: "(string \<Rightarrow> int option) \<Rightarrow> (string \<Rightarrow> exn + json) \<Rightarrow> string \<Rightarrow> exn + volume" where
  "parse_volume iso_date loads line =
     (if CHR ''|'' \<notin> set line then Inr \<lparr>vl_name = line, vl_created = None, vl_anonymous = False\<rparr>
      else
        let (name, rest) = str_partition (CHR ''|'') line; (created, labels) = str_partition (CHR ''|'') rest in
        if CHR ''|'' \<notin> set rest then Inl (DockerUnavailableError ''volume line'')
        else
          ebind (case loads labels of
                   Inl e \<Rightarrow> Inl (if is_value_error e then DockerUnavailableError ''labels'' else e)
                 | Inr j \<Rightarrow> Inr j) (\<lambda>label_map.
          ebind (parse_created iso_date created) (\<lambda>t.
          ebind (has_label label_map) (\<lambda>anonymous.
            Inr \<lparr>vl_name = name, vl_created = Some t, vl_anonymous = anonymous\<rparr>))))"

definition parse_volumes :: "(string \<Rightarrow> int option) \<Rightarrow> (string \<Rightarrow> exn + json) \<Rightarrow> string \<Rightarrow> exn + volume list" where
  "parse_volumes iso_date loads payload = emap (parse_volume iso_date loads) (filled_lines payload)"

section \<open>What is protected\<close>

definition backed_up :: "json \<Rightarrow> string list" where
  "backed_up source =
     (case source of
        JObj kvs \<Rightarrow> if truthy (oget kvs ''volume'') then [py_str (oget kvs ''volume'')] else []
      | _ \<Rightarrow> [])"

definition ruled_on :: "string \<times> json \<Rightarrow> string list" where
  "ruled_on kv = (case snd kv of JObj kvs \<Rightarrow> if map_of kvs ''pvc'' \<noteq> None then [] else [fst kv] | _ \<Rightarrow> [fst kv])"

text \<open>\<open>for node in (x or {}).values(): for ... in (node or {}).items()\<close>.\<close>

definition node_entries :: "json \<Rightarrow> exn + obj list" where
  "node_entries block =
     ebind (py_items (py_or block (JObj []))) (emap (\<lambda>kv. py_items (py_or (snd kv) (JObj []))))"

definition protected_volumes :: "json \<Rightarrow> exn + string list" where
  "protected_volumes backup =
     ebind (py_get backup ''sources'') (\<lambda>s.
     ebind (node_entries s) (\<lambda>sources.
     ebind (py_get backup ''excluded'') (\<lambda>e.
     ebind (node_entries e) (\<lambda>excluded.
       let names = concat (map (\<lambda>kv. backed_up (snd kv)) (concat sources)) @ concat (map ruled_on (concat excluded)) in
       if names = [] then Inl (ReclaimRefused ''the backup declaration names no volume'') else Inr names))))"

section \<open>The plan\<close>

definition builder_prefix :: string where
  "builder_prefix = ''buildx_buildkit_builder-''"

text \<open>The names hold no line break, so \<open>re.match\<close> with an anchored end is a full match.\<close>

definition reclaimable_volume :: rx where
  "reclaimable_volume =
     Alt (Seq (literal ''buildx_buildkit_builder-'') (Seq (plus (Class True [(48, 57), (97, 102), (45, 45)])) (literal ''_state'')))
         (Seq (literal ''GITEA-ACTIONS-TASK-'') (Seq (plus (Class True [(48, 57)])) (Seq (Class True [(95, 95), (45, 45)])
           (Star (Class False [(10, 10)])))))"

definition is_candidate :: "volume \<Rightarrow> bool" where
  "is_candidate v = (fullmatch reclaimable_volume (vl_name v) \<or> vl_anonymous v)"

definition default_min_age_hours :: int where
  "default_min_age_hours = 4"

definition resolve_gate :: "int option \<Rightarrow> int" where
  "resolve_gate min_age = (case min_age of None \<Rightarrow> default_min_age_hours | Some h \<Rightarrow> h)"

record reclaim_plan =
  rp_containers :: "container list"
  rp_volumes :: "string list"
  rp_kept_containers :: "(container \<times> string) list"
  rp_kept_volumes :: "(string \<times> string) list"

definition plan_is_noop :: "reclaim_plan \<Rightarrow> bool" where
  "plan_is_noop p = (rp_containers p = [] \<and> rp_volumes p = [])"

text \<open>The longest \<open>timedelta\<close>.\<close>

definition max_hours :: int where
  "max_hours = 999999999 * 24 + 23"

definition is_builder :: "container \<Rightarrow> bool" where
  "is_builder c = starts_with builder_prefix (ct_name c)"

definition survivors :: "container list \<Rightarrow> string list \<Rightarrow> string \<Rightarrow> string list" where
  "survivors containers doomed v =
     filter (\<lambda>n. n \<notin> set doomed) (map ct_name (filter (\<lambda>c. v \<in> set (ct_volumes c)) containers))"

text \<open>The fate of one candidate: removed, or kept for a reason.\<close>

definition judge_volume ::
  "container list \<Rightarrow> string list \<Rightarrow> string list \<Rightarrow> int \<Rightarrow> int \<Rightarrow> volume \<Rightarrow> exn + string option" where
  "judge_volume containers doomed protected now cutoff v =
     (if vl_name v \<in> set protected then Inr (Some ''declared'')
      else if survivors containers doomed (vl_name v) \<noteq> [] then Inr (Some ''still held'')
      else
        case vl_created v of
          None \<Rightarrow> Inr None
        | Some t \<Rightarrow>
            if now - cutoff < 0 then Inl (OverflowError ''date'')
            else Inr (if now - cutoff < t then Some ''under the gate'' else None))"

definition plan_reclaim ::
  "container list \<Rightarrow> volume list \<Rightarrow> int \<Rightarrow> int \<Rightarrow> string list \<Rightarrow> exn + reclaim_plan" where
  "plan_reclaim containers volumes now min_age protected =
     (if min_age < 0 then Inl (ReclaimRefused ''a negative age gate'')
      else if protected = [] then Inl (ReclaimRefused ''no protected volumes'')
      else if max_hours < min_age then Inl (OverflowError ''timedelta'')
      else
        let cutoff = min_age * hour;
            builders = filter is_builder (sort_key ct_name containers);
            doomed = filter (\<lambda>c. \<not> ct_age c now < cutoff) builders;
            judge = judge_volume containers (map ct_name doomed) protected now cutoff in
        ebind (emap (\<lambda>v. ebind (judge v) (\<lambda>why. Inr (vl_name v, why))) (filter is_candidate (sort_key vl_name volumes))) (\<lambda>judged.
          Inr \<lparr>rp_containers = doomed,
               rp_volumes = map fst (filter (\<lambda>x. snd x = None) judged),
               rp_kept_containers = map (\<lambda>c. (c, ''under the gate'')) (filter (\<lambda>c. ct_age c now < cutoff) builders),
               rp_kept_volumes = List.map_filter (\<lambda>(v, why). map_option (\<lambda>w. (v, w)) why) judged\<rparr>))"

section \<open>The host\<close>

text \<open>What comes of a command: whether it succeeded and what it printed, a broken connection, or no answer in time.\<close>

datatype shell_reply = Ran bool string | Broken | Late

type_synonym 's shell = "string \<Rightarrow> 's \<Rightarrow> shell_reply \<times> 's"

type_synonym ('s, 'a) shell_act = "(string, 's, 'a) act"

definition on_host :: "'s shell \<Rightarrow> string \<Rightarrow> ('s, string) shell_act" where
  "on_host srv cmd =
     abind (call srv cmd) (\<lambda>r. case r of
       Ran ok out \<Rightarrow> if ok then ret out else throw (DockerUnavailableError cmd)
     | Broken \<Rightarrow> throw (DockerUnavailableError cmd)
     | Late \<Rightarrow> throw (TimeoutExpired cmd))"

definition guarded_inspect :: "string \<Rightarrow> string \<Rightarrow> string \<Rightarrow> string \<Rightarrow> string" where
  "guarded_inspect var ids inspect fmt =
     var @ ''=$('' @ ids @ ''); [ -z '' @ [CHR 0x22] @ ''$'' @ var @ [CHR 0x22] @ '' ] || '' @ inspect @ '' -f '' @
     [CHR 0x27] @ fmt @ [CHR 0x27] @ '' $'' @ var"

definition volumes_command :: string where
  "volumes_command =
     guarded_inspect ''vols'' ''docker volume ls -q'' ''docker volume inspect'' ''{{.Name}}|{{.CreatedAt}}|{{json .Labels}}''"

definition containers_command :: string where
  "containers_command =
     guarded_inspect ''ids'' ''docker ps -aq'' ''docker inspect''
       ''{{.Name}}|{{.Created}}|{{.State.Running}}|{{range .Mounts}}{{.Name}},{{end}}''"

definition probe ::
  "'s shell \<Rightarrow> (string \<Rightarrow> int option) \<Rightarrow> (string \<Rightarrow> exn + json) \<Rightarrow> ('s, container list \<times> volume list) shell_act" where
  "probe srv iso_date loads =
     abind (on_host srv volumes_command) (\<lambda>raw_volumes.
     abind (on_host srv containers_command) (\<lambda>raw_containers.
     abind (lift (parse_containers iso_date raw_containers)) (\<lambda>cs.
     abind (lift (parse_volumes iso_date loads raw_volumes)) (\<lambda>vs. ret (cs, vs)))))"

definition usage_command :: string where
  "usage_command = ''df -h / | tail -1''"

definition disk_usage :: "'s shell \<Rightarrow> ('s, string) shell_act" where
  "disk_usage srv = abind (on_host srv usage_command) (\<lambda>out. ret (strip out))"

definition safe_name :: rx where
  "safe_name =
     Seq (Class True [(65, 90), (97, 122), (48, 57)]) (Star (Class True [(65, 90), (97, 122), (48, 57), (95, 95), (46, 46), (45, 45)]))"

definition checked_name :: "string \<Rightarrow> exn + string" where
  "checked_name name = (if fullmatch safe_name name then Inr name else Inl (ReclaimRefused name))"

definition remove_container :: "string \<Rightarrow> string" where
  "remove_container name = ''docker rm -f '' @ name"

definition remove_volume :: "string \<Rightarrow> string" where
  "remove_volume name = ''docker volume rm '' @ name"

definition run_checked :: "'s shell \<Rightarrow> (string \<Rightarrow> string) \<Rightarrow> string \<Rightarrow> unit \<Rightarrow> ('s, unit) shell_act" where
  "run_checked srv cmd name u = abind (lift (checked_name name)) (\<lambda>n. abind (on_host srv (cmd n)) (\<lambda>_. ret ()))"

definition remove_planned :: "'s shell \<Rightarrow> reclaim_plan \<Rightarrow> ('s, unit) shell_act" where
  "remove_planned srv p =
     abind (foreach (run_checked srv remove_container) (map ct_name (rp_containers p)) ()) (\<lambda>_.
     foreach (run_checked srv remove_volume) (rp_volumes p) ())"

text \<open>
  \<open>docker inspect X >/dev/null 2>&1 && docker stop X || echo ABSENT\<close>, as the shell runs it: two commands, and
  \<open>ABSENT\<close> when either of them fails. The connection carries both; when it breaks the line fails as a whole.
\<close>

definition inspect_command :: "string \<Rightarrow> string" where
  "inspect_command name = ''docker inspect '' @ name"

definition verb_command :: "bool \<Rightarrow> string \<Rightarrow> string" where
  "verb_command running name = (if running then ''docker start '' else ''docker stop '') @ name"

definition guarded :: "'s shell \<Rightarrow> string \<Rightarrow> ('s, bool \<times> string) shell_act" where
  "guarded srv cmd =
     abind (call srv cmd) (\<lambda>r. case r of
       Ran ok out \<Rightarrow> ret (ok, out)
     | Broken \<Rightarrow> throw (DockerUnavailableError cmd)
     | Late \<Rightarrow> throw (TimeoutExpired cmd))"

definition absent :: string where
  "absent = ''ABSENT''"

definition runner_line :: "'s shell \<Rightarrow> bool \<Rightarrow> string \<Rightarrow> ('s, string) shell_act" where
  "runner_line srv running name =
     abind (guarded srv (inspect_command name)) (\<lambda>(exists, _).
       if \<not> exists then ret absent
       else
         abind (guarded srv (verb_command running name)) (\<lambda>(ok, out).
           ret (if ok then out else out @ absent)))"

definition runner_containers :: "string list" where
  "runner_containers = [''act-runner'', ''github-runner'']"

definition set_runner :: "'s shell \<Rightarrow> bool \<Rightarrow> string \<Rightarrow> string list \<Rightarrow> ('s, string list) shell_act" where
  "set_runner srv running name acted =
     abind (lift (checked_name name)) (\<lambda>checked.
     abind (runner_line srv running checked) (\<lambda>out.
       ret (if str_contains absent out then acted else acted @ [name])))"

definition set_runners :: "'s shell \<Rightarrow> bool \<Rightarrow> ('s, string list) shell_act" where
  "set_runners srv running = foreach (set_runner srv running) runner_containers []"

definition prune_command :: "bool \<Rightarrow> string" where
  "prune_command include_tagged = ''docker image prune '' @ (if include_tagged then ''-af'' else ''-f'')"

definition prune_images :: "'s shell \<Rightarrow> bool \<Rightarrow> ('s, string) shell_act" where
  "prune_images srv include_tagged = abind (on_host srv (prune_command include_tagged)) (\<lambda>out. ret (strip out))"

section \<open>The timer's entry point\<close>

definition reclaim_failure :: "exn \<Rightarrow> bool" where
  "reclaim_failure e =
     (case e of DockerUnavailableError _ \<Rightarrow> True | ReclaimRefused _ \<Rightarrow> True | OSError _ \<Rightarrow> True | _ \<Rightarrow> is_value_error e)"

definition planned ::
  "'s shell \<Rightarrow> (string \<Rightarrow> int option) \<Rightarrow> (string \<Rightarrow> exn + json) \<Rightarrow> int \<Rightarrow> exn + json \<Rightarrow> int \<Rightarrow> ('s, reclaim_plan) shell_act" where
  "planned srv iso_date loads now declaration min_age =
     abind (lift (ebind declaration protected_volumes)) (\<lambda>protected.
     abind (probe srv iso_date loads) (\<lambda>(cs, vs).
       lift (plan_reclaim cs vs now min_age protected)))"

definition timer_reclaim ::
  "'s shell \<Rightarrow> (string \<Rightarrow> int option) \<Rightarrow> (string \<Rightarrow> exn + json) \<Rightarrow> int \<Rightarrow> exn + json \<Rightarrow> int \<Rightarrow> bool \<Rightarrow> ('s, nat) shell_act" where
  "timer_reclaim srv iso_date loads now declaration min_age apply_it =
     attempt
       (abind (planned srv iso_date loads now declaration min_age) (\<lambda>p.
          if apply_it then abind (remove_planned srv p) (\<lambda>_. ret 0) else ret 0))
       (\<lambda>e. if reclaim_failure e then ret 1 else throw e)"

section \<open>The command\<close>

definition resolve_ssh_user :: "json \<Rightarrow> string \<Rightarrow> exn + string" where
  "resolve_ssh_user networking node =
     ebind (py_get networking ''nodes'') (\<lambda>ns.
     ebind (case py_or ns (JObj []) of
              JObj kvs \<Rightarrow> Inr (map_of kvs node \<noteq> None)
            | JArr xs \<Rightarrow> Inr (py_mem (JStr node) xs)
            | JStr s \<Rightarrow> Inr (str_contains node s)
            | _ \<Rightarrow> Inl (TypeError ''in'')) (\<lambda>homelab.
     ebind (py_get networking ''ssh_users'') (\<lambda>us.
     ebind (py_get (py_or us (JObj [])) (if homelab then ''homelab'' else ''cloud'')) (\<lambda>user.
       if truthy user then Inr (py_str user) else Inl (KeyError ''ssh_users'')))))"

text \<open>The address of the node, \<open>None\<close> for an exit with one.\<close>

definition reclaim_target :: "json \<Rightarrow> string \<Rightarrow> exn + string option" where
  "reclaim_target common node =
     ebind (py_index common ''networking'') (\<lambda>net.
     ebind (py_get net ''nodes'') (\<lambda>ns.
     ebind (py_get (py_or ns (JObj [])) node) (\<lambda>block.
       if \<not> truthy block then Inr None
       else
         ebind (py_get block ''tailscale_ip'') (\<lambda>host.
           if \<not> truthy host then Inr None
           else ebind (resolve_ssh_user net node) (\<lambda>user. Inr (Some (user @ ''@'' @ py_str host)))))))"

definition docker_failure :: "exn \<Rightarrow> bool" where
  "docker_failure e = (case e of DockerUnavailableError _ \<Rightarrow> True | _ \<Rightarrow> False)"

definition refused_or_down :: "exn \<Rightarrow> bool" where
  "refused_or_down e = (docker_failure e \<or> (case e of ReclaimRefused _ \<Rightarrow> True | _ \<Rightarrow> False))"

definition resume_runners :: "'s shell \<Rightarrow> ('s, unit) shell_act" where
  "resume_runners srv =
     attempt (abind (set_runners srv True) (\<lambda>_. ret ())) (\<lambda>e. if docker_failure e then ret () else throw e)"

definition reclaim_now :: "'s shell \<Rightarrow> reclaim_plan \<Rightarrow> bool \<Rightarrow> bool \<Rightarrow> ('s, bool) shell_act" where
  "reclaim_now srv p images include_tagged =
     finally_do
       (attempt
          (abind (set_runners srv False) (\<lambda>_.
           abind (remove_planned srv p) (\<lambda>_.
           abind (disk_usage srv) (\<lambda>_.
             if images then abind (prune_images srv include_tagged) (\<lambda>_. ret True) else ret True))))
          (\<lambda>e. if refused_or_down e then ret False else throw e))
       (resume_runners srv)"

definition node_plan ::
  "'s shell \<Rightarrow> (string \<Rightarrow> int option) \<Rightarrow> (string \<Rightarrow> exn + json) \<Rightarrow> int \<Rightarrow> json \<Rightarrow> int \<Rightarrow> ('s, reclaim_plan option) shell_act" where
  "node_plan srv iso_date loads now common gate =
     attempt
       (abind (disk_usage srv) (\<lambda>_.
        abind (planned srv iso_date loads now (ebind (py_get common ''backup'') (\<lambda>b. Inr (py_or b (JObj [])))) gate) (\<lambda>p.
          ret (Some p))))
       (\<lambda>e. if refused_or_down e then ret None else throw e)"

definition node_reclaim ::
  "(string \<Rightarrow> 's shell) \<Rightarrow> (string \<Rightarrow> int option) \<Rightarrow> (string \<Rightarrow> exn + json) \<Rightarrow> int \<Rightarrow> json \<Rightarrow> string \<Rightarrow> bool \<Rightarrow> int option \<Rightarrow>
     bool \<Rightarrow> bool \<Rightarrow> ('s, nat) shell_act" where
  "node_reclaim host iso_date loads now common node apply_it min_age images include_tagged =
     abind (lift (reclaim_target common node)) (\<lambda>target. case target of
       None \<Rightarrow> ret 1
     | Some t \<Rightarrow>
         let srv = host t in
         abind (node_plan srv iso_date loads now common (resolve_gate min_age)) (\<lambda>found. case found of
           None \<Rightarrow> ret 1
         | Some p \<Rightarrow>
             if plan_is_noop p \<and> \<not> images then ret 0
             else if \<not> apply_it then ret 0
             else
               abind (reclaim_now srv p images include_tagged) (\<lambda>ok.
                 if \<not> ok then ret 1 else abind (disk_usage srv) (\<lambda>_. ret 0))))"

end
