(* ===== verification/Sends.thy ===== *)
theory Sends
  imports Effects "HOL-Library.Sublist"
begin

text \<open>
  The exact sequence an action sends: \<open>sends\<close> computed along the code, and actions that follow a script, which
  send a beginning of it and all of it when they return.
\<close>

text \<open>Actions that only add to the log, and what a sequence of them sends.\<close>

abbreviation logs :: "('q, 's, 'a) act \<Rightarrow> bool" where
  "logs m \<equiv> emits (\<lambda>_. True) m"

lemma sent_sends: "logs m \<Longrightarrow> sent (snd (m n)) = sent n @ sends m n"
  unfolding emits_def sends_def by (metis append_eq_conv_conj)

lemma sends_simps [simp]:
  "sends (ret x) n = []" "sends (throw e) n = []" "sends (lift r) n = []" "sends (call srv q) n = [q]"
  by (simp_all add: sends_def ret_def throw_def lift_def call_def case_prod_beta split: sum.split)

lemma sends_ask [simp]: "sends (ask srv q) n = [q]"
  by (auto simp: ask_def sends_def abind_def call_def lift_def ret_def throw_def split: prod.split sum.split)

lemma sends_abind:
  assumes "logs m" and "\<And>x. logs (f x)"
  shows "sends (abind m f) n = sends m n @ (case m n of (Val x, n') \<Rightarrow> sends (f x) n' | _ \<Rightarrow> [])"
proof -
  obtain r n' where mn: "m n = (r, n')" by fastforce
  have "sent n' = sent n @ sends m n" using sent_sends [OF assms(1), of n] mn by simp
  then show ?thesis
    using sent_sends [OF assms(2)] mn by (cases r) (simp_all add: act_simps sends_def [of "abind m f"])
qed

lemma sends_attempt:
  assumes "logs m" and "\<And>e. logs (h e)"
  shows "sends (attempt m h) n = sends m n @ (case m n of (Exn e, n') \<Rightarrow> sends (h e) n' | _ \<Rightarrow> [])"
proof -
  obtain r n' where mn: "m n = (r, n')" by fastforce
  have "sent n' = sent n @ sends m n" using sent_sends [OF assms(1), of n] mn by simp
  then show ?thesis
    using sent_sends [OF assms(2)] mn by (cases r) (simp_all add: attempt_def sends_def [of "attempt m h"])
qed

text \<open>Following a script: the calls are its beginning, and all of it when the action returns.\<close>

definition follows :: "('q, 's, 'a) act \<Rightarrow> 'q list \<Rightarrow> bool" where
  "follows m qs \<longleftrightarrow> logs m \<and> (\<forall>n. prefix (sends m n) qs \<and> (\<forall>x n'. m n = (Val x, n') \<longrightarrow> sends m n = qs))"

lemma followsD:
  "follows m qs \<Longrightarrow> logs m" "follows m qs \<Longrightarrow> prefix (sends m n) qs"
  "follows m qs \<Longrightarrow> m n = (Val x, n') \<Longrightarrow> sends m n = qs"
  by (auto simp: follows_def)

lemma follows_emits:
  assumes "follows m qs" and "\<And>q. q \<in> set qs \<Longrightarrow> P q"
  shows "emits P m"
proof (rule emitsI)
  fix n
  from followsD(1) [OF assms(1)] show "budget (snd (m n)) = budget n" by (simp add: emits_def)
  have "set (sends m n) \<subseteq> set qs" by (rule set_mono_prefix [OF followsD(2) [OF assms(1)]])
  with assms(2) have "list_all P (sends m n)" by (auto simp: list_all_iff)
  with sent_sends [OF followsD(1) [OF assms(1)]] show "\<exists>qs. sent (snd (m n)) = sent n @ qs \<and> list_all P qs" by blast
qed

lemma follows_simps:
  "follows (ret x) []" "follows (throw e) qs" "follows (lift r) []" "follows (call srv q) [q]"
  by (auto simp: follows_def intro: emits_intros)

lemma follows_abind:
  assumes m: "follows m ps" and f: "\<And>x. follows (f x) qs"
  shows "follows (abind m f) (ps @ qs)"
  unfolding follows_def
proof (intro conjI allI impI)
  show logs: "logs (abind m f)" using followsD(1) [OF m] followsD(1) [OF f] by (rule emits_abind)
  note sends = sends_abind [OF followsD(1) [OF m] followsD(1) [OF f]]
  fix n
  obtain r n' where mn: "m n = (r, n')" by fastforce
  show "prefix (sends (abind m f) n) (ps @ qs)"
  proof (cases r)
    case (Val x)
    with mn have "sends m n = ps" by (simp add: followsD(3) [OF m])
    with Val mn show ?thesis by (simp add: sends followsD(2) [OF f])
  qed (use mn in \<open>simp_all add: sends followsD(2) [OF m] prefix_prefix\<close>)
  fix y n''
  assume "abind m f n = (Val y, n'')"
  then obtain x k where "m n = (Val x, k)" "f x k = (Val y, n'')" by (auto simp: abind_Val)
  then show "sends (abind m f) n = ps @ qs"
    by (simp add: sends followsD(3) [OF m] followsD(3) [OF f])
qed

lemma follows_foreach:
  "(\<And>x st. x \<in> set xs \<Longrightarrow> follows (f x st) (g x)) \<Longrightarrow> follows (foreach f xs st) (concat (map g xs))"
  by (induction xs arbitrary: st) (auto intro: follows_abind follows_simps)

lemma sends_finally:
  assumes "logs m" and "logs f" and "m n = (r, n')" and "r \<noteq> Stuck"
  shows "sends (finally_do m f) n = sends m n @ sends f n'"
proof -
  have first: "sent n' = sent n @ sends m n" using sent_sends [OF assms(1), of n] assms(3) by simp
  have rest: "sends (abind f (\<lambda>_. g)) n' = sends f n'" "sent (snd (abind f (\<lambda>_. g) n')) = sent n' @ sends (abind f (\<lambda>_. g)) n'"
    if "logs g" "\<And>k. sends g k = []" for g :: "('a, 'b, 'c) act"
    using sends_abind [OF assms(2), of "\<lambda>_. g" n'] that sent_sends [OF emits_abind [OF assms(2)], of "\<lambda>_. g" n']
    by (simp_all split: prod.split outcome.split)
  from assms(4) first rest [of "ret x" for x] rest [of "throw e" for e] show ?thesis
    by (cases r) (simp_all add: finally_do_def assms(3) sends_def [of "finally_do m f"])
qed

lemma sends_abindE:
  assumes "q \<in> set (sends (abind m f) n)" and "logs m" and "\<And>x. logs (f x)"
  obtains "q \<in> set (sends m n)" | x n' where "m n = (Val x, n')" and "q \<in> set (sends (f x) n')"
proof -
  obtain r n' where mn: "m n = (r, n')" by fastforce
  with assms(1) that show ?thesis
    unfolding sends_abind [OF assms(2,3)] by (cases r) auto
qed

lemma sends_finallyE:
  assumes "q \<in> set (sends (finally_do m f) n)" and "logs m" and "logs f"
  obtains "q \<in> set (sends m n)" | n' where "q \<in> set (sends f n')"
proof -
  obtain r n' where mn: "m n = (r, n')" by fastforce
  show ?thesis
  proof (cases "r = Stuck")
    case True
    with mn assms(1) that(1) show ?thesis by (simp add: finally_do_def sends_def)
  next
    case False
    with assms(1) that show ?thesis unfolding sends_finally [OF assms(2,3) mn False] by auto
  qed
qed

lemma emits_finally [emits_intros]:
  fixes m :: "('q, 's, 'x) act"
  assumes "emits P m" and "emits P f"
  shows "emits P (finally_do m f)"
proof (rule emitsI)
  fix n
  obtain r n' where mn: "m n = (r, n')" by fastforce
  have rest: "emits P (abind f (\<lambda>_. ret x))" "emits P (abind f (\<lambda>_. throw e :: ('q, 's, 'x) act))" for x :: 'x and e
    by (intro emits_intros assms)+
  show "budget (snd (finally_do m f n)) = budget n"
    using emitsD(1) [OF assms(1) mn] rest unfolding finally_do_def mn by (cases r) (auto simp: emits_def)
  show "\<exists>qs. sent (snd (finally_do m f n)) = sent n @ qs \<and> list_all P qs"
    using emits_chain [OF emitsD(2) [OF assms(1) mn] emits_log [OF rest(1)]]
      emits_chain [OF emitsD(2) [OF assms(1) mn] emits_log [OF rest(2)]] emitsD(2) [OF assms(1) mn]
    unfolding finally_do_def mn by (cases r) simp_all
qed

lemma answers_finally [answers_intros]:
  fixes m :: "('q, 's, 'x) act"
  assumes "answers I m" and "answers I f"
  shows "answers I (finally_do m f)"
  unfolding answers_def
proof (intro allI impI)
  fix n
  assume "I n"
  obtain r n' where mn: "m n = (r, n')" by fastforce
  have rest: "answers I (abind f (\<lambda>_. ret x))" "answers I (abind f (\<lambda>_. throw e :: ('q, 's, 'x) act))" for x :: 'x and e
    by (intro answers_intros assms)+
  from answersD [OF assms(1) \<open>I n\<close> mn] rest show "fst (finally_do m f n) \<noteq> Stuck \<and> I (snd (finally_do m f n))"
    unfolding finally_do_def mn by (cases r) (auto simp: answers_def)
qed

lemma emits_mem: "emits P m \<Longrightarrow> q \<in> set (sends m n) \<Longrightarrow> P q"
  using emits_sends [of P m n] by (simp add: list_all_iff)

end
