(* ===== verification/DockerReclaimFacts.thy ===== *)
theory DockerReclaimFacts
  imports DockerReclaim Sends
begin

text \<open>
  What the reclaim removes: the plan takes exactly the residue nothing else holds or protects, a run sends no
  removal but the plan's, containers before volumes, and the runners are started again whatever happens.
\<close>

section \<open>The plan\<close>

lemma judge_volume_None:
  assumes "judge_volume cs doomed protected now cutoff v = Inr why"
  shows "why = None \<longleftrightarrow> vl_name v \<notin> set protected \<and>
    (\<forall>c \<in> set cs. vl_name v \<in> set (ct_volumes c) \<longrightarrow> ct_name c \<in> set doomed) \<and>
    (\<forall>t. vl_created v = Some t \<longrightarrow> t + cutoff \<le> now)"
  using assms unfolding judge_volume_def survivors_def
  by (auto simp: filter_empty_conv split: if_splits option.splits)

text \<open>C38. The plan takes exactly what is certainly abandoned. A container goes when it is an action's builder at least
  as old as the gate; a volume goes when it is CI residue by provenance, is not named in the backup
  declaration, is held by no container, running or stopped, but such builders, and is not known to be younger
  than the gate. There is no plan without a protected name, nor for a negative gate.\<close>

theorem plan_reclaim_exact:
  assumes "plan_reclaim cs vs now h protected = Inr p"
  shows "0 \<le> h \<and> protected \<noteq> []
    \<and> set (rp_containers p) = {c \<in> set cs. is_builder c \<and> h * hour \<le> ct_age c now}
    \<and> set (rp_volumes p) = {vl_name v | v. v \<in> set vs \<and> is_candidate v \<and> vl_name v \<notin> set protected
        \<and> (\<forall>c \<in> set cs. vl_name v \<in> set (ct_volumes c) \<longrightarrow> ct_name c \<in> ct_name ` set (rp_containers p))
        \<and> (\<forall>t. vl_created v = Some t \<longrightarrow> t + h * hour \<le> now)}"
proof -
  define builders where "builders = filter is_builder (sort_key ct_name cs)"
  define doomed where "doomed = filter (\<lambda>c. \<not> ct_age c now < h * hour) builders"
  let ?judge = "judge_volume cs (map ct_name doomed) protected now (h * hour)"
  from assms obtain judged where judged:
    "emap (\<lambda>v. ebind (?judge v) (\<lambda>why. Inr (vl_name v, why))) (filter is_candidate (sort_key vl_name vs)) = Inr judged"
    and p: "rp_containers p = doomed" "rp_volumes p = map fst (filter (\<lambda>x. snd x = None) judged)"
    and ok: "0 \<le> h" "protected \<noteq> []"
    unfolding plan_reclaim_def doomed_def builders_def by (auto simp: Let_def split: if_splits)
  have containers: "set (rp_containers p) = {c \<in> set cs. is_builder c \<and> h * hour \<le> ct_age c now}"
    by (auto simp: p doomed_def builders_def)
  have mem: "x \<in> set (rp_volumes p) \<longleftrightarrow> (\<exists>v. x = vl_name v \<and> v \<in> set vs \<and> is_candidate v \<and> ?judge v = Inr None)" for x
  proof -
    have "x \<in> set (rp_volumes p) \<longleftrightarrow> (x, None) \<in> set judged" by (force simp: p)
    also have "\<dots> \<longleftrightarrow> (\<exists>v \<in> set (filter is_candidate (sort_key vl_name vs)). ebind (?judge v) (\<lambda>why. Inr (vl_name v, why)) = Inr (x, None))"
      by (rule emap_eq_Inr_set [OF judged])
    also have "\<dots> \<longleftrightarrow> (\<exists>v. x = vl_name v \<and> v \<in> set vs \<and> is_candidate v \<and> ?judge v = Inr None)" by auto
    finally show ?thesis .
  qed
  have fate: "?judge v = Inr None \<longleftrightarrow> vl_name v \<notin> set protected
      \<and> (\<forall>c \<in> set cs. vl_name v \<in> set (ct_volumes c) \<longrightarrow> ct_name c \<in> ct_name ` set (rp_containers p))
      \<and> (\<forall>t. vl_created v = Some t \<longrightarrow> t + h * hour \<le> now)" if "v \<in> set vs" "is_candidate v" for v
  proof -
    have "v \<in> set (filter is_candidate (sort_key vl_name vs))" using that by simp
    from emap_image [OF judged this] obtain why where "?judge v = Inr why" by auto
    with judge_volume_None [OF this] show ?thesis unfolding p(1) by simp
  qed
  have "set (rp_volumes p) = {vl_name v | v. v \<in> set vs \<and> is_candidate v \<and> vl_name v \<notin> set protected
        \<and> (\<forall>c \<in> set cs. vl_name v \<in> set (ct_volumes c) \<longrightarrow> ct_name c \<in> ct_name ` set (rp_containers p))
        \<and> (\<forall>t. vl_created v = Some t \<longrightarrow> t + h * hour \<le> now)}"
    by (rule set_eqI, unfold mem mem_Collect_eq, rule ex_cong1, (rule conj_cong [OF refl])+) (rule fate)
  with containers ok show ?thesis by blast
qed

section \<open>What is sent\<close>

lemma follows_on_host: "follows (on_host srv cmd) [cmd]"
  unfolding on_host_def
  by (rule follows_abind [where qs = "[]", simplified, OF follows_simps(4)])
    (auto intro: follows_simps split: shell_reply.split)

lemma follows_checked: "follows (run_checked srv cmd name u) [cmd name]"
proof (cases "checked_name name")
  case (Inl e)
  then show ?thesis by (simp add: run_checked_def act_simps follows_simps)
next
  case (Inr x)
  then have "x = name" by (auto simp: checked_name_def split: if_splits)
  with Inr show ?thesis
    unfolding run_checked_def
    using follows_abind [OF follows_on_host [of srv "cmd name"], of "\<lambda>_. ret ()" "[]"] by (simp add: act_simps follows_simps)
qed

definition removals :: "reclaim_plan \<Rightarrow> string list" where
  "removals p = map remove_container (map ct_name (rp_containers p)) @ map remove_volume (rp_volumes p)"

lemma follows_remove: "follows (remove_planned srv p) (removals p)"
proof -
  have each: "follows (foreach (run_checked srv cmd) names ()) (map cmd names)" for cmd names
    using follows_foreach [of names "run_checked srv cmd" "\<lambda>x. [cmd x]", OF follows_checked] by simp
  show ?thesis
    unfolding remove_planned_def removals_def by (rule follows_abind [OF each each])
qed

lemma follows_planned: "follows (planned srv iso_date loads now declaration h) [volumes_command, containers_command]"
proof -
  have probe: "follows (probe srv iso_date loads) ([volumes_command] @ [containers_command] @ [] @ [] @ [])"
    unfolding probe_def by (intro follows_abind follows_on_host follows_simps)
  have "follows (planned srv iso_date loads now declaration h) ([] @ ([volumes_command] @ [containers_command] @ [] @ [] @ []) @ [])"
    unfolding planned_def by (intro follows_abind probe follows_simps) (auto intro: follows_simps split: prod.split)
  then show ?thesis by simp
qed

text \<open>The unattended run, whatever fails: it asks for the volumes and then for the containers, and sends no other
  command unless it was told to apply a plan it made of those answers; then the plan's removals, in the
  plan's order, the containers before the volumes, up to the first that fails.\<close>

theorem timer_sends_only_planned:
  "prefix (sends (timer_reclaim srv iso_date loads now declaration h apply_it) n)
     ([volumes_command, containers_command] @
       (case fst (planned srv iso_date loads now declaration h n) of Val p \<Rightarrow> if apply_it then removals p else [] | _ \<Rightarrow> []))"
proof -
  let ?plan = "planned srv iso_date loads now declaration h"
  let ?act = "\<lambda>p. if apply_it then abind (remove_planned srv p) (\<lambda>_. ret (0 :: nat)) else ret 0"
  have act: "follows (?act p) (if apply_it then removals p else [])" for p
    using follows_abind [OF follows_remove [of srv p], of "\<lambda>_. ret (0 :: nat)" "[]"] by (simp add: follows_simps)
  have logs: "logs (abind ?plan ?act)" using followsD(1) [OF follows_planned] followsD(1) [OF act] by (rule emits_abind)
  have handler: "logs (if reclaim_failure e then ret (1 :: nat) else throw e)" for e by simp
  have "sends (timer_reclaim srv iso_date loads now declaration h apply_it) n = sends (abind ?plan ?act) n"
    unfolding timer_reclaim_def sends_attempt [OF logs handler] by (auto split: prod.split outcome.split)
  also have "\<dots> = sends ?plan n @ (case ?plan n of (Val p, n') \<Rightarrow> sends (?act p) n' | _ \<Rightarrow> [])"
    by (rule sends_abind [OF followsD(1) [OF follows_planned] followsD(1) [OF act]])
  finally have sent: "sends (timer_reclaim srv iso_date loads now declaration h apply_it) n =
      sends ?plan n @ (case ?plan n of (Val p, n') \<Rightarrow> sends (?act p) n' | _ \<Rightarrow> [])" .
  obtain r n' where mn: "?plan n = (r, n')" by fastforce
  show ?thesis
  proof (cases r)
    case (Val p)
    with mn have "?plan n = (Val p, n')" by simp
    from this followsD(3) [OF follows_planned this] followsD(2) [OF act, of p n'] show ?thesis
      unfolding sent by (cases apply_it) simp_all
  qed (use mn in \<open>simp_all add: sent followsD(2) [OF follows_planned]\<close>)
qed

section \<open>The runners\<close>

definition runner_query :: "bool \<Rightarrow> string \<Rightarrow> bool" where
  "runner_query running q \<longleftrightarrow> (\<exists>r \<in> set runner_containers. q = inspect_command r \<or> q = verb_command running r)"

lemma emits_guarded: "P cmd \<Longrightarrow> emits P (guarded srv cmd)"
  unfolding guarded_def by (intro emits_intros) (auto split: shell_reply.split)

lemma emits_runner_line:
  "P (inspect_command r) \<Longrightarrow> P (verb_command running r) \<Longrightarrow> emits P (runner_line srv running r)"
  unfolding runner_line_def by (intro emits_intros emits_guarded emits_case_prod) simp_all

lemma emits_set_runners: "emits (runner_query running) (set_runners srv running)"
  unfolding set_runners_def
proof (rule emits_foreach)
  fix r st
  assume r: "r \<in> set runner_containers"
  show "emits (runner_query running) (set_runner srv running r st)"
    unfolding set_runner_def
  proof (rule emits_abind_lift)
    fix checked
    assume "checked_name r = Inr checked"
    then have "checked = r" by (auto simp: checked_name_def split: if_splits)
    with r show "emits (runner_query running) (abind (runner_line srv running checked)
        (\<lambda>out. ret (if str_contains absent out then st else st @ [r])))"
      by (intro emits_abind emits_runner_line emits_ret) (auto simp: runner_query_def)
  qed
qed

lemma runner_names: "checked_name ''act-runner'' = Inr ''act-runner''" "checked_name ''github-runner'' = Inr ''github-runner''"
  by code_simp+

lemma set_runners_starts: "\<exists>rest. sends (set_runners srv running) n = inspect_command ''act-runner'' # rest"
proof -
  have logs: "logs (runner_line srv running r)" "logs (set_runner srv running r st)" for r st
    by (rule emits_runner_line; simp)
      (unfold set_runner_def, intro emits_intros emits_runner_line; simp)
  have guarded: "sends (guarded srv cmd) k = [cmd]" for cmd k
    unfolding guarded_def
    by (subst sends_abind) (auto intro: emits_intros split: shell_reply.split prod.split outcome.split)
  have line: "\<exists>rest. sends (runner_line srv running r) k = inspect_command r # rest" for r k
    unfolding runner_line_def
    by (subst sends_abind) (auto intro!: emits_guarded emits_intros simp: guarded split: prod.split)
  have "\<exists>rest. sends (set_runner srv running ''act-runner'' []) n = inspect_command ''act-runner'' # rest"
    unfolding set_runner_def runner_names run_simps(5) abind_ret using line [of "''act-runner''" n]
    by (subst sends_abind) (auto intro: logs emits_intros)
  then show ?thesis
    unfolding set_runners_def runner_containers_def foreach.simps
    by (subst sends_abind) (auto intro!: logs emits_intros)
qed

lemma never_stuck_host: "answers (\<lambda>_. True) (on_host srv cmd)" "answers (\<lambda>_. True) (guarded srv cmd)"
  by (auto simp: on_host_def guarded_def answers_def abind_def call_def case_prod_beta act_simps split: shell_reply.split)

lemma never_stuck_runners: "answers (\<lambda>_. True) (set_runners srv running)"
  unfolding set_runners_def set_runner_def runner_line_def
  by (intro answers_intros never_stuck_host) (auto intro!: answers_intros never_stuck_host split: prod.split)


text \<open>C40. A runner that could not be stopped is taken for one the node does not have: where the container exists and
  its stop fails, no error is raised and the runner is left out of the answer, just as if it were absent, and
  the removals go on beside it.\<close>

theorem failed_stop_unnoticed:
  assumes "checked_name name = Inr name" and "srv (inspect_command name) (world n) = (Ran True found, w)"
    and "srv (verb_command False name) w = (Ran False out, w')"
  shows "fst (set_runner srv False name acted n) = Val acted"
proof -
  have "str_contains absent (s @ absent)" for s
    by (induction s) (simp_all add: absent_def starts_with_def)
  then show ?thesis
    by (simp add: set_runner_def runner_line_def guarded_def assms call_def act_simps abind_def)
qed

section \<open>A node\<close>

definition sample_builder :: container where
  "sample_builder = \<lparr>ct_name = builder_prefix @ ''0a'', ct_created = 0, ct_running = True, ct_volumes = [''old'']\<rparr>"

definition sample_volumes :: "volume list" where
  "sample_volumes = [\<lparr>vl_name = ''old'', vl_created = Some 0, vl_anonymous = True\<rparr>, \<lparr>vl_name = ''gitea'', vl_created = None, vl_anonymous = True\<rparr>]"

definition sample_reclaim :: reclaim_plan where
  "sample_reclaim = \<lparr>rp_containers = [sample_builder], rp_volumes = [''old''], rp_kept_containers = [],
     rp_kept_volumes = [(''gitea'', ''declared'')]\<rparr>"

lemma sample_reclaimed: "plan_reclaim [sample_builder] sample_volumes (5 * hour) 4 [''gitea''] = Inr sample_reclaim"
  by code_simp

lemma plan_reclaim_exact_witness:
  "set (rp_volumes sample_reclaim) = {''old''} \<and> is_builder sample_builder \<and> 4 * hour \<le> ct_age sample_builder (5 * hour)"
proof -
  have "set (rp_containers sample_reclaim) = {c \<in> set [sample_builder]. is_builder c \<and> 4 * hour \<le> ct_age c (5 * hour)}"
    using plan_reclaim_exact [OF sample_reclaimed] by blast
  moreover have "sample_builder \<in> set (rp_containers sample_reclaim)" by (simp add: sample_reclaim_def)
  ultimately show ?thesis by (auto simp: sample_reclaim_def)
qed

definition stubborn_host :: "unit shell" where
  "stubborn_host cmd w = (Ran (cmd = inspect_command ''act-runner'') ''act-runner'', w)"

lemma failed_stop_unnoticed_witness:
  "fst (set_runner stubborn_host False ''act-runner'' [] \<lparr>sent = [], world = (), budget = 0\<rparr>) = Val []"
  by (rule failed_stop_unnoticed [OF runner_names(1)])
    (simp_all add: stubborn_host_def inspect_command_def verb_command_def)

end
