(* ===== verification/MonitorDiff.thy ===== *)
theory MonitorDiff
  imports Prelude
begin

text \<open>
  The decisions of the monitor sync, \<open>toolkit/features/monitoring_diff.py\<close>: the identity marker inside a
  monitor's description, the push tokens, the comparison of a monitor with its seed entry and the plan.
  A seed entry and a live monitor are dictionaries. A monitor to edit is the live one with its seed entry.
\<close>

type_synonym monitor = obj

section \<open>The marker\<close>

definition marker_open :: string where
  "marker_open = ''[kuma-key:''"

definition key_char :: "char \<Rightarrow> bool" where
  "key_char c =
     (let n = (of_char c :: nat) in
      (48 \<le> n \<and> n \<le> 57) \<or> (65 \<le> n \<and> n \<le> 90) \<or> (97 \<le> n \<and> n \<le> 122) \<or> c = CHR ''.'' \<or> c = CHR ''_'' \<or> c = CHR ''-'')"

text \<open>The pattern \<open>\n?[kuma-key:KEY]\<close> at the start of a text, with the key and what follows it. A key
  stops at the first character it may not have, so no shorter key can match.\<close>

definition bare_marker :: "string \<Rightarrow> (string \<times> string) option" where
  "bare_marker s =
     (if \<not> starts_with marker_open s then None
      else
        let t = drop (length marker_open) s; k = takeWhile key_char t in
        case dropWhile key_char t of
          c # rest \<Rightarrow> if c = CHR '']'' \<and> k \<noteq> [] then Some (k, rest) else None
        | [] \<Rightarrow> None)"

definition match_marker :: "string \<Rightarrow> (string \<times> string) option" where
  "match_marker s =
     (case s of [] \<Rightarrow> None | c # t \<Rightarrow> bare_marker (if of_char c = (10 :: nat) then t else s))"

fun find_marker :: "string \<Rightarrow> string option" where
  "find_marker [] = None"
| "find_marker (c # s) = (case match_marker (c # s) of Some (k, _) \<Rightarrow> Some k | None \<Rightarrow> find_marker s)"

lemma bare_marker_shorter: "bare_marker s = Some (k, rest) \<Longrightarrow> length rest < length s"
proof -
  assume "bare_marker s = Some (k, rest)"
  then obtain c where "dropWhile key_char (drop (length marker_open) s) = c # rest"
    by (auto simp: bare_marker_def Let_def split: if_splits list.splits)
  then have "Suc (length rest) \<le> length (drop (length marker_open) s)"
    by (metis length_Cons length_dropWhile_le)
  then show ?thesis by simp
qed

lemma match_marker_shorter: "match_marker s = Some (k, rest) \<Longrightarrow> length rest < length s"
  by (cases s) (auto simp: match_marker_def dest!: bare_marker_shorter split: if_splits)

text \<open>\<open>_MARKER_RE.sub("", s)\<close>: one pass, from left to right.\<close>

function strip_markers :: "string \<Rightarrow> string" where
  "strip_markers s =
     (case match_marker s of
        Some (_, rest) \<Rightarrow> strip_markers rest
      | None \<Rightarrow> (case s of [] \<Rightarrow> [] | c # t \<Rightarrow> c # strip_markers t))"
  by auto
termination
  by (relation "measure length") (auto dest: match_marker_shorter)

declare strip_markers.simps [simp del]

definition extract_key :: "json \<Rightarrow> exn + string option" where
  "extract_key description =
     (if \<not> truthy description then Inr None
      else case description of JStr s \<Rightarrow> Inr (find_marker s) | _ \<Rightarrow> Inl (TypeError ''search''))"

definition strip_key :: "json \<Rightarrow> exn + string" where
  "strip_key description =
     (if \<not> truthy description then Inr []
      else case description of JStr s \<Rightarrow> Inr (strip_markers s) | _ \<Rightarrow> Inl (TypeError ''sub''))"

definition marker_of :: "string \<Rightarrow> string" where
  "marker_of key = marker_open @ key @ '']''"

definition embed_key :: "json \<Rightarrow> string \<Rightarrow> exn + string" where
  "embed_key description key =
     ebind (strip_key description) (\<lambda>base.
       Inr (if base \<noteq> [] then base @ [CHR 0x0A] @ marker_of key else marker_of key))"

section \<open>Push tokens\<close>

definition push_type :: json where
  "push_type = JStr ''push''"

datatype hydration = Keep monitor | Inline monitor | Unresolved monitor

definition token_of :: "(string \<times> string) list \<Rightarrow> json \<Rightarrow> exn + string option" where
  "token_of tokens key =
     (if \<not> truthy key then Inr None
      else case key of
        JStr k \<Rightarrow> Inr (case map_of tokens k of Some t \<Rightarrow> (if t = [] then None else Some t) | None \<Rightarrow> None)
      | _ \<Rightarrow> if hashable key then Inr None else Inl (TypeError ''unhashable''))"

definition hydrate_entry :: "(string \<times> string) list \<Rightarrow> monitor \<Rightarrow> exn + hydration" where
  "hydrate_entry tokens entry =
     (if \<not> py_eq (oget entry ''type'') push_type then Inr (Keep entry)
      else if truthy (oget entry ''pushToken'') then Inr (Inline entry)
      else
        ebind (token_of tokens (oget entry ''key'')) (\<lambda>t.
          Inr (case t of None \<Rightarrow> Unresolved entry | Some token \<Rightarrow> Keep (oset entry ''pushToken'' (JStr token)))))"

definition hydrate_push_tokens :: "monitor list \<Rightarrow> (string \<times> string) list \<Rightarrow> exn + monitor list" where
  "hydrate_push_tokens seed tokens =
     ebind (emap (hydrate_entry tokens) seed) (\<lambda>hs.
       if list_ex (\<lambda>h. case h of Inline _ \<Rightarrow> True | _ \<Rightarrow> False) hs then Inl (PushTokenError ''inline'')
       else if list_ex (\<lambda>h. case h of Unresolved _ \<Rightarrow> True | _ \<Rightarrow> False) hs then Inl (PushTokenError ''unresolved'')
       else Inr (concat (map (\<lambda>h. case h of Keep e \<Rightarrow> [e] | _ \<Rightarrow> []) hs)))"

section \<open>Comparing a monitor with its seed entry\<close>

definition writable_fields :: "string list" where
  "writable_fields =
     [''type'', ''name'', ''url'', ''hostname'', ''port'', ''interval'', ''retry_interval'', ''maxretries'', ''method'',
      ''keyword'', ''ignoreTls'', ''upsideDown'', ''accepted_statuscodes'', ''description'', ''httpBodyEncoding'',
      ''maxredirects'', ''parent'', ''resendInterval'', ''body'', ''headers'', ''basic_auth_user'', ''basic_auth_pass'',
      ''proxyId'', ''timeout'', ''dns_resolve_server'', ''dns_resolve_type'', ''pushToken'']"

definition comparable :: "monitor \<Rightarrow> exn + obj" where
  "comparable m =
     (let out = filter (\<lambda>kv. fst kv \<in> set writable_fields) m in
      case map_of out ''description'' of
        None \<Rightarrow> Inr out
      | Some d \<Rightarrow> ebind (strip_key d) (\<lambda>text. Inr (oset out ''description'' (JStr text))))"

fun has_notifications :: "json \<Rightarrow> bool" where
  "has_notifications (JObj kvs) = list_ex (\<lambda>kv. truthy (snd kv)) kvs"
| "has_notifications (JArr xs) = (xs \<noteq> [])"
| "has_notifications _ = False"

definition wants_notifications :: "monitor \<Rightarrow> json list \<Rightarrow> exn + bool" where
  "wants_notifications entry muted =
     ebind (py_iter (py_or (oget entry ''tags'') (JArr []))) (\<lambda>ts.
     ebind (py_set ts) (\<lambda>tags. Inr (\<not> list_ex (\<lambda>t. py_mem t tags) muted)))"

text \<open>\<open>list(dict.fromkeys(xs))\<close> on values.\<close>

fun py_fromkeys :: "json list \<Rightarrow> json list \<Rightarrow> json list" where
  "py_fromkeys seen [] = []"
| "py_fromkeys seen (x # xs) = (if py_mem x seen then py_fromkeys seen xs else x # py_fromkeys (x # seen) xs)"

definition as_tag :: "json \<Rightarrow> obj" where
  "as_tag t = (case t of JObj kvs \<Rightarrow> kvs | _ \<Rightarrow> [(''name'', t)])"

definition tag_drift :: "monitor \<Rightarrow> monitor \<Rightarrow> exn + json list \<times> obj list" where
  "tag_drift entry live =
     (if map_of entry ''tags'' = None then Inr ([], [])
      else
        ebind (py_iter (py_or (oget entry ''tags'') (JArr []))) (\<lambda>ts.
        ebind (py_set ts) (\<lambda>ts.
        ebind (py_iter (py_or (oget live ''tags'') (JArr []))) (\<lambda>ls.
        let wanted = py_fromkeys [] ts; tags = map as_tag ls in
        ebind (py_set (map (\<lambda>t. oget t ''name'') tags)) (\<lambda>names.
          Inr (filter (\<lambda>n. \<not> py_mem n names) wanted, filter (\<lambda>t. \<not> py_mem (oget t ''name'') wanted) tags))))))"

definition needs_edit :: "json list \<Rightarrow> bool \<Rightarrow> monitor \<Rightarrow> monitor \<Rightarrow> exn + bool" where
  "needs_edit muted has_default entry live =
     ebind (if has_default
            then ebind (wants_notifications entry muted) (\<lambda>w. Inr (has_notifications (oget live ''notificationIDList'') \<noteq> w))
            else Inr False) (\<lambda>notifications.
     if notifications then Inr True
     else
       ebind (tag_drift entry live) (\<lambda>(missing, extra).
       if missing \<noteq> [] \<or> extra \<noteq> [] then Inr True
       else
         ebind (if truthy (oget entry ''key'')
                then ebind (extract_key (oget live ''description'')) (\<lambda>k. Inr (k = None)) else Inr False) (\<lambda>unmarked.
         if unmarked then Inr True
         else
           ebind (comparable entry) (\<lambda>desired.
           ebind (comparable live) (\<lambda>current.
             Inr (list_ex (\<lambda>(f, v). v \<noteq> JNull \<and> \<not> py_eq (oget current f) v) desired))))))"

section \<open>The plan\<close>

text \<open>A live monitor with the key of its marker; the two indices are built of these.\<close>

definition keyed :: "monitor \<Rightarrow> exn + string option \<times> monitor" where
  "keyed m =
     ebind (extract_key (oget m ''description'')) (\<lambda>k.
       if hashable (oget_or m ''name'' (JStr [])) then Inr (k, m) else Inl (TypeError ''unhashable''))"

definition by_key :: "(string option \<times> monitor) list \<Rightarrow> json \<Rightarrow> exn + monitor option" where
  "by_key live key =
     (case key of
        JNull \<Rightarrow> Inr None
      | JStr k \<Rightarrow> Inr (map_of live (Some k))
      | _ \<Rightarrow> if hashable key then Inr None else Inl (TypeError ''unhashable''))"

definition by_name :: "(string option \<times> monitor) list \<Rightarrow> json \<Rightarrow> exn + monitor list" where
  "by_name live name =
     (if \<not> hashable name then Inl (TypeError ''unhashable'')
      else Inr (filter (\<lambda>m. py_eq (oget_or m ''name'' (JStr [])) name) (map snd live)))"

definition is_claimed :: "json list \<Rightarrow> monitor \<Rightarrow> exn + bool" where
  "is_claimed claimed m =
     ebind (index m ''id'') (\<lambda>i. if hashable i then Inr (py_mem i claimed) else Inl (TypeError ''unhashable''))"

fun first_free :: "json list \<Rightarrow> monitor list \<Rightarrow> exn + monitor option" where
  "first_free claimed [] = Inr None"
| "first_free claimed (m # ms) =
     ebind (is_claimed claimed m) (\<lambda>taken. if taken then first_free claimed ms else Inr (Some m))"

definition match_for :: "(string option \<times> monitor) list \<Rightarrow> json list \<Rightarrow> monitor \<Rightarrow> exn + monitor option" where
  "match_for live claimed entry =
     ebind (by_key live (oget entry ''key'')) (\<lambda>found.
     ebind (case found of None \<Rightarrow> Inr True | Some m \<Rightarrow> is_claimed claimed m) (\<lambda>fallback.
       if \<not> fallback then Inr found
       else ebind (by_name live (oget_or entry ''name'' (JStr []))) (first_free claimed)))"

type_synonym edit = "monitor \<times> monitor"

fun diff_loop ::
  "json list \<Rightarrow> bool \<Rightarrow> (string option \<times> monitor) list \<Rightarrow> json list \<Rightarrow> monitor list \<Rightarrow> edit list \<Rightarrow> monitor list \<Rightarrow>
     exn + json list \<times> monitor list \<times> edit list" where
  "diff_loop muted has_default live claimed create edit [] = Inr (claimed, create, edit)"
| "diff_loop muted has_default live claimed create edit (entry # seed) =
     ebind (match_for live claimed entry) (\<lambda>found.
       case found of
         None \<Rightarrow> diff_loop muted has_default live claimed (create @ [entry]) edit seed
       | Some m \<Rightarrow>
           ebind (index m ''id'') (\<lambda>i.
           ebind (if hashable i then Inr (claimed @ [i]) else Inl (TypeError ''unhashable'')) (\<lambda>claimed.
           ebind (needs_edit muted has_default entry m) (\<lambda>differs.
             diff_loop muted has_default live claimed create (if differs then edit @ [(m, entry)] else edit) seed))))"

definition diff_monitors ::
  "monitor list \<Rightarrow> monitor list \<Rightarrow> json list \<Rightarrow> bool \<Rightarrow> exn + monitor list \<times> edit list \<times> monitor list" where
  "diff_monitors seed live muted has_default =
     ebind (emap keyed live) (\<lambda>indexed.
     ebind (diff_loop muted has_default indexed [] [] [] seed) (\<lambda>(claimed, create, edit).
     ebind (efilter (\<lambda>m. ebind (is_claimed claimed m) (\<lambda>taken. Inr (\<not> taken))) live) (\<lambda>delete.
       Inr (create, edit, delete))))"

text \<open>The live monitors to pause.\<close>

definition monitors_to_pause :: "monitor list \<Rightarrow> monitor list \<Rightarrow> exn + monitor list" where
  "monitors_to_pause seed live =
     ebind (py_set (map (\<lambda>e. oget e ''key'') (filter (\<lambda>e. oget e ''active'' = JBool False) seed))) (\<lambda>declared.
       efilter (\<lambda>m. if \<not> truthy (oget m ''active'') then Inr False
                    else ebind (extract_key (oget m ''description'')) (\<lambda>k.
                      Inr (py_mem (case k of None \<Rightarrow> JNull | Some s \<Rightarrow> JStr s) declared))) live)"

end
