(* ===== verification/MonitorApply.thy ===== *)
theory MonitorApply
  imports Kubectl MonitorDiff
begin

text \<open>
  Applying the monitor sync, exporting the live monitors and the bootstrap, \<open>toolkit/features/monitoring.py\<close>. The
  outside party is the client of Uptime Kuma: a call is a method with its arguments, answered by a
  document or by the exception it raises. The merged configuration, the decrypted secrets and the files of
  the project are given as what reading them yields; \<open>_build_monitor_data\<close> of the client's library is a
  parameter. A command that raises \<open>SystemExit\<close> returns its code.
\<close>

datatype kuma_call =
    Open string
  | Login json json
  | GetNotifications
  | GetMonitors
  | GetMonitor json
  | GetTags
  | AddTag json json
  | AddMonitorTag json json json
  | DeleteMonitorTag json json json
  | AddMonitor obj
  | EditMonitor json obj
  | DeleteMonitor json
  | PauseMonitor json
  | NeedSetup
  | EmitSetup json json
  | SetupAck
  | Disconnect

type_synonym 's kuma = "kuma_call \<Rightarrow> 's \<Rightarrow> (exn + json) \<times> 's"

type_synonym ('s, 'a) kuma_act = "(kuma_call, 's, 'a) act"

record kuma_files =
  kf_merged :: "exn + json"
  kf_secrets :: "exn + json"
  kf_seed :: "(exn + json) option"
  kf_tags :: "(exn + json) option"

section \<open>Credentials and configuration\<close>

definition kuma_path :: "string list" where
  "kuma_path = [''apps'', ''services'', ''observability'', ''uptime_kuma'']"

definition kuma_secrets :: "kuma_files \<Rightarrow> exn + json" where
  "kuma_secrets f = ebind (kf_secrets f) (\<lambda>s. get_path (py_or s (JObj [])) kuma_path)"

record kuma_creds =
  kc_url :: string
  kc_host :: json
  kc_username :: json
  kc_password :: json

text \<open>\<open>None\<close> is an exit with one.\<close>

definition get_kuma_creds :: "kuma_files \<Rightarrow> exn + kuma_creds option" where
  "get_kuma_creds f =
     ebind (kf_merged f) (\<lambda>merged.
     ebind (get_path merged [''networking'', ''nodes'', ''rpi3'']) (\<lambda>node.
     ebind (get_path merged kuma_path) (\<lambda>svc.
     ebind (py_get_or node ''tailscale_ip'' (JStr [])) (\<lambda>host.
     ebind (py_get_or svc ''default_port'' (JInt 3001)) (\<lambda>port.
     ebind (kuma_secrets f) (\<lambda>secrets.
     ebind (py_get_or svc ''admin_user'' (JStr [])) (\<lambda>username.
     ebind (py_get_or secrets ''admin_password'' (JStr [])) (\<lambda>password.
       if \<not> truthy username \<or> \<not> truthy password then Inr None
       else Inr (Some \<lparr>kc_url = ''http://'' @ py_str host @ '':'' @ py_str port, kc_host = host,
                       kc_username = username, kc_password = password\<rparr>)))))))))"

definition kebab :: "string \<Rightarrow> string" where
  "kebab k = map (\<lambda>c. if c = CHR ''_'' then CHR ''-'' else c) k"

definition get_push_tokens :: "kuma_files \<Rightarrow> exn + (string \<times> string) list" where
  "get_push_tokens f =
     ebind (kuma_secrets f) (\<lambda>secrets.
     ebind (py_get secrets ''push_tokens'') (\<lambda>tokens.
     ebind (py_items (py_or tokens (JObj []))) (\<lambda>kvs.
       Inr (fold (\<lambda>(k, v) out. if truthy v then oset out (kebab k) (py_str v) else out) kvs []))))"

definition get_muted_tags :: "kuma_files \<Rightarrow> exn + json list" where
  "get_muted_tags f =
     ebind (kf_merged f) (\<lambda>merged.
     ebind (get_path merged kuma_path) (\<lambda>svc.
     ebind (py_get_or svc ''muted_notification_tags'' (JArr [])) (\<lambda>tags.
     ebind (py_iter tags) py_set)))"

definition kuma_connect :: "'s kuma \<Rightarrow> kuma_creds \<Rightarrow> ('s, unit) kuma_act" where
  "kuma_connect srv c =
     abind (ask srv (Open (kc_url c))) (\<lambda>_.
     abind (ask srv (Login (kc_username c) (kc_password c))) (\<lambda>_. ret ()))"

definition kuma_disconnect :: "'s kuma \<Rightarrow> ('s, unit) kuma_act" where
  "kuma_disconnect srv = abind (ask srv Disconnect) (\<lambda>_. ret ())"

section \<open>The plan\<close>

fun entry_of :: "json \<Rightarrow> exn + monitor" where
  "entry_of (JObj kvs) = Inr kvs"
| "entry_of _ = Inl (AttributeError ''get'')"

definition entries_of :: "json \<Rightarrow> exn + monitor list" where
  "entries_of doc = ebind (py_iter doc) (emap entry_of)"

fun declares_push :: "json list \<Rightarrow> exn + bool" where
  "declares_push [] = Inr False"
| "declares_push (m # ms) =
     ebind (py_get m ''type'') (\<lambda>t. if py_eq t push_type then Inr True else declares_push ms)"

definition read_seed :: "kuma_files \<Rightarrow> exn + json \<Rightarrow> exn + monitor list" where
  "read_seed f doc =
     ebind doc (\<lambda>seed.
     ebind (py_iter seed) (\<lambda>ms.
     ebind (declares_push ms) (\<lambda>push.
     ebind (if push then get_push_tokens f else Inr []) (\<lambda>tokens.
     ebind (emap entry_of ms) (\<lambda>entries. hydrate_push_tokens entries tokens)))))"

definition default_notifications :: "json \<Rightarrow> exn + json list" where
  "default_notifications answer =
     ebind (entries_of answer) (\<lambda>ns. emap (\<lambda>n. index n ''id'') (filter (\<lambda>n. truthy (oget n ''isDefault'')) ns))"

record sync_plan =
  sp_seed :: "monitor list"
  sp_defaults :: "json list"
  sp_muted :: "json list"
  sp_create :: "monitor list"
  sp_edit :: "edit list"
  sp_delete :: "monitor list"

definition plan_sync :: "'s kuma \<Rightarrow> kuma_files \<Rightarrow> exn + json \<Rightarrow> ('s, sync_plan) kuma_act" where
  "plan_sync srv f doc =
     abind (lift (read_seed f doc)) (\<lambda>seed.
     abind (ask srv GetNotifications) (\<lambda>ns.
     abind (lift (default_notifications ns)) (\<lambda>defaults.
     abind (lift (get_muted_tags f)) (\<lambda>muted.
     abind (ask srv GetMonitors) (\<lambda>answer.
     abind (lift (entries_of answer)) (\<lambda>live.
     abind (lift (diff_monitors seed live muted (defaults \<noteq> []))) (\<lambda>(create, edit, delete).
     abind (lift (monitors_to_pause seed live)) (\<lambda>_.
       ret \<lparr>sp_seed = seed, sp_defaults = defaults, sp_muted = muted,
            sp_create = create, sp_edit = edit, sp_delete = delete\<rparr>))))))))"

section \<open>Tags\<close>

text \<open>A dictionary from tag names to ids: the last assignment counts.\<close>

type_synonym tag_ids = "(json \<times> json) list"

definition tag_id :: "tag_ids \<Rightarrow> json \<Rightarrow> json option" where
  "tag_id ids name = map_option snd (find (\<lambda>kv. py_eq (fst kv) name) (rev ids))"

definition existing_tags :: "json \<Rightarrow> exn + tag_ids" where
  "existing_tags answer =
     ebind (entries_of answer) (emap (\<lambda>t.
       ebind (index t ''name'') (\<lambda>name. ebind (index t ''id'') (\<lambda>i.
         if hashable name then Inr (name, i) else Inl (TypeError ''unhashable'')))))"

text \<open>A tag that cannot be added is left out.\<close>

definition ensure_tag :: "'s kuma \<Rightarrow> tag_ids \<Rightarrow> json \<Rightarrow> tag_ids \<Rightarrow> ('s, tag_ids) kuma_act" where
  "ensure_tag srv existing tag ids =
     abind (lift (py_index tag ''name'')) (\<lambda>name.
     abind (lift (if hashable name then Inr () else Inl (TypeError ''unhashable''))) (\<lambda>_.
       case tag_id existing name of
         Some i \<Rightarrow> ret (ids @ [(name, i)])
       | None \<Rightarrow>
           attempt
             (abind (lift (py_index tag ''color'')) (\<lambda>color.
              abind (ask srv (AddTag name color)) (\<lambda>result.
              abind (lift (py_index result ''id'')) (\<lambda>i. ret (ids @ [(name, i)])))))
             (\<lambda>_. ret ids)))"

definition text_tag :: "json \<times> json \<Rightarrow> exn + unit" where
  "text_tag kv = (case fst kv of JStr _ \<Rightarrow> Inr () | _ \<Rightarrow> Inl (TypeError ''join''))"

definition ensure_tags :: "'s kuma \<Rightarrow> (exn + json) option \<Rightarrow> ('s, tag_ids) kuma_act" where
  "ensure_tags srv tags =
     (case tags of
        None \<Rightarrow> ret []
      | Some doc \<Rightarrow>
          abind (lift doc) (\<lambda>j.
          abind (ask srv GetTags) (\<lambda>answer.
          abind (lift (existing_tags answer)) (\<lambda>existing.
          abind (lift (py_iter j)) (\<lambda>seed_tags.
          abind (foreach (ensure_tag srv existing) seed_tags []) (\<lambda>ids.
          abind (lift (emap text_tag ids)) (\<lambda>_. ret ids)))))))"

definition add_missing_tag :: "'s kuma \<Rightarrow> tag_ids \<Rightarrow> monitor \<Rightarrow> json \<Rightarrow> unit \<Rightarrow> ('s, unit) kuma_act" where
  "add_missing_tag srv ids m name u =
     abind (lift (case tag_id ids name of None \<Rightarrow> Inl (KeyError ''tag'') | Some t \<Rightarrow> Inr t)) (\<lambda>t.
     abind (lift (index m ''id'')) (\<lambda>i.
     abind (ask srv (AddMonitorTag t i (JStr []))) (\<lambda>_. ret ())))"

definition drop_extra_tag :: "'s kuma \<Rightarrow> monitor \<Rightarrow> obj \<Rightarrow> unit \<Rightarrow> ('s, unit) kuma_act" where
  "drop_extra_tag srv m tag u =
     abind (lift (index tag ''tag_id'')) (\<lambda>t.
     abind (lift (index m ''id'')) (\<lambda>i.
     abind (ask srv (DeleteMonitorTag t i (py_or (oget tag ''value'') (JStr [])))) (\<lambda>_. ret ())))"

definition reconcile_tags :: "'s kuma \<Rightarrow> tag_ids \<Rightarrow> monitor \<Rightarrow> monitor \<Rightarrow> ('s, unit) kuma_act" where
  "reconcile_tags srv ids entry m =
     abind (lift (tag_drift entry m)) (\<lambda>(missing, extra).
       if list_ex (\<lambda>n. tag_id ids n = None) missing then throw (RuntimeError ''tags not declared'')
       else
         abind (foreach (add_missing_tag srv ids m) missing ()) (\<lambda>_.
           foreach (drop_extra_tag srv m) extra ()))"

section \<open>Deleting\<close>

definition monitor_gone :: string where
  "monitor_gone = ''Cannot read properties of null''"

definition is_gone :: "exn \<Rightarrow> bool" where
  "is_gone e = (case e of KumaException s \<Rightarrow> str_contains monitor_gone s | _ \<Rightarrow> False)"

definition still_here :: "'s kuma \<Rightarrow> json \<Rightarrow> json list \<Rightarrow> ('s, json list) kuma_act" where
  "still_here srv i found =
     attempt (abind (ask srv (GetMonitor i)) (\<lambda>_. ret (found @ [i])))
       (\<lambda>e. if is_gone e then ret found else throw e)"

definition delete_timeout :: int where
  "delete_timeout = 30 * second"

definition half_second :: int where
  "half_second = second div 2"

fun await_gone :: "nat \<Rightarrow> 's kuma \<Rightarrow> 's timer \<Rightarrow> int \<Rightarrow> json list \<Rightarrow> ('s, json list) kuma_act" where
  "await_gone 0 srv tm deadline pending = stuck"
| "await_gone (Suc k) srv tm deadline pending =
     (if pending = [] then ret []
      else
        abind (clock tm) (\<lambda>t.
          if \<not> t < deadline then ret pending
          else
            abind (foreach (still_here srv) pending []) (\<lambda>left.
            abind (if left \<noteq> [] then sleep tm half_second else ret ()) (\<lambda>_.
              await_gone k srv tm deadline left))))"

definition assert_deleted :: "'s kuma \<Rightarrow> 's timer \<Rightarrow> json list \<Rightarrow> ('s, unit) kuma_act" where
  "assert_deleted srv tm ids =
     (if ids = [] then ret ()
      else
        abind (clock tm) (\<lambda>t.
        abind (with_budget (\<lambda>fuel. await_gone fuel srv tm (t + delete_timeout) ids)) (\<lambda>pending.
          if pending \<noteq> [] then throw (RuntimeError ''still present'') else ret ())))"

definition delete_monitor :: "'s kuma \<Rightarrow> monitor \<Rightarrow> unit \<Rightarrow> ('s, unit) kuma_act" where
  "delete_monitor srv m u =
     abind (lift (index m ''id'')) (\<lambda>i. abind (ask srv (DeleteMonitor i)) (\<lambda>_. ret ()))"

definition delete_dropped :: "'s kuma \<Rightarrow> 's timer \<Rightarrow> monitor list \<Rightarrow> ('s, unit) kuma_act" where
  "delete_dropped srv tm delete =
     abind (foreach (delete_monitor srv) delete ()) (\<lambda>_.
     abind (lift (emap (\<lambda>m. index m ''id'') delete)) (assert_deleted srv tm))"

section \<open>Writing\<close>

definition api_field :: "string \<Rightarrow> string" where
  "api_field k = (if k = ''retry_interval'' then ''retryInterval'' else k)"

definition params_of :: "monitor \<Rightarrow> exn + obj" where
  "params_of m =
     (let params = map (\<lambda>(k, v). (api_field k, v)) (filter (\<lambda>(k, v). v \<noteq> JNull \<and> k \<in> set writable_fields) m) in
      if truthy (oget m ''key'')
      then ebind (embed_key (oget_or params ''description'' (JStr [])) (py_str (oget m ''key''))) (\<lambda>text.
        Inr (oset params ''description'' (JStr text)))
      else Inr params)"

definition notification_ids :: "sync_plan \<Rightarrow> monitor \<Rightarrow> exn + json" where
  "notification_ids p entry =
     ebind (wants_notifications entry (sp_muted p)) (\<lambda>wants.
       Inr (JObj (if wants then fold (\<lambda>i out. oset out (py_str i) (JBool True)) (sp_defaults p) [] else [])))"

definition with_notifications :: "sync_plan \<Rightarrow> monitor \<Rightarrow> obj \<Rightarrow> exn + obj" where
  "with_notifications p entry data =
     (if sp_defaults p = [] then Inr data
      else ebind (notification_ids p entry) (\<lambda>ids. Inr (oset data ''notificationIDList'' ids)))"

definition edit_params :: "sync_plan \<Rightarrow> monitor \<Rightarrow> exn + obj" where
  "edit_params p entry = ebind (params_of entry) (with_notifications p entry)"

type_synonym failures = "(string \<times> json) list"

definition edit_monitor :: "'s kuma \<Rightarrow> sync_plan \<Rightarrow> tag_ids \<Rightarrow> edit \<Rightarrow> ('s, unit) kuma_act" where
  "edit_monitor srv p ids e =
     abind (lift (edit_params p (snd e))) (\<lambda>params.
     abind (lift (index (fst e) ''id'')) (\<lambda>i.
     abind (ask srv (EditMonitor i params)) (\<lambda>_.
       reconcile_tags srv ids (snd e) (fst e))))"

definition tried :: "('s, unit) kuma_act \<Rightarrow> ('s, bool) kuma_act" where
  "tried m = attempt (abind m (\<lambda>_. ret True)) (\<lambda>_. ret False)"

definition edit_step :: "'s kuma \<Rightarrow> sync_plan \<Rightarrow> tag_ids \<Rightarrow> edit \<Rightarrow> failures \<Rightarrow> ('s, failures) kuma_act" where
  "edit_step srv p ids e failed =
     abind (tried (edit_monitor srv p ids e)) (\<lambda>ok.
       ret (if ok then failed else failed @ [(''edit'', oget (fst e) ''name'')]))"

text \<open>The payload of a new monitor; \<open>build\<close> is the library's \<open>_build_monitor_data\<close>.\<close>

definition create_data :: "(obj \<Rightarrow> exn + obj) \<Rightarrow> sync_plan \<Rightarrow> monitor \<Rightarrow> exn + obj" where
  "create_data build p m =
     ebind (params_of m) (\<lambda>params.
     let token = oget params ''pushToken'' in
     ebind (build (filter (\<lambda>kv. fst kv \<noteq> ''pushToken'') params)) (\<lambda>data.
     let data = oset data ''conditions'' (JArr []) in
       with_notifications p m (if truthy token then oset data ''pushToken'' token else data)))"

fun created_id :: "json \<Rightarrow> exn + json" where
  "created_id (JObj r) =
     (if \<not> truthy (oget_or r ''ok'' (JBool True)) then Inl (RuntimeError ''add'') else Inr (oget r ''monitorID''))"
| "created_id _ = Inr JNull"

definition create_monitor ::
  "'s kuma \<Rightarrow> (obj \<Rightarrow> exn + obj) \<Rightarrow> sync_plan \<Rightarrow> tag_ids \<Rightarrow> monitor \<Rightarrow> ('s, unit) kuma_act" where
  "create_monitor srv build p ids m =
     abind (lift (create_data build p m)) (\<lambda>data.
     abind (ask srv (AddMonitor data)) (\<lambda>r.
     abind (lift (created_id r)) (\<lambda>i.
       if truthy i then reconcile_tags srv ids m [(''id'', i), (''tags'', JArr [])] else ret ())))"

definition create_step ::
  "'s kuma \<Rightarrow> (obj \<Rightarrow> exn + obj) \<Rightarrow> sync_plan \<Rightarrow> tag_ids \<Rightarrow> monitor \<Rightarrow> failures \<Rightarrow> ('s, failures) kuma_act" where
  "create_step srv build p ids m failed =
     abind (tried (create_monitor srv build p ids m)) (\<lambda>ok.
       if ok then ret failed
       else abind (lift (index m ''name'')) (\<lambda>name. ret (failed @ [(''create'', name)])))"

definition pause_monitor :: "'s kuma \<Rightarrow> monitor \<Rightarrow> ('s, unit) kuma_act" where
  "pause_monitor srv m =
     abind (lift (index m ''id'')) (\<lambda>i. abind (ask srv (PauseMonitor i)) (\<lambda>_. ret ()))"

definition pause_step :: "'s kuma \<Rightarrow> monitor \<Rightarrow> failures \<Rightarrow> ('s, failures) kuma_act" where
  "pause_step srv m failed =
     abind (tried (pause_monitor srv m)) (\<lambda>ok.
       ret (if ok then failed else failed @ [(''pause'', oget m ''name'')]))"

definition pause_declared :: "'s kuma \<Rightarrow> sync_plan \<Rightarrow> failures \<Rightarrow> ('s, failures) kuma_act" where
  "pause_declared srv p failed =
     abind (ask srv GetMonitors) (\<lambda>answer.
     abind (lift (entries_of answer)) (\<lambda>live.
     abind (lift (monitors_to_pause (sp_seed p) live)) (\<lambda>paused.
       foreach (pause_step srv) paused failed)))"

definition write_plan ::
  "'s kuma \<Rightarrow> (obj \<Rightarrow> exn + obj) \<Rightarrow> sync_plan \<Rightarrow> tag_ids \<Rightarrow> ('s, failures) kuma_act" where
  "write_plan srv build p ids =
     abind (foreach (edit_step srv p ids) (sp_edit p) []) (\<lambda>failed.
     abind (foreach (create_step srv build p ids) (sp_create p) failed) (pause_declared srv p))"

definition apply_sync ::
  "'s kuma \<Rightarrow> 's timer \<Rightarrow> (obj \<Rightarrow> exn + obj) \<Rightarrow> kuma_files \<Rightarrow> sync_plan \<Rightarrow> ('s, nat) kuma_act" where
  "apply_sync srv tm build f p =
     abind (ensure_tags srv (kf_tags f)) (\<lambda>ids.
     abind (delete_dropped srv tm (sp_delete p)) (\<lambda>_.
     abind (write_plan srv build p ids) (\<lambda>failed. ret (if failed \<noteq> [] then 1 else 0))))"

section \<open>The commands\<close>

definition run_sync ::
  "'s kuma \<Rightarrow> 's timer \<Rightarrow> (obj \<Rightarrow> exn + obj) \<Rightarrow> kuma_files \<Rightarrow> bool \<Rightarrow> bool \<Rightarrow> ('s, nat) kuma_act" where
  "run_sync srv tm build f check_only prune =
     (case kf_seed f of
        None \<Rightarrow> ret 1
      | Some doc \<Rightarrow>
          abind (plan_sync srv f doc) (\<lambda>p.
            if check_only then ret 0
            else if sp_delete p \<noteq> [] \<and> \<not> prune then ret 1
            else apply_sync srv tm build f p))"

definition connected :: "'s kuma \<Rightarrow> kuma_files \<Rightarrow> ('s, nat) kuma_act \<Rightarrow> ('s, nat) kuma_act" where
  "connected srv f m =
     abind (lift (get_kuma_creds f)) (\<lambda>creds. case creds of
       None \<Rightarrow> ret 1
     | Some c \<Rightarrow> abind (kuma_connect srv c) (\<lambda>_. finally_do m (kuma_disconnect srv)))"

definition apply_monitors ::
  "'s kuma \<Rightarrow> 's timer \<Rightarrow> (obj \<Rightarrow> exn + obj) \<Rightarrow> kuma_files \<Rightarrow> bool \<Rightarrow> bool \<Rightarrow> ('s, nat) kuma_act" where
  "apply_monitors srv tm build f check_only prune = connected srv f (run_sync srv tm build f check_only prune)"

text \<open>The callback of \<open>setup\<close> fills \<open>result\<close>; looking at it is \<open>SetupAck\<close>.\<close>

definition settle_time :: int where
  "settle_time = second"

definition setup_timeout :: int where
  "setup_timeout = 60 * second"

fun await_setup :: "nat \<Rightarrow> 's kuma \<Rightarrow> 's timer \<Rightarrow> int \<Rightarrow> ('s, unit) kuma_act" where
  "await_setup 0 srv tm deadline = stuck"
| "await_setup (Suc k) srv tm deadline =
     abind (ask srv SetupAck) (\<lambda>result.
       if truthy result then ret ()
       else
         abind (clock tm) (\<lambda>t.
           if \<not> t < deadline then ret ()
           else abind (sleep tm half_second) (\<lambda>_. await_setup k srv tm deadline)))"

definition run_setup :: "'s kuma \<Rightarrow> 's timer \<Rightarrow> kuma_creds \<Rightarrow> ('s, unit) kuma_act" where
  "run_setup srv tm c =
     abind (sleep tm settle_time) (\<lambda>_.
     abind (ask srv (EmitSetup (kc_username c) (kc_password c))) (\<lambda>_.
     abind (clock tm) (\<lambda>t.
     abind (with_budget (\<lambda>fuel. await_setup fuel srv tm (t + setup_timeout))) (\<lambda>_.
     abind (ask srv SetupAck) (\<lambda>result.
       if \<not> truthy result then throw (TimeoutExpired ''setup'')
       else
         abind (lift (py_get_or result ''ok'' (JBool False))) (\<lambda>ok.
           if \<not> truthy ok then throw (RuntimeError ''setup'') else ret ()))))))"

definition bootstrap ::
  "'s kuma \<Rightarrow> 's timer \<Rightarrow> (obj \<Rightarrow> exn + obj) \<Rightarrow> kuma_files \<Rightarrow> ('s, nat) kuma_act" where
  "bootstrap srv tm build f =
     abind (lift (get_kuma_creds f)) (\<lambda>creds. case creds of
       None \<Rightarrow> ret 1
     | Some c \<Rightarrow>
         abind (ask srv (Open (kc_url c))) (\<lambda>_.
         abind (sleep tm settle_time) (\<lambda>_.
         abind (ask srv NeedSetup) (\<lambda>fresh.
         abind (if truthy fresh then run_setup srv tm c else ret ()) (\<lambda>_.
         abind (kuma_disconnect srv) (\<lambda>_.
           if \<not> truthy fresh then ret 0 else apply_monitors srv tm build f False False))))))"

section \<open>Exporting\<close>

definition export_fields :: "string list" where
  "export_fields =
     [''name'', ''type'', ''url'', ''hostname'', ''port'', ''interval'', ''retry_interval'', ''maxretries'', ''method'', ''keyword'',
      ''ignoreTls'', ''upsideDown'', ''accepted_statuscodes'', ''description'', ''active'', ''httpBodyEncoding'', ''maxredirects'',
      ''notificationIDList'', ''parent'', ''tags'', ''dns_resolve_server'', ''dns_resolve_type'']"

definition notification_fields :: "string list" where
  "notification_fields = [''name'', ''type'', ''isDefault'', ''active'', ''config'']"

definition keep_fields :: "string list \<Rightarrow> obj \<Rightarrow> obj" where
  "keep_fields kept m = List.map_filter (\<lambda>k. map_option (\<lambda>v. (k, v)) (map_of m k)) kept"

definition tag_names :: "json \<Rightarrow> exn + json" where
  "tag_names tags = ebind (py_iter tags) (\<lambda>ts. ebind (emap (\<lambda>t. py_index t ''name'') ts) (\<lambda>names. Inr (JArr names)))"

definition clean_monitor :: "monitor \<Rightarrow> exn + monitor" where
  "clean_monitor m =
     (let clean = keep_fields export_fields m;
          clean = (if oget clean ''type'' = JStr ''dns'' then clean
                   else filter (\<lambda>kv. fst kv \<notin> {''dns_resolve_server'', ''dns_resolve_type''}) clean) in
      ebind (case map_of clean ''tags'' of
               None \<Rightarrow> Inr clean
             | Some tags \<Rightarrow> ebind (tag_names tags) (\<lambda>names. Inr (oset clean ''tags'' names))) (\<lambda>clean.
      ebind (extract_key (oget clean ''description'')) (\<lambda>key. case key of
        None \<Rightarrow> Inr clean
      | Some k \<Rightarrow>
          ebind (strip_key (oget clean ''description'')) (\<lambda>text.
            Inr ((''key'', JStr k) # oset clean ''description'' (JStr text))))))"

definition clean_notification :: "obj \<Rightarrow> obj" where
  "clean_notification n = keep_fields notification_fields n"

definition position_of :: "json list \<Rightarrow> json \<Rightarrow> nat" where
  "position_of keys k =
     (case find (\<lambda>(i, k'). py_eq k' k) (rev (enumerate 0 keys)) of
        Some (i, _) \<Rightarrow> i
      | None \<Rightarrow> length (py_remdups keys))"

definition in_seed_order :: "monitor list \<Rightarrow> (exn + json) option \<Rightarrow> exn + monitor list" where
  "in_seed_order ms seed_file =
     (case seed_file of
        None \<Rightarrow> Inr ms
      | Some doc \<Rightarrow>
          ebind doc (\<lambda>j.
          ebind (entries_of j) (\<lambda>seed.
          ebind (py_set (map (\<lambda>e. oget e ''key'') seed)) (\<lambda>keys.
            Inr (sort_key (\<lambda>m. position_of keys (oget m ''key'')) ms)))))"

definition keys_dropped :: "monitor list \<Rightarrow> (exn + json) option \<Rightarrow> exn + json list" where
  "keys_dropped ms seed_file =
     (case seed_file of
        None \<Rightarrow> Inr []
      | Some doc \<Rightarrow>
          ebind doc (\<lambda>j.
          ebind (entries_of j) (\<lambda>seed.
          ebind (py_set (map (\<lambda>m. oget m ''key'') ms)) (\<lambda>exported.
          ebind (py_set (map (\<lambda>e. oget e ''key'') (filter (\<lambda>e. truthy (oget e ''key'')) seed))) (\<lambda>declared.
            py_sorted (py_diff declared exported))))))"

text \<open>What the two files hold after an export; \<open>None\<close> is the refusal, with code one and nothing written.\<close>

definition export_contents :: "'s kuma \<Rightarrow> kuma_files \<Rightarrow> ('s, (monitor list \<times> obj list) option) kuma_act" where
  "export_contents srv f =
     abind (ask srv GetMonitors) (\<lambda>live.
     abind (ask srv GetNotifications) (\<lambda>answer.
     abind (lift (ebind (entries_of live) (emap clean_monitor))) (\<lambda>ms.
     abind (lift (entries_of answer)) (\<lambda>ns.
     abind (lift (keys_dropped ms (kf_seed f))) (\<lambda>dropped.
       if dropped \<noteq> [] then ret None
       else abind (lift (in_seed_order ms (kf_seed f))) (\<lambda>ordered. ret (Some (ordered, map clean_notification ns))))))))"

definition export_monitors ::
  "'s kuma \<Rightarrow> kuma_files \<Rightarrow> ('s, (monitor list \<times> obj list) option) kuma_act" where
  "export_monitors srv f =
     abind (lift (get_kuma_creds f)) (\<lambda>creds. case creds of
       None \<Rightarrow> ret None
     | Some c \<Rightarrow> abind (kuma_connect srv c) (\<lambda>_. finally_do (export_contents srv f) (kuma_disconnect srv)))"

end
