(* ===== verification/MonitorDiffFacts.thy ===== *)
theory MonitorDiffFacts
  imports MonitorDiff
begin

text \<open>
  The plan of the monitor sync: it is one matching of the seed with the live monitors, and where every
  entry's key is stamped on a monitor, that matching goes by key and not by name.
\<close>

section \<open>Live monitors\<close>

text \<open>Live monitors as the API lists them: each has an integer id, and no two the same.\<close>

definition has_id :: "monitor \<Rightarrow> bool" where
  "has_id m = (case map_of m ''id'' of Some (JInt _) \<Rightarrow> True | _ \<Rightarrow> False)"

abbreviation id_of :: "monitor \<Rightarrow> json" where
  "id_of m \<equiv> oget m ''id''"

abbreviation name_of :: "monitor \<Rightarrow> json" where
  "name_of m \<equiv> oget_or m ''name'' (JStr [])"

definition numbered :: "monitor list \<Rightarrow> bool" where
  "numbered live \<longleftrightarrow> list_all has_id live \<and> distinct (map id_of live)"

lemma has_id_simps:
  assumes "has_id m"
  shows "index m ''id'' = Inr (id_of m)" "hashable (id_of m)"
  using assms by (auto simp: has_id_def oget_def lookup_or_def split: option.splits json.splits)

lemma has_id_mem:
  assumes "has_id m" and "\<forall>i \<in> set claimed. \<exists>m \<in> set live. has_id m \<and> i = id_of m"
  shows "py_mem (id_of m) claimed \<longleftrightarrow> id_of m \<in> set claimed"
proof -
  have "py_eq (id_of m) i \<longleftrightarrow> id_of m = i" if "i \<in> set claimed" for i
    using assms that by (fastforce simp: has_id_def oget_def split: option.splits json.splits)
  then show ?thesis by (auto simp: py_mem_def list_ex_iff)
qed

lemma is_claimed_ids:
  assumes "numbered live" and "set claimed \<subseteq> id_of ` set live" and "m \<in> set live"
  shows "is_claimed claimed m = Inr (id_of m \<in> set claimed)"
proof -
  from assms have ids: "has_id m" "\<forall>i \<in> set claimed. \<exists>m \<in> set live. has_id m \<and> i = id_of m"
    by (auto simp: numbered_def list_all_iff)
  then show ?thesis by (simp add: is_claimed_def has_id_simps has_id_mem)
qed

lemma numbered_inj: "numbered live \<Longrightarrow> m \<in> set live \<Longrightarrow> m' \<in> set live \<Longrightarrow> id_of m = id_of m' \<Longrightarrow> m = m'"
  by (auto simp: numbered_def distinct_map dest: inj_onD)

section \<open>One entry\<close>

lemma find_SomeD: "List.find P xs = Some x \<Longrightarrow> x \<in> set xs \<and> P x"
  by (induction xs) (auto split: if_splits)

lemma first_free_ids:
  assumes "numbered live" and "set claimed \<subseteq> id_of ` set live" and "set ms \<subseteq> set live"
  shows "first_free claimed ms = Inr (List.find (\<lambda>m. id_of m \<notin> set claimed) ms)"
  using assms(3) by (induction ms) (simp_all add: is_claimed_ids [OF assms(1,2)])

text \<open>The matching of one entry: by its key, or else by its name, an unclaimed monitor.\<close>

definition same_key :: "(string option \<times> monitor) list \<Rightarrow> monitor \<Rightarrow> monitor \<Rightarrow> bool" where
  "same_key indexed e m \<longleftrightarrow> (\<exists>k. oget e ''key'' = JStr k \<and> map_of indexed (Some k) = Some m)"

lemma by_key_same: "by_key indexed (oget e ''key'') = Inr (Some m) \<longleftrightarrow> same_key indexed e m"
  by (auto simp: by_key_def same_key_def split: json.splits)

lemma match_for_Some:
  assumes "numbered live" and "set claimed \<subseteq> id_of ` set live" and "map snd indexed = live"
    and "match_for indexed claimed e = Inr (Some m)"
  shows "m \<in> set live" "id_of m \<notin> set claimed" "same_key indexed e m \<or> py_eq (name_of m) (name_of e)"
proof -
  have found: "x \<in> set live" if "same_key indexed e x" for x
    using that assms(3) by (force simp: same_key_def dest!: map_of_SomeD)
  from assms(4) obtain o' where o': "by_key indexed (oget e ''key'') = Inr o'" by (auto simp: match_for_def)
  have fallback: "m \<in> set live \<and> id_of m \<notin> set claimed \<and> py_eq (name_of m) (name_of e)"
    if "ebind (by_name indexed (name_of e)) (first_free claimed) = Inr (Some m)"
    using that first_free_ids [OF assms(1,2)] assms(3)
    by (auto simp: by_name_def dest!: find_SomeD split: if_splits)
  have "m \<in> set live \<and> id_of m \<notin> set claimed \<and> (same_key indexed e m \<or> py_eq (name_of m) (name_of e))"
  proof (cases o')
    case None
    with assms(4) o' fallback show ?thesis by (simp add: match_for_def)
  next
    case (Some x)
    with o' have x: "same_key indexed e x" by (simp add: by_key_same)
    with assms(4) o' Some fallback found [OF x] is_claimed_ids [OF assms(1,2) found [OF x]]
    show ?thesis by (auto simp: match_for_def split: if_splits)
  qed
  then show "m \<in> set live" "id_of m \<notin> set claimed" "same_key indexed e m \<or> py_eq (name_of m) (name_of e)" by auto
qed

lemma match_for_None:
  assumes "numbered live" and "set claimed \<subseteq> id_of ` set live" and "map snd indexed = live"
    and "match_for indexed claimed e = Inr None" and "m \<in> set live" and "py_eq (name_of m) (name_of e)"
  shows "id_of m \<in> set claimed"
proof -
  from assms(4) have "ebind (by_name indexed (name_of e)) (first_free claimed) = Inr None"
    by (auto simp: match_for_def split: if_splits option.splits)
  then show ?thesis
    using first_free_ids [OF assms(1,2)] assms(3,5,6)
    by (auto simp: by_name_def find_None_iff split: if_splits)
qed

section \<open>The whole plan\<close>

text \<open>A matching gives every seed entry a live monitor or none.\<close>

definition paired :: "monitor list \<Rightarrow> monitor option list \<Rightarrow> edit list" where
  "paired seed ms = List.map_filter (\<lambda>(e, m). map_option (\<lambda>m. (m, e)) m) (zip seed ms)"

definition unmatched :: "monitor list \<Rightarrow> monitor option list \<Rightarrow> monitor list" where
  "unmatched seed ms = map fst (filter (\<lambda>(e, m). m = None) (zip seed ms))"

lemma paired_simps [simp]:
  "paired [] ms = []"
  "paired (e # seed) (Some m # ms) = (m, e) # paired seed ms"
  "paired (e # seed) (None # ms) = paired seed ms"
  by (simp_all add: paired_def List.map_filter_simps)

lemma unmatched_simps [simp]:
  "unmatched [] ms = []"
  "unmatched (e # seed) (Some m # ms) = unmatched seed ms"
  "unmatched (e # seed) (None # ms) = e # unmatched seed ms"
  by (simp_all add: unmatched_def)

definition is_matching ::
  "(string option \<times> monitor) list \<Rightarrow> json list \<Rightarrow> monitor list \<Rightarrow> monitor option list \<Rightarrow> bool" where
  "is_matching indexed claimed seed ms \<longleftrightarrow>
     length ms = length seed \<and>
     (\<forall>(m, e) \<in> set (paired seed ms). m \<in> snd ` set indexed \<and> id_of m \<notin> set claimed \<and>
        (same_key indexed e m \<or> py_eq (name_of m) (name_of e))) \<and>
     distinct (map (\<lambda>(m, _). id_of m) (paired seed ms)) \<and>
     (\<forall>e \<in> set (unmatched seed ms). \<forall>m \<in> snd ` set indexed. py_eq (name_of m) (name_of e) \<longrightarrow>
        id_of m \<in> set claimed \<or> m \<in> fst ` set (paired seed ms))"

lemma diff_loop_matching:
  assumes "numbered live" and "map snd indexed = live" and "set claimed \<subseteq> id_of ` set live"
    and "diff_loop muted has_default indexed claimed create edit seed = Inr (claimed', create', edit')"
  shows "\<exists>ms. is_matching indexed claimed seed ms \<and> create' = create @ unmatched seed ms \<and>
    claimed' = claimed @ map (\<lambda>(m, _). id_of m) (paired seed ms) \<and>
    edit' = edit @ filter (\<lambda>(m, e). needs_edit muted has_default e m = Inr True) (paired seed ms) \<and>
    (\<forall>(m, e) \<in> set (paired seed ms). \<exists>b. needs_edit muted has_default e m = Inr b)"
  using assms(3,4)
proof (induction seed arbitrary: claimed create edit)
  case Nil
  then show ?case by (simp add: is_matching_def)
next
  case (Cons e seed)
  have live: "snd ` set indexed = set live" using assms(2) by (metis list.set_map)
  from Cons.prems(2) obtain found where found: "match_for indexed claimed e = Inr found" by auto
  show ?case
  proof (cases found)
    case None
    with Cons.prems found have "diff_loop muted has_default indexed claimed (create @ [e]) edit seed = Inr (claimed', create', edit')"
      by simp
    from Cons.IH [OF Cons.prems(1) this] obtain ms where ms: "is_matching indexed claimed seed ms"
      "create' = (create @ [e]) @ unmatched seed ms" "claimed' = claimed @ map (\<lambda>(m, _). id_of m) (paired seed ms)"
      "edit' = edit @ filter (\<lambda>(m, e). needs_edit muted has_default e m = Inr True) (paired seed ms)"
      "\<forall>(m, e) \<in> set (paired seed ms). \<exists>b. needs_edit muted has_default e m = Inr b" by blast
    have "\<forall>m \<in> snd ` set indexed. py_eq (name_of m) (name_of e) \<longrightarrow> id_of m \<in> set claimed"
      using match_for_None [OF assms(1) Cons.prems(1) assms(2)] found None live by blast
    with ms(1) have "is_matching indexed claimed (e # seed) (None # ms)" by (simp add: is_matching_def)
    with ms show ?thesis by (intro exI [of _ "None # ms"]) simp
  next
    case (Some m)
    note m = match_for_Some [OF assms(1) Cons.prems(1) assms(2) found [unfolded Some]]
    from m(1) assms(1) have "has_id m" by (auto simp: numbered_def list_all_iff)
    with Cons.prems found Some obtain b where b: "needs_edit muted has_default e m = Inr b"
      "diff_loop muted has_default indexed (claimed @ [id_of m]) create (if b then edit @ [(m, e)] else edit) seed =
         Inr (claimed', create', edit')"
      by (auto simp: has_id_simps)
    have "set (claimed @ [id_of m]) \<subseteq> id_of ` set live" using Cons.prems(1) m(1) by simp
    from Cons.IH [OF this b(2)] obtain ms where ms: "is_matching indexed (claimed @ [id_of m]) seed ms"
      "create' = create @ unmatched seed ms" "claimed' = (claimed @ [id_of m]) @ map (\<lambda>(m, _). id_of m) (paired seed ms)"
      "edit' = (if b then edit @ [(m, e)] else edit) @
         filter (\<lambda>(m, e). needs_edit muted has_default e m = Inr True) (paired seed ms)"
      "\<forall>(m, e) \<in> set (paired seed ms). \<exists>b. needs_edit muted has_default e m = Inr b" by blast
    have same: "x = m" if "x \<in> snd ` set indexed" "id_of x = id_of m" for x
      using numbered_inj [OF assms(1)] that m(1) live by blast
    have "is_matching indexed claimed (e # seed) (Some m # ms)"
      unfolding is_matching_def
    proof (intro conjI)
      show "\<forall>(m', e') \<in> set (paired (e # seed) (Some m # ms)). m' \<in> snd ` set indexed \<and> id_of m' \<notin> set claimed \<and>
          (same_key indexed e' m' \<or> py_eq (name_of m') (name_of e'))"
        using ms(1) m live unfolding is_matching_def by fastforce
      show "distinct (map (\<lambda>(m, _). id_of m) (paired (e # seed) (Some m # ms)))"
        using ms(1) unfolding is_matching_def by fastforce
      show "\<forall>e' \<in> set (unmatched (e # seed) (Some m # ms)). \<forall>m' \<in> snd ` set indexed. py_eq (name_of m') (name_of e') \<longrightarrow>
          id_of m' \<in> set claimed \<or> m' \<in> fst ` set (paired (e # seed) (Some m # ms))"
      proof (intro ballI impI)
        fix e' m'
        assume e': "e' \<in> set (unmatched (e # seed) (Some m # ms))" and m': "m' \<in> snd ` set indexed" "py_eq (name_of m') (name_of e')"
        from e' m' ms(1) have "id_of m' \<in> set (claimed @ [id_of m]) \<or> m' \<in> fst ` set (paired seed ms)"
          unfolding is_matching_def unmatched_simps by blast
        with same [OF m'(1)] show "id_of m' \<in> set claimed \<or> m' \<in> fst ` set (paired (e # seed) (Some m # ms))" by auto
      qed
    qed (use ms(1) in \<open>simp add: is_matching_def\<close>)
    with ms b show ?thesis by (intro exI [of _ "Some m # ms"]) auto
  qed
qed

lemma keyed_snd: "emap keyed live = Inr indexed \<Longrightarrow> map snd indexed = live"
  by (induction live arbitrary: indexed) (auto simp: keyed_def split: if_splits)

lemma diff_monitors_parts:
  assumes "numbered live" and "diff_monitors seed live muted has_default = Inr (create, edit, delete)"
  obtains indexed claimed where "emap keyed live = Inr indexed" "map snd indexed = live"
    "diff_loop muted has_default indexed [] [] [] seed = Inr (claimed, create, edit)" "set claimed \<subseteq> id_of ` set live"
    "delete = filter (\<lambda>m. id_of m \<notin> set claimed) live"
proof -
  from assms(2) obtain indexed claimed where parts: "emap keyed live = Inr indexed"
    "diff_loop muted has_default indexed [] [] [] seed = Inr (claimed, create, edit)"
    "efilter (\<lambda>m. ebind (is_claimed claimed m) (\<lambda>taken. Inr (\<not> taken))) live = Inr delete"
    by (auto simp: diff_monitors_def)
  note snd = keyed_snd [OF parts(1)]
  from diff_loop_matching [OF assms(1) snd _ parts(2)] obtain ms where ms: "is_matching indexed [] seed ms"
    "claimed = map (\<lambda>(m, _). id_of m) (paired seed ms)" by auto
  then have sub: "set claimed \<subseteq> id_of ` set live" using snd by (fastforce simp: is_matching_def)
  have "delete = filter (\<lambda>m. id_of m \<notin> set claimed) live"
    using parts(3) efilter_total [of live "\<lambda>m. ebind (is_claimed claimed m) (\<lambda>taken. Inr (\<not> taken))" "\<lambda>m. id_of m \<notin> set claimed"]
      is_claimed_ids [OF assms(1) sub] by simp
  with that parts snd sub show thesis by blast
qed

text \<open>C30. The plan is one matching of the seed with the live monitors. No monitor answers two entries, and every
  matched one bears the entry's key or its name; the entries left over are created, the matched pairs that
  differ are edited, the monitors left over are deleted. A monitor is never deleted while an entry of its
  name is created.\<close>

theorem diff_is_matching:
  assumes "numbered live" and "diff_monitors seed live muted has_default = Inr (create, edit, delete)"
  shows "\<exists>indexed ms. emap keyed live = Inr indexed \<and> is_matching indexed [] seed ms \<and> create = unmatched seed ms
    \<and> edit = filter (\<lambda>(m, e). needs_edit muted has_default e m = Inr True) (paired seed ms)
    \<and> delete = filter (\<lambda>m. m \<notin> fst ` set (paired seed ms)) live
    \<and> (\<forall>m \<in> set delete. \<forall>e \<in> set create. \<not> py_eq (name_of m) (name_of e))"
proof -
  from assms obtain indexed claimed where parts: "emap keyed live = Inr indexed" "map snd indexed = live"
    "diff_loop muted has_default indexed [] [] [] seed = Inr (claimed, create, edit)" "set claimed \<subseteq> id_of ` set live"
    "delete = filter (\<lambda>m. id_of m \<notin> set claimed) live" by (rule diff_monitors_parts)
  from diff_loop_matching [OF assms(1) parts(2) _ parts(3)] obtain ms where ms: "is_matching indexed [] seed ms"
    "create = unmatched seed ms" "claimed = map (\<lambda>(m, _). id_of m) (paired seed ms)"
    "edit = filter (\<lambda>(m, e). needs_edit muted has_default e m = Inr True) (paired seed ms)" by auto
  have live: "set live = snd ` set indexed" using parts(2) by (metis list.set_map)
  have ids: "id_of m \<in> set claimed \<longleftrightarrow> m \<in> fst ` set (paired seed ms)" if "m \<in> set live" for m
  proof -
    have "fst ` set (paired seed ms) \<subseteq> set live" using ms(1) live by (fastforce simp: is_matching_def)
    moreover have "set claimed = id_of ` fst ` set (paired seed ms)" unfolding ms(3) by (simp add: image_image split_def)
    ultimately show ?thesis using numbered_inj [OF assms(1) that] by blast
  qed
  then have delete: "delete = filter (\<lambda>m. m \<notin> fst ` set (paired seed ms)) live"
    unfolding parts(5) by (intro filter_cong) auto
  have "\<not> py_eq (name_of m) (name_of e)" if "m \<in> set delete" "e \<in> set create" for m e
    using that ms(1,2) delete live by (auto simp: is_matching_def)
  with parts ms delete show ?thesis by (intro exI [of _ indexed] exI [of _ ms]) auto
qed

section \<open>Matching by key\<close>

text \<open>The key stamped on a monitor.\<close>

definition stamped :: "monitor \<Rightarrow> string option" where
  "stamped m = (case extract_key (oget m ''description'') of Inr k \<Rightarrow> k | Inl _ \<Rightarrow> None)"

lemma keyed_fst: "emap keyed live = Inr indexed \<Longrightarrow> map fst indexed = map stamped live"
  by (induction live arbitrary: indexed) (auto simp: keyed_def stamped_def split: if_splits)

lemma same_key_stamped:
  assumes "emap keyed live = Inr indexed" and "same_key indexed e m"
  shows "\<exists>k. oget e ''key'' = JStr k \<and> stamped m = Some k \<and> m \<in> set live"
proof -
  from assms(2) obtain k where k: "oget e ''key'' = JStr k" "(Some k, m) \<in> set indexed"
    by (auto simp: same_key_def dest: map_of_SomeD)
  then obtain i where i: "i < length indexed" "indexed ! i = (Some k, m)" by (auto simp: in_set_conv_nth)
  from i have "map fst indexed ! i = Some k" "map snd indexed ! i = m" by simp_all
  then have "stamped (live ! i) = Some k" "live ! i = m" "i < length live"
    using keyed_fst [OF assms(1)] keyed_snd [OF assms(1)] i(1) by (metis length_map nth_map)+
  with k(1) show ?thesis by auto
qed

lemma map_of_only:
  assumes "distinct (filter (\<lambda>k. k \<noteq> None) (map fst xs))" and "(Some k, m) \<in> set xs"
  shows "map_of xs (Some k) = Some m"
  using assms by (induction xs) (force split: if_splits)+

lemma stamped_same_key:
  assumes "emap keyed live = Inr indexed" and "distinct (filter (\<lambda>k. k \<noteq> None) (map stamped live))"
    and "m \<in> set live" and "stamped m = Some k" and "oget e ''key'' = JStr k"
  shows "same_key indexed e m"
proof -
  from assms(3) obtain i where i: "i < length live" "live ! i = m" by (auto simp: in_set_conv_nth)
  moreover have "length indexed = length live" using keyed_snd [OF assms(1)] by (metis length_map)
  ultimately have "indexed ! i = (Some k, m)"
    using keyed_fst [OF assms(1)] keyed_snd [OF assms(1)] assms(4) by (metis nth_map prod.collapse)
  then have "(Some k, m) \<in> set indexed" using i \<open>length indexed = length live\<close> by (metis nth_mem)
  with map_of_only [of indexed k m] assms(2,5) keyed_fst [OF assms(1)] show ?thesis by (simp add: same_key_def)
qed

lemma diff_loop_keys:
  assumes "numbered live" and "emap keyed live = Inr indexed" and "set claimed \<subseteq> id_of ` set live"
    and "\<forall>e \<in> set seed. \<exists>m. same_key indexed e m \<and> id_of m \<notin> set claimed"
    and "distinct (map (\<lambda>e. oget e ''key'') seed)"
    and "diff_loop muted has_default indexed claimed create edit seed = Inr (claimed', create', edit')"
  shows "create' = create \<and> (\<forall>(m, e) \<in> set edit'. (m, e) \<in> set edit \<or> same_key indexed e m) \<and>
    set claimed \<subseteq> set claimed' \<and> (\<forall>e \<in> set seed. \<forall>m. same_key indexed e m \<longrightarrow> id_of m \<in> set claimed')"
  using assms(3-6)
proof (induction seed arbitrary: claimed edit)
  case Nil
  then show ?case by auto
next
  case (Cons e seed)
  from Cons.prems(2) obtain m where m: "same_key indexed e m" "id_of m \<notin> set claimed" by auto
  from same_key_stamped [OF assms(2) m(1)] have live: "m \<in> set live" by blast
  then have "has_id m" using assms(1) by (auto simp: numbered_def list_all_iff)
  have "match_for indexed claimed e = Inr (Some m)"
    using m by_key_same [of indexed e m] is_claimed_ids [OF assms(1) Cons.prems(1) live] by (simp add: match_for_def)
  with Cons.prems(4) \<open>has_id m\<close> obtain b where b:
    "diff_loop muted has_default indexed (claimed @ [id_of m]) create (if b then edit @ [(m, e)] else edit) seed =
       Inr (claimed', create', edit')"
    by (auto simp: has_id_simps)
  have sub: "set (claimed @ [id_of m]) \<subseteq> id_of ` set live" using Cons.prems(1) live by simp
  have free: "\<forall>e' \<in> set seed. \<exists>m'. same_key indexed e' m' \<and> id_of m' \<notin> set (claimed @ [id_of m])"
  proof
    fix e'
    assume e': "e' \<in> set seed"
    with Cons.prems(2) obtain m' where m': "same_key indexed e' m'" "id_of m' \<notin> set claimed" by auto
    have "oget e' ''key'' \<noteq> oget e ''key''" using Cons.prems(3) e' by (metis (no_types, lifting) distinct.simps(2) imageI list.set_map list.simps(9))
    with same_key_stamped [OF assms(2) m(1)] same_key_stamped [OF assms(2) m'(1)] have "m' \<noteq> m" "m' \<in> set live" by auto
    with numbered_inj [OF assms(1)] live have "id_of m' \<noteq> id_of m" by blast
    with m' show "\<exists>m'. same_key indexed e' m' \<and> id_of m' \<notin> set (claimed @ [id_of m])" by auto
  qed
  have only: "x = m" if "same_key indexed e x" for x using that m(1) by (auto simp: same_key_def)
  have "distinct (map (\<lambda>e. oget e ''key'') seed)" using Cons.prems(3) by simp
  note rest = Cons.IH [OF sub free this b]
  then have edits: "\<forall>(x, e') \<in> set edit'. (x, e') \<in> set (if b then edit @ [(m, e)] else edit) \<or> same_key indexed e' x" by blast
  from rest have grows: "set (claimed @ [id_of m]) \<subseteq> set claimed'" by blast
  then have here: "\<forall>x. same_key indexed e x \<longrightarrow> id_of x \<in> set claimed'" using only by auto
  from edits m(1) have "\<forall>(x, e') \<in> set edit'. (x, e') \<in> set edit \<or> same_key indexed e' x" by (cases b) fastforce+
  moreover from grows have "set claimed \<subseteq> set claimed'" by simp
  moreover from rest here have "\<forall>e' \<in> set (e # seed). \<forall>x. same_key indexed e' x \<longrightarrow> id_of x \<in> set claimed'" by simp
  ultimately show ?case using rest by blast
qed

lemma paired_seed: "(m, e) \<in> set (paired seed ms) \<Longrightarrow> e \<in> set seed"
  by (auto simp: paired_def List.map_filter_def dest: set_zip_leftD)

lemma diff_by_keys:
  assumes "numbered live" and "diff_monitors seed live muted has_default = Inr (create, edit, delete)"
    and "\<forall>e \<in> set seed. \<exists>k. oget e ''key'' = JStr k \<and> Some k \<in> stamped ` set live"
    and "distinct (map (\<lambda>e. oget e ''key'') seed)" and "distinct (filter (\<lambda>k. k \<noteq> None) (map stamped live))"
  obtains indexed where "emap keyed live = Inr indexed" "create = []"
    "\<forall>(m, e) \<in> set edit. same_key indexed e m \<and> e \<in> set seed \<and> needs_edit muted has_default e m = Inr True"
    "\<forall>m \<in> set delete. \<forall>e \<in> set seed. \<not> same_key indexed e m"
proof -
  from assms(1,2) obtain indexed claimed where parts: "emap keyed live = Inr indexed" "map snd indexed = live"
    "diff_loop muted has_default indexed [] [] [] seed = Inr (claimed, create, edit)" "set claimed \<subseteq> id_of ` set live"
    "delete = filter (\<lambda>m. id_of m \<notin> set claimed) live" by (rule diff_monitors_parts)
  have "\<forall>e \<in> set seed. \<exists>m. same_key indexed e m \<and> id_of m \<notin> set []"
  proof
    fix e
    assume "e \<in> set seed"
    with assms(3) obtain k m where "oget e ''key'' = JStr k" "m \<in> set live" "stamped m = Some k" by fastforce
    with stamped_same_key [OF parts(1) assms(5)] show "\<exists>m. same_key indexed e m \<and> id_of m \<notin> set []" by auto
  qed
  note keys = diff_loop_keys [OF assms(1) parts(1) _ this assms(4) parts(3)]
  from diff_loop_matching [OF assms(1) parts(2) _ parts(3)] obtain ms where
    "edit = filter (\<lambda>(m, e). needs_edit muted has_default e m = Inr True) (paired seed ms)" by auto
  with keys parts(5) paired_seed show thesis by (intro that [OF parts(1)]) fastforce+
qed

text \<open>Identity is the key: when every seed entry's key is stamped on a live monitor, no key twice, then whatever
  the names are nothing is created, each edited monitor bears its entry's own key, and no monitor that
  bears a declared key is deleted. A rename keeps the monitor and its history.\<close>

theorem keys_keep_history:
  assumes "numbered live" and "diff_monitors seed live muted has_default = Inr (create, edit, delete)"
    and "\<forall>e \<in> set seed. \<exists>k. oget e ''key'' = JStr k \<and> Some k \<in> stamped ` set live"
    and "distinct (map (\<lambda>e. oget e ''key'') seed)" and "distinct (filter (\<lambda>k. k \<noteq> None) (map stamped live))"
  shows "create = [] \<and> (\<forall>(m, e) \<in> set edit. \<exists>k. oget e ''key'' = JStr k \<and> stamped m = Some k) \<and>
    (\<forall>m \<in> set delete. \<forall>e \<in> set seed. \<forall>k. oget e ''key'' = JStr k \<longrightarrow> stamped m \<noteq> Some k)"
proof -
  from assms obtain indexed where parts: "emap keyed live = Inr indexed" "create = []"
    "\<forall>(m, e) \<in> set edit. same_key indexed e m \<and> e \<in> set seed \<and> needs_edit muted has_default e m = Inr True"
    "\<forall>m \<in> set delete. \<forall>e \<in> set seed. \<not> same_key indexed e m" by (rule diff_by_keys)
  have "set delete \<subseteq> set live" using assms(2) by (auto simp: diff_monitors_def dest: efilter_eq_Inr)
  then have "stamped m \<noteq> Some k" if "m \<in> set delete" "e \<in> set seed" "oget e ''key'' = JStr k" for m e k
    using stamped_same_key [OF parts(1) assms(5), of m k e] parts(4) that by auto
  moreover have "\<exists>k. oget e ''key'' = JStr k \<and> stamped m = Some k" if "(m, e) \<in> set edit" for m e
    using parts(3) that same_key_stamped [OF parts(1)] by blast
  ultimately show ?thesis using parts(2) by blast
qed

end
