(* ===== verification/MonitorMarker.thy ===== *)
theory MonitorMarker
  imports MonitorDiff
begin

text \<open>The identity marker: embedding a key and reading it back, and where one pass of stripping falls short.\<close>

definition valid_key :: "string \<Rightarrow> bool" where
  "valid_key k \<longleftrightarrow> k \<noteq> [] \<and> list_all key_char k"

lemma newline_no_key: "\<not> key_char (CHR 0x0A)"
  by (simp add: key_char_def)

lemma bracket_no_key: "\<not> key_char (CHR '']'')"
  by (simp add: key_char_def)

lemma takeWhile_valid: "list_all P k \<Longrightarrow> \<not> P c \<Longrightarrow> takeWhile P (k @ c # rest) = k"
  by (induction k) auto

lemma dropWhile_valid: "list_all P k \<Longrightarrow> \<not> P c \<Longrightarrow> dropWhile P (k @ c # rest) = c # rest"
  by (induction k) auto

lemma bare_marker_open:
  "bare_marker (marker_open @ t) =
     (case dropWhile key_char t of
        c # rest \<Rightarrow> if c = CHR '']'' \<and> takeWhile key_char t \<noteq> [] then Some (takeWhile key_char t, rest) else None
      | [] \<Rightarrow> None)"
  by (simp add: bare_marker_def Let_def)

lemma bare_marker_of: "valid_key k \<Longrightarrow> bare_marker (marker_of k @ rest) = Some (k, rest)"
  by (simp add: bare_marker_open marker_of_def valid_key_def takeWhile_valid dropWhile_valid bracket_no_key)

lemma of_char_newline: "of_char (CHR 0x0A) = (10 :: nat)"
  by simp

lemma match_marker_Cons: "match_marker (c # t) = bare_marker (if c = CHR 0x0A then t else c # t)"
proof -
  have "(of_char c = (10 :: nat)) = (c = CHR 0x0A)" by (metis of_char_eq_iff of_char_newline)
  then show ?thesis by (simp add: match_marker_def)
qed

lemma match_marker_of:
  assumes "valid_key k"
  shows "match_marker (CHR 0x0A # marker_of k) = Some (k, [])" and "match_marker (marker_of k) = Some (k, [])"
proof -
  have bare: "bare_marker (marker_of k) = Some (k, [])" using bare_marker_of [OF assms, of "[]"] by simp
  then show "match_marker (CHR 0x0A # marker_of k) = Some (k, [])" by (simp add: match_marker_Cons)
  have "marker_of k = CHR ''['' # ''kuma-key:'' @ k @ '']''" by (simp add: marker_of_def marker_open_def)
  with bare show "match_marker (marker_of k) = Some (k, [])" by (simp add: match_marker_Cons)
qed

text \<open>No marker spans the line break before the embedded one.\<close>

lemma starts_with_break:
  assumes "starts_with p (u @ c # v)" and "c \<notin> set p"
  shows "starts_with p u"
proof -
  from assms(1) obtain w where w: "u @ c # v = p @ w" by (auto simp: starts_with_iff)
  then consider us where "u = p @ us" | us where "p = u @ us" "us @ w = c # v"
    by (auto simp: append_eq_append_conv2)
  then show ?thesis
  proof cases
    case (2 us)
    with assms(2) have "us = []" by (cases us) auto
    with 2 show ?thesis by (simp add: starts_with_iff)
  qed (simp add: starts_with_iff)
qed

lemma bare_marker_break:
  assumes "bare_marker (u @ CHR 0x0A # v) = Some (k, rest)"
  shows "bare_marker u \<noteq> None"
proof -
  have "starts_with marker_open (u @ CHR 0x0A # v)"
    using assms by (auto simp: bare_marker_def split: if_splits)
  then have "starts_with marker_open u"
    by (rule starts_with_break) (simp add: marker_open_def)
  then obtain t where u: "u = marker_open @ t" by (auto simp: starts_with_iff)
  have here: "bare_marker (marker_open @ t @ CHR 0x0A # v) = Some (k, rest)" using assms u by simp
  show ?thesis
  proof (cases "list_all key_char t")
    case True
    then have "dropWhile key_char (t @ CHR 0x0A # v) = CHR 0x0A # v"
      by (rule dropWhile_valid) (rule newline_no_key)
    with here show ?thesis unfolding bare_marker_open by simp
  next
    case False
    then obtain x where "x \<in> set t" "\<not> key_char x" by (auto simp: list_all_iff)
    then have parts: "takeWhile key_char (t @ CHR 0x0A # v) = takeWhile key_char t"
      "dropWhile key_char (t @ CHR 0x0A # v) = dropWhile key_char t @ CHR 0x0A # v"
      by (auto simp: takeWhile_append1 dropWhile_append1)
    from \<open>x \<in> set t\<close> \<open>\<not> key_char x\<close> obtain c w where "dropWhile key_char t = c # w"
      by (cases "dropWhile key_char t") (auto simp: dropWhile_eq_Nil_conv)
    with here parts show ?thesis unfolding u bare_marker_open by (auto split: if_splits)
  qed
qed

lemma match_marker_break:
  assumes "u \<noteq> []" and "match_marker u = None"
  shows "match_marker (u @ CHR 0x0A # v) = None"
proof -
  obtain c t where u: "u = c # t" using assms(1) by (cases u) auto
  have "bare_marker (w @ CHR 0x0A # v) = None" if "bare_marker w = None" for w
    using bare_marker_break [of w v] that by (cases "bare_marker (w @ CHR 0x0A # v)") auto
  from this [of t] this [of u] show ?thesis
    using assms(2) by (auto simp: match_marker_Cons u)
qed

lemma find_marker_Cons_None: "find_marker (c # s) = None \<longleftrightarrow> match_marker (c # s) = None \<and> find_marker s = None"
  by (auto split: option.splits)

lemma find_marker_append:
  "find_marker u = None \<Longrightarrow> find_marker (u @ CHR 0x0A # v) = find_marker (CHR 0x0A # v)"
proof (induction u)
  case (Cons c u)
  then have "match_marker ((c # u) @ CHR 0x0A # v) = None"
    by (intro match_marker_break) (simp_all only: find_marker_Cons_None list.distinct not_False_eq_True)
  moreover from Cons.prems have "find_marker u = None" by (simp only: find_marker_Cons_None)
  ultimately show ?case using Cons.IH by simp
qed simp

lemma strip_markers_append:
  "find_marker u = None \<Longrightarrow> strip_markers (u @ CHR 0x0A # v) = u @ strip_markers (CHR 0x0A # v)"
proof (induction u)
  case (Cons c u)
  then have "match_marker ((c # u) @ CHR 0x0A # v) = None"
    by (intro match_marker_break) (simp_all only: find_marker_Cons_None list.distinct not_False_eq_True)
  moreover from Cons.prems have "find_marker u = None" by (simp only: find_marker_Cons_None)
  ultimately show ?case using Cons.IH by (simp add: strip_markers.simps [of "c # _"])
qed simp

lemma strip_markers_Nil [simp]: "strip_markers [] = []"
  by (simp add: strip_markers.simps match_marker_def)

lemma strip_markers_none: "find_marker s = None \<Longrightarrow> strip_markers s = s"
  by (induction s) (simp_all add: find_marker_Cons_None strip_markers.simps [of "_ # _"] del: find_marker.simps)

text \<open>Embedding a key and reading it back: when what is left of the description holds no marker, the stamped
  text carries the key, stripping it gives that text again, and stamping twice, or with another key first,
  changes nothing.\<close>

theorem embed_roundtrip:
  assumes "strip_key description = Inr base" and "find_marker base = None" and "valid_key k"
  shows "\<exists>s. embed_key description k = Inr s \<and> extract_key (JStr s) = Inr (Some k) \<and> strip_key (JStr s) = Inr base
    \<and> (\<forall>k'. valid_key k' \<longrightarrow> embed_key (JStr s) k' = embed_key description k')"
proof -
  define s where "s = (if base \<noteq> [] then base @ [CHR 0x0A] @ marker_of k else marker_of k)"
  have found: "find_marker (CHR 0x0A # marker_of k) = Some k" "find_marker (marker_of k) = Some k"
    "strip_markers (CHR 0x0A # marker_of k) = []" "strip_markers (marker_of k) = []"
    using match_marker_of [OF assms(3)]
    by (simp_all add: strip_markers.simps [of "_ # _"] strip_markers.simps [of "marker_of k"])
      (cases "marker_of k"; simp add: marker_of_def)+
  then have s: "find_marker s = Some k" "strip_markers s = base" "s \<noteq> []"
    using assms(2) by (auto simp: s_def find_marker_append strip_markers_append marker_of_def marker_open_def)
  show ?thesis
    using s assms(1) by (intro exI [of _ s]) (auto simp: embed_key_def extract_key_def strip_key_def s_def)
qed

lemma embed_roundtrip_witness:
  "embed_key (JStr ''probe'') ''api'' = Inr (''probe'' @ [CHR 0x0A] @ marker_of ''api'') \<and>
   extract_key (JStr (''probe'' @ [CHR 0x0A] @ marker_of ''api'')) = Inr (Some ''api'')"
proof -
  have "strip_key (JStr ''probe'') = Inr ''probe''" "find_marker ''probe'' = None" "valid_key ''api''"
    "embed_key (JStr ''probe'') ''api'' = Inr (''probe'' @ [CHR 0x0A] @ marker_of ''api'')"
    by code_simp+
  with embed_roundtrip [of "JStr ''probe''" "''probe''" "''api''"] show ?thesis by auto
qed

text \<open>The hypothesis is needed: one pass can leave a marker, which then hides the key.\<close>

lemma nested_marker_survives:
  "embed_key (JStr ''[kuma-key:[kuma-key:x]a]'') ''api'' = Inr s \<Longrightarrow> extract_key (JStr s) = Inr (Some ''a'')"
proof -
  have "embed_key (JStr ''[kuma-key:[kuma-key:x]a]'') ''api'' = Inr (''[kuma-key:a]'' @ [CHR 0x0A] @ marker_of ''api'')"
    "extract_key (JStr (''[kuma-key:a]'' @ [CHR 0x0A] @ marker_of ''api'')) = Inr (Some ''a'')"
    by code_simp+
  then show "embed_key (JStr ''[kuma-key:[kuma-key:x]a]'') ''api'' = Inr s \<Longrightarrow> extract_key (JStr s) = Inr (Some ''a'')"
    by simp
qed

end
