(* ===== verification/MonitorSeedFacts.thy ===== *)
theory MonitorSeedFacts
  imports MonitorDiffFacts MonitorMarker
begin

text \<open>
  The push tokens and the pauses of the monitor sync, the case in which the fallback by name takes a monitor
  that bears another entry's key, and the properties of the plan at concrete instances.
\<close>

section \<open>Push tokens\<close>

definition hydrated :: "(string \<times> string) list \<Rightarrow> monitor \<Rightarrow> monitor \<Rightarrow> bool" where
  "hydrated tokens e e' \<longleftrightarrow>
     (if py_eq (oget e ''type'') push_type
      then \<not> truthy (oget e ''pushToken'') \<and>
        (\<exists>k t. oget e ''key'' = JStr k \<and> map_of tokens k = Some t \<and> t \<noteq> [] \<and> e' = oset e ''pushToken'' (JStr t))
      else e' = e)"

lemma hydrate_entry_Keep: "hydrate_entry tokens e = Inr (Keep e') \<Longrightarrow> hydrated tokens e e'"
  by (auto simp: hydrate_entry_def hydrated_def token_of_def split: if_splits json.splits option.splits)

text \<open>C32. The push tokens come from the secret store alone: a seed is hydrated only when every push entry carries
  no token of its own and the store has one, not empty, under its key, which is the token it gets; every
  other entry is passed on as it is, and none is dropped.\<close>

theorem tokens_from_the_store:
  assumes "hydrate_push_tokens seed tokens = Inr seed'"
  shows "list_all2 (hydrated tokens) seed seed'"
proof -
  from assms obtain hs where hs: "emap (hydrate_entry tokens) seed = Inr hs"
    "\<not> list_ex (\<lambda>h. case h of Inline _ \<Rightarrow> True | _ \<Rightarrow> False) hs" "\<not> list_ex (\<lambda>h. case h of Unresolved _ \<Rightarrow> True | _ \<Rightarrow> False) hs"
    "seed' = concat (map (\<lambda>h. case h of Keep e \<Rightarrow> [e] | _ \<Rightarrow> []) hs)"
    by (auto simp: hydrate_push_tokens_def split: if_splits)
  from hs(1) have "list_all2 (\<lambda>e h. hydrate_entry tokens e = Inr h) seed hs" by (simp add: emap_eq_Inr_iff)
  then show ?thesis
    unfolding hs(4) using hs(2,3)
  proof (induction rule: list_all2_induct)
    case (Cons e seed h hs)
    then show ?case by (cases h) (auto dest: hydrate_entry_Keep)
  qed simp
qed

lemma tokens_from_the_store_witness:
  "hydrate_push_tokens [[(''type'', JStr ''push''), (''key'', JStr ''backup'')]] [(''backup'', ''t0ken'')] =
     Inr [[(''type'', JStr ''push''), (''key'', JStr ''backup''), (''pushToken'', JStr ''t0ken'')]] \<and>
   list_all2 (hydrated [(''backup'', ''t0ken'')]) [[(''type'', JStr ''push''), (''key'', JStr ''backup'')]]
     [[(''type'', JStr ''push''), (''key'', JStr ''backup''), (''pushToken'', JStr ''t0ken'')]]"
proof -
  have "hydrate_push_tokens [[(''type'', JStr ''push''), (''key'', JStr ''backup'')]] [(''backup'', ''t0ken'')] =
     Inr [[(''type'', JStr ''push''), (''key'', JStr ''backup''), (''pushToken'', JStr ''t0ken'')]]"
    by code_simp
  from this tokens_from_the_store [OF this] show ?thesis ..
qed

section \<open>Pauses\<close>

text \<open>C33. What is paused: exactly the running monitors whose stamped key an entry declares inactive, and, where some
  inactive entry declares no key, every running monitor that bears no marker at all. Nothing is resumed.\<close>

theorem pauses_exactly:
  assumes "monitors_to_pause seed live = Inr paused"
  shows "set paused = {m \<in> set live. truthy (oget m ''active'') \<and> (\<exists>e \<in> set seed. oget e ''active'' = JBool False \<and>
    oget e ''key'' = (case stamped m of None \<Rightarrow> JNull | Some k \<Rightarrow> JStr k))}"
proof -
  define declared where "declared = map (\<lambda>e. oget e ''key'') (filter (\<lambda>e. oget e ''active'' = JBool False) seed)"
  let ?key = "\<lambda>m. case stamped m of None \<Rightarrow> JNull | Some k \<Rightarrow> JStr k"
  let ?f = "\<lambda>m. if \<not> truthy (oget m ''active'') then Inr False
    else ebind (extract_key (oget m ''description'')) (\<lambda>k. Inr (py_mem (case k of None \<Rightarrow> JNull | Some s \<Rightarrow> JStr s) declared))"
  have filtered: "efilter ?f live = Inr paused"
    unfolding declared_def using assms by (auto simp: monitors_to_pause_def py_set_def split: if_splits)
  have "py_eq (?key m) j \<longleftrightarrow> j = ?key m" for m j by (cases "stamped m") auto
  then have mem: "py_mem (?key m) declared \<longleftrightarrow>
      (\<exists>e \<in> set seed. oget e ''active'' = JBool False \<and> oget e ''key'' = ?key m)" for m
    by (auto simp: py_mem_def list_ex_iff declared_def image_iff)
  define runs where "runs = ?f"
  from filtered have filtered: "efilter runs live = Inr paused" by (simp add: runs_def)
  from efilter_eq_Inr [OF this] have paused: "set paused = {m \<in> set live. runs m = Inr True}"
    and total: "\<forall>m \<in> set live. \<exists>b. runs m = Inr b" by auto
  have "runs m = Inr True \<longleftrightarrow> truthy (oget m ''active'') \<and> py_mem (?key m) declared" if "m \<in> set live" for m
    using total that by (fastforce simp: runs_def stamped_def split: if_splits sum.splits)
  with paused show ?thesis unfolding mem [symmetric] by auto
qed

definition unstamped_monitor :: monitor where
  "unstamped_monitor = [(''id'', JInt 1), (''name'', JStr ''made by hand''), (''active'', JBool True)]"

lemma pauses_exactly_witness:
  "monitors_to_pause [[(''name'', JStr ''probe''), (''active'', JBool False)]] [unstamped_monitor] = Inr [unstamped_monitor]
     \<and> stamped unstamped_monitor = None"
proof -
  let ?e = "[(''name'', JStr ''probe''), (''active'', JBool False)]"
  have run: "monitors_to_pause [?e] [unstamped_monitor] = Inr [unstamped_monitor]" by code_simp
  have "unstamped_monitor \<in> set [unstamped_monitor]" by simp
  then have "unstamped_monitor \<in> {m \<in> set [unstamped_monitor]. truthy (oget m ''active'') \<and> (\<exists>e \<in> set [?e].
      oget e ''active'' = JBool False \<and> oget e ''key'' = (case stamped m of None \<Rightarrow> JNull | Some k \<Rightarrow> JStr k))}"
    by (subst (asm) pauses_exactly [OF run])
  then have "JNull = (case stamped unstamped_monitor of None \<Rightarrow> JNull | Some k \<Rightarrow> JStr k)" by simp
  with run show ?thesis by (simp split: option.splits)
qed

section \<open>A monitor taken by its name\<close>

definition stamped_monitor :: "int \<Rightarrow> string \<Rightarrow> string \<Rightarrow> monitor" where
  "stamped_monitor i name k = [(''id'', JInt i), (''name'', JStr name), (''description'', JStr (marker_of k))]"

definition seed_entry :: "string \<Rightarrow> string \<Rightarrow> monitor" where
  "seed_entry k name = [(''key'', JStr k), (''name'', JStr name)]"

lemma extract_marker_of: "valid_key k \<Longrightarrow> extract_key (JStr (marker_of k)) = Inr (Some k)"
proof -
  assume "valid_key k"
  then have "match_marker (marker_of k) = Some (k, [])" by (rule match_marker_of)
  moreover have "marker_of k = CHR ''['' # ''kuma-key:'' @ k @ '']''" by (simp add: marker_of_def marker_open_def)
  ultimately show ?thesis by (simp add: extract_key_def)
qed

text \<open>C31. The fallback by name breaks identity. A seed renames the monitor of key b and gives its old name to a new
  entry a that stands before it: the monitor stamped b, whose history is b's, is edited into a, and b is
  created anew, though the seed declares b and the instance has it.\<close>

theorem name_takes_the_other_key:
  assumes "valid_key a" and "valid_key b" and "a \<noteq> b" and "x \<noteq> y"
  shows "\<exists>edit. diff_monitors [seed_entry a x, seed_entry b y] [stamped_monitor i x b] [] False =
    Inr ([seed_entry b y], edit, []) \<and> (edit = [] \<or> edit = [(stamped_monitor i x b, seed_entry a x)])"
proof -
  let ?m = "stamped_monitor i x b"
  have id: "index ?m ''id'' = Inr (JInt i)" and name: "oget_or ?m ''name'' (JStr []) = JStr x"
    and desc: "oget ?m ''description'' = JStr (marker_of b)"
    by (simp_all add: stamped_monitor_def lookup_or_def)
  have k: "keyed ?m = Inr (Some b, ?m)"
    using extract_marker_of [OF assms(2)] by (simp add: keyed_def desc name)
  have entry: "oget (seed_entry k n) ''key'' = JStr k" "oget_or (seed_entry k n) ''name'' (JStr []) = JStr n" for k n
    by (simp_all add: seed_entry_def)
  have a: "match_for [(Some b, ?m)] [] (seed_entry a x) = Inr (Some ?m)"
    using assms(3) by (simp add: match_for_def by_key_def by_name_def entry name is_claimed_def id py_mem_def)
  have b: "match_for [(Some b, ?m)] [JInt i] (seed_entry b y) = Inr None"
    using assms(4) by (simp add: match_for_def by_key_def by_name_def entry name is_claimed_def id py_mem_def)
  have "\<exists>d. needs_edit [] False (seed_entry a x) ?m = Inr d"
    using extract_marker_of [OF assms(2)]
    by (simp add: needs_edit_def tag_drift_def desc comparable_def strip_key_def seed_entry_def writable_fields_def
        stamped_monitor_def) blast
  then obtain d where d: "needs_edit [] False (seed_entry a x) ?m = Inr d" ..
  then show ?thesis
    by (simp add: diff_monitors_def k a b id is_claimed_def py_mem_def)
qed

lemma name_takes_the_other_key_witness:
  "\<exists>edit. diff_monitors [seed_entry ''new'' ''API'', seed_entry ''api'' ''API v1''] [stamped_monitor 7 ''API'' ''api''] [] False =
     Inr ([seed_entry ''api'' ''API v1''], edit, [])"
proof -
  have "valid_key ''new''" "valid_key ''api''" by code_simp+
  then show ?thesis using name_takes_the_other_key [of "''new''" "''api''" "''API''" "''API v1''" 7] by auto
qed

section \<open>The plan at an instance\<close>

definition two_live :: "monitor list" where
  "two_live = [stamped_monitor 1 ''API'' ''api'', stamped_monitor 2 ''Old'' ''gone'']"

definition renamed_seed :: "monitor list" where
  "renamed_seed = [seed_entry ''api'' ''API v1'']"

lemma sample_plan:
  "numbered two_live"
  "diff_monitors renamed_seed two_live [] False =
     Inr ([], [(stamped_monitor 1 ''API'' ''api'', seed_entry ''api'' ''API v1'')], [stamped_monitor 2 ''Old'' ''gone''])"
  by code_simp+

lemma diff_is_matching_witness:
  "\<exists>indexed ms. is_matching indexed [] renamed_seed ms \<and> unmatched renamed_seed ms = []
     \<and> paired renamed_seed ms \<noteq> []"
proof -
  from diff_is_matching [OF sample_plan] obtain indexed ms where "is_matching indexed [] renamed_seed ms"
    "[] = unmatched renamed_seed ms"
    "[(stamped_monitor 1 ''API'' ''api'', seed_entry ''api'' ''API v1'')] =
       filter (\<lambda>(m, e). needs_edit [] False e m = Inr True) (paired renamed_seed ms)" by blast
  moreover from this(3) have "paired renamed_seed ms \<noteq> []" by force
  ultimately show ?thesis by metis
qed

lemma keys_keep_history_witness:
  "stamped (stamped_monitor 1 ''API'' ''api'') = Some ''api'' \<and> stamped (stamped_monitor 2 ''Old'' ''gone'') \<noteq> Some ''api''"
proof -
  have stamps: "map stamped two_live = [Some ''api'', Some ''gone'']" by code_simp
  have "Some ''api'' \<in> stamped ` set two_live" using stamps by (metis list.set_intros(1) list.set_map)
  then have "\<forall>e \<in> set renamed_seed. \<exists>k. oget e ''key'' = JStr k \<and> Some k \<in> stamped ` set two_live"
    by (simp add: renamed_seed_def seed_entry_def)
  moreover have "distinct (map (\<lambda>e. oget e ''key'') renamed_seed)" by (simp add: renamed_seed_def)
  moreover have "distinct (filter (\<lambda>k. k \<noteq> None) (map stamped two_live))" unfolding stamps by simp
  ultimately have kept: "(\<forall>(m, e) \<in> set [(stamped_monitor 1 ''API'' ''api'', seed_entry ''api'' ''API v1'')].
        \<exists>k. oget e ''key'' = JStr k \<and> stamped m = Some k)
      \<and> (\<forall>m \<in> set [stamped_monitor 2 ''Old'' ''gone'']. \<forall>e \<in> set renamed_seed. \<forall>k. oget e ''key'' = JStr k \<longrightarrow> stamped m \<noteq> Some k)"
    using keys_keep_history [OF sample_plan] by blast
  then show ?thesis by (simp add: renamed_seed_def seed_entry_def)
qed

end
