(* ===== verification/MonitorApplyFacts.thy ===== *)
theory MonitorApplyFacts
  imports MonitorApply MonitorSeedFacts Transcript Sends
begin

text \<open>
  What applying the monitor sync does to the instance: nothing is changed without consent, nothing is written
  over a delete that may not have landed, every planned change is tried, and the commands end.
\<close>

section \<open>What is sent\<close>

definition kuma_change :: "kuma_call \<Rightarrow> bool" where
  "kuma_change q =
     (case q of
        AddTag _ _ \<Rightarrow> True | AddMonitorTag _ _ _ \<Rightarrow> True | DeleteMonitorTag _ _ _ \<Rightarrow> True | AddMonitor _ \<Rightarrow> True
      | EditMonitor _ _ \<Rightarrow> True | DeleteMonitor _ \<Rightarrow> True | PauseMonitor _ \<Rightarrow> True | EmitSetup _ _ \<Rightarrow> True | _ \<Rightarrow> False)"

definition writes_monitor :: "kuma_call \<Rightarrow> bool" where
  "writes_monitor q = (case q of AddMonitor _ \<Rightarrow> True | EditMonitor _ _ \<Rightarrow> True | PauseMonitor _ \<Rightarrow> True | _ \<Rightarrow> False)"

definition deletes_one_of :: "monitor list \<Rightarrow> kuma_call \<Rightarrow> bool" where
  "deletes_one_of ms q \<longleftrightarrow> (\<forall>i. q = DeleteMonitor i \<longrightarrow> (\<exists>m \<in> set ms. index m ''id'' = Inr i))"

lemma emits_plan_sync: "emits (\<lambda>q. q = GetNotifications \<or> q = GetMonitors) (plan_sync srv f doc)"
  unfolding plan_sync_def by (intro emits_intros) simp_all

lemma emits_tags: "emits (\<lambda>q. (\<exists>n c. q = AddTag n c) \<or> q = GetTags) (ensure_tags srv tags)"
  unfolding ensure_tags_def ensure_tag_def by (intro emits_intros) simp_all

lemma emits_reconcile:
  "emits (\<lambda>q. (\<exists>t i v. q = AddMonitorTag t i v \<or> q = DeleteMonitorTag t i v)) (reconcile_tags srv ids e m)"
  unfolding reconcile_tags_def add_missing_tag_def drop_extra_tag_def by (intro emits_intros) auto

lemma emits_still_here: "emits (\<lambda>q. \<exists>i. q = GetMonitor i) (still_here srv i found)"
  unfolding still_here_def by (intro emits_intros) auto

lemma emits_await_gone: "emits (\<lambda>q. \<exists>i. q = GetMonitor i) (await_gone k srv tm deadline pending)"
  by (induction k arbitrary: pending) (auto intro!: emits_intros emits_still_here)

lemma emits_assert_deleted: "emits (\<lambda>q. \<exists>i. q = GetMonitor i) (assert_deleted srv tm ids)"
  unfolding assert_deleted_def by (intro emits_intros emits_await_gone)

lemma emits_delete_dropped:
  "emits (\<lambda>q. (\<exists>i. q = GetMonitor i) \<or> (\<exists>i. q = DeleteMonitor i \<and> (\<exists>m \<in> set ms. index m ''id'' = Inr i)))
     (delete_dropped srv tm ms)"
proof -
  have delete: "emits (\<lambda>q. (\<exists>i. q = GetMonitor i) \<or> (\<exists>i. q = DeleteMonitor i \<and> (\<exists>m \<in> set ms. index m ''id'' = Inr i)))
      (delete_monitor srv m u)" if "m \<in> set ms" for m u
    unfolding delete_monitor_def
    by (rule emits_abind_lift) (intro emits_intros, use that in auto)
  show ?thesis
    unfolding delete_dropped_def
    by (intro emits_intros delete emits_mono [OF emits_assert_deleted]) auto
qed

definition written :: "kuma_call \<Rightarrow> bool" where
  "written q = (kuma_change q \<and> (\<forall>i. q \<noteq> DeleteMonitor i) \<or> q = GetMonitors)"

lemma emits_write_plan: "emits written (write_plan srv build p ids)"
proof -
  have tags: "emits written (reconcile_tags srv ids e m)" for e m
    by (rule emits_mono [OF emits_reconcile]) (auto simp: written_def kuma_change_def)
  show ?thesis
    unfolding write_plan_def edit_step_def create_step_def pause_declared_def pause_step_def tried_def
      edit_monitor_def create_monitor_def pause_monitor_def
    by (intro emits_intros tags) (simp_all add: written_def kuma_change_def)
qed

lemma emits_connect: "emits (\<lambda>q. \<not> kuma_change q) (kuma_connect srv c)"
  and emits_disconnect: "emits (\<lambda>q. \<not> kuma_change q) (kuma_disconnect srv)"
  unfolding kuma_connect_def kuma_disconnect_def by (intro emits_intros; simp add: kuma_change_def)+

lemma emits_apply_sync: "emits (deletes_one_of (sp_delete p)) (apply_sync srv tm build f p)"
  unfolding apply_sync_def
  by (intro emits_intros emits_mono [OF emits_tags] emits_mono [OF emits_delete_dropped] emits_mono [OF emits_write_plan])
    (auto simp: deletes_one_of_def written_def)

lemma logs_parts:
  "logs (plan_sync srv f doc)" "logs (ensure_tags srv tags)" "logs (delete_dropped srv tm ms)"
  "logs (write_plan srv build p ids)" "logs (kuma_connect srv c)" "logs (kuma_disconnect srv)"
  "logs (apply_sync srv tm build f p)" "logs (reconcile_tags srv ids e m)"
  by (rule emits_mono, rule emits_plan_sync emits_tags emits_delete_dropped emits_write_plan emits_connect
      emits_disconnect emits_apply_sync emits_reconcile, simp)+

lemma logs_run_sync: "logs (run_sync srv tm build f check_only prune)"
  unfolding run_sync_def by (intro emits_intros logs_parts) 

lemma connected_change:
  assumes "q \<in> set (sends (connected srv f m) n)" and "kuma_change q" and "logs m"
  obtains c n1 where "get_kuma_creds f = Inr (Some c)" and "kuma_connect srv c n = (Val (), n1)" and "q \<in> set (sends m n1)"
proof (cases "get_kuma_creds f")
  case (Inr creds)
  note found = that
  show ?thesis
  proof (cases creds)
    case (Some c)
    with assms(1) Inr have "q \<in> set (sends (abind (kuma_connect srv c) (\<lambda>_. finally_do m (kuma_disconnect srv))) n)"
      by (simp add: connected_def run_simps(4,5))
    then show ?thesis
    proof (rule sends_abindE)
      show "logs (kuma_connect srv c)" and "logs (finally_do m (kuma_disconnect srv))" for x :: unit
        by (intro emits_intros assms(3) logs_parts)+
    next
      assume "q \<in> set (sends (kuma_connect srv c) n)"
      from emits_mem [OF emits_connect this] assms(2) show ?thesis by simp
    next
      fix x n1
      assume c: "kuma_connect srv c n = (Val x, n1)" and "q \<in> set (sends (finally_do m (kuma_disconnect srv)) n1)"
      from this(2) show ?thesis
      proof (rule sends_finallyE)
        show "logs m" and "logs (kuma_disconnect srv)" by (intro assms(3) logs_parts)+
        show ?thesis if "q \<in> set (sends m n1)" using found [OF _ _ that] c Inr Some by simp
        show ?thesis if "q \<in> set (sends (kuma_disconnect srv) n')" for n'
          using emits_mem [OF emits_disconnect that] assms(2) by simp
      qed
    qed
  qed (use assms Inr in \<open>simp add: connected_def run_simps(4,5)\<close>)
qed (use assms in \<open>simp add: connected_def run_simps(4,5)\<close>)

text \<open>C34. Nothing changes without consent. Whatever answers come back and whatever fails, a command that changes the
  instance is only sent when the run is not a check, and after a plan was made from the live monitors; if
  that plan deletes, only when pruning was asked for, and then only the monitors the plan deletes are.\<close>

theorem changes_need_consent:
  assumes "q \<in> set (sends (apply_monitors srv tm build f check_only prune) n)" and "kuma_change q"
  shows "\<not> check_only \<and> (\<exists>c n1 doc p. get_kuma_creds f = Inr (Some c) \<and> kuma_connect srv c n = (Val (), n1)
    \<and> kf_seed f = Some doc \<and> fst (plan_sync srv f doc n1) = Val p \<and> (sp_delete p = [] \<or> prune)
    \<and> deletes_one_of (sp_delete p) q)"
proof -
  from connected_change [OF assms(1) [unfolded apply_monitors_def] assms(2) logs_run_sync] obtain c n1 where
    c: "get_kuma_creds f = Inr (Some c)" "kuma_connect srv c n = (Val (), n1)"
    and q: "q \<in> set (sends (run_sync srv tm build f check_only prune) n1)" .
  from q obtain doc where doc: "kf_seed f = Some doc" by (auto simp: run_sync_def split: option.splits)
  let ?rest = "\<lambda>p. if check_only then ret 0 else if sp_delete p \<noteq> [] \<and> \<not> prune then ret 1 else apply_sync srv tm build f p"
  from q doc have "q \<in> set (sends (abind (plan_sync srv f doc) ?rest) n1)" by (simp add: run_sync_def)
  then obtain p n2 where p: "plan_sync srv f doc n1 = (Val p, n2)" and "q \<in> set (sends (?rest p) n2)"
  proof (rule sends_abindE)
    assume "q \<in> set (sends (plan_sync srv f doc) n1)"
    from emits_mem [OF emits_plan_sync this] assms(2) show thesis by (auto simp: kuma_change_def)
  qed (intro emits_intros logs_parts)+
  then have "\<not> check_only" "sp_delete p = [] \<or> prune" "q \<in> set (sends (apply_sync srv tm build f p) n2)"
    by (auto split: if_splits)
  with emits_mem [OF emits_apply_sync] c doc p show ?thesis by force
qed

section \<open>Deletes are confirmed\<close>

definition gone :: "'s kuma \<Rightarrow> json \<Rightarrow> 's \<Rightarrow> bool" where
  "gone srv i w \<longleftrightarrow> (\<exists>e. fst (srv (GetMonitor i) w) = Inl e \<and> is_gone e)"

text \<open>A monitor that is gone does not come back by looking or by waiting: ids are not given twice.\<close>

definition stays_gone :: "'s kuma \<Rightarrow> 's timer \<Rightarrow> bool" where
  "stays_gone srv tm \<longleftrightarrow>
     (\<forall>i w. gone srv i w \<longrightarrow> (\<forall>j. gone srv i (snd (srv (GetMonitor j) w))) \<and> (\<forall>d. gone srv i (t_sleep tm d w)))"

lemma stays_goneD:
  assumes "stays_gone srv tm" and "gone srv i w"
  shows "gone srv i (snd (srv (GetMonitor j) w))" and "gone srv i (t_sleep tm d w)"
  using assms by (auto simp: stays_gone_def)

lemma still_here_Val:
  assumes "stays_gone srv tm" and "still_here srv i found n = (Val found', n')"
  shows "set found \<subseteq> set found'" and "i \<in> set found' \<or> gone srv i (world n')"
    and "gone srv j (world n) \<Longrightarrow> gone srv j (world n')"
proof -
  obtain r where r: "srv (GetMonitor i) (world n) = (r, world n')"
    and found': "found' = (case r of Inl e \<Rightarrow> found | Inr _ \<Rightarrow> found @ [i])" "case r of Inl e \<Rightarrow> is_gone e | Inr _ \<Rightarrow> True"
    using assms(2)
    by (auto simp: still_here_def attempt_def abind_def ask_def call_def lift_def ret_def throw_def
        split: prod.splits sum.splits outcome.splits if_splits)
  then have "i \<in> set found' \<or> gone srv i (world n)" by (auto simp: gone_def split: sum.splits)
  with stays_goneD(1) [OF assms(1), of _ "world n" i] r
  show "i \<in> set found' \<or> gone srv i (world n')" "gone srv j (world n) \<Longrightarrow> gone srv j (world n')" by fastforce+
  show "set found \<subseteq> set found'" using found' by (auto split: sum.splits)
qed

lemma looks_Val:
  assumes "stays_gone srv tm" and "foreach (still_here srv) pending found n = (Val left, n')"
  shows "(\<forall>i \<in> set pending. i \<in> set left \<or> gone srv i (world n')) \<and> set found \<subseteq> set left \<and>
    (\<forall>j. gone srv j (world n) \<longrightarrow> gone srv j (world n'))"
  using assms(2)
proof (induction pending arbitrary: found n)
  case (Cons i pending)
  from Cons.prems obtain found1 n1 where one: "still_here srv i found n = (Val found1, n1)"
    and rest: "foreach (still_here srv) pending found1 n1 = (Val left, n')" by (auto simp: abind_Val)
  from still_here_Val [OF assms(1) one] Cons.IH [OF rest] show ?case by auto
qed simp

lemma await_gone_Val:
  assumes "stays_gone srv tm" and "await_gone k srv tm deadline pending n = (Val [], n')"
  shows "(\<forall>i \<in> set pending. gone srv i (world n')) \<and> (\<forall>j. gone srv j (world n) \<longrightarrow> gone srv j (world n'))"
  using assms(2)
proof (induction k arbitrary: pending n)
  case (Suc k)
  show ?case
  proof (cases "pending = []")
    case False
    with Suc.prems obtain left n1 n2 where looks: "foreach (still_here srv) pending [] n = (Val left, n1)"
      and wait: "(if left \<noteq> [] then sleep tm half_second else ret ()) n1 = (Val (), n2)"
      and rest: "await_gone k srv tm deadline left n2 = (Val [], n')"
      by (auto simp: abind_Val split: if_splits)
    have "gone srv j (world n1) \<Longrightarrow> gone srv j (world n2)" for j
      using wait stays_goneD(2) [OF assms(1)] by (auto simp: sleep_def ret_def split: if_splits)
    with looks_Val [OF assms(1) looks] Suc.IH [OF rest] show ?thesis by blast
  qed (use Suc.prems in auto)
qed (simp add: stuck_def)

lemma delete_dropped_Val:
  assumes "stays_gone srv tm" and "delete_dropped srv tm ms n = (Val u, n')" and "m \<in> set ms" and "index m ''id'' = Inr i"
  shows "gone srv i (world n')"
proof -
  from assms(2) obtain ids n1 where ids: "emap (\<lambda>m. index m ''id'') ms = Inr ids"
    and asserted: "assert_deleted srv tm ids n1 = (Val u, n')" by (auto simp: delete_dropped_def abind_Val)
  from emap_image [OF ids assms(3)] assms(4) have i: "i \<in> set ids" by auto
  with asserted obtain k t where "await_gone k srv tm t ids n1 = (Val [], n')"
    by (auto simp: assert_deleted_def abind_Val with_budget_def split: if_splits)
  from await_gone_Val [OF assms(1) this] i show ?thesis by blast
qed

lemma foreach_sent:
  assumes "foreach f xs st n = (Val st', n')" and "x \<in> set xs"
    and "\<And>x st. x \<in> set xs \<Longrightarrow> logs (f x st)"
    and "\<And>st n st' n'. f x st n = (Val st', n') \<Longrightarrow> q \<in> set (sends (f x st) n)"
  shows "q \<in> set (sends (foreach f xs st) n)"
  using assms(1-3)
proof (induction xs arbitrary: st n)
  case (Cons y ys)
  from Cons.prems(1) obtain st1 n1 where y: "f y st n = (Val st1, n1)" and ys: "foreach f ys st1 n1 = (Val st', n')"
    by (auto simp: abind_Val)
  have logs: "logs (f y st)" "logs (foreach f ys st)" for st
    using Cons.prems(3) by (auto intro: emits_foreach)
  show ?case
  proof (cases "x = y")
    case True
    from assms(4) [OF y [folded True]] show ?thesis using y True by (simp add: sends_abind [OF logs])
  next
    case False
    with Cons.prems have "x \<in> set ys" "\<And>x st. x \<in> set ys \<Longrightarrow> logs (f x st)" by auto
    from Cons.IH [OF ys this] y show ?thesis by (simp add: sends_abind [OF logs])
  qed
qed simp

lemma delete_dropped_sends:
  assumes "delete_dropped srv tm ms n = (Val u, n')" and "m \<in> set ms"
  shows "\<exists>i. index m ''id'' = Inr i \<and> DeleteMonitor i \<in> set (sends (delete_dropped srv tm ms) n)"
proof -
  from assms(1) obtain ids n1 n2 where each: "foreach (delete_monitor srv) ms () n = (Val (), n1)"
    and ids: "emap (\<lambda>m. index m ''id'') ms = Inr ids"
    by (auto simp: delete_dropped_def abind_Val)
  from emap_image [OF ids assms(2)] obtain i where i: "index m ''id'' = Inr i" by blast
  have logs: "logs (delete_monitor srv m u)" for m u
    unfolding delete_monitor_def by (intro emits_intros) simp
  have "DeleteMonitor i \<in> set (sends (foreach (delete_monitor srv) ms ()) n)"
    by (rule foreach_sent [OF each assms(2) logs])
      (simp add: delete_monitor_def i run_simps(5) sends_abind [OF emits_ask] sends_ask)
  moreover have "logs (abind (lift (emap (\<lambda>m. index m ''id'') ms)) (assert_deleted srv tm))"
    by (intro emits_intros emits_mono [OF emits_assert_deleted]) simp
  ultimately show ?thesis
    using i by (auto simp: delete_dropped_def sends_abind [OF emits_foreach [OF logs]])
qed

text \<open>C35. No write over a delete that may not have landed. If a monitor is created, edited or paused at all, then
  the deletes were all sent before, and the instance has since answered for each of them that the monitor is
  gone; from that state the writes begin. This takes that a monitor which is gone stays so.\<close>

theorem writes_after_confirmed_deletes:
  assumes "stays_gone srv tm" and "q \<in> set (sends (apply_sync srv tm build f p) n)" and "writes_monitor q"
  shows "\<exists>ids n1 n2. ensure_tags srv (kf_tags f) n = (Val ids, n1) \<and> delete_dropped srv tm (sp_delete p) n1 = (Val (), n2)
    \<and> (\<forall>m \<in> set (sp_delete p). \<exists>i. index m ''id'' = Inr i \<and> DeleteMonitor i \<in> set (sends (delete_dropped srv tm (sp_delete p)) n1)
        \<and> gone srv i (world n2))
    \<and> q \<in> set (sends (write_plan srv build p ids) n2)"
proof -
  let ?wr = "\<lambda>ids. abind (write_plan srv build p ids) (\<lambda>failed. ret (if failed \<noteq> [] then 1 else 0 :: nat))"
  let ?rest = "\<lambda>ids. abind (delete_dropped srv tm (sp_delete p)) (\<lambda>_. ?wr ids)"
  have no_write: "q \<notin> set (sends (ensure_tags srv (kf_tags f)) k)" "q \<notin> set (sends (delete_dropped srv tm (sp_delete p)) k)" for k
    using emits_mem [OF emits_tags, of q] emits_mem [OF emits_delete_dropped, of q] assms(3) by (force simp: writes_monitor_def)+
  have logs: "logs (?wr ids)" "logs (?rest ids)" for ids by (intro emits_intros logs_parts)+
  from assms(2) [unfolded apply_sync_def] logs_parts(2) logs(2) obtain ids n1 where
    tags: "ensure_tags srv (kf_tags f) n = (Val ids, n1)" and q: "q \<in> set (sends (?rest ids) n1)"
    by (rule sends_abindE) (use no_write in auto)
  from q logs_parts(3) logs(1) obtain n2 where
    deleted: "delete_dropped srv tm (sp_delete p) n1 = (Val (), n2)" and q: "q \<in> set (sends (?wr ids) n2)"
    by (rule sends_abindE) (use no_write in auto)
  from q logs_parts(4) have q: "q \<in> set (sends (write_plan srv build p ids) n2)"
    by (rule sends_abindE) simp_all
  have "\<exists>i. index m ''id'' = Inr i \<and> DeleteMonitor i \<in> set (sends (delete_dropped srv tm (sp_delete p)) n1) \<and> gone srv i (world n2)"
    if m: "m \<in> set (sp_delete p)" for m
  proof -
    from delete_dropped_sends [OF deleted m] delete_dropped_Val [OF assms(1) deleted m] show ?thesis by blast
  qed
  with tags deleted q show ?thesis by blast
qed

section \<open>Every change is tried\<close>

lemma says_any:
  "says srv (reconcile_tags srv ids e m) (\<lambda>_ _. True)"
proof -
  have each: "says srv (foreach g xs st) (\<lambda>_ _. True)" if "\<And>x st. says srv (g x st) (\<lambda>_ _. True)"
    for g :: "'x \<Rightarrow> unit \<Rightarrow> (kuma_call, 'a, unit) act" and xs st
    using that by (induction xs arbitrary: st) (auto intro: says_ret says_abind [where P = "\<lambda>_ _. True"])
  have steps: "says srv (add_missing_tag srv ids m name u) (\<lambda>_ _. True)" "says srv (drop_extra_tag srv m tag u) (\<lambda>_ _. True)"
    for name tag u
    unfolding add_missing_tag_def drop_extra_tag_def by (intro says_intros TrueI)+
  show ?thesis
    unfolding reconcile_tags_def
    by (intro says_intros says_abind [OF each [OF steps(1)]] each steps)
qed

lemma says_tried:
  assumes "says srv m (\<lambda>_ tr. \<exists>a \<in> set tr. P a)"
  shows "says srv (tried m) (\<lambda>ok tr. ok \<longrightarrow> (\<exists>a \<in> set tr. P a))"
  unfolding tried_def
  by (rule says_attempt [OF says_abind [OF assms]]) (auto intro!: says_ret)

definition edit_accepted :: "sync_plan \<Rightarrow> edit \<Rightarrow> kuma_call \<times> (exn + json) \<Rightarrow> bool" where
  "edit_accepted p e a \<longleftrightarrow> (\<exists>i params r. index (fst e) ''id'' = Inr i \<and> edit_params p (snd e) = Inr params \<and>
     a = (EditMonitor i params, Inr r))"

definition create_accepted :: "(obj \<Rightarrow> exn + obj) \<Rightarrow> sync_plan \<Rightarrow> monitor \<Rightarrow> kuma_call \<times> (exn + json) \<Rightarrow> bool" where
  "create_accepted build p m a \<longleftrightarrow> (\<exists>data r i. create_data build p m = Inr data \<and> created_id r = Inr i \<and>
     a = (AddMonitor data, Inr r))"

definition pause_accepted :: "monitor \<Rightarrow> kuma_call \<times> (exn + json) \<Rightarrow> bool" where
  "pause_accepted m a \<longleftrightarrow> (\<exists>i r. index m ''id'' = Inr i \<and> a = (PauseMonitor i, Inr r))"

lemma says_edit: "says srv (edit_monitor srv p ids e) (\<lambda>_ tr. \<exists>a \<in> set tr. edit_accepted p e a)"
  unfolding edit_monitor_def
  by (intro says_intros says_mono [OF says_any]) (auto simp: edit_accepted_def)

lemma says_create: "says srv (create_monitor srv build p ids m) (\<lambda>_ tr. \<exists>a \<in> set tr. create_accepted build p m a)"
  unfolding create_monitor_def
  by (intro says_intros says_mono [OF says_any]) (auto simp: create_accepted_def)

lemma says_pause: "says srv (pause_monitor srv m) (\<lambda>_ tr. \<exists>a \<in> set tr. pause_accepted m a)"
  unfolding pause_monitor_def by (intro says_intros) (auto simp: pause_accepted_def)

text \<open>A loop whose steps add to the failures or are accepted.\<close>

lemma says_accepted:
  assumes "\<And>x failed. x \<in> set xs \<Longrightarrow>
    says srv (f x failed) (\<lambda>failed' tr. length failed \<le> length failed' \<and> (length failed' = length failed \<longrightarrow> (\<exists>a \<in> set tr. A x a)))"
  shows "says srv (foreach f xs failed)
    (\<lambda>failed' tr. length failed \<le> length failed' \<and> (length failed' = length failed \<longrightarrow> (\<forall>x \<in> set xs. \<exists>a \<in> set tr. A x a)))"
  using assms
proof (induction xs arbitrary: failed)
  case (Cons x xs)
  have rest: "says srv (foreach f xs failed)
    (\<lambda>failed' tr. length failed \<le> length failed' \<and> (length failed' = length failed \<longrightarrow> (\<forall>x \<in> set xs. \<exists>a \<in> set tr. A x a)))" for failed
    by (rule Cons.IH) (use Cons.prems in auto)
  have one: "says srv (f x failed) (\<lambda>failed' tr. length failed \<le> length failed' \<and> (length failed' = length failed \<longrightarrow> (\<exists>a \<in> set tr. A x a)))"
    by (rule Cons.prems) simp
  show ?case
    unfolding foreach.simps
    by (rule says_abind [OF one], rule says_mono [OF rest]) (auto 4 3)
qed (simp add: says_ret)

lemma says_edit_step: "says srv (edit_step srv p ids e failed)
    (\<lambda>failed' tr. length failed \<le> length failed' \<and> (length failed' = length failed \<longrightarrow> (\<exists>a \<in> set tr. edit_accepted p e a)))"
  unfolding edit_step_def by (rule says_abind [OF says_tried [OF says_edit]], rule says_ret) auto

lemma says_create_step: "says srv (create_step srv build p ids m failed)
    (\<lambda>failed' tr. length failed \<le> length failed' \<and> (length failed' = length failed \<longrightarrow> (\<exists>a \<in> set tr. create_accepted build p m a)))"
  unfolding create_step_def
  by (rule says_abind [OF says_tried [OF says_create]]) (auto intro!: says_intros)

lemma says_pause_step: "says srv (pause_step srv m failed)
    (\<lambda>failed' tr. length failed \<le> length failed' \<and> (length failed' = length failed \<longrightarrow> (\<exists>a \<in> set tr. pause_accepted m a)))"
  unfolding pause_step_def by (rule says_abind [OF says_tried [OF says_pause]], rule says_ret) auto

definition all_accepted :: "(obj \<Rightarrow> exn + obj) \<Rightarrow> sync_plan \<Rightarrow> (kuma_call \<times> (exn + json)) list \<Rightarrow> bool" where
  "all_accepted build p tr \<longleftrightarrow>
     (\<forall>e \<in> set (sp_edit p). \<exists>a \<in> set tr. edit_accepted p e a) \<and>
     (\<forall>m \<in> set (sp_create p). \<exists>a \<in> set tr. create_accepted build p m a) \<and>
     (\<exists>answer live paused. (GetMonitors, Inr answer) \<in> set tr \<and> entries_of answer = Inr live \<and>
        monitors_to_pause (sp_seed p) live = Inr paused \<and> (\<forall>m \<in> set paused. \<exists>a \<in> set tr. pause_accepted m a))"

lemma says_write_plan:
  "says srv (write_plan srv build p ids) (\<lambda>failed tr. failed = [] \<longrightarrow> all_accepted build p tr)"
proof -
  have pause: "says srv (pause_declared srv p failed) (\<lambda>failed' tr. length failed \<le> length failed' \<and> (length failed' = length failed \<longrightarrow>
      (\<exists>answer live paused. (GetMonitors, Inr answer) \<in> set tr \<and> entries_of answer = Inr live \<and>
        monitors_to_pause (sp_seed p) live = Inr paused \<and> (\<forall>m \<in> set paused. \<exists>a \<in> set tr. pause_accepted m a))))" for failed
    unfolding pause_declared_def
    by (intro says_ask_then says_lift_then, rule says_mono [OF says_accepted [OF says_pause_step]]) auto
  show ?thesis
    unfolding write_plan_def all_accepted_def
    by (rule says_abind [OF says_accepted [OF says_edit_step]], rule says_abind [OF says_accepted [OF says_create_step]],
        rule says_mono [OF pause]) fastforce
qed

lemma sends_tried: "logs m \<Longrightarrow> sends (tried m) n = sends m n"
  unfolding tried_def
  by (subst sends_attempt, intro emits_intros, assumption, simp, subst sends_abind)
    (auto split: prod.split outcome.split)

lemma write_plan_tries:
  assumes "write_plan srv build p ids n = (Val failed, n')"
  shows "\<And>e i params. e \<in> set (sp_edit p) \<Longrightarrow> index (fst e) ''id'' = Inr i \<Longrightarrow> edit_params p (snd e) = Inr params \<Longrightarrow>
      EditMonitor i params \<in> set (sends (write_plan srv build p ids) n)"
    and "\<And>m data. m \<in> set (sp_create p) \<Longrightarrow> create_data build p m = Inr data \<Longrightarrow>
      AddMonitor data \<in> set (sends (write_plan srv build p ids) n)"
proof -
  from assms obtain f1 n1 f2 n2 where edits: "foreach (edit_step srv p ids) (sp_edit p) [] n = (Val f1, n1)"
    and creates: "foreach (create_step srv build p ids) (sp_create p) f1 n1 = (Val f2, n2)"
    by (auto simp: write_plan_def abind_Val)
  have pause: "logs (pause_declared srv p failed)" for failed
    unfolding pause_declared_def pause_step_def tried_def pause_monitor_def by (intro emits_intros; simp)
  have one: "logs (edit_monitor srv p ids e)" "logs (create_monitor srv build p ids m)" for e m
    unfolding edit_monitor_def create_monitor_def by (intro emits_intros logs_parts; simp)+
  have step: "logs (edit_step srv p ids e failed)" "logs (create_step srv build p ids m failed)" for e m failed
    unfolding edit_step_def create_step_def tried_def by (intro emits_intros one)+
  have loops: "logs (foreach (edit_step srv p ids) es failed)" "logs (foreach (create_step srv build p ids) ms failed)" for es ms failed
    by (intro emits_foreach step)+
  have log: "sends (write_plan srv build p ids) n = sends (foreach (edit_step srv p ids) (sp_edit p) []) n @
      sends (foreach (create_step srv build p ids) (sp_create p) f1) n1 @ sends (pause_declared srv p f2) n2"
    unfolding write_plan_def
    by (simp add: sends_abind [OF loops(1)] sends_abind [OF loops(2) pause] emits_abind [OF loops(2) pause] edits creates)
  have edit_step: "sends (edit_step srv p ids e failed) k = sends (edit_monitor srv p ids e) k" for e failed k
    unfolding edit_step_def by (subst sends_abind) (auto simp: tried_def sends_tried [OF one(1), unfolded tried_def]
        intro!: emits_intros one split: prod.split outcome.split)
  show "EditMonitor i params \<in> set (sends (write_plan srv build p ids) n)"
    if e: "e \<in> set (sp_edit p)" and i: "index (fst e) ''id'' = Inr i" "edit_params p (snd e) = Inr params" for e i params
  proof -
    have "EditMonitor i params \<in> set (sends (foreach (edit_step srv p ids) (sp_edit p) []) n)"
      by (rule foreach_sent [OF edits e step(1)])
        (simp add: edit_step edit_monitor_def i run_simps(5) sends_abind [OF emits_ask] logs_parts)
    then show ?thesis by (simp add: log)
  qed
  have create_step: "set (sends (create_monitor srv build p ids m) k) \<subseteq> set (sends (create_step srv build p ids m failed) k)" for m failed k
    unfolding create_step_def by (subst sends_abind) (auto simp: tried_def sends_tried [OF one(2), unfolded tried_def]
        intro!: emits_intros one split: prod.split outcome.split)
  show "AddMonitor data \<in> set (sends (write_plan srv build p ids) n)"
    if m: "m \<in> set (sp_create p)" and data: "create_data build p m = Inr data" for m data
  proof -
    have logs: "logs (abind (lift (created_id r)) (\<lambda>i. if truthy i then reconcile_tags srv ids m [(''id'', i), (''tags'', JArr [])] else ret ()))" for r
      by (intro emits_intros logs_parts)
    have "AddMonitor data \<in> set (sends (create_monitor srv build p ids m) k)" for k
      by (simp add: create_monitor_def data run_simps(5) sends_abind [OF emits_ask] logs)
    then have "AddMonitor data \<in> set (sends (foreach (create_step srv build p ids) (sp_create p) f1) n1)"
      by (intro foreach_sent [OF creates m step(2)] subsetD [OF create_step])
    then show ?thesis by (simp add: log)
  qed
qed


end
