(* ===== verification/MonitorCommandFacts.thy ===== *)
theory MonitorCommandFacts
  imports MonitorApplyFacts
begin

text \<open>
  The monitor commands end by themselves, the bootstrap leaves a configured instance alone, and the
  properties of the sync at concrete instances.
\<close>

section \<open>The commands end\<close>

lemma answers_ask_timely: "keeps_time tm srv \<Longrightarrow> answers (timely tm t k) (ask srv q)"
  unfolding ask_def by (intro answers_intros)

lemma answers_ask_budget [answers_intros]: "answers (\<lambda>n. k \<le> budget n) (ask srv q)"
  unfolding ask_def by (intro answers_intros)

lemma answers_still_here: "keeps_time tm srv \<Longrightarrow> answers (timely tm t k) (still_here srv i found)"
  unfolding still_here_def by (intro answers_intros answers_ask_timely)

text \<open>A loop that sleeps half a second at a time is past its deadline when as many sleeps as fit have passed.\<close>

lemma slept:
  assumes "keeps_time tm (srv :: 'q \<Rightarrow> 's \<Rightarrow> 'r \<times> 's)" and "deadline \<le> t_clock tm w + int (Suc j) * half_second"
  shows "deadline \<le> t_clock tm (t_sleep tm half_second w) + int j * half_second"
proof -
  have "t_clock tm w + half_second \<le> t_clock tm (t_sleep tm half_second w)" using assms(1) by (simp add: keeps_time_def)
  with assms(2) show ?thesis by (simp add: distrib_right)
qed

lemma await_gone_answers:
  assumes "keeps_time tm srv"
  shows "deadline \<le> t_clock tm (world n) + int j * half_second \<Longrightarrow>
    fst (await_gone (j + 2) srv tm deadline pending n) \<noteq> Stuck \<and> budget (snd (await_gone (j + 2) srv tm deadline pending n)) = budget n"
proof (induction j arbitrary: pending n)
  case 0
  then show ?case by (simp add: numeral_2_eq_2 abind_def clock_def ret_def)
next
  case (Suc j)
  let ?looks = "foreach (still_here srv) pending []"
  show ?case
  proof (cases "pending \<noteq> [] \<and> t_clock tm (world n) < deadline")
    case True
    obtain r n1 where looks: "?looks n = (r, n1)" by fastforce
    have "timely tm (t_clock tm (world n)) (budget n) n" by (simp add: timely_def)
    from answersD [OF answers_foreach [OF answers_still_here [OF assms]] this looks]
    have n1: "r \<noteq> Stuck" "t_clock tm (world n) \<le> t_clock tm (world n1)" by (simp_all add: timely_def)
    have "logs ?looks" by (intro emits_foreach emits_mono [OF emits_still_here]) simp
    from emitsD(1) [OF this looks] have same: "budget n1 = budget n" .
    show ?thesis
    proof (cases r)
      case (Val left)
      show ?thesis
      proof (cases "left = []")
        case False
        let ?n2 = "n1\<lparr>world := t_sleep tm half_second (world n1)\<rparr>"
        have "deadline \<le> t_clock tm (world n1) + int (Suc j) * half_second" using Suc.prems n1(2) by linarith
        from slept [OF assms this] have "deadline \<le> t_clock tm (world ?n2) + int j * half_second" by simp
        from Suc.IH [OF this, of left] True False looks Val same show ?thesis
          by (simp add: abind_def clock_def sleep_def)
      qed (use True looks Val same in \<open>simp add: abind_def clock_def ret_def\<close>)
    qed (use True looks n1 same in \<open>simp_all add: abind_def clock_def\<close>)
  qed (auto simp: abind_def clock_def ret_def)
qed

lemma await_setup_answers:
  assumes "keeps_time tm srv"
  shows "deadline \<le> t_clock tm (world n) + int j * half_second \<Longrightarrow>
    fst (await_setup (j + 2) srv tm deadline n) \<noteq> Stuck \<and> budget (snd (await_setup (j + 2) srv tm deadline n)) = budget n"
proof (induction j arbitrary: n)
  case 0
  obtain r n1 where look: "ask srv SetupAck n = (r, n1)" by fastforce
  have "timely tm (t_clock tm (world n)) (budget n) n" by (simp add: timely_def)
  from answersD [OF answers_ask_timely [OF assms] this look]
  have n1: "r \<noteq> Stuck" "t_clock tm (world n) \<le> t_clock tm (world n1)" by (simp_all add: timely_def)
  have same: "budget n1 = budget n" by (rule emitsD(1) [OF emits_ask [where P = "\<lambda>_. True"] look]) simp
  from 0 n1 look same show ?case by (cases r) (simp_all add: numeral_2_eq_2 abind_def clock_def ret_def)
next
  case (Suc j)
  obtain r n1 where look: "ask srv SetupAck n = (r, n1)" by fastforce
  have "timely tm (t_clock tm (world n)) (budget n) n" by (simp add: timely_def)
  from answersD [OF answers_ask_timely [OF assms] this look]
  have n1: "r \<noteq> Stuck" "t_clock tm (world n) \<le> t_clock tm (world n1)" by (simp_all add: timely_def)
  have same: "budget n1 = budget n" by (rule emitsD(1) [OF emits_ask [where P = "\<lambda>_. True"] look]) simp
  let ?n2 = "n1\<lparr>world := t_sleep tm half_second (world n1)\<rparr>"
  have "deadline \<le> t_clock tm (world n1) + int (Suc j) * half_second" using Suc.prems n1(2) by linarith
  from slept [OF assms this] have "deadline \<le> t_clock tm (world ?n2) + int j * half_second" by simp
  from Suc.IH [OF this] look n1 same show ?case
    by (cases r) (simp_all add: abind_def clock_def sleep_def ret_def)
qed

text \<open>Enough iterations for the two waits.\<close>

definition kuma_bound :: nat where
  "kuma_bound = poll_bound half_second setup_timeout"

lemma kuma_bound_enough:
  "delete_timeout \<le> int (kuma_bound - 2) * half_second" "setup_timeout \<le> int (kuma_bound - 2) * half_second" "2 \<le> kuma_bound"
  by (simp_all add: kuma_bound_def poll_bound_def half_second_def setup_timeout_def delete_timeout_def second_def)

abbreviation enough :: "('q, 's) net \<Rightarrow> bool" where
  "enough n \<equiv> kuma_bound \<le> budget n"

lemma waits_answer:
  assumes "keeps_time tm srv" and "enough n"
  shows "\<And>pending. fst (await_gone (budget n) srv tm (t_clock tm (world n) + delete_timeout) pending n) \<noteq> Stuck \<and>
      budget (snd (await_gone (budget n) srv tm (t_clock tm (world n) + delete_timeout) pending n)) = budget n"
    and "fst (await_setup (budget n) srv tm (t_clock tm (world n) + setup_timeout) n) \<noteq> Stuck \<and>
      budget (snd (await_setup (budget n) srv tm (t_clock tm (world n) + setup_timeout) n)) = budget n"
proof -
  define j where "j = budget n - 2"
  have j: "budget n = j + 2" using assms(2) kuma_bound_enough(3) by (simp add: j_def)
  have "int (kuma_bound - 2) * half_second \<le> int j * half_second"
    using assms(2) by (intro mult_right_mono) (simp_all add: j_def half_second_def second_def)
  with kuma_bound_enough have "delete_timeout \<le> int j * half_second" "setup_timeout \<le> int j * half_second" by linarith+
  with await_setup_answers [OF assms(1), where n = n and j = j] await_gone_answers [OF assms(1), where n = n and j = j]
  show "fst (await_setup (budget n) srv tm (t_clock tm (world n) + setup_timeout) n) \<noteq> Stuck \<and>
      budget (snd (await_setup (budget n) srv tm (t_clock tm (world n) + setup_timeout) n)) = budget n"
    "\<And>pending. fst (await_gone (budget n) srv tm (t_clock tm (world n) + delete_timeout) pending n) \<noteq> Stuck \<and>
      budget (snd (await_gone (budget n) srv tm (t_clock tm (world n) + delete_timeout) pending n)) = budget n"
    by (simp_all add: j)
qed

lemma answers_waits:
  assumes "keeps_time tm srv"
  shows "answers enough (abind (clock tm) (\<lambda>t. with_budget (\<lambda>fuel. await_gone fuel srv tm (t + delete_timeout) ids)))"
    and "answers enough (abind (clock tm) (\<lambda>t. with_budget (\<lambda>fuel. await_setup fuel srv tm (t + setup_timeout))))"
  using waits_answer [OF assms] by (auto simp: answers_def abind_def clock_def with_budget_def)

lemma answers_assert_deleted:
  assumes "keeps_time tm srv"
  shows "answers enough (assert_deleted srv tm ids)"
proof -
  have "assert_deleted srv tm ids = (if ids = [] then ret () else
      abind (abind (clock tm) (\<lambda>t. with_budget (\<lambda>fuel. await_gone fuel srv tm (t + delete_timeout) ids))) (\<lambda>pending.
        if pending \<noteq> [] then throw (RuntimeError ''still present'') else ret ()))"
    by (simp add: assert_deleted_def abind_assoc)
  then show ?thesis
    by (simp only:) (intro answers_if answers_abind [OF answers_waits(1) [OF assms]] answers_ret answers_throw)
qed

lemma answers_sleep [answers_intros]: "answers (\<lambda>n. k \<le> budget n) (sleep tm d)"
  by (simp add: answers_def sleep_def)

lemma answers_run_setup:
  assumes "keeps_time tm srv"
  shows "answers enough (run_setup srv tm c)"
proof -
  have "run_setup srv tm c = abind (sleep tm settle_time) (\<lambda>_. abind (ask srv (EmitSetup (kc_username c) (kc_password c))) (\<lambda>_.
      abind (abind (clock tm) (\<lambda>t. with_budget (\<lambda>fuel. await_setup fuel srv tm (t + setup_timeout)))) (\<lambda>_.
      abind (ask srv SetupAck) (\<lambda>result. if \<not> truthy result then throw (TimeoutExpired ''setup'')
        else abind (lift (py_get_or result ''ok'' (JBool False))) (\<lambda>ok. if \<not> truthy ok then throw (RuntimeError ''setup'') else ret ())))))"
    by (simp add: run_setup_def abind_assoc)
  then show ?thesis
    by (simp only:) (rule answers_abind [OF answers_sleep], rule answers_abind [OF answers_ask_budget],
        rule answers_abind [OF answers_waits(2) [OF assms]], intro answers_intros)
qed

lemma answers_apply_monitors:
  assumes "keeps_time tm srv"
  shows "answers enough (apply_monitors srv tm build f check_only prune)"
proof -
  have tags: "answers enough (reconcile_tags srv ids e m)" for ids e m
    unfolding reconcile_tags_def add_missing_tag_def drop_extra_tag_def
    by (intro answers_intros) (auto intro!: answers_intros split: prod.split)
  have one: "answers enough (edit_monitor srv p ids e)" "answers enough (create_monitor srv build p ids m)"
    "answers enough (pause_monitor srv m)" for p ids e m
    unfolding edit_monitor_def create_monitor_def pause_monitor_def by (intro answers_intros tags)+
  have writing: "answers enough (write_plan srv build p ids)" for p ids
    unfolding write_plan_def edit_step_def create_step_def pause_declared_def pause_step_def tried_def
    by (intro answers_intros one)
  have delete: "answers enough (delete_dropped srv tm ms)" for ms
    unfolding delete_dropped_def delete_monitor_def by (intro answers_intros answers_assert_deleted assms)
  have ensure: "answers enough (ensure_tags srv tags)" for tags
    unfolding ensure_tags_def ensure_tag_def by (intro answers_intros)
  have plan: "answers enough (plan_sync srv f doc)" for doc
    unfolding plan_sync_def by (intro answers_intros) (auto intro!: answers_intros split: prod.split)
  have "answers enough (run_sync srv tm build f check_only prune)"
    unfolding run_sync_def apply_sync_def by (intro answers_intros plan ensure delete writing)
  then show ?thesis
    unfolding apply_monitors_def connected_def kuma_connect_def kuma_disconnect_def by (intro answers_intros)
qed

text \<open>The commands end by themselves. Whatever the instance answers, neither an apply nor a bootstrap waits for ever:
  on a clock that keeps time, waiting for the deletes takes at most thirty seconds of looks and waiting for
  the first set-up at most sixty, so that both come to a result or an exception.\<close>

theorem monitor_commands_end:
  assumes "keeps_time tm srv" and "kuma_bound \<le> budget n"
  shows "fst (apply_monitors srv tm build f check_only prune n) \<noteq> Stuck \<and> fst (bootstrap srv tm build f n) \<noteq> Stuck"
proof -
  have "answers enough (bootstrap srv tm build f)"
    unfolding bootstrap_def kuma_disconnect_def
    by (intro answers_intros answers_apply_monitors answers_run_setup assms(1))
  with answers_apply_monitors [OF assms(1)] assms(2) show ?thesis by (simp add: answers_def)
qed

section \<open>The bootstrap\<close>

lemma ask_Val: "ask srv q n = (Val x, n') \<Longrightarrow> fst (srv q (world n)) = Inr x \<and> world n' = snd (srv q (world n))"
  by (auto simp: ask_def abind_def call_def lift_def ret_def throw_def split: prod.splits sum.splits)

lemma emits_run_setup: "emits (\<lambda>q. \<forall>i. q \<noteq> DeleteMonitor i) (run_setup srv tm c)"
proof -
  have "emits (\<lambda>q. \<forall>i. q \<noteq> DeleteMonitor i) (await_setup k srv tm t)" for k t
    by (induction k) (auto intro!: emits_intros)
  then show ?thesis unfolding run_setup_def by (intro emits_intros) simp_all
qed

lemma emits_unpruned: "emits (\<lambda>q. \<forall>i. q \<noteq> DeleteMonitor i) (apply_monitors srv tm build f check_only False)"
proof -
  have "emits (\<lambda>q. \<forall>i. q \<noteq> DeleteMonitor i) (apply_sync srv tm build f p)" if "sp_delete p = []" for p
    by (rule emits_mono [OF emits_apply_sync]) (use that in \<open>auto simp: deletes_one_of_def\<close>)
  then have "emits (\<lambda>q. \<forall>i. q \<noteq> DeleteMonitor i) (run_sync srv tm build f check_only False)"
    unfolding run_sync_def by (intro emits_intros emits_mono [OF emits_plan_sync]) auto
  then show ?thesis
    unfolding apply_monitors_def connected_def
    by (intro emits_intros emits_mono [OF emits_connect] emits_mono [OF emits_disconnect]) (auto simp: kuma_change_def)
qed

text \<open>The unattended bootstrap cannot lose a monitor and does not touch a configured instance: it never deletes, and
  it sends a change at all only after the instance has answered that it still needs to be set up.\<close>

theorem bootstrap_spares_configured:
  assumes "q \<in> set (sends (bootstrap srv tm build f) n)" and "kuma_change q"
  shows "(\<forall>i. q \<noteq> DeleteMonitor i) \<and> (\<exists>c fresh. get_kuma_creds f = Inr (Some c) \<and> truthy fresh \<and>
    fst (srv NeedSetup (t_sleep tm settle_time (snd (srv (Open (kc_url c)) (world n))))) = Inr fresh)"
proof
  have "emits (\<lambda>q. \<forall>i. q \<noteq> DeleteMonitor i) (bootstrap srv tm build f)"
    unfolding bootstrap_def
    by (intro emits_intros emits_run_setup emits_unpruned emits_mono [OF emits_disconnect]) (auto simp: kuma_change_def)
  from emits_mem [OF this assms(1)] show "\<forall>i. q \<noteq> DeleteMonitor i" .
  let ?rest = "\<lambda>c fresh. abind (if truthy fresh then run_setup srv tm c else ret ()) (\<lambda>_. abind (kuma_disconnect srv) (\<lambda>_.
    if \<not> truthy fresh then ret 0 else apply_monitors srv tm build f False False))"
  have rest: "logs (?rest c fresh)" for c fresh
    by (intro emits_intros emits_mono [OF emits_run_setup] emits_mono [OF emits_unpruned] logs_parts) simp_all
  have logs: "logs (abind (ask srv NeedSetup) (?rest c))"
    "logs (abind (sleep tm settle_time) (\<lambda>_. abind (ask srv NeedSetup) (?rest c)))" for c
    by (intro emits_intros rest; simp)+
  from assms(1) obtain c where c: "get_kuma_creds f = Inr (Some c)"
    and q: "q \<in> set (sends (abind (ask srv (Open (kc_url c))) (\<lambda>_. abind (sleep tm settle_time) (\<lambda>_. abind (ask srv NeedSetup) (?rest c)))) n)"
    by (cases "get_kuma_creds f") (auto simp: bootstrap_def run_simps(4,5) split: option.splits)
  from q obtain x n1 where opened: "ask srv (Open (kc_url c)) n = (Val x, n1)"
    and q: "q \<in> set (sends (abind (sleep tm settle_time) (\<lambda>_. abind (ask srv NeedSetup) (?rest c))) n1)"
    by (rule sends_abindE) (use assms(2) logs in \<open>auto simp: kuma_change_def intro: emits_ask\<close>)
  let ?n2 = "n1\<lparr>world := t_sleep tm settle_time (world n1)\<rparr>"
  from q have q: "q \<in> set (sends (abind (ask srv NeedSetup) (?rest c)) ?n2)"
    by (simp add: sends_def abind_def sleep_def)
  then obtain fresh n3 where fresh: "ask srv NeedSetup ?n2 = (Val fresh, n3)" and q: "q \<in> set (sends (?rest c fresh) n3)"
    by (rule sends_abindE) (use assms(2) rest in \<open>auto simp: kuma_change_def intro: emits_ask\<close>)
  have "truthy fresh"
  proof (rule ccontr)
    assume "\<not> truthy fresh"
    then have "emits (\<lambda>q. \<not> kuma_change q) (?rest c fresh)" by (auto intro!: emits_intros emits_disconnect)
    from emits_mem [OF this q] assms(2) show False by simp
  qed
  with c ask_Val [OF opened] ask_Val [OF fresh] show "\<exists>c fresh. get_kuma_creds f = Inr (Some c) \<and> truthy fresh \<and>
    fst (srv NeedSetup (t_sleep tm settle_time (snd (srv (Open (kc_url c)) (world n))))) = Inr fresh" by auto
qed

section \<open>An instance\<close>

definition sample_live :: monitor where
  "sample_live = [(''id'', JInt 1), (''name'', JStr ''made by hand'')]"

text \<open>The clock, and whether the one monitor is gone.\<close>

definition sample_kuma :: "(int \<times> bool) kuma" where
  "sample_kuma q w =
     (case q of
        GetNotifications \<Rightarrow> (Inr (JArr []), w)
      | GetMonitors \<Rightarrow> (Inr (JArr (if snd w then [] else [JObj sample_live])), w)
      | GetMonitor i \<Rightarrow> (if snd w then Inl (KumaException monitor_gone) else Inr (JObj sample_live), w)
      | DeleteMonitor i \<Rightarrow> (Inr JNull, (fst w, True))
      | AddMonitor data \<Rightarrow> (Inr (JObj [(''ok'', JBool True), (''monitorID'', JInt 2)]), w)
      | NeedSetup \<Rightarrow> (Inr (JBool True), w)
      | SetupAck \<Rightarrow> (Inr (JObj [(''ok'', JBool True)]), w)
      | _ \<Rightarrow> (Inr JNull, w))"

definition kuma_timer :: "(int \<times> bool) timer" where
  "kuma_timer = \<lparr>t_clock = fst, t_sleep = (\<lambda>d w. (fst w + d, snd w))\<rparr>"

definition nested_in :: "string list \<Rightarrow> obj \<Rightarrow> json" where
  "nested_in ks kvs = foldr (\<lambda>k v. JObj [(k, v)]) ks (JObj kvs)"

definition sample_files :: kuma_files where
  "sample_files =
     \<lparr>kf_merged = Inr (nested_in kuma_path [(''admin_user'', JStr ''admin'')]),
      kf_secrets = Inr (nested_in kuma_path [(''admin_password'', JStr ''pass'')]),
      kf_seed = Some (Inr (JArr [JObj [(''key'', JStr ''api''), (''name'', JStr ''API'')]])), kf_tags = None\<rparr>"

definition kuma_start :: "(kuma_call, int \<times> bool) net" where
  "kuma_start = \<lparr>sent = [], world = (0, False), budget = 130\<rparr>"

lemma sample_runs:
  "DeleteMonitor (JInt 1) \<in> set (sends (apply_monitors sample_kuma kuma_timer Inr sample_files False True) kuma_start)"
  by code_simp

lemma changes_need_consent_witness:
  "DeleteMonitor (JInt 1) \<in> set (sends (apply_monitors sample_kuma kuma_timer Inr sample_files False True) kuma_start) \<and>
   (\<exists>c n1 doc p. kuma_connect sample_kuma c kuma_start = (Val (), n1) \<and> fst (plan_sync sample_kuma sample_files doc n1) = Val p \<and>
      deletes_one_of (sp_delete p) (DeleteMonitor (JInt 1)))"
  using changes_need_consent [OF sample_runs] sample_runs by (simp add: kuma_change_def) blast

definition sample_sync :: sync_plan where
  "sample_sync = \<lparr>sp_seed = [seed_entry ''api'' ''API''], sp_defaults = [], sp_muted = [],
     sp_create = [seed_entry ''api'' ''API''], sp_edit = [], sp_delete = [sample_live]\<rparr>"

definition sample_data :: obj where
  "sample_data = [(''name'', JStr ''API''), (''description'', JStr (marker_of ''api'')), (''conditions'', JArr [])]"

lemma sample_applies:
  "AddMonitor sample_data \<in> set (sends (apply_sync sample_kuma kuma_timer Inr sample_files sample_sync) kuma_start)"
  "fst (apply_sync sample_kuma kuma_timer Inr sample_files sample_sync kuma_start) = Val 0"
  "EmitSetup (JStr ''admin'') (JStr ''pass'') \<in> set (sends (bootstrap sample_kuma kuma_timer Inr sample_files) kuma_start)"
  by code_simp+

lemma sample_stays_gone: "stays_gone sample_kuma kuma_timer"
  by (auto simp: stays_gone_def gone_def sample_kuma_def kuma_timer_def split: if_splits)

lemma writes_after_confirmed_deletes_witness:
  "\<exists>n1 n2. delete_dropped sample_kuma kuma_timer [sample_live] n1 = (Val (), n2) \<and> gone sample_kuma (JInt 1) (world n2)"
proof -
  have "writes_monitor (AddMonitor sample_data)" by (simp add: writes_monitor_def)
  from writes_after_confirmed_deletes [OF sample_stays_gone sample_applies(1) this] show ?thesis
    by (auto simp: sample_sync_def sample_live_def lookup_or_def)
qed


lemma kuma_keeps_time: "keeps_time kuma_timer sample_kuma"
  by (auto simp: keeps_time_def kuma_timer_def sample_kuma_def split: kuma_call.split)

lemma monitor_commands_end_witness:
  "keeps_time kuma_timer sample_kuma \<and> fst (bootstrap sample_kuma kuma_timer Inr sample_files kuma_start) \<noteq> Stuck"
proof -
  have "kuma_bound \<le> budget kuma_start" by code_simp
  from monitor_commands_end [OF kuma_keeps_time this] kuma_keeps_time show ?thesis by blast
qed

lemma bootstrap_spares_configured_witness:
  "EmitSetup (JStr ''admin'') (JStr ''pass'') \<in> set (sends (bootstrap sample_kuma kuma_timer Inr sample_files) kuma_start) \<and>
   (\<exists>c. get_kuma_creds sample_files = Inr (Some c))"
proof -
  have "kuma_change (EmitSetup (JStr ''admin'') (JStr ''pass''))" by (simp add: kuma_change_def)
  from bootstrap_spares_configured [OF sample_applies(3) this] sample_applies(3) show ?thesis by blast
qed

end
