(* ===== verification/MonitorExportFacts.thy ===== *)
theory MonitorExportFacts
  imports MonitorApply MonitorDiffFacts "HOL-Library.Multiset"
begin

text \<open>
  The export of the live monitors: it never drops a declared key, and a seed exported from an instance whose
  monitors all bear a key plans nothing against that instance.
\<close>

section \<open>Nothing declared is dropped\<close>

lemma export_parts:
  assumes "export_contents srv f n = (Val (Some (ms, ns)), n')"
  obtains answer live clean where "fst (srv GetMonitors (world n)) = Inr answer" "entries_of answer = Inr live"
    "emap clean_monitor live = Inr clean" "keys_dropped clean (kf_seed f) = Inr []" "in_seed_order clean (kf_seed f) = Inr ms"
proof -
  from assms obtain answer n1 live clean where "ask srv GetMonitors n = (Val answer, n1)" "entries_of answer = Inr live"
    "emap clean_monitor live = Inr clean" "keys_dropped clean (kf_seed f) = Inr []" "in_seed_order clean (kf_seed f) = Inr ms"
    by (auto simp: export_contents_def abind_Val split: if_splits)
  moreover from this(1) have "fst (srv GetMonitors (world n)) = Inr answer"
    by (auto simp: ask_def abind_def call_def lift_def ret_def throw_def split: prod.splits sum.splits)
  ultimately show thesis by (intro that)
qed

lemma in_seed_order_mset: "in_seed_order clean seed_file = Inr ms \<Longrightarrow> mset ms = mset clean"
  by (auto simp: in_seed_order_def py_set_def split: option.splits if_splits)

text \<open>An export never un-declares: the file it writes holds every live monitor once, cleaned, and has an entry for
  every key the present seed declares; where the instance lacks one, nothing is written.\<close>

theorem export_keeps_declared:
  assumes "export_contents srv f n = (Val (Some (ms, ns)), n')" and "kf_seed f = Some (Inr doc)" and "entries_of doc = Inr seed"
  shows "(\<exists>answer live clean. fst (srv GetMonitors (world n)) = Inr answer \<and> entries_of answer = Inr live
      \<and> emap clean_monitor live = Inr clean \<and> mset ms = mset clean)
    \<and> (\<forall>e \<in> set seed. truthy (oget e ''key'') \<longrightarrow> (\<exists>m \<in> set ms. py_eq (oget e ''key'') (oget m ''key'')))"
proof -
  from assms(1) obtain answer live clean where parts: "fst (srv GetMonitors (world n)) = Inr answer" "entries_of answer = Inr live"
    "emap clean_monitor live = Inr clean" "keys_dropped clean (kf_seed f) = Inr []" "in_seed_order clean (kf_seed f) = Inr ms"
    by (rule export_parts)
  let ?declared = "map (\<lambda>e. oget e ''key'') (filter (\<lambda>e. truthy (oget e ''key'')) seed)"
  let ?exported = "map (\<lambda>m. oget m ''key'') clean"
  from parts(4) assms(2,3) have "py_sorted (py_diff ?declared ?exported) = Inr []"
    by (auto simp: keys_dropped_def py_set_def split: if_splits)
  then have "list_all (\<lambda>x. py_mem x ?exported) ?declared" by (simp add: py_diff_Nil)
  then have "\<forall>e \<in> set seed. truthy (oget e ''key'') \<longrightarrow> (\<exists>m \<in> set clean. py_eq (oget e ''key'') (oget m ''key''))"
    by (auto simp: list_all_iff py_mem_def list_ex_iff)
  moreover have "set ms = set clean" using in_seed_order_mset [OF parts(5)] by (metis set_mset_mset)
  ultimately show ?thesis using parts(1-3) in_seed_order_mset [OF parts(5)] by blast
qed

section \<open>A cleaned monitor\<close>

lemma map_of_keep: "map_of (keep_fields kept m) k = (if k \<in> set kept then map_of m k else None)"
  by (induction kept) (auto simp: keep_fields_def List.map_filter_simps split: option.splits)

lemma fst_keep: "map fst (keep_fields kept m) = filter (\<lambda>k. map_of m k \<noteq> None) kept"
  by (induction kept) (auto simp: keep_fields_def List.map_filter_simps split: option.splits)

lemma map_of_kept: "map_of (filter (\<lambda>kv. P (fst kv)) m) k = (if P k then map_of m k else None)"
  by (induction m) auto

lemma clean_parts:
  assumes "clean_monitor m = Inr e" and "stamped m = Some k"
  obtains rest words where "e = (''key'', JStr k) # oset rest ''description'' (JStr words)"
    "strip_key (oget m ''description'') = Inr words" "''key'' \<notin> fst ` set rest" "distinct (map fst rest)"
    "map_of rest ''description'' = map_of m ''description''"
    "\<forall>f v. f \<noteq> ''tags'' \<and> map_of rest f = Some v \<longrightarrow> map_of m f = Some v"
    "case map_of rest ''tags'' of None \<Rightarrow> map_of m ''tags'' = None | Some j \<Rightarrow> tag_names (oget m ''tags'') = Inr j"
proof -
  let ?dns = "\<lambda>k. k \<notin> {''dns_resolve_server'', ''dns_resolve_type''}"
  define kept where "kept = keep_fields export_fields m"
  define shown where "shown = (if oget kept ''type'' = JStr ''dns'' then kept else filter (\<lambda>kv. ?dns (fst kv)) kept)"
  have distinct: "distinct export_fields" and fields: "''description'' \<in> set export_fields" "''tags'' \<in> set export_fields" "''key'' \<notin> set export_fields"
    by code_simp+
  have "distinct (map fst kept)" unfolding kept_def fst_keep using distinct by simp
  then have shown_distinct: "distinct (map fst shown)" by (auto simp: shown_def distinct_map_filter)
  have of_shown: "map_of shown f = (if oget kept ''type'' = JStr ''dns'' \<or> ?dns f then map_of kept f else None)" for f
    unfolding shown_def using map_of_kept [of ?dns kept f] by (cases "oget kept ''type'' = JStr ''dns''") (simp_all only: if_True if_False simp_thms)
  have shown: "map_of shown f = Some v \<Longrightarrow> map_of m f = Some v" for f v
    by (simp add: of_shown kept_def map_of_keep split: if_splits)
  have same: "map_of shown f = map_of m f" if "f \<in> {''description'', ''tags''}" for f
    using that fields by (auto simp: of_shown kept_def map_of_keep)
  have no_key: "map_of shown ''key'' = None"
    using fields by (simp add: of_shown kept_def map_of_keep)
  from assms(1) obtain rest key where
    rest: "(case map_of shown ''tags'' of None \<Rightarrow> Inr shown | Some tags \<Rightarrow> ebind (tag_names tags) (\<lambda>names. Inr (oset shown ''tags'' names))) = Inr rest"
    and key: "extract_key (oget rest ''description'') = Inr key"
    and e: "(case key of None \<Rightarrow> Inr rest | Some k \<Rightarrow> ebind (strip_key (oget rest ''description'')) (\<lambda>words.
      Inr ((''key'', JStr k) # oset rest ''description'' (JStr words)))) = Inr e"
    unfolding clean_monitor_def Let_def kept_def [symmetric] shown_def [symmetric] ebind_eq_Inr by blast
  have desc: "map_of rest ''description'' = map_of m ''description''"
    using rest same [of "''description''"] by (auto split: option.splits)
  then have "oget rest ''description'' = oget m ''description''" by (simp add: oget_def)
  with key assms(2) have "key = Some k" by (simp add: stamped_def)
  with e \<open>oget rest ''description'' = _\<close> obtain words where words: "strip_key (oget m ''description'') = Inr words"
    "e = (''key'', JStr k) # oset rest ''description'' (JStr words)" by auto
  show thesis
  proof (rule that [OF words(2,1) _ _ desc])
    have "map_of rest ''key'' = None" using rest no_key by (auto split: option.splits)
    then show "''key'' \<notin> fst ` set rest" by (simp only: map_of_eq_None_iff not_False_eq_True)
    show "distinct (map fst rest)" using rest shown_distinct by (auto split: option.splits)
    show "\<forall>f v. f \<noteq> ''tags'' \<and> map_of rest f = Some v \<longrightarrow> map_of m f = Some v"
      using rest shown by (auto split: option.splits)
    show "case map_of rest ''tags'' of None \<Rightarrow> map_of m ''tags'' = None | Some j \<Rightarrow> tag_names (oget m ''tags'') = Inr j"
      using rest same [of "''tags''"] by (auto simp: oget_def split: option.splits)
  qed
qed

section \<open>Export and plan\<close>

text \<open>A monitor as the instance keeps it: its dictionaries have distinct keys, and no marker is left in its
  description when its own is taken out.\<close>

definition tidy :: "monitor \<Rightarrow> bool" where
  "tidy m \<longleftrightarrow> json_wf (JObj m) \<and> (\<forall>words. strip_key (oget m ''description'') = Inr words \<longrightarrow> strip_markers words = words)"

lemma fromkeys_mem: "x \<in> set xs \<Longrightarrow> json_wf x \<Longrightarrow> py_mem x (py_fromkeys seen xs) \<or> py_mem x seen"
  by (induction seen xs rule: py_fromkeys.induct) (auto simp: py_mem_def list_ex_iff py_eq_refl)

lemma fromkeys_subset: "set (py_fromkeys seen xs) \<subseteq> set xs"
  by (induction seen xs rule: py_fromkeys.induct) auto

lemma hashable_wf: "hashable j \<Longrightarrow> json_wf j"
  by (cases j) auto

lemma tag_names_named:
  assumes "tag_names tags = Inr j"
  obtains ts names where "py_iter (py_or tags (JArr [])) = Inr ts" "j = JArr names" "map (\<lambda>t. oget t ''name'') (map as_tag ts) = names"
proof -
  from assms obtain ts names where ts: "py_iter tags = Inr ts" "emap (\<lambda>t. py_index t ''name'') ts = Inr names" "j = JArr names"
    by (auto simp: tag_names_def)
  have "map (\<lambda>t. oget t ''name'') (map as_tag ts) = names"
    using ts(2)
  proof (induction ts arbitrary: names)
    case (Cons t ts)
    then show ?case by (cases t) (auto simp: as_tag_def oget_def)
  qed simp
  moreover have "py_iter (py_or tags (JArr [])) = Inr ts" using ts(1) by (cases tags) (auto simp: py_or_def)
  ultimately show thesis using ts(3) by (intro that)
qed

lemma no_tag_drift:
  assumes "case map_of e ''tags'' of None \<Rightarrow> True | Some j \<Rightarrow> tag_names (oget m ''tags'') = Inr j"
    and "tag_drift e m = Inr (missing, extra)"
  shows "missing = [] \<and> extra = []"
proof (cases "map_of e ''tags''")
  case (Some j)
  with assms(1) have "tag_names (oget m ''tags'') = Inr j" by simp
  then obtain ts names where ts: "py_iter (py_or (oget m ''tags'') (JArr [])) = Inr ts" "j = JArr names"
    "map (\<lambda>t. oget t ''name'') (map as_tag ts) = names" by (rule tag_names_named)
  have "py_iter (py_or (oget e ''tags'') (JArr [])) = Inr names" using Some ts(2) by (simp add: oget_def py_or_def)
  with assms(2) Some ts have parts: "list_all hashable names" "missing = filter (\<lambda>n. \<not> py_mem n names) (py_fromkeys [] names)"
    "extra = filter (\<lambda>t. \<not> py_mem (oget t ''name'') (py_fromkeys [] names)) (map as_tag ts)"
    by (auto simp: tag_drift_def py_set_def Let_def split: if_splits)
  have refl: "py_eq x x" "json_wf x" if "x \<in> set names" for x
    using that parts(1) by (auto simp: list_all_iff intro: py_eq_refl hashable_wf)
  have "py_mem n names" if "n \<in> set (py_fromkeys [] names)" for n
    using that fromkeys_subset [of "[]" names] refl by (auto simp: py_mem_def list_ex_iff)
  moreover have "py_mem (oget t ''name'') (py_fromkeys [] names)" if "t \<in> set (map as_tag ts)" for t
  proof -
    have "oget t ''name'' \<in> set names" unfolding ts(3) [symmetric] using that by auto
    with fromkeys_mem [of "oget t ''name''" names "[]"] refl show ?thesis by (auto simp: py_mem_def)
  qed
  ultimately show ?thesis unfolding parts(2,3) by (simp add: filter_empty_conv)
qed (use assms(2) in \<open>simp add: tag_drift_def\<close>)

lemma clean_needs_no_edit:
  assumes "clean_monitor m = Inr e" and "stamped m = Some k" and "tidy m"
    and "has_default \<longrightarrow> wants_notifications e muted = Inr (has_notifications (oget m ''notificationIDList''))"
  shows "needs_edit muted has_default e m \<noteq> Inr True"
proof
  assume edit: "needs_edit muted has_default e m = Inr True"
  from assms(1,2) obtain rest words where parts: "e = (''key'', JStr k) # oset rest ''description'' (JStr words)"
    "strip_key (oget m ''description'') = Inr words" "''key'' \<notin> fst ` set rest" "distinct (map fst rest)"
    "map_of rest ''description'' = map_of m ''description''"
    "\<forall>f v. f \<noteq> ''tags'' \<and> map_of rest f = Some v \<longrightarrow> map_of m f = Some v"
    "case map_of rest ''tags'' of None \<Rightarrow> map_of m ''tags'' = None | Some j \<Rightarrow> tag_names (oget m ''tags'') = Inr j"
    by (rule clean_parts)
  let ?W = "\<lambda>f. f \<in> set writable_fields"
  have W: "?W ''description''" "\<not> ?W ''key''" "\<not> ?W ''tags''" by code_simp+
  have drift: "tag_drift e m = Inr (missing, extra) \<Longrightarrow> missing = [] \<and> extra = []" for missing extra
    by (rule no_tag_drift) (use parts(7) in \<open>auto simp: parts(1) split: option.splits\<close>)
  obtain d where d: "map_of m ''description'' = Some d"
    using assms(2) by (cases "map_of m ''description''") (auto simp: stamped_def extract_key_def oget_def)
  have settled: "strip_markers words = words" using assms(3) parts(2) by (simp add: tidy_def)
  let ?out = "filter (\<lambda>kv. ?W (fst kv)) (oset rest ''description'' (JStr words))"
  have desired: "comparable e = Inr (oset ?out ''description'' (JStr words))"
    using W settled by (simp add: parts(1) comparable_def map_of_kept [of ?W] strip_key_def Let_def)
  have current: "comparable m = Inr (oset (filter (\<lambda>kv. ?W (fst kv)) m) ''description'' (JStr words))"
    using W parts(2) d by (simp add: comparable_def map_of_kept [of ?W] oget_def Let_def)
  have "py_eq (oget (oset (filter (\<lambda>kv. ?W (fst kv)) m) ''description'' (JStr words)) f) v"
    if "(f, v) \<in> set (oset ?out ''description'' (JStr words))" for f v
  proof -
    have "distinct (map fst (oset ?out ''description'' (JStr words)))"
      using parts(4) by (intro distinct_oset distinct_map_filter)
    from map_of_is_SomeI [OF this that] have v: "map_of (oset ?out ''description'' (JStr words)) f = Some v" .
    show ?thesis
    proof (cases "f = ''description''")
      case False
      with v have f: "?W f" "map_of rest f = Some v" by (auto simp: map_of_kept [of ?W] split: if_splits)
      with W parts(6) have m: "map_of m f = Some v" by metis
      with assms(3) have "json_wf v" by (auto simp: tidy_def list_all_iff dest!: map_of_SomeD)
      with False f(1) m show ?thesis by (simp add: oget_def map_of_kept [of ?W] py_eq_refl)
    qed (use v in \<open>auto simp: oget_def\<close>)
  qed
  with edit desired current assms(2,4) drift show False
    by (auto simp: needs_edit_def stamped_def list_ex_iff split: if_splits sum.splits prod.splits)
qed

text \<open>C37. What is exported is what would be planned. Where every live monitor bears a key, no two the same, the seed an
  export writes plans nothing against the instance it came from: nothing is created, nothing deleted, and
  nothing edited unless the notifications an entry should have are not those the monitor has.\<close>

theorem export_plans_nothing:
  assumes "export_contents srv f n = (Val (Some (seed, ns)), n')"
    and "fst (srv GetMonitors (world n)) = Inr answer" and "entries_of answer = Inr live"
    and "numbered live" and "\<forall>m \<in> set live. stamped m \<noteq> None \<and> tidy m" and "distinct (map stamped live)"
    and "diff_monitors seed live muted has_default = Inr (create, edit, delete)"
  shows "create = [] \<and> delete = [] \<and> (\<forall>(m, e) \<in> set edit. has_default \<and>
    wants_notifications e muted \<noteq> Inr (has_notifications (oget m ''notificationIDList'')))"
proof -
  from assms(1) obtain answer' live' clean where "fst (srv GetMonitors (world n)) = Inr answer'" "entries_of answer' = Inr live'"
    "emap clean_monitor live' = Inr clean" "in_seed_order clean (kf_seed f) = Inr seed" by (rule export_parts)
  with assms(2,3) have clean: "emap clean_monitor live = Inr clean" and "mset seed = mset clean"
    using in_seed_order_mset by auto
  have seed: "set seed = set clean" using \<open>mset seed = mset clean\<close> by (metis set_mset_mset)
  have key: "\<exists>k. stamped m = Some k \<and> oget e ''key'' = JStr k" if "m \<in> set live" "clean_monitor m = Inr e" for m e
  proof -
    from assms(5) that(1) obtain k where k: "stamped m = Some k" by auto
    from clean_parts [OF that(2) k] obtain rest words where "e = (''key'', JStr k) # oset rest ''description'' (JStr words)" by metis
    with k show ?thesis by simp
  qed
  have declared: "\<forall>e \<in> set seed. \<exists>k. oget e ''key'' = JStr k \<and> Some k \<in> stamped ` set live"
    unfolding seed using key by (metis (no_types, lifting) clean emap_elem image_eqI)
  have "map (\<lambda>e. oget e ''key'') clean = map (\<lambda>m. case stamped m of Some k \<Rightarrow> JStr k | None \<Rightarrow> JNull) live"
    using clean key by (intro nth_equalityI) (force simp: emap_eq_Inr_iff list_all2_conv_all_nth)+
  moreover have "distinct (map (\<lambda>m. case stamped m of Some k \<Rightarrow> JStr k | None \<Rightarrow> JNull) live)"
    using assms(6) by (auto simp: distinct_map inj_on_def split: option.splits)
  ultimately have "distinct (map (\<lambda>e. oget e ''key'') clean)" by simp
  moreover have "mset (map (\<lambda>e. oget e ''key'') seed) = mset (map (\<lambda>e. oget e ''key'') clean)"
    using \<open>mset seed = mset clean\<close> by simp
  ultimately have distinct: "distinct (map (\<lambda>e. oget e ''key'') seed)" by (metis mset_eq_imp_distinct_iff)
  have stamps: "distinct (filter (\<lambda>k. k \<noteq> None) (map stamped live))" using assms(6) by simp
  from assms(4,7) declared distinct stamps obtain indexed where parts: "emap keyed live = Inr indexed" "create = []"
    "\<forall>(m, e) \<in> set edit. same_key indexed e m \<and> e \<in> set seed \<and> needs_edit muted has_default e m = Inr True"
    "\<forall>m \<in> set delete. \<forall>e \<in> set seed. \<not> same_key indexed e m"
    by (rule diff_by_keys)
  have "set delete \<subseteq> set live" using assms(7) by (auto simp: diff_monitors_def dest: efilter_eq_Inr)
  moreover have "\<exists>e \<in> set seed. same_key indexed e m" if m: "m \<in> set live" for m
  proof -
    from emap_image [OF clean m] obtain e where "e \<in> set clean" "clean_monitor m = Inr e" by blast
    with key [OF m] stamped_same_key [OF parts(1) stamps m] seed show ?thesis by blast
  qed
  ultimately have "delete = []" using parts(4) by (metis last_in_set subsetD)
  moreover have "has_default \<and> wants_notifications e muted \<noteq> Inr (has_notifications (oget m ''notificationIDList''))"
    if edit: "(m, e) \<in> set edit" for m e
  proof -
    from parts(3) edit have e: "same_key indexed e m" "e \<in> set clean" "needs_edit muted has_default e m = Inr True"
      unfolding seed by auto
    from same_key_stamped [OF parts(1) e(1)] obtain k where k: "oget e ''key'' = JStr k" "stamped m = Some k" "m \<in> set live" by auto
    from emap_elem [OF clean e(2)] obtain m' where m': "m' \<in> set live" "clean_monitor m' = Inr e" by blast
    with key [OF m'] k have "stamped m' = stamped m" by auto
    with assms(6) m'(1) k(3) have "m' = m" by (meson distinct_map inj_onD)
    with m' k assms(5) e(3) clean_needs_no_edit [of m e k has_default muted] show ?thesis by auto
  qed
  ultimately show ?thesis using parts(2) by auto
qed

section \<open>An instance\<close>

definition sample_probe :: monitor where
  "sample_probe = [(''id'', JInt 1), (''name'', JStr ''API''), (''description'', JStr (marker_of ''api'')), (''tags'', JArr [JObj [(''name'', JStr ''prod'')]])]"

definition keyed_entry :: "string \<Rightarrow> monitor" where
  "keyed_entry k = [(''key'', JStr k), (''name'', JStr ''API'')]"

definition sample_export :: monitor where
  "sample_export = [(''key'', JStr ''api''), (''name'', JStr ''API''), (''description'', JStr []), (''tags'', JArr [JStr ''prod''])]"

definition export_kuma :: "unit kuma" where
  "export_kuma q w = (case q of GetMonitors \<Rightarrow> Inr (JArr [JObj sample_probe]) | _ \<Rightarrow> Inr (JArr []), w)"

definition export_sources :: kuma_files where
  "export_sources = \<lparr>kf_merged = Inr (JObj []), kf_secrets = Inr (JObj []), kf_seed = Some (Inr (JArr [JObj (keyed_entry ''api'')])), kf_tags = None\<rparr>"

definition export_start :: "(kuma_call, unit) net" where
  "export_start = \<lparr>sent = [], world = (), budget = 0\<rparr>"

lemma sample_exported:
  "fst (export_contents export_kuma export_sources export_start) = Val (Some ([sample_export], []))"
  "entries_of (JArr [JObj sample_probe]) = Inr [sample_probe]" "entries_of (JArr [JObj (keyed_entry ''api'')]) = Inr [keyed_entry ''api'']"
  "numbered [sample_probe]" "stamped sample_probe = Some ''api''" "diff_monitors [sample_export] [sample_probe] [] False = Inr ([], [], [])"
  by code_simp+

lemma sample_tidy: "tidy sample_probe"
proof -
  have "json_wf (JObj sample_probe)" by code_simp
  moreover have "strip_key (oget sample_probe ''description'') = Inr []" "strip_markers [] = []" by code_simp+
  ultimately show ?thesis by (simp add: tidy_def)
qed

lemma sample_export_run: "\<exists>n'. export_contents export_kuma export_sources export_start = (Val (Some ([sample_export], [])), n')"
  using sample_exported(1) by (metis prod.collapse)

lemma export_keeps_declared_witness:
  "\<exists>m \<in> set [sample_export]. py_eq (oget (keyed_entry ''api'') ''key'') (oget m ''key'')"
proof -
  from sample_export_run obtain n' where run: "export_contents export_kuma export_sources export_start = (Val (Some ([sample_export], [])), n')" ..
  have "kf_seed export_sources = Some (Inr (JArr [JObj (keyed_entry ''api'')]))" by (simp add: export_sources_def)
  from export_keeps_declared [OF run this sample_exported(3)] show ?thesis by (simp add: keyed_entry_def)
qed

lemma export_plans_nothing_witness:
  "diff_monitors [sample_export] [sample_probe] [] False = Inr ([], [], []) \<and> stamped sample_probe \<noteq> None"
proof -
  from sample_export_run obtain n' where run: "export_contents export_kuma export_sources export_start = (Val (Some ([sample_export], [])), n')" ..
  obtain create edit delete where plan: "diff_monitors [sample_export] [sample_probe] [] False = Inr (create, edit, delete)"
    using sample_exported(6) by blast
  have answer: "fst (export_kuma GetMonitors (world export_start)) = Inr (JArr [JObj sample_probe])" by (simp add: export_kuma_def)
  have live: "\<forall>m \<in> set [sample_probe]. stamped m \<noteq> None \<and> tidy m" "distinct (map stamped [sample_probe])"
    using sample_tidy sample_exported(5) by simp_all
  from export_plans_nothing [OF run answer sample_exported(2,4) live plan] have "create = []" "delete = []" "edit = []" by (cases edit; auto)+
  with plan sample_exported(5) show ?thesis by simp
qed

end
