(* ===== verification/Traces.thy ===== *)
theory Traces
  imports Sends
begin

text \<open>
  Actions over several outside parties. The log holds what was done together with its answer, so that each party
  answers in its own type and a run is its log. \<open>runs m R\<close> says that \<open>R\<close> holds of the outcome of \<open>m\<close>
  and of what it logged, whatever the parties answer; the rules compute such statements along the code.
\<close>

named_theorems runs_intros \<open>rules for what an action logs\<close>

definition observe :: "('s \<Rightarrow> 'r \<times> 's) \<Rightarrow> ('r \<Rightarrow> 'q) \<Rightarrow> ('q, 's, 'r) act" where
  "observe f mk n = (let (r, w) = f (world n) in (Val r, n\<lparr>sent := sent n @ [mk r], world := w\<rparr>))"

text \<open>A party whose answer may be an exception.\<close>

definition consult :: "('s \<Rightarrow> (exn + 'r) \<times> 's) \<Rightarrow> (exn + 'r \<Rightarrow> 'q) \<Rightarrow> ('q, 's, 'r) act" where
  "consult f mk = abind (observe f mk) lift"

definition runs :: "('q, 's, 'a) act \<Rightarrow> ('a outcome \<Rightarrow> 'q list \<Rightarrow> bool) \<Rightarrow> bool" where
  "runs m R \<longleftrightarrow> logs m \<and> (\<forall>n. R (fst (m n)) (sends m n))"

lemma runsD: "runs m R \<Longrightarrow> R (fst (m n)) (sends m n)"
  and runs_logs: "runs m R \<Longrightarrow> logs m"
  by (simp_all add: runs_def)

lemma runs_mono: "runs m P \<Longrightarrow> (\<And>out tr. P out tr \<Longrightarrow> R out tr) \<Longrightarrow> runs m R"
  by (simp add: runs_def)

lemma logs_observe [emits_intros]: "logs (observe f mk)"
  by (simp add: emits_def observe_def case_prod_beta)

lemma sends_observe [simp]: "sends (observe f mk) n = [mk (fst (f (world n)))]"
  by (simp add: sends_def observe_def case_prod_beta)

lemma runs_ret [runs_intros]: "R (Val x) [] \<Longrightarrow> runs (ret x) R"
  and runs_throw [runs_intros]: "R (Exn e) [] \<Longrightarrow> runs (throw e) R"
  by (simp_all add: runs_def run_simps(1,2))

lemma runs_lift: "(\<And>x. r = Inr x \<Longrightarrow> R (Val x) []) \<Longrightarrow> (\<And>e. r = Inl e \<Longrightarrow> R (Exn e) []) \<Longrightarrow> runs (lift r) R"
  by (cases r) (simp_all add: run_simps(4,5) runs_ret runs_throw)

lemma runs_observe: "(\<And>r. R (Val r) [mk r]) \<Longrightarrow> runs (observe f mk) R"
  by (auto simp: runs_def logs_observe observe_def case_prod_beta)

lemma runs_abind:
  assumes m: "runs m P" and f: "\<And>x tr. P (Val x) tr \<Longrightarrow> runs (f x) (\<lambda>out tr'. R out (tr @ tr'))"
    and logs: "\<And>x. logs (f x)"
    and e: "\<And>e tr. P (Exn e) tr \<Longrightarrow> R (Exn e) tr" and s: "\<And>tr. P Stuck tr \<Longrightarrow> R Stuck tr"
  shows "runs (abind m f) R"
  unfolding runs_def
proof (intro conjI allI)
  show "logs (abind m f)" by (intro emits_intros runs_logs [OF m] logs)
  fix n
  obtain r n' where mn: "m n = (r, n')" by fastforce
  from runsD [OF m, of n] mn have P: "P r (sends m n)" by simp
  note split = sends_abind [OF runs_logs [OF m] logs]
  show "R (fst (abind m f n)) (sends (abind m f) n)"
  proof (cases r)
    case (Val x)
    with P f have "runs (f x) (\<lambda>out tr'. R out (sends m n @ tr'))" by blast
    from runsD [OF this, of n'] mn Val show ?thesis by (simp add: split act_simps)
  qed (use mn P e s in \<open>simp_all add: split act_simps\<close>)
qed

lemma runs_attempt:
  assumes m: "runs m P" and h: "\<And>e tr. P (Exn e) tr \<Longrightarrow> runs (h e) (\<lambda>out tr'. R out (tr @ tr'))"
    and logs: "\<And>e. logs (h e)"
    and v: "\<And>x tr. P (Val x) tr \<Longrightarrow> R (Val x) tr" and s: "\<And>tr. P Stuck tr \<Longrightarrow> R Stuck tr"
  shows "runs (attempt m h) R"
  unfolding runs_def
proof (intro conjI allI)
  show "logs (attempt m h)" by (intro emits_intros runs_logs [OF m] logs)
  fix n
  obtain r n' where mn: "m n = (r, n')" by fastforce
  from runsD [OF m, of n] mn have P: "P r (sends m n)" by simp
  note split = sends_attempt [OF runs_logs [OF m] logs]
  show "R (fst (attempt m h n)) (sends (attempt m h) n)"
  proof (cases r)
    case (Exn e)
    with P h have "runs (h e) (\<lambda>out tr'. R out (sends m n @ tr'))" by blast
    from runsD [OF this, of n'] mn Exn show ?thesis by (simp add: split attempt_def)
  qed (use mn P v s in \<open>simp_all add: split attempt_def\<close>)
qed

text \<open>One step of the code, then the rest.\<close>

lemma runs_observe_then [runs_intros]:
  assumes "\<And>r. runs (f r) (\<lambda>out tr. R out (mk r # tr))"
  shows "runs (abind (observe g mk) f) R"
  by (rule runs_abind [OF runs_observe [where R = "\<lambda>out tr. \<exists>r. out = Val r \<and> tr = [mk r]"]])
    (use assms runs_logs [OF assms] in auto)

lemma runs_lift_then [runs_intros]:
  assumes "\<And>x. r = Inr x \<Longrightarrow> runs (f x) R" and "\<And>e. r = Inl e \<Longrightarrow> R (Exn e) []"
  shows "runs (abind (lift r) f) R"
  using assms by (cases r) (simp_all add: run_simps(4,5) runs_throw)

lemma runs_consult_then [runs_intros]:
  assumes "\<And>x. runs (f x) (\<lambda>out tr. R out (mk (Inr x) # tr))" and "\<And>e. R (Exn e) [mk (Inl e)]"
  shows "runs (abind (consult g mk) f) R"
  unfolding consult_def abind_assoc
  by (rule runs_observe_then, rule runs_lift_then) (use assms in auto)

lemma runs_consult [runs_intros]:
  assumes "\<And>x. R (Val x) [mk (Inr x)]" and "\<And>e. R (Exn e) [mk (Inl e)]"
  shows "runs (consult g mk) R"
  unfolding consult_def by (intro runs_observe_then runs_lift) (use assms in auto)

lemma runs_if [runs_intros]:
  "(c \<Longrightarrow> runs a R) \<Longrightarrow> (\<not> c \<Longrightarrow> runs b R) \<Longrightarrow> runs (if c then a else b) R"
  by simp

lemma runs_case_option [runs_intros]:
  "(x = None \<Longrightarrow> runs a R) \<Longrightarrow> (\<And>y. x = Some y \<Longrightarrow> runs (b y) R) \<Longrightarrow> runs (case x of None \<Rightarrow> a | Some y \<Rightarrow> b y) R"
  by (cases x) auto

lemma runs_case_prod [runs_intros]:
  "(\<And>y z. x = (y, z) \<Longrightarrow> runs (b y z) R) \<Longrightarrow> runs (case x of (y, z) \<Rightarrow> b y z) R"
  by (cases x) auto

lemma runs_any: "logs m \<Longrightarrow> runs m (\<lambda>_ _. True)"
  by (simp add: runs_def)

lemma logs_consult [emits_intros]: "logs (consult f mk)"
  unfolding consult_def by (intro emits_intros)

end
