(* ===== verification/BackupTokens.thy ===== *)
theory BackupTokens
  imports Traces ConfigTree SecretData
begin

text \<open>
  The credentials of the backup buckets: minting a pair per node and one for the watcher,
  \<open>toolkit/features/backup_node_credentials.py\<close>, with the command of \<open>toolkit/cli/backup.py\<close>, over the outside
  that retiring a pair (\<open>BackupRevoke\<close>) shares.

  The outside parties are the Cloudflare API, the \<open>aws\<close> client, the merged configuration, the SOPS files and
  the source of random text; each step is logged with its answer. SHA-256 is a parameter. Writing and unsetting a key
  are the operations of \<open>SecretVault\<close>; minting depends on nothing but their answers, so any are allowed here.
\<close>

section \<open>The outside\<close>

text \<open>An answer of the API: a body (\<open>None\<close> where it is not JSON), an HTTP error, or none at all.\<close>

datatype http_reply = Answered "json option" | Status int | Unreachable

datatype token_event =
    Api string string "obj option" http_reply
  | Ran "string list" "(string \<times> string) list" "exn + int \<times> string"
  | Slept
  | Merged "exn + json"
  | Shown string "exn + string option"
  | Generated
  | Wrote string "(string \<times> string) list" "exn + bool"
  | Decrypted string "exn + (int \<times> json) option"
  | Unset string string "exn + bool"

record 's token_world =
  tw_http :: "string \<Rightarrow> string \<Rightarrow> obj option \<Rightarrow> 's \<Rightarrow> http_reply \<times> 's"
  tw_run :: "string list \<Rightarrow> (string \<times> string) list \<Rightarrow> 's \<Rightarrow> (exn + int \<times> string) \<times> 's"
  tw_sleep :: "'s \<Rightarrow> unit \<times> 's"
  tw_merged :: "'s \<Rightarrow> (exn + json) \<times> 's"
  tw_random :: "nat \<Rightarrow> 's \<Rightarrow> string \<times> 's"
  tw_write :: "string \<Rightarrow> (string \<times> string) list \<Rightarrow> 's \<Rightarrow> (exn + bool) \<times> 's"
  tw_decrypt :: "string \<Rightarrow> 's \<Rightarrow> (exn + (int \<times> json) option) \<times> 's"
  tw_unset :: "string \<Rightarrow> string \<Rightarrow> 's \<Rightarrow> (exn + bool) \<times> 's"

type_synonym ('s, 'a) token_act = "(token_event, 's, 'a) act"

section \<open>Names and requests\<close>

definition minter_key :: string where
  "minter_key = ''cloudflare.r2_token_minter''"

definition write_group :: string where
  "write_group = ''Workers R2 Storage Bucket Item Write''"

definition read_group :: string where
  "read_group = ''Workers R2 Storage Bucket Item Read''"

definition watcher_token_name :: string where
  "watcher_token_name = ''kubelab-backup-watcher''"

definition watcher_access_path :: string where
  "watcher_access_path = ''backup.r2.watcher.access_key_id''"

definition watcher_secret_path :: string where
  "watcher_secret_path = ''backup.r2.watcher.secret_access_key''"

definition sops_file_for :: "string \<Rightarrow> exn + string" where
  "sops_file_for path =
     (if starts_with ''backup.r2.nodes.'' path then Inr ''prod''
      else if starts_with ''backup.nodes.'' path \<or> starts_with ''backup.r2.watcher.'' path then Inr ''common''
      else Inl (ValueError ''not a key this module mints''))"

definition node_bucket :: "string \<Rightarrow> string" where
  "node_bucket node = ''kubelab-backup-'' @ node"

definition bucket_resource :: "string \<Rightarrow> string \<Rightarrow> string" where
  "bucket_resource account bucket = ''com.cloudflare.edge.r2.bucket.'' @ account @ ''_default_'' @ bucket"

definition token_body :: "string \<Rightarrow> string list \<Rightarrow> string \<Rightarrow> string \<Rightarrow> obj" where
  "token_body name buckets account grp =
     [(''name'', JStr name),
      (''policies'', JArr [JObj
        [(''effect'', JStr ''allow''),
         (''resources'', JObj (fold (\<lambda>b out. oset out (bucket_resource account b) (JStr ''*'')) buckets [])),
         (''permission_groups'', JArr [JObj [(''id'', JStr grp)]])]])]"

definition token_request :: "string \<Rightarrow> string \<Rightarrow> string \<Rightarrow> obj" where
  "token_request node account grp = token_body (node_bucket node) [node_bucket node] account grp"

definition watcher_buckets :: "string list \<Rightarrow> string \<Rightarrow> string list" where
  "watcher_buckets nodes legacy = sort (map node_bucket nodes @ [legacy])"

definition watcher_token_request :: "string list \<Rightarrow> string \<Rightarrow> string \<Rightarrow> string \<Rightarrow> obj" where
  "watcher_token_request nodes legacy account grp =
     token_body watcher_token_name (watcher_buckets nodes legacy) account grp"

definition outside_bucket_key :: string where
  "outside_bucket_key = ''apps.services.core.vikunja.storage.s3_bucket''"

definition bucket_outside_backups :: "json \<Rightarrow> string" where
  "bucket_outside_backups config = py_str (py_or (resolve_key config outside_bucket_key) (JStr []))"

section \<open>The API\<close>

definition error_codes :: "json \<Rightarrow> exn + json list" where
  "error_codes payload =
     ebind (py_get payload ''errors'') (\<lambda>es.
     ebind (py_iter (py_or es (JArr []))) (emap (\<lambda>e. py_get e ''code'')))"

definition cloudflare_http :: "'s token_world \<Rightarrow> string \<Rightarrow> string \<Rightarrow> obj option \<Rightarrow> ('s, json) token_act" where
  "cloudflare_http srv verb path body =
     abind (observe (tw_http srv verb path body) (Api verb path body)) (\<lambda>r. case r of
       Status code \<Rightarrow> throw (MintError path (Some code))
     | Unreachable \<Rightarrow> throw (MintError path None)
     | Answered None \<Rightarrow> throw (ValueError ''not JSON'')
     | Answered (Some payload) \<Rightarrow>
         abind (lift (py_get payload ''success'')) (\<lambda>success.
           if truthy success then lift (py_get payload ''result'')
           else abind (lift (error_codes payload)) (\<lambda>_. throw (MintError path None))))"

definition tokens_path :: "string \<Rightarrow> string" where
  "tokens_path account = ''/accounts/'' @ account @ ''/tokens''"

definition token_path :: "string \<Rightarrow> string \<Rightarrow> string" where
  "token_path account key_id = tokens_path account @ ''/'' @ key_id"

fun find_group :: "string \<Rightarrow> json list \<Rightarrow> exn + string" where
  "find_group name [] = Inl (MintError ''permission group'' None)"
| "find_group name (g # gs) =
     ebind (py_get g ''name'') (\<lambda>n.
       if py_eq n (JStr name) then ebind (py_index g ''id'') (\<lambda>i. Inr (py_str i)) else find_group name gs)"

definition permission_group_id :: "'s token_world \<Rightarrow> string \<Rightarrow> string \<Rightarrow> ('s, string) token_act" where
  "permission_group_id srv account name =
     abind (cloudflare_http srv ''GET'' (tokens_path account @ ''/permission_groups'') None) (\<lambda>groups.
       lift (ebind (py_iter (py_or groups (JArr []))) (find_group name)))"

section \<open>Checking a pair by what it can do\<close>

definition s3_env :: "string \<Rightarrow> string \<Rightarrow> (string \<times> string) list" where
  "s3_env key_id secret =
     [(''AWS_ACCESS_KEY_ID'', key_id), (''AWS_SECRET_ACCESS_KEY'', secret), (''AWS_DEFAULT_REGION'', ''auto''),
      (''AWS_REQUEST_CHECKSUM_CALCULATION'', ''when_required''), (''AWS_RESPONSE_CHECKSUM_VALIDATION'', ''when_required'')]"

definition list_argv :: "string \<Rightarrow> string \<Rightarrow> string list" where
  "list_argv endpoint bucket =
     [''aws'', ''--endpoint-url'', endpoint, ''s3api'', ''list-objects-v2'', ''--bucket'', bucket, ''--max-keys'', ''1'']"

definition list_bucket ::
  "'s token_world \<Rightarrow> string \<Rightarrow> string \<Rightarrow> (string \<times> string) list \<Rightarrow> ('s, int \<times> string) token_act" where
  "list_bucket srv endpoint bucket env =
     consult (tw_run srv (list_argv endpoint bucket) env) (Ran (list_argv endpoint bucket) env)"

definition scope_attempts :: nat where
  "scope_attempts = 4"

fun try_list ::
  "'s token_world \<Rightarrow> string \<Rightarrow> string \<Rightarrow> (string \<times> string) list \<Rightarrow> nat \<Rightarrow> ('s, bool) token_act" where
  "try_list srv endpoint bucket env 0 = ret False"
| "try_list srv endpoint bucket env (Suc k) =
     abind (list_bucket srv endpoint bucket env) (\<lambda>(rc, err).
       if rc = 0 then ret True
       else abind (if 0 < k then observe (tw_sleep srv) (\<lambda>_. Slept) else ret ()) (\<lambda>_. try_list srv endpoint bucket env k))"

fun check_readable ::
  "'s token_world \<Rightarrow> string \<Rightarrow> (string \<times> string) list \<Rightarrow> string list \<Rightarrow> ('s, string option) token_act" where
  "check_readable srv endpoint env [] = ret None"
| "check_readable srv endpoint env (b # bs) =
     abind (try_list srv endpoint b env scope_attempts) (\<lambda>ok.
       if ok then check_readable srv endpoint env bs else ret (Some ''cannot list''))"

text \<open>Why the pair fails the check, \<open>None\<close> when it passes.\<close>

definition scope_error ::
  "'s token_world \<Rightarrow> string \<Rightarrow> string list \<Rightarrow> string \<Rightarrow> (string \<times> string) list \<Rightarrow> ('s, string option) token_act" where
  "scope_error srv endpoint readable refused env =
     abind (check_readable srv endpoint env readable) (\<lambda>problem. case problem of
       Some p \<Rightarrow> ret (Some p)
     | None \<Rightarrow>
         abind (list_bucket srv endpoint refused env) (\<lambda>(rc, err).
           ret (if rc = 0 then Some ''can list what it must not reach''
                else if \<not> str_contains ''AccessDenied'' err then Some ''unproven'' else None)))"

section \<open>The store\<close>

definition store_show :: "'s token_world \<Rightarrow> string \<Rightarrow> ('s, string option) token_act" where
  "store_show srv path =
     consult
       (\<lambda>w. let (config, w') = tw_merged srv w in
         (ebind config (\<lambda>c. Inr (case get_secret_by_path c path of None \<Rightarrow> None | Some v \<Rightarrow> if v = [] then None else Some v)), w'))
       (Shown path)"

definition one_file :: "(string \<times> string) list \<Rightarrow> exn + string" where
  "one_file data =
     ebind (emap (\<lambda>kv. sops_file_for (fst kv)) data) (\<lambda>files.
       case remdups files of [f] \<Rightarrow> Inr f | _ \<Rightarrow> Inl (ValueError ''one SOPS file''))"

definition store_write :: "'s token_world \<Rightarrow> (string \<times> string) list \<Rightarrow> ('s, bool) token_act" where
  "store_write srv data =
     abind (lift (one_file data)) (\<lambda>file. consult (tw_write srv file data) (Wrote file data))"

section \<open>Minting\<close>

definition delete_token :: "'s token_world \<Rightarrow> string \<Rightarrow> string \<Rightarrow> ('s, unit) token_act" where
  "delete_token srv account key_id =
     abind (cloudflare_http srv ''DELETE'' (token_path account key_id) None) (\<lambda>_. ret ())"

definition revoke_new :: "'s token_world \<Rightarrow> string \<Rightarrow> string \<Rightarrow> string \<Rightarrow> ('s, 'a) token_act" where
  "revoke_new srv account key_id reason =
     abind (delete_token srv account key_id) (\<lambda>_. throw (MintError reason None))"

text \<open>What follows the creation of a token.\<close>

definition settle_token ::
  "'s token_world \<Rightarrow> string \<times> string \<Rightarrow> string list \<Rightarrow> string \<Rightarrow> string \<Rightarrow> string \<Rightarrow> bool \<Rightarrow>
     string option \<Rightarrow> string \<Rightarrow> string \<Rightarrow> ('s, string) token_act" where
  "settle_token srv paths readable refused account endpoint renew old key_id secret =
     abind (scope_error srv endpoint readable refused (s3_env key_id secret)) (\<lambda>problem. case problem of
       Some p \<Rightarrow> revoke_new srv account key_id p
     | None \<Rightarrow>
         abind (store_write srv [(fst paths, key_id), (snd paths, secret)]) (\<lambda>stored.
           if \<not> stored then revoke_new srv account key_id ''not written''
           else case old of
             Some old_id \<Rightarrow>
               if renew then abind (delete_token srv account old_id) (\<lambda>_. ret ''rotated'') else ret ''minted''
           | None \<Rightarrow> ret ''minted''))"

definition mint_token ::
  "'s token_world \<Rightarrow> (string \<Rightarrow> string) \<Rightarrow> ('s, obj) token_act \<Rightarrow> string \<times> string \<Rightarrow> string list \<Rightarrow> string \<Rightarrow> string \<Rightarrow> string \<Rightarrow> bool \<Rightarrow>
     ('s, string) token_act" where
  "mint_token srv sha request paths readable refused account endpoint renew =
     abind (store_show srv (fst paths)) (\<lambda>old.
     abind (if old = None then ret None else store_show srv (snd paths)) (\<lambda>held.
       if old \<noteq> None \<and> held \<noteq> None \<and> \<not> renew then ret ''kept''
       else
         abind request (\<lambda>body.
         abind (cloudflare_http srv ''POST'' (tokens_path account) (Some body)) (\<lambda>result.
         abind (lift (py_index result ''id'')) (\<lambda>key_id.
         abind (lift (py_index result ''value'')) (\<lambda>value.
           settle_token srv paths readable refused account endpoint renew old (py_str key_id) (sha (py_str value))))))))"

definition mint_node ::
  "'s token_world \<Rightarrow> (string \<Rightarrow> string) \<Rightarrow> string \<Rightarrow> string \<Rightarrow> string \<Rightarrow> string \<Rightarrow> bool \<Rightarrow> ('s, string) token_act" where
  "mint_node srv sha node account endpoint other renew =
     mint_token srv sha
       (abind (permission_group_id srv account write_group) (\<lambda>grp. ret (token_request node account grp)))
       (access_key_path node, secret_key_path node) [node_bucket node] other account endpoint renew"

definition mint_watcher ::
  "'s token_world \<Rightarrow> (string \<Rightarrow> string) \<Rightarrow> string list \<Rightarrow> string \<Rightarrow> string \<Rightarrow> string \<Rightarrow> string \<Rightarrow> bool \<Rightarrow> ('s, string) token_act" where
  "mint_watcher srv sha nodes account endpoint legacy refused renew =
     mint_token srv sha
       (abind (permission_group_id srv account read_group) (\<lambda>grp. ret (watcher_token_request nodes legacy account grp)))
       (watcher_access_path, watcher_secret_path) (watcher_buckets nodes legacy) refused account endpoint renew"

definition restic_password_bytes :: nat where
  "restic_password_bytes = 48"

definition ensure_restic_password :: "'s token_world \<Rightarrow> string \<Rightarrow> ('s, string) token_act" where
  "ensure_restic_password srv node =
     abind (store_show srv (restic_password_path node)) (\<lambda>old.
       if old \<noteq> None then ret ''kept''
       else
         abind (observe (tw_random srv restic_password_bytes) (\<lambda>_. Generated)) (\<lambda>password.
         abind (store_write srv [(restic_password_path node, password)]) (\<lambda>stored.
           if stored then ret ''generated'' else throw (MintError ''restic password'' None))))"

section \<open>Minting everything\<close>

definition mint_failure :: "exn \<Rightarrow> bool" where
  "mint_failure e = (case e of MintError _ _ \<Rightarrow> True | _ \<Rightarrow> False)"

text \<open>\<open>try: m except MintError: return False\<close>.\<close>

definition completes :: "('s, string) token_act \<Rightarrow> ('s, bool) token_act" where
  "completes m = attempt (abind m (\<lambda>_. ret True)) (\<lambda>e. if mint_failure e then ret False else throw e)"

text \<open>The names of the nodes, sorted. A node's name is text.\<close>

definition backup_nodes :: "json \<Rightarrow> exn + string list" where
  "backup_nodes backup =
     ebind (py_get backup ''sources'') (\<lambda>s.
     ebind (py_iter (py_or s (JObj []))) (\<lambda>names.
     ebind (emap (\<lambda>j. case j of JStr n \<Rightarrow> Inr n | _ \<Rightarrow> Inl (TypeError ''node'')) names) (\<lambda>ns. Inr (sort ns))))"

text \<open>The account, the endpoint and the shared bucket; \<open>None\<close> where one is missing.\<close>

definition r2_account :: "json \<Rightarrow> exn + (string \<times> string \<times> string) option" where
  "r2_account r2 =
     (case emap (py_index r2) [''account_id'', ''endpoint'', ''bucket''] of
        Inr [a, e, b] \<Rightarrow> Inr (Some (py_str a, py_str e, py_str b))
      | Inl (KeyError k) \<Rightarrow> Inr None
      | Inl e \<Rightarrow> Inl e
      | Inr _ \<Rightarrow> Inr None)"

definition mint_one ::
  "'s token_world \<Rightarrow> (string \<Rightarrow> string) \<Rightarrow> string list \<Rightarrow> string \<Rightarrow> string \<Rightarrow> string \<Rightarrow> bool \<Rightarrow> string \<Rightarrow> bool \<Rightarrow> ('s, bool) token_act" where
  "mint_one srv sha nodes account endpoint legacy renew name ok =
     (let others = filter (\<lambda>n. n \<noteq> name) nodes;
          other = (case others of [] \<Rightarrow> legacy | n # _ \<Rightarrow> node_bucket n) in
      abind (completes (abind (mint_node srv sha name account endpoint other renew) (\<lambda>_. ensure_restic_password srv name)))
        (\<lambda>done. ret (ok \<and> done)))"

definition mint_nodes_and_watcher ::
  "'s token_world \<Rightarrow> (string \<Rightarrow> string) \<Rightarrow> string list \<Rightarrow> string option \<Rightarrow> bool \<Rightarrow> bool \<Rightarrow> string \<times> string \<times> string \<Rightarrow> string \<Rightarrow> ('s, bool) token_act" where
  "mint_nodes_and_watcher srv sha nodes node renew watcher_only r2 outside =
     (let (account, endpoint, legacy) = r2;
          names = (if watcher_only then [] else case node of None \<Rightarrow> nodes | Some n \<Rightarrow> if n = [] then nodes else [n]) in
      abind (foreach (mint_one srv sha nodes account endpoint legacy renew) names True) (\<lambda>ok.
        if node \<noteq> None then ret ok
        else
          abind (completes (mint_watcher srv sha nodes account endpoint legacy outside renew)) (\<lambda>done.
            ret (ok \<and> done))))"

definition mint_all ::
  "'s token_world \<Rightarrow> (string \<Rightarrow> string) \<Rightarrow> string option \<Rightarrow> bool \<Rightarrow> bool \<Rightarrow> ('s, bool) token_act" where
  "mint_all srv sha node renew watcher_only =
     abind (consult (tw_merged srv) Merged) (\<lambda>config.
     abind (lift (ebind (py_get config ''backup'') (\<lambda>b. Inr (py_or b (JObj []))))) (\<lambda>backup.
     abind (lift (ebind (py_get backup ''r2'') (\<lambda>r. Inr (py_or r (JObj []))))) (\<lambda>r2.
     abind (lift (backup_nodes backup)) (\<lambda>nodes.
       if node \<noteq> None \<and> the node \<notin> set nodes then ret False
       else if node \<noteq> None \<and> watcher_only then ret False
       else
         abind (store_show srv minter_key) (\<lambda>minter.
           if minter = None then ret False
           else
             abind (lift (r2_account r2)) (\<lambda>found. case found of
               None \<Rightarrow> ret False
             | Some where_to \<Rightarrow>
                 let outside = (if node = None then bucket_outside_backups config else []) in
                 if node = None \<and> outside = [] then ret False
                 else mint_nodes_and_watcher srv sha nodes node renew watcher_only where_to outside))))))"

text \<open>The exit code of \<open>toolkit backup\<close>'s minting command.\<close>

definition mint_command ::
  "'s token_world \<Rightarrow> (string \<Rightarrow> string) \<Rightarrow> string \<Rightarrow> string option \<Rightarrow> bool \<Rightarrow> bool \<Rightarrow> ('s, nat) token_act" where
  "mint_command srv sha env node renew watcher_only =
     (if env \<noteq> ''prod'' then ret 1
      else if node \<noteq> None \<and> node \<noteq> Some [] \<and> watcher_only then ret 1
      else abind (mint_all srv sha node renew watcher_only) (\<lambda>ok. ret (if ok then 0 else 1)))"

end
