(* ===== verification/BackupRevoke.thy ===== *)
theory BackupRevoke
  imports BackupTokens
begin

text \<open>
  Retiring a pair, \<open>toolkit/features/backup_token_revoke.py\<close>. The SOPS files are held decrypted, by the
  environment they belong to, and a file is read again after each key unset in it.
\<close>

type_synonym pair_files = "(string \<times> json) list"

definition sops_files :: "string list" where
  "sops_files = [''common'', ''staging'', ''prod'']"

definition pair_paths :: "string \<Rightarrow> string \<times> string" where
  "pair_paths pair =
     (let sep = (if ends_with ''_'' pair \<or> ends_with ''.'' pair then [] else ''.'') in
      (pair @ sep @ ''access_key_id'', pair @ sep @ ''secret_access_key''))"

definition other_spelling :: "string \<Rightarrow> string" where
  "other_spelling pair =
     (let bare = rev (dropWhile (\<lambda>c. c = CHR ''.'' \<or> c = CHR ''_'') (rev pair)) in
      if ends_with ''_'' pair then bare else bare @ ''_'')"

section \<open>The files\<close>

text \<open>A file that does not exist holds nothing; one that cannot be decrypted stops the run.\<close>

definition decrypt_file :: "'s token_world \<Rightarrow> string \<Rightarrow> ('s, json option) token_act" where
  "decrypt_file srv env =
     abind (consult (tw_decrypt srv env) (Decrypted env)) (\<lambda>found. case found of
       None \<Rightarrow> ret None
     | Some (rc, doc) \<Rightarrow> if rc \<noteq> 0 then throw (RevokeError ''could not decrypt'') else ret (Some (py_or doc (JObj []))))"

definition load_file :: "'s token_world \<Rightarrow> string \<Rightarrow> pair_files \<Rightarrow> ('s, pair_files) token_act" where
  "load_file srv env files =
     abind (decrypt_file srv env) (\<lambda>found. case found of
       None \<Rightarrow> ret (filter (\<lambda>kv. fst kv \<noteq> env) files)
     | Some d \<Rightarrow> ret (oset files env d))"

definition load_files :: "'s token_world \<Rightarrow> ('s, pair_files) token_act" where
  "load_files srv = foreach (load_file srv) sops_files []"

definition pair_show :: "pair_files \<Rightarrow> string \<Rightarrow> string \<Rightarrow> string option" where
  "pair_show files env path =
     (case map_of files env of
        None \<Rightarrow> None
      | Some d \<Rightarrow> let v = resolve_key d path in if truthy v then Some (py_str v) else None)"

definition files_holding :: "pair_files \<Rightarrow> string \<Rightarrow> string list" where
  "files_holding files path = filter (\<lambda>env. map_of files env \<noteq> None \<and> pair_show files env path \<noteq> None) sops_files"

definition pair_unset :: "'s token_world \<Rightarrow> string \<times> string \<Rightarrow> pair_files \<Rightarrow> ('s, pair_files) token_act" where
  "pair_unset srv at files =
     abind (consult (tw_unset srv (fst at) (snd at)) (Unset (fst at) (snd at))) (\<lambda>ok.
     abind (load_file srv (fst at) files) (\<lambda>files'.
       if ok then ret files' else throw (RevokeError ''unset'')))"

section \<open>The token\<close>

text \<open>The name of the token, \<open>None\<close> when the account has none with that id.\<close>

definition token_name :: "'s token_world \<Rightarrow> string \<Rightarrow> string \<Rightarrow> ('s, string option) token_act" where
  "token_name srv account key_id =
     abind
       (attempt
          (abind (cloudflare_http srv ''GET'' (token_path account key_id) None) (\<lambda>r. ret (Some (py_or r (JObj [])))))
          (\<lambda>e. case e of
             MintError _ status \<Rightarrow> if status = Some 404 then ret None else throw (RevokeError ''reading the token'')
           | _ \<Rightarrow> throw e))
       (\<lambda>found. case found of
          None \<Rightarrow> ret None
        | Some r \<Rightarrow> abind (lift (py_get r ''name'')) (\<lambda>name. ret (Some (py_str (py_or name (JStr ''(unnamed)''))))))"

text \<open>The token is deleted, and the account must then not know it any more.\<close>

definition retire_token :: "'s token_world \<Rightarrow> string \<Rightarrow> string \<Rightarrow> ('s, unit) token_act" where
  "retire_token srv account key_id =
     abind
       (attempt (delete_token srv account key_id)
          (\<lambda>e. case e of MintError _ _ \<Rightarrow> throw (RevokeError ''revoking'') | _ \<Rightarrow> throw e)) (\<lambda>_.
     abind
       (attempt (token_name srv account key_id)
          (\<lambda>e. case e of RevokeError _ \<Rightarrow> throw (RevokeError ''checking that it is gone'') | _ \<Rightarrow> throw e)) (\<lambda>still.
       if still \<noteq> None then throw (RevokeError ''still exists'') else ret ()))"

section \<open>Retiring a pair\<close>

definition the_id :: "pair_files \<Rightarrow> string \<Rightarrow> string list \<Rightarrow> exn + string" where
  "the_id files access envs =
     (case remdups (map (\<lambda>env. pair_show files env access) envs) of
        [Some i] \<Rightarrow> if i = [] then Inl (RevokeError ''differs'') else Inr i
      | _ \<Rightarrow> Inl (RevokeError ''differs''))"

definition unset_pair :: "'s token_world \<Rightarrow> string \<times> string \<Rightarrow> pair_files \<Rightarrow> ('s, pair_files) token_act" where
  "unset_pair srv paths files =
     foreach (pair_unset srv)
       (map (\<lambda>env. (env, snd paths)) (files_holding files (snd paths)) @
        map (\<lambda>env. (env, fst paths)) (files_holding files (fst paths))) files"

definition forget_pair :: "'s token_world \<Rightarrow> string \<times> string \<Rightarrow> pair_files \<Rightarrow> string option \<Rightarrow> ('s, string) token_act" where
  "forget_pair srv paths files name =
     abind (unset_pair srv paths files) (\<lambda>files'.
       if files_holding files' (fst paths) \<noteq> [] \<or> files_holding files' (snd paths) \<noteq> []
       then throw (RevokeError ''still in SOPS'')
       else ret (if name \<noteq> None then ''revoked'' else ''forgotten''))"

definition revoke_pair ::
  "'s token_world \<Rightarrow> string list \<Rightarrow> string \<Rightarrow> pair_files \<Rightarrow> string \<Rightarrow> bool \<Rightarrow> bool \<Rightarrow> ('s, string) token_act" where
  "revoke_pair srv catalog account files pair apply_it forget =
     (let paths = pair_paths pair;
          access = files_holding files (fst paths);
          secret = files_holding files (snd paths) in
      if fst paths \<in> set catalog \<or> snd paths \<in> set catalog then throw (RevokeError ''catalogued'')
      else if access = [] \<and> secret = [] then
        (let other = pair_paths (other_spelling pair) in
         if files_holding files (fst other) \<noteq> [] \<or> files_holding files (snd other) \<noteq> []
         then throw (RevokeError ''other spelling'') else ret ''absent'')
      else if access = [] then throw (RevokeError ''no id'')
      else
        abind (lift (the_id files (fst paths) access)) (\<lambda>key_id.
        abind (token_name srv account key_id) (\<lambda>name.
          if name = None \<and> \<not> forget then throw (RevokeError ''no such token'')
          else if \<not> apply_it then ret ''planned''
          else
            abind (if name \<noteq> None then retire_token srv account key_id else ret ()) (\<lambda>_.
              forget_pair srv paths files name))))"

definition revoke_failure :: "exn \<Rightarrow> bool" where
  "revoke_failure e = (case e of RevokeError _ \<Rightarrow> True | _ \<Rightarrow> False)"

definition backup_account :: "json \<Rightarrow> exn + string" where
  "backup_account config =
     ebind (py_get config ''backup'') (\<lambda>b.
     ebind (py_get (py_or b (JObj [])) ''r2'') (\<lambda>r.
     ebind (py_get (py_or r (JObj [])) ''account_id'') (\<lambda>a. Inr (py_str (py_or a (JStr []))))))"

definition revoke_pair_cmd ::
  "'s token_world \<Rightarrow> string list \<Rightarrow> string \<Rightarrow> bool \<Rightarrow> bool \<Rightarrow> ('s, bool) token_act" where
  "revoke_pair_cmd srv catalog pair apply_it forget =
     abind (consult (tw_merged srv) Merged) (\<lambda>config.
     abind (lift (backup_account config)) (\<lambda>account.
     abind (store_show srv minter_key) (\<lambda>minter.
       if account = [] \<or> minter = None then ret False
       else
         attempt
           (abind (load_files srv) (\<lambda>files.
            abind (revoke_pair srv catalog account files pair apply_it forget) (\<lambda>_. ret True)))
           (\<lambda>e. if revoke_failure e then ret False else throw e))))"

text \<open>The exit code of \<open>toolkit backup revoke-r2-pair\<close>.\<close>

definition revoke_command ::
  "'s token_world \<Rightarrow> string list \<Rightarrow> string \<Rightarrow> bool \<Rightarrow> bool \<Rightarrow> ('s, nat) token_act" where
  "revoke_command srv catalog pair apply_it forget =
     abind (revoke_pair_cmd srv catalog pair apply_it forget) (\<lambda>ok. ret (if ok then 0 else 1))"

end
