(* ===== verification/BackupTokenFacts.thy ===== *)
theory BackupTokenFacts
  imports BackupTokens
begin

text \<open>
  What minting leaves behind: nothing is stored but a pair that was shown to have its scope, and a new token is
  stored or revoked, unless a check was cut off.
\<close>

section \<open>The log of a mint\<close>

definition gave :: "http_reply \<Rightarrow> json \<Rightarrow> bool" where
  "gave r x \<longleftrightarrow> (\<exists>payload ok. r = Answered (Some payload) \<and> py_get payload ''success'' = Inr ok \<and> truthy ok \<and>
     py_get payload ''result'' = Inr x)"

definition scope_shown :: "token_event set \<Rightarrow> string \<Rightarrow> string list \<Rightarrow> string \<Rightarrow> (string \<times> string) list \<Rightarrow> bool" where
  "scope_shown es endpoint readable refused env \<longleftrightarrow>
     (\<forall>b \<in> set readable. \<exists>err. Ran (list_argv endpoint b) env (Inr (0, err)) \<in> es) \<and>
     (\<exists>rc err. rc \<noteq> 0 \<and> str_contains ''AccessDenied'' err \<and> Ran (list_argv endpoint refused) env (Inr (rc, err)) \<in> es)"

fun is_check :: "token_event \<Rightarrow> bool" where
  "is_check (Ran _ _ _) = True"
| "is_check Slept = True"
| "is_check _ = False"

fun cut_off :: "token_event \<Rightarrow> bool" where
  "cut_off (Ran _ _ (Inl _)) = True"
| "cut_off (Wrote _ _ (Inl _)) = True"
| "cut_off _ = False"

fun returned :: "'a outcome \<Rightarrow> bool" where
  "returned (Val x) = True"
| "returned _ = False"

abbreviation deleted :: "string \<Rightarrow> string \<Rightarrow> http_reply \<Rightarrow> token_event" where
  "deleted account i r \<equiv> Api ''DELETE'' (token_path account i) None r"

definition settle_log ::
  "string \<Rightarrow> string \<Rightarrow> string list \<Rightarrow> string \<Rightarrow> string \<Rightarrow> string \<times> string \<Rightarrow> bool \<Rightarrow> string option \<Rightarrow> string \<Rightarrow> string \<Rightarrow>
     string outcome \<Rightarrow> token_event list \<Rightarrow> bool" where
  "settle_log account endpoint readable refused file paths renew old key_id secret out tr \<longleftrightarrow>
     (let stored = Wrote file [(fst paths, key_id), (snd paths, secret)] in
      \<exists>checks rest. tr = checks @ rest \<and> list_all is_check checks \<and>
        (rest = [] \<and> list_ex cut_off checks \<and> \<not> returned out
         \<or> (\<exists>r. rest = [deleted account key_id r]) \<and> \<not> returned out \<and> \<not> list_ex cut_off checks
         \<or> \<not> list_ex cut_off checks \<and> scope_shown (set checks) endpoint readable refused (s3_env key_id secret) \<and>
           ((\<exists>e. rest = [stored (Inl e)]) \<and> \<not> returned out
            \<or> (\<exists>r. rest = [stored (Inr False), deleted account key_id r]) \<and> \<not> returned out
            \<or> rest = [stored (Inr True)] \<and> out = Val ''minted'' \<and> \<not> (renew \<and> old \<noteq> None)
            \<or> (\<exists>old_id r. renew \<and> old = Some old_id \<and> rest = [stored (Inr True), deleted account old_id r])
              \<and> out \<noteq> Val ''minted'')))"

text \<open>What a request says of its answer: its value, and the status of a refusal.\<close>

lemma py_get_raises: "py_get j k = Inl e \<Longrightarrow> e = AttributeError ''get''"
  by (cases j) auto

lemma error_codes_raise: "error_codes payload = Inl e \<Longrightarrow> e = AttributeError ''get'' \<or> (\<exists>m. e = TypeError m)"
proof -
  have "emap (\<lambda>e. py_get e ''code'') xs = Inl e \<Longrightarrow> e = AttributeError ''get''" for xs
    by (induction xs) (auto simp: ebind_def dest: py_get_raises split: sum.splits)
  moreover have "py_iter j = Inl e \<Longrightarrow> \<exists>m. e = TypeError m" for j by (cases j) auto
  ultimately show "error_codes payload = Inl e \<Longrightarrow> e = AttributeError ''get'' \<or> (\<exists>m. e = TypeError m)"
    unfolding error_codes_def by (auto simp: ebind_def dest: py_get_raises split: sum.splits)
qed

lemma runs_http:
  "runs (cloudflare_http srv verb path body) (\<lambda>out tr. \<exists>r. tr = [Api verb path body r] \<and> (\<forall>x. out = Val x \<longleftrightarrow> gave r x)
    \<and> (\<forall>m code. out = Exn (MintError m (Some code)) \<longrightarrow> r = Status code))"
proof -
  let ?after = "\<lambda>r. case r of
       Status code \<Rightarrow> throw (MintError path (Some code))
     | Unreachable \<Rightarrow> throw (MintError path None)
     | Answered None \<Rightarrow> throw (ValueError ''not JSON'')
     | Answered (Some payload) \<Rightarrow>
         abind (lift (py_get payload ''success'')) (\<lambda>success.
           if truthy success then lift (py_get payload ''result'')
           else abind (lift (error_codes payload)) (\<lambda>_. throw (MintError path None)))"
  have "runs (?after r) (\<lambda>out tr. tr = [] \<and> (\<forall>x. out = Val x \<longleftrightarrow> gave r x)
      \<and> (\<forall>m code. out = Exn (MintError m (Some code)) \<longrightarrow> r = Status code))" for r
    by (auto intro!: runs_intros runs_lift simp: gave_def dest: py_get_raises error_codes_raise split: http_reply.split option.split)
  note after = this
  show ?thesis
    unfolding cloudflare_http_def by (rule runs_observe_then, rule runs_mono [OF after]) auto
qed

lemma runs_delete: "runs (delete_token srv account i) (\<lambda>out tr. \<exists>r. tr = [deleted account i r])"
  unfolding delete_token_def
  by (rule runs_abind [OF runs_http]) (auto intro: runs_ret)

lemma runs_revoke_new: "runs (revoke_new srv account i reason) (\<lambda>out tr. (\<exists>r. tr = [deleted account i r]) \<and> \<not> returned out)"
  unfolding revoke_new_def
  by (rule runs_abind [OF runs_delete]) (auto intro: runs_throw)

lemma runs_try_list:
  "runs (try_list srv endpoint b env k) (\<lambda>out tr. list_all is_check tr \<and>
     (out = Val True \<longrightarrow> (\<exists>err. Ran (list_argv endpoint b) env (Inr (0, err)) \<in> set tr)) \<and> (returned out \<longleftrightarrow> \<not> list_ex cut_off tr))"
proof (induction k)
  case (Suc k)
  show ?case
    unfolding try_list.simps list_bucket_def
  proof (intro runs_consult_then runs_case_prod runs_if runs_ret)
    fix x :: "int \<times> string" and rc err
    assume x: "x = (rc, err)" and "rc \<noteq> 0"
    let ?P = "\<lambda>out tr. list_all is_check (Ran (list_argv endpoint b) env (Inr x) # tr) \<and>
      (out = Val True \<longrightarrow> (\<exists>err. Ran (list_argv endpoint b) env (Inr (0, err)) \<in> set (Ran (list_argv endpoint b) env (Inr x) # tr))) \<and>
      (returned out \<longleftrightarrow> \<not> list_ex cut_off (Ran (list_argv endpoint b) env (Inr x) # tr))"
    have rest: "runs (try_list srv endpoint b env k) ?P" "runs (try_list srv endpoint b env k) (\<lambda>out tr. ?P out (Slept # tr))"
      by (rule runs_mono [OF Suc]; auto)+
    then show "runs (abind (if 0 < k then observe (tw_sleep srv) (\<lambda>_. Slept) else ret ()) (\<lambda>_. try_list srv endpoint b env k)) ?P"
      by (auto intro: runs_observe_then)
  qed auto
qed (simp, rule runs_ret, simp)

lemma runs_check_readable:
  "runs (check_readable srv endpoint env bs) (\<lambda>out tr. list_all is_check tr \<and>
     (out = Val None \<longrightarrow> (\<forall>b \<in> set bs. \<exists>err. Ran (list_argv endpoint b) env (Inr (0, err)) \<in> set tr)) \<and>
     (returned out \<longleftrightarrow> \<not> list_ex cut_off tr))"
proof (induction bs)
  case (Cons b bs)
  show ?case
    unfolding check_readable.simps
  proof (rule runs_abind [OF runs_try_list])
    fix ok tr
    assume t: "list_all is_check tr \<and>
      (Val ok = Val True \<longrightarrow> (\<exists>err. Ran (list_argv endpoint b) env (Inr (0, err)) \<in> set tr)) \<and> (returned (Val ok) \<longleftrightarrow> \<not> list_ex cut_off tr)"
    show "runs (if ok then check_readable srv endpoint env bs else ret (Some ''cannot list'')) (\<lambda>out tr'. list_all is_check (tr @ tr') \<and>
      (out = Val None \<longrightarrow> (\<forall>b \<in> set (b # bs). \<exists>err. Ran (list_argv endpoint b) env (Inr (0, err)) \<in> set (tr @ tr'))) \<and>
      (returned out \<longleftrightarrow> \<not> list_ex cut_off (tr @ tr')))"
      by (intro runs_if runs_mono [OF Cons] runs_ret) (use t in auto)
  next
    show "logs (if ok then check_readable srv endpoint env bs else ret (Some ''cannot list''))" for ok
      by (intro emits_intros runs_logs [OF Cons])
  qed auto
qed (simp, rule runs_ret, simp)

lemma runs_scope:
  "runs (scope_error srv endpoint readable refused env) (\<lambda>out tr. list_all is_check tr \<and>
     (out = Val None \<longrightarrow> scope_shown (set tr) endpoint readable refused env) \<and> (returned out \<longleftrightarrow> \<not> list_ex cut_off tr))"
  unfolding scope_error_def
proof (rule runs_abind [OF runs_check_readable])
  fix problem :: "string option" and tr
  assume t: "list_all is_check tr \<and>
     (Val problem = Val None \<longrightarrow> (\<forall>b \<in> set readable. \<exists>err. Ran (list_argv endpoint b) env (Inr (0, err)) \<in> set tr)) \<and>
     (returned (Val problem) \<longleftrightarrow> \<not> list_ex cut_off tr)"
  show "runs (case problem of Some p \<Rightarrow> ret (Some p) | None \<Rightarrow>
         abind (list_bucket srv endpoint refused env) (\<lambda>(rc, err).
           ret (if rc = 0 then Some ''can list what it must not reach''
                else if \<not> str_contains ''AccessDenied'' err then Some ''unproven'' else None)))
     (\<lambda>out tr'. list_all is_check (tr @ tr') \<and>
     (out = Val None \<longrightarrow> scope_shown (set (tr @ tr')) endpoint readable refused env) \<and> (returned out \<longleftrightarrow> \<not> list_ex cut_off (tr @ tr')))"
  proof (cases problem)
    case None
    with t show ?thesis
      unfolding None option.case list_bucket_def
      by (intro runs_consult_then runs_case_prod runs_ret) (auto simp: scope_shown_def split: if_splits)
  qed (use t in \<open>auto intro: runs_ret\<close>)
next
  show "logs (case problem of Some p \<Rightarrow> ret (Some p) | None \<Rightarrow>
         abind (list_bucket srv endpoint refused env) (\<lambda>(rc, err).
           ret (if rc = 0 then Some ''can list what it must not reach''
                else if \<not> str_contains ''AccessDenied'' err then Some ''unproven'' else None)))" for problem :: "string option"
    unfolding list_bucket_def by (intro emits_intros)
qed auto

lemma runs_settle:
  assumes "one_file [(fst paths, key_id), (snd paths, secret)] = Inr file"
  shows "runs (settle_token srv paths readable refused account endpoint renew old key_id secret)
    (settle_log account endpoint readable refused file paths renew old key_id secret)"
proof -
  let ?data = "[(fst paths, key_id), (snd paths, secret)]"
  let ?R = "settle_log account endpoint readable refused file paths renew old key_id secret"
  let ?stored = "\<lambda>stored. if \<not> stored then revoke_new srv account key_id ''not written''
           else case old of
             Some old_id \<Rightarrow> if renew then abind (delete_token srv account old_id) (\<lambda>_. ret ''rotated'') else ret ''minted''
           | None \<Rightarrow> ret ''minted''"
  let ?rest = "\<lambda>problem. case problem of Some p \<Rightarrow> revoke_new srv account key_id p
     | None \<Rightarrow> abind (store_write srv ?data) ?stored"
  have logs: "logs (?stored b)" "logs (?rest problem)" for b problem
    unfolding store_write_def
    by (intro emits_intros runs_logs [OF runs_revoke_new] runs_logs [OF runs_delete])+
  have rotated: "runs (abind (delete_token srv account old_id) (\<lambda>_. ret ''rotated''))
      (\<lambda>out tr. (\<exists>r. tr = [deleted account old_id r]) \<and> out \<noteq> Val ''minted'')" for old_id
    by (rule runs_abind [OF runs_delete]) (auto intro: runs_ret)
  have "runs (?rest problem) (\<lambda>out tr'. ?R out (tr @ tr'))"
    if checks: "list_all is_check tr" "\<not> list_ex cut_off tr" "problem = None \<Longrightarrow> scope_shown (set tr) endpoint readable refused (s3_env key_id secret)" for problem tr
  proof (cases problem)
    case (Some p)
    have "?R out (tr @ [deleted account key_id r])" if "\<not> returned out" for out r
      unfolding settle_log_def Let_def by (rule exI [of _ tr], rule exI [of _ "[deleted account key_id r]"]) (use checks(1,2) that in simp)
    then show ?thesis unfolding Some option.case by (intro runs_mono [OF runs_revoke_new]) auto
  next
    case None
    with checks have shown: "scope_shown (set tr) endpoint readable refused (s3_env key_id secret)" by simp
    let ?W = "Wrote file ?data"
    have R: "?R out (tr @ rest)" if "(\<exists>e. rest = [?W (Inl e)]) \<and> \<not> returned out
       \<or> (\<exists>r. rest = [?W (Inr False), deleted account key_id r]) \<and> \<not> returned out
       \<or> rest = [?W (Inr True)] \<and> out = Val ''minted'' \<and> \<not> (renew \<and> old \<noteq> None)
       \<or> (\<exists>old_id r. renew \<and> old = Some old_id \<and> rest = [?W (Inr True), deleted account old_id r]) \<and> out \<noteq> Val ''minted''" for out rest
      unfolding settle_log_def Let_def by (rule exI [of _ tr], rule exI [of _ rest]) (use checks(1,2) shown that in blast)
    show ?thesis
      unfolding None option.case store_write_def assms run_simps(5) abind_ret
    proof (rule runs_consult_then)
      show "?R (Exn e) (tr @ [?W (Inl e)])" for e by (rule R) simp
      show "runs (?stored b) (\<lambda>out tr'. ?R out (tr @ ?W (Inr b) # tr'))" for b
      proof (cases b)
        case True
        then have b: "b = True" by simp
        show ?thesis
          unfolding b
          by (simp, intro runs_case_option runs_if runs_ret runs_mono [OF rotated]) (use R in auto)
      next
        case False
        then have b: "b = False" by simp
        show ?thesis unfolding b not_False_eq_True if_True by (rule runs_mono [OF runs_revoke_new]) (use R in auto)
      qed
    qed
  qed
  note rest = this
  have cut: "?R out tr" if "list_all is_check tr" "list_ex cut_off tr" "\<not> returned out" for out tr
    unfolding settle_log_def Let_def using that by (intro exI [of _ tr] exI [of _ "[]"]) simp
  show ?thesis
    unfolding settle_token_def
    by (rule runs_abind [OF runs_scope]) (use rest logs cut in auto)
qed

text \<open>The token an answer to the creation gives, and the secret stored for it.\<close>

definition issued :: "(string \<Rightarrow> string) \<Rightarrow> http_reply \<Rightarrow> string \<Rightarrow> string \<Rightarrow> bool" where
  "issued sha r key_id secret \<longleftrightarrow> (\<exists>result k v. gave r result \<and> py_index result ''id'' = Inr k \<and>
     py_index result ''value'' = Inr v \<and> key_id = py_str k \<and> secret = sha (py_str v))"

fun quiet :: "token_event \<Rightarrow> bool" where
  "quiet (Api verb _ _ _) = (verb = ''GET'')"
| "quiet (Shown _ _) = True"
| "quiet _ = False"

definition created :: "string \<Rightarrow> obj \<Rightarrow> http_reply \<Rightarrow> token_event" where
  "created account body r = Api ''POST'' (tokens_path account) (Some body) r"

definition mint_log ::
  "(obj \<Rightarrow> bool) \<Rightarrow> (string \<Rightarrow> string) \<Rightarrow> string \<Rightarrow> string \<Rightarrow> string list \<Rightarrow> string \<Rightarrow> string \<Rightarrow> string \<times> string \<Rightarrow> bool \<Rightarrow>
     string outcome \<Rightarrow> token_event list \<Rightarrow> bool" where
  "mint_log asked sha account endpoint readable refused file paths renew out tr \<longleftrightarrow>
     list_all quiet tr \<and> out \<noteq> Val ''minted'' \<or>
     (\<exists>pre body r rest. tr = pre @ created account body r # rest \<and> list_all quiet pre \<and> asked body \<and>
        (rest = [] \<and> \<not> returned out \<and> (\<forall>key_id secret. \<not> issued sha r key_id secret) \<or>
         (\<exists>old key_id secret. issued sha r key_id secret \<and> Shown (fst paths) (Inr old) \<in> set pre \<and>
            (old \<noteq> None \<and> \<not> renew \<longrightarrow> Shown (snd paths) (Inr None) \<in> set pre) \<and>
            settle_log account endpoint readable refused file paths renew old key_id secret out rest)))"

lemma runs_issue:
  assumes "\<And>key_id secret. one_file [(fst paths, key_id), (snd paths, secret)] = Inr file"
  shows "runs (abind (cloudflare_http srv ''POST'' (tokens_path account) (Some body)) (\<lambda>result.
         abind (lift (py_index result ''id'')) (\<lambda>key_id.
         abind (lift (py_index result ''value'')) (\<lambda>value.
           settle_token srv paths readable refused account endpoint renew old (py_str key_id) (sha (py_str value))))))
    (\<lambda>out tr. \<exists>r rest. tr = created account body r # rest \<and>
        (rest = [] \<and> \<not> returned out \<and> (\<forall>key_id secret. \<not> issued sha r key_id secret) \<or>
         (\<exists>key_id secret. issued sha r key_id secret \<and>
            settle_log account endpoint readable refused file paths renew old key_id secret out rest)))"
    (is "runs (abind _ ?f) ?R")
proof (rule runs_abind [OF runs_http])
  show "logs (?f result)" for result
    by (intro emits_intros runs_logs [OF runs_settle [OF assms]])
next
  fix result tr
  assume "\<exists>r. tr = [Api ''POST'' (tokens_path account) (Some body) r] \<and> (\<forall>x. Val result = Val x \<longleftrightarrow> gave r x)
    \<and> (\<forall>m code. Val result = Exn (MintError m (Some code)) \<longrightarrow> r = Status code)"
  then obtain r where tr: "tr = [created account body r]" and "\<forall>x. result = x \<longleftrightarrow> gave r x" by (auto simp: created_def)
  then have r: "gave r x \<longleftrightarrow> result = x" for x by simp
  have no: "\<forall>key_id secret. \<not> issued sha r key_id secret" if "py_index result ''id'' = Inl e \<or> py_index result ''value'' = Inl e" for e
    using that by (auto simp: issued_def r)
  have yes: "issued sha r (py_str k) (sha (py_str v))" if "py_index result ''id'' = Inr k" "py_index result ''value'' = Inr v" for k v
    using that by (auto simp: issued_def r)
  show "runs (?f result) (\<lambda>out tr'. ?R out (tr @ tr'))"
    unfolding tr by (intro runs_lift_then runs_mono [OF runs_settle [OF assms]]) (use no yes in \<open>auto simp: created_def\<close>)
qed (auto simp: created_def issued_def)

lemma runs_mint:
  assumes "\<And>key_id secret. one_file [(fst paths, key_id), (snd paths, secret)] = Inr file"
    and request: "runs request (\<lambda>out tr. list_all quiet tr \<and> (\<forall>body. out = Val body \<longrightarrow> asked body))"
  shows "runs (mint_token srv sha request paths readable refused account endpoint renew)
    (mint_log asked sha account endpoint readable refused file paths renew)"
  unfolding mint_token_def
proof -
  let ?R = "mint_log asked sha account endpoint readable refused file paths renew"
  let ?issue = "\<lambda>old body. abind (cloudflare_http srv ''POST'' (tokens_path account) (Some body)) (\<lambda>result.
         abind (lift (py_index result ''id'')) (\<lambda>key_id.
         abind (lift (py_index result ''value'')) (\<lambda>value.
           settle_token srv paths readable refused account endpoint renew old (py_str key_id) (sha (py_str value)))))"
  have stop: "?R out tr" if "list_all quiet tr" "out \<noteq> Val ''minted''" for out tr
    unfolding mint_log_def using that by simp
  have go: "runs (abind request (?issue old)) (\<lambda>out tr'. ?R out (tr @ tr'))"
    if "list_all quiet tr" "Shown (fst paths) (Inr old) \<in> set tr"
      "old \<noteq> None \<and> \<not> renew \<longrightarrow> Shown (snd paths) (Inr None) \<in> set tr" for old tr
  proof (rule runs_abind [OF request])
    note quiet = that(1) and shown = that(2,3)
    show "logs (?issue old body)" for body by (rule runs_logs [OF runs_issue [OF assms(1)]])
    show "runs (?issue old body) (\<lambda>out tr''. ?R out (tr @ tr' @ tr''))" if "list_all quiet tr' \<and> (\<forall>b. Val body = Val b \<longrightarrow> asked b)" for body tr'
    proof (rule runs_mono [OF runs_issue [OF assms(1)]])
      fix out tr''
      assume "\<exists>r rest. tr'' = created account body r # rest \<and>
        (rest = [] \<and> \<not> returned out \<and> (\<forall>key_id secret. \<not> issued sha r key_id secret) \<or>
         (\<exists>key_id secret. issued sha r key_id secret \<and>
            settle_log account endpoint readable refused file paths renew old key_id secret out rest))"
      then obtain r rest where "tr'' = created account body r # rest"
        and "rest = [] \<and> \<not> returned out \<and> (\<forall>key_id secret. \<not> issued sha r key_id secret) \<or>
         (\<exists>key_id secret. issued sha r key_id secret \<and>
            settle_log account endpoint readable refused file paths renew old key_id secret out rest)" by blast
      moreover have "asked body" "list_all quiet (tr @ tr')" "Shown (fst paths) (Inr old) \<in> set (tr @ tr')"
        "old \<noteq> None \<and> \<not> renew \<longrightarrow> Shown (snd paths) (Inr None) \<in> set (tr @ tr')"
        using quiet shown that by auto
      ultimately show "?R out (tr @ tr' @ tr'')"
        unfolding mint_log_def by (intro disjI2 exI [of _ "tr @ tr'"] exI [of _ body] exI [of _ r] exI [of _ rest]) auto
    qed
  qed (use that in \<open>auto intro: stop\<close>)
  have logs: "logs (abind request (?issue old))" for old
    by (intro emits_intros runs_logs [OF request] runs_logs [OF runs_issue [OF assms(1)]])
  show "runs (abind (store_show srv (fst paths)) (\<lambda>old.
     abind (if old = None then ret None else store_show srv (snd paths)) (\<lambda>held.
       if old \<noteq> None \<and> held \<noteq> None \<and> \<not> renew then ret ''kept'' else abind request (?issue old)))) ?R"
    unfolding store_show_def
  proof (intro runs_consult_then)
    fix old :: "string option"
    show "runs (abind (if old = None then ret None else consult (\<lambda>w. let (config, w') = tw_merged srv w in
         (ebind config (\<lambda>c. Inr (case get_secret_by_path c (snd paths) of None \<Rightarrow> None | Some v \<Rightarrow> if v = [] then None else Some v)), w'))
       (Shown (snd paths))) (\<lambda>held. if old \<noteq> None \<and> held \<noteq> None \<and> \<not> renew then ret ''kept'' else abind request (?issue old)))
      (\<lambda>out tr. ?R out (Shown (fst paths) (Inr old) # tr))"
    proof (cases old)
      case None
      show ?thesis using go [of "[Shown (fst paths) (Inr None)]" None] by (simp add: None)
    next
      case (Some i)
      have "runs (if held \<noteq> None \<and> \<not> renew then ret ''kept'' else abind request (?issue old))
          (\<lambda>out tr. ?R out (Shown (fst paths) (Inr old) # Shown (snd paths) (Inr held) # tr))" for held
        by (intro runs_if runs_ret stop)
          (use go [of "[Shown (fst paths) (Inr old), Shown (snd paths) (Inr held)]" old] in auto)
      then show ?thesis by (simp add: Some) (intro runs_consult_then; auto intro: stop)
    qed
  qed (rule stop; simp)
qed

lemma one_file_pairs:
  "one_file [(access_key_path node, k), (secret_key_path node, s)] = Inr ''prod''"
  "one_file [(watcher_access_path, k), (watcher_secret_path, s)] = Inr ''common''"
  by (simp_all add: one_file_def sops_file_for_def access_key_path_def secret_key_path_def watcher_access_path_def
      watcher_secret_path_def starts_with_iff)

lemma runs_group: "runs (permission_group_id srv account name) (\<lambda>_ tr. list_all quiet tr)"
  unfolding permission_group_id_def by (rule runs_abind [OF runs_http]) (auto intro: runs_lift)

lemma runs_request: "runs (abind (permission_group_id srv account name) (\<lambda>grp. ret (f grp)))
    (\<lambda>out tr. list_all quiet tr \<and> (\<forall>body. out = Val body \<longrightarrow> (\<exists>grp. body = f grp)))"
  by (rule runs_abind [OF runs_group]) (auto intro: runs_ret)

lemma runs_mint_node:
  "runs (mint_node srv sha node account endpoint other renew)
    (mint_log (\<lambda>body. \<exists>grp. body = token_request node account grp) sha account endpoint [node_bucket node] other ''prod'' (access_key_path node, secret_key_path node) renew)"
  unfolding mint_node_def by (rule runs_mint [OF _ runs_request]) (simp add: one_file_pairs)

lemma runs_mint_watcher:
  "runs (mint_watcher srv sha nodes account endpoint legacy refused renew)
    (mint_log (\<lambda>body. \<exists>grp. body = watcher_token_request nodes legacy account grp) sha account endpoint (watcher_buckets nodes legacy) refused ''common'' (watcher_access_path, watcher_secret_path) renew)"
  unfolding mint_watcher_def by (rule runs_mint [OF _ runs_request]) (simp add: one_file_pairs)

section \<open>What is stored\<close>

lemma scope_shown_mono: "scope_shown A endpoint readable refused env \<Longrightarrow> A \<subseteq> B \<Longrightarrow> scope_shown B endpoint readable refused env"
  unfolding scope_shown_def by (meson subsetD)

lemma no_wrote: "list_all quiet tr \<Longrightarrow> Wrote f d w \<notin> set tr" "list_all is_check tr \<Longrightarrow> Wrote f d w \<notin> set tr"
  and no_api: "list_all quiet tr \<Longrightarrow> Api ''DELETE'' p b r \<notin> set tr" "list_all is_check tr \<Longrightarrow> Api v p b r \<notin> set tr"
  and no_created: "list_all quiet tr \<Longrightarrow> created account body r \<notin> set tr"
  by (auto simp: list_all_iff created_def dest!: bspec)

lemma settle_logE:
  assumes "settle_log account endpoint readable refused file paths renew old key_id secret out tr"
  obtains (cut) "list_all is_check tr" "list_ex cut_off tr" "\<not> returned out"
  | (revoked) checks r where "list_all is_check checks" "\<not> list_ex cut_off checks" "tr = checks @ [deleted account key_id r]" "\<not> returned out"
  | (written) checks w after where "list_all is_check checks" "\<not> list_ex cut_off checks" "scope_shown (set checks) endpoint readable refused (s3_env key_id secret)"
      "tr = checks @ Wrote file [(fst paths, key_id), (snd paths, secret)] w # after"
      "(\<exists>e. w = Inl e) \<and> after = [] \<and> \<not> returned out \<or> (\<exists>r. w = Inr False \<and> after = [deleted account key_id r]) \<and> \<not> returned out
       \<or> w = Inr True \<and> after = [] \<and> out = Val ''minted'' \<and> \<not> (renew \<and> old \<noteq> None)
       \<or> w = Inr True \<and> (\<exists>old_id r. renew \<and> old = Some old_id \<and> after = [deleted account old_id r]) \<and> out \<noteq> Val ''minted''"
proof -
  from assms obtain checks rest where tr: "tr = checks @ rest" "list_all is_check checks" and rest:
    "rest = [] \<and> list_ex cut_off checks \<and> \<not> returned out
         \<or> (\<exists>r. rest = [deleted account key_id r]) \<and> \<not> returned out \<and> \<not> list_ex cut_off checks
         \<or> \<not> list_ex cut_off checks \<and> scope_shown (set checks) endpoint readable refused (s3_env key_id secret) \<and>
           ((\<exists>e. rest = [Wrote file [(fst paths, key_id), (snd paths, secret)] (Inl e)]) \<and> \<not> returned out
            \<or> (\<exists>r. rest = [Wrote file [(fst paths, key_id), (snd paths, secret)] (Inr False), deleted account key_id r]) \<and> \<not> returned out
            \<or> rest = [Wrote file [(fst paths, key_id), (snd paths, secret)] (Inr True)] \<and> out = Val ''minted'' \<and> \<not> (renew \<and> old \<noteq> None)
            \<or> (\<exists>old_id r. renew \<and> old = Some old_id \<and> rest = [Wrote file [(fst paths, key_id), (snd paths, secret)] (Inr True), deleted account old_id r])
              \<and> out \<noteq> Val ''minted'')"
    unfolding settle_log_def Let_def by (elim exE conjE) (rule that)
  from rest show thesis
  proof (elim disjE conjE exE)
    let ?W = "Wrote file [(fst paths, key_id), (snd paths, secret)]"
    show thesis if "rest = []" "list_ex cut_off checks" "\<not> returned out" using that tr cut by simp
    show thesis if "rest = [deleted account key_id r]" "\<not> returned out" "\<not> list_ex cut_off checks" for r using that tr revoked by simp
    let ?shown = "\<not> list_ex cut_off checks" and ?scope = "scope_shown (set checks) endpoint readable refused (s3_env key_id secret)"
    show thesis if ?shown ?scope "rest = [?W (Inl e)]" "\<not> returned out" for e
      by (rule written [OF tr(2), of "Inl e" "[]"]) (use that tr in simp_all)
    show thesis if ?shown ?scope "rest = [?W (Inr False), deleted account key_id r]" "\<not> returned out" for r
      by (rule written [OF tr(2), of "Inr False" "[deleted account key_id r]"]) (use that tr in simp_all)
    show thesis if ?shown ?scope "rest = [?W (Inr True)]" "out = Val ''minted''" "\<not> (renew \<and> old \<noteq> None)"
      by (rule written [OF tr(2), of "Inr True" "[]"]) (use that tr in simp_all)
    show thesis if ?shown ?scope "renew" "old = Some old_id" "rest = [?W (Inr True), deleted account old_id r]" "out \<noteq> Val ''minted''" for old_id r
      by (rule written [OF tr(2), of "Inr True" "[deleted account old_id r]"]) (use that tr in simp_all)
  qed
qed

lemma mint_logE:
  assumes "mint_log asked sha account endpoint readable refused file paths renew out tr"
  obtains (none) "list_all quiet tr" "out \<noteq> Val ''minted''"
  | (unissued) pre body r where "tr = pre @ [created account body r]" "list_all quiet pre" "asked body" "\<not> returned out" "\<forall>k s. \<not> issued sha r k s"
  | (minted) pre body r rest old key_id secret where "tr = pre @ created account body r # rest" "list_all quiet pre" "asked body"
      "issued sha r key_id secret" "Shown (fst paths) (Inr old) \<in> set pre" "old \<noteq> None \<and> \<not> renew \<longrightarrow> Shown (snd paths) (Inr None) \<in> set pre"
      "settle_log account endpoint readable refused file paths renew old key_id secret out rest"
  using assms unfolding mint_log_def by blast

lemma created_not_wrote [simp]: "created account body r \<noteq> Wrote f d w"
  by (simp add: created_def)

text \<open>A pair that was issued for a request of its scope and shown to have that scope.\<close>

definition proven_pair ::
  "(string \<Rightarrow> string) \<Rightarrow> token_event set \<Rightarrow> string \<Rightarrow> (obj \<Rightarrow> bool) \<Rightarrow> string list \<Rightarrow> string \<times> string \<Rightarrow> (string \<times> string) list \<Rightarrow> bool" where
  "proven_pair sha es account asked readable paths d \<longleftrightarrow>
     (\<exists>body r key_id secret endpoint refused. created account body r \<in> es \<and> asked body \<and> issued sha r key_id secret \<and>
        d = [(fst paths, key_id), (snd paths, secret)] \<and> scope_shown es endpoint readable refused (s3_env key_id secret))"

definition justified_write :: "(string \<Rightarrow> string) \<Rightarrow> token_event set \<Rightarrow> string \<Rightarrow> (string \<times> string) list \<Rightarrow> bool" where
  "justified_write sha es f d \<longleftrightarrow>
     f = ''prod'' \<and> (\<exists>node account. proven_pair sha es account (\<lambda>body. \<exists>grp. body = token_request node account grp)
       [node_bucket node] (access_key_path node, secret_key_path node) d)
   \<or> f = ''common'' \<and> (\<exists>nodes legacy account. proven_pair sha es account (\<lambda>body. \<exists>grp. body = watcher_token_request nodes legacy account grp)
       (watcher_buckets nodes legacy) (watcher_access_path, watcher_secret_path) d)
   \<or> f = ''common'' \<and> (\<exists>node password. d = [(restic_password_path node, password)] \<and>
       Shown (restic_password_path node) (Inr None) \<in> es)"

text \<open>Every write of a log is justified by what precedes it.\<close>

fun justified :: "(string \<Rightarrow> string) \<Rightarrow> token_event set \<Rightarrow> token_event list \<Rightarrow> bool" where
  "justified sha es [] = True"
| "justified sha es (e # tr) = ((\<forall>f d w. e = Wrote f d w \<longrightarrow> justified_write sha es f d) \<and> justified sha (insert e es) tr)"

lemma justified_append: "justified sha es (tr @ tr') \<longleftrightarrow> justified sha es tr \<and> justified sha (set tr \<union> es) tr'"
  by (induction tr arbitrary: es) (auto simp: insert_commute)

lemma justified_unwritten: "(\<And>f d w. Wrote f d w \<notin> set tr) \<Longrightarrow> justified sha es tr"
  by (induction tr arbitrary: es) auto

lemma proven_pair_mono:
  assumes "proven_pair sha es account asked readable paths d" and "es \<subseteq> es'"
  shows "proven_pair sha es' account asked readable paths d"
proof -
  from assms(1) obtain body r key_id secret endpoint refused where p: "created account body r \<in> es" "asked body" "issued sha r key_id secret"
    "d = [(fst paths, key_id), (snd paths, secret)]" "scope_shown es endpoint readable refused (s3_env key_id secret)"
    unfolding proven_pair_def by blast
  show ?thesis unfolding proven_pair_def using p(1-4) assms(2) scope_shown_mono [OF p(5) assms(2)] by blast
qed

lemma justified_write_mono: "justified_write sha es f d \<Longrightarrow> es \<subseteq> es' \<Longrightarrow> justified_write sha es' f d"
  unfolding justified_write_def using proven_pair_mono by blast

lemma justified_mono: "justified sha es tr \<Longrightarrow> es \<subseteq> es' \<Longrightarrow> justified sha es' tr"
proof (induction tr arbitrary: es es')
  case (Cons e tr)
  then show ?case using justified_write_mono [OF _ Cons.prems(2)] Cons.IH [of "insert e es" "insert e es'"] by auto
qed simp

lemma justified_then: "justified sha {} tr \<Longrightarrow> justified sha {} tr' \<Longrightarrow> justified sha {} (tr @ tr')"
  unfolding justified_append using justified_mono by blast

lemma mint_log_justified:
  assumes "mint_log asked sha account endpoint readable refused file paths renew out tr"
    and into: "\<And>es d. proven_pair sha es account asked readable paths d \<Longrightarrow> justified_write sha es file d"
  shows "justified sha {} tr"
  using assms(1)
proof (cases rule: mint_logE)
  case (minted pre body r rest old key_id secret)
  from minted(7) show ?thesis
  proof (cases rule: settle_logE)
    case (written checks w after)
    let ?before = "pre @ created account body r # checks"
    have "scope_shown (set ?before) endpoint readable refused (s3_env key_id secret)"
      by (rule scope_shown_mono [OF written(3)]) auto
    with minted(3,4) have "proven_pair sha (set ?before) account asked readable paths [(fst paths, key_id), (snd paths, secret)]"
      unfolding proven_pair_def by (intro exI conjI) auto
    note into [OF this]
    moreover have "justified sha es ?before" "justified sha es after" for es
      by (rule justified_unwritten; use minted(2) written in \<open>auto simp: no_wrote created_def\<close>)+
    moreover have "tr = ?before @ Wrote file [(fst paths, key_id), (snd paths, secret)] w # after"
      using minted(1) written(4) by simp
    ultimately show ?thesis by (simp only: justified_append justified.simps) simp
  qed (rule justified_unwritten; use minted(1,2) in \<open>auto simp: no_wrote created_def\<close>)+
qed (rule justified_unwritten; auto simp: no_wrote created_def)+

abbreviation writes_justified :: "(string \<Rightarrow> string) \<Rightarrow> ('s, 'a) token_act \<Rightarrow> bool" where
  "writes_justified sha m \<equiv> runs m (\<lambda>_ tr. justified sha {} tr)"

lemma justified_abind:
  assumes "writes_justified sha m" and "\<And>x. writes_justified sha (f x)"
  shows "writes_justified sha (abind m f)"
  by (rule runs_abind [OF assms(1)]) (use runs_logs [OF assms(2)] in \<open>auto intro: runs_mono [OF assms(2)] justified_then\<close>)

lemma justified_attempt:
  assumes "writes_justified sha m" and "\<And>e. writes_justified sha (h e)"
  shows "writes_justified sha (attempt m h)"
  by (rule runs_attempt [OF assms(1)]) (use runs_logs [OF assms(2)] in \<open>auto intro: runs_mono [OF assms(2)] justified_then\<close>)

lemma justified_foreach: "(\<And>x st. writes_justified sha (f x st)) \<Longrightarrow> writes_justified sha (foreach f xs st)"
  by (induction xs arbitrary: st) (auto intro: runs_ret justified_abind)

lemma justified_mints:
  "writes_justified sha (mint_node srv sha node account endpoint other renew)"
  "writes_justified sha (mint_watcher srv sha nodes account endpoint legacy refused renew)"
  by (rule runs_mono [OF runs_mint_node] runs_mono [OF runs_mint_watcher], erule mint_log_justified, auto simp: justified_write_def)+

lemma justified_password: "writes_justified sha (ensure_restic_password srv node)"
proof -
  have target: "one_file [(restic_password_path node, p)] = Inr ''common''" for p
    by (simp add: one_file_def sops_file_for_def restic_password_path_def starts_with_iff)
  show ?thesis
    unfolding ensure_restic_password_def store_show_def store_write_def target run_simps(5) abind_ret
    by (intro runs_intros) (auto simp: justified_write_def intro!: runs_intros)
qed


section \<open>No token is left behind\<close>

lemma token_path_inj [simp]: "token_path account i = token_path account j \<longleftrightarrow> i = j"
  by (simp add: token_path_def)

lemma created_inj [simp]: "created account body r = created account body' r' \<longleftrightarrow> body = body' \<and> r = r'"
  by (simp add: created_def)

lemma issued_unique: "issued sha r k s \<Longrightarrow> issued sha r k' s' \<Longrightarrow> k' = k \<and> s' = s"
  by (auto simp: issued_def gave_def)

lemma settle_log_settled:
  assumes "settle_log account endpoint readable refused file paths renew old key_id secret out tr"
  shows "Wrote file [(fst paths, key_id), (snd paths, secret)] (Inr True) \<in> set tr \<or> (\<exists>x. deleted account key_id x \<in> set tr) \<or> list_ex cut_off tr"
    and "deleted account i x \<in> set tr \<Longrightarrow> i = key_id \<or>
      renew \<and> old = Some i \<and> Wrote file [(fst paths, key_id), (snd paths, secret)] (Inr True) \<in> set tr"
    and "created account body r \<notin> set tr"
    and "out = Val ''minted'' \<Longrightarrow> \<not> renew \<Longrightarrow> (\<forall>v p b r. Api v p b r \<notin> set tr) \<and>
      Wrote file [(fst paths, key_id), (snd paths, secret)] (Inr True) \<in> set tr"
  using assms by (cases rule: settle_logE; auto simp: no_api created_def)+

lemma settle_log_interrupted:
  assumes "settle_log account endpoint readable refused file paths renew old key_id secret out tr" and "Ran argv env (Inl e) \<in> set tr"
  shows "list_all is_check tr \<and> \<not> returned out"
  using assms(1)
proof (cases rule: settle_logE)
  case cut
  then show ?thesis by simp
qed (use assms(2) in \<open>auto simp: list_ex_iff\<close>)

text \<open>C22. A new token is stored or revoked. When the API has issued a token for a node, then in any run its pair is stored,
  or its deletion was sent, unless a check or the write was cut off by an exception. No other token is
  deleted but the one stored before, and that only to rotate it and after the new pair is stored.\<close>

theorem new_token_settled:
  assumes "created account body r \<in> set (sends (mint_node srv sha node account endpoint other renew) n)"
    and "issued sha r key_id secret"
  shows "let tr = sends (mint_node srv sha node account endpoint other renew) n;
      stored = Wrote ''prod'' [(access_key_path node, key_id), (secret_key_path node, secret)] (Inr True) in
    (stored \<in> set tr \<or> (\<exists>x. deleted account key_id x \<in> set tr) \<or> list_ex cut_off tr)
    \<and> (\<forall>i x. deleted account i x \<in> set tr \<longrightarrow>
         i = key_id \<or> renew \<and> Shown (access_key_path node) (Inr (Some i)) \<in> set tr \<and> stored \<in> set tr)"
proof -
  let ?tr = "sends (mint_node srv sha node account endpoint other renew) n"
  define out where "out = fst (mint_node srv sha node account endpoint other renew n)"
  have "mint_log (\<lambda>body. \<exists>grp. body = token_request node account grp) sha account endpoint [node_bucket node] other ''prod'' (access_key_path node, secret_key_path node) renew out ?tr"
    unfolding out_def by (rule runsD [OF runs_mint_node])
  then show ?thesis
  proof (cases rule: mint_logE)
    case none
    with assms(1) show ?thesis by (simp add: no_created)
  next
    case (unissued pre body' r')
    with assms show ?thesis by (auto simp: no_created)
  next
    case (minted pre body' r' rest old k s)
    note settled = settle_log_settled [OF minted(7)]
    from assms(1) minted(1,2) settled(3) have "r = r'" by (auto simp: no_created)
    with issued_unique [OF minted(4)] assms(2) have ks: "k = key_id" "s = secret" by auto
    have sub: "set rest \<subseteq> set ?tr" "set pre \<subseteq> set ?tr" unfolding minted(1) by auto
    have del: "deleted account i x \<in> set rest" if "deleted account i x \<in> set ?tr" for i x
      using that minted(1,2) by (auto simp: no_api created_def)
    have cut: "list_ex cut_off rest \<Longrightarrow> list_ex cut_off ?tr" unfolding minted(1) by simp
    show ?thesis
      unfolding Let_def
    proof (intro conjI allI impI)
      show "Wrote ''prod'' [(access_key_path node, key_id), (secret_key_path node, secret)] (Inr True) \<in> set ?tr
          \<or> (\<exists>x. deleted account key_id x \<in> set ?tr) \<or> list_ex cut_off ?tr"
        using settled(1) ks sub(1) cut unfolding fst_conv snd_conv by blast
      fix i x
      assume "deleted account i x \<in> set ?tr"
      from settled(2) [OF del [OF this]] minted(5) ks sub show "i = key_id \<or> renew \<and> Shown (access_key_path node) (Inr (Some i)) \<in> set ?tr \<and>
          Wrote ''prod'' [(access_key_path node, key_id), (secret_key_path node, secret)] (Inr True) \<in> set ?tr"
        unfolding fst_conv snd_conv by blast
    qed
  qed
qed

section \<open>Where a token is lost\<close>

text \<open>A half-stored pair loses its token. A mint that was not asked to rotate and reports a new pair has sent no
  deletion of any token. It may have read an old id from SOPS, with no secret beside it: the new pair is then
  written over that id, which nothing else holds, and the old token stays live.\<close>

theorem half_pair_forgets_its_token:
  assumes "mint_node srv sha node account endpoint other False n = (Val ''minted'', n')"
  shows "\<exists>old key_id secret. let tr = sends (mint_node srv sha node account endpoint other False) n in
    Shown (access_key_path node) (Inr old) \<in> set tr \<and> (old \<noteq> None \<longrightarrow> Shown (secret_key_path node) (Inr None) \<in> set tr)
    \<and> Wrote ''prod'' [(access_key_path node, key_id), (secret_key_path node, secret)] (Inr True) \<in> set tr
    \<and> (\<forall>p b r. Api ''DELETE'' p b r \<notin> set tr)"
proof -
  let ?tr = "sends (mint_node srv sha node account endpoint other False) n"
  have "mint_log (\<lambda>body. \<exists>grp. body = token_request node account grp) sha account endpoint [node_bucket node] other ''prod'' (access_key_path node, secret_key_path node) False (Val ''minted'') ?tr"
    unfolding assms(1) [THEN arg_cong [where f = fst], unfolded fst_conv, symmetric] by (rule runsD [OF runs_mint_node])
  then show ?thesis
  proof (cases rule: mint_logE)
    case (minted pre body r rest old k s)
    from settle_log_settled(4) [OF minted(7)] have "\<forall>v p b r. Api v p b r \<notin> set rest"
      "Wrote ''prod'' [(access_key_path node, k), (secret_key_path node, s)] (Inr True) \<in> set rest" by auto
    with minted(2,5,6) show ?thesis
      unfolding Let_def minted(1) by (intro exI [of _ old] exI [of _ k] exI [of _ s]) (auto simp: no_api created_def)
  qed auto
qed

text \<open>C23. An interrupted check strands its token. When the \<open>aws\<close> client raises during the check of a newly issued
  token (it is not installed, or its time is up), the mint ends with an exception: nothing is written and no
  deletion is sent, so the account holds a live token whose id is stored nowhere.\<close>

theorem interrupted_check_strands_token:
  assumes "created account body r \<in> set (sends (mint_node srv sha node account endpoint other renew) n)"
    and "issued sha r key_id secret"
    and "Ran argv env (Inl e) \<in> set (sends (mint_node srv sha node account endpoint other renew) n)"
  shows "\<not> returned (fst (mint_node srv sha node account endpoint other renew n))
    \<and> (\<forall>f d w. Wrote f d w \<notin> set (sends (mint_node srv sha node account endpoint other renew) n))
    \<and> (\<forall>p b x. Api ''DELETE'' p b x \<notin> set (sends (mint_node srv sha node account endpoint other renew) n))"
proof -
  let ?tr = "sends (mint_node srv sha node account endpoint other renew) n"
  define out where "out = fst (mint_node srv sha node account endpoint other renew n)"
  have "mint_log (\<lambda>body. \<exists>grp. body = token_request node account grp) sha account endpoint [node_bucket node] other ''prod'' (access_key_path node, secret_key_path node) renew out ?tr"
    unfolding out_def by (rule runsD [OF runs_mint_node])
  then show ?thesis
  proof (cases rule: mint_logE)
    case none
    with assms(1) show ?thesis by (simp add: no_created)
  next
    case (unissued pre body' r')
    with assms(1,2) show ?thesis by (auto simp: no_created)
  next
    case (minted pre body' r' rest old k s)
    from assms(3) minted(1,2) have "Ran argv env (Inl e) \<in> set rest" by (auto simp: created_def list_all_iff dest!: bspec)
    from settle_log_interrupted [OF minted(7) this] have rest: "list_all is_check rest" "\<not> returned out" by simp_all
    have "Wrote f d w \<notin> set ?tr" "Api ''DELETE'' p b x \<notin> set ?tr" for f d w p b x
      unfolding minted(1) using minted(2) rest(1) by (auto simp: no_wrote no_api created_def)
    with rest(2) show ?thesis unfolding out_def by blast
  qed
qed

end
