(* ===== verification/BackupRevokeFacts.thy ===== *)
theory BackupRevokeFacts
  imports BackupRevoke BackupTokenFacts
begin

text \<open>
  What retiring a pair does to the account and to SOPS: a key is unset only once the account answered that it does not
  know the token, the secret before the id, and a run that says it is done left neither key in any file.
\<close>

section \<open>The log of a retirement\<close>

fun unset_of :: "token_event \<Rightarrow> (string \<times> string) list" where
  "unset_of (Unset env path _) = [(env, path)]"
| "unset_of _ = []"

text \<open>The keys unset, in order, and whether every unset succeeded.\<close>

abbreviation unsets :: "token_event list \<Rightarrow> (string \<times> string) list" where
  "unsets tr \<equiv> concat (map unset_of tr)"

fun fulfilled :: "token_event \<Rightarrow> bool" where
  "fulfilled (Unset _ _ r) = (r = Inr True)"
| "fulfilled _ = True"

fun on_files :: "token_event \<Rightarrow> bool" where
  "on_files (Unset _ _ _) = True"
| "on_files (Decrypted _ _) = True"
| "on_files _ = False"

text \<open>The files as the last reading of each showed them.\<close>

fun reload :: "token_event \<Rightarrow> pair_files \<Rightarrow> pair_files" where
  "reload (Decrypted env (Inr None)) files = filter (\<lambda>kv. fst kv \<noteq> env) files"
| "reload (Decrypted env (Inr (Some (rc, doc)))) files = oset files env (py_or doc (JObj []))"
| "reload _ files = files"

abbreviation reread :: "token_event list \<Rightarrow> pair_files \<Rightarrow> pair_files" where
  "reread \<equiv> fold reload"

definition to_unset :: "string \<times> string \<Rightarrow> pair_files \<Rightarrow> (string \<times> string) list" where
  "to_unset paths files = map (\<lambda>env. (env, snd paths)) (files_holding files (snd paths)) @
     map (\<lambda>env. (env, fst paths)) (files_holding files (fst paths))"

abbreviation looked_up :: "string \<Rightarrow> string \<Rightarrow> http_reply \<Rightarrow> token_event" where
  "looked_up account i r \<equiv> Api ''GET'' (token_path account i) None r"

lemma runs_load_file:
  "runs (load_file srv env files) (\<lambda>out tr. (\<exists>r. tr = [Decrypted env r]) \<and> (\<forall>f. out = Val f \<longrightarrow> f = reread tr files))"
  unfolding load_file_def decrypt_file_def abind_assoc
  by (rule runs_consult_then; simp split: option.split prod.split; intro conjI allI impI; (rule runs_intros)?; simp?)

lemma runs_pair_unset:
  "runs (pair_unset srv at files) (\<lambda>out tr. list_all on_files tr \<and> unsets tr = [at] \<and>
     (\<forall>f. out = Val f \<longrightarrow> list_all fulfilled tr \<and> f = reread tr files))"
  unfolding pair_unset_def
proof (rule runs_consult_then)
  fix ok
  show "runs (abind (load_file srv (fst at) files) (\<lambda>files'. if ok then ret files' else throw (RevokeError ''unset'')))
     (\<lambda>out tr. list_all on_files (Unset (fst at) (snd at) (Inr ok) # tr) \<and> unsets (Unset (fst at) (snd at) (Inr ok) # tr) = [at] \<and>
     (\<forall>f. out = Val f \<longrightarrow> list_all fulfilled (Unset (fst at) (snd at) (Inr ok) # tr) \<and>
        f = reread (Unset (fst at) (snd at) (Inr ok) # tr) files))"
    by (rule runs_abind [OF runs_load_file]) (auto intro!: runs_intros emits_intros)
qed auto

lemma runs_unset:
  "runs (foreach (pair_unset srv) ats files) (\<lambda>out tr. list_all on_files tr \<and> prefix (unsets tr) ats \<and>
     (\<forall>f. out = Val f \<longrightarrow> unsets tr = ats \<and> list_all fulfilled tr \<and> f = reread tr files))"
proof (induction ats arbitrary: files)
  case (Cons at ats)
  show ?case
    unfolding foreach.simps
    by (rule runs_abind [OF runs_pair_unset]; (rule runs_mono [OF Cons] runs_logs [OF Cons])?) auto
qed (simp add: runs_ret)

lemma runs_forget:
  "runs (forget_pair srv paths files name) (\<lambda>out tr. list_all on_files tr \<and> prefix (unsets tr) (to_unset paths files) \<and>
     (\<forall>what. out = Val what \<longrightarrow> what = (if name = None then ''forgotten'' else ''revoked'') \<and> unsets tr = to_unset paths files \<and>
        list_all fulfilled tr \<and> files_holding (reread tr files) (fst paths) = [] \<and> files_holding (reread tr files) (snd paths) = []))"
  unfolding forget_pair_def unset_pair_def to_unset_def [symmetric]
  by (rule runs_abind [OF runs_unset]; (intro runs_if runs_ret runs_throw emits_intros)?) auto

lemma runs_token_name:
  "runs (token_name srv account i) (\<lambda>out tr. \<exists>r. tr = [looked_up account i r] \<and> (out = Val None \<longrightarrow> r = Status 404))"
proof -
  let ?asked = "attempt
          (abind (cloudflare_http srv ''GET'' (token_path account i) None) (\<lambda>r. ret (Some (py_or r (JObj [])))))
          (\<lambda>e. case e of
             MintError _ status \<Rightarrow> if status = Some 404 then ret None else throw (RevokeError ''reading the token'')
           | _ \<Rightarrow> throw e)"
  have "runs (abind (cloudflare_http srv ''GET'' (token_path account i) None) (\<lambda>r. ret (Some (py_or r (JObj [])))))
    (\<lambda>out tr. \<exists>r. tr = [looked_up account i r] \<and> out \<noteq> Val None \<and> (\<forall>m code. out = Exn (MintError m (Some code)) \<longrightarrow> r = Status code))"
    by (rule runs_abind [OF runs_http]) (auto intro: runs_ret)
  then have "runs ?asked (\<lambda>out tr. \<exists>r. tr = [looked_up account i r] \<and> (out = Val None \<longrightarrow> r = Status 404))"
    by (rule runs_attempt) (auto intro!: runs_intros emits_intros split: exn.split)
  then show ?thesis
    unfolding token_name_def
    by (rule runs_abind) (auto intro!: runs_intros emits_intros split: option.split)
qed

lemma runs_retire_token:
  "runs (retire_token srv account i) (\<lambda>out tr. \<exists>r rest. tr = deleted account i r # rest \<and>
     (rest = [] \<and> \<not> returned out \<or> (\<exists>r'. rest = [looked_up account i r'] \<and> (returned out \<longrightarrow> r' = Status 404))))"
proof -
  have del: "runs (attempt (delete_token srv account i) (\<lambda>e. case e of MintError _ _ \<Rightarrow> throw (RevokeError ''revoking'') | _ \<Rightarrow> throw e))
      (\<lambda>out tr. \<exists>r. tr = [deleted account i r])"
    by (rule runs_attempt [OF runs_delete]) (auto intro!: runs_intros emits_intros split: exn.split)
  have still: "runs (abind (attempt (token_name srv account i)
          (\<lambda>e. case e of RevokeError _ \<Rightarrow> throw (RevokeError ''checking that it is gone'') | _ \<Rightarrow> throw e)) (\<lambda>still.
       if still \<noteq> None then throw (RevokeError ''still exists'') else ret ()))
      (\<lambda>out tr. \<exists>r. tr = [looked_up account i r] \<and> (returned out \<longrightarrow> r = Status 404))" (is "runs (abind ?look _) _")
  proof (rule runs_abind)
    show "runs ?look (\<lambda>out tr. \<exists>r. tr = [looked_up account i r] \<and> (out = Val None \<longrightarrow> r = Status 404))"
      by (rule runs_attempt [OF runs_token_name]) (auto intro!: runs_intros emits_intros split: exn.split)
  qed (auto intro!: runs_intros emits_intros)
  show ?thesis
    unfolding retire_token_def
    by (rule runs_abind [OF del]; (rule runs_mono [OF still] runs_logs [OF still])?) auto
qed

section \<open>Retiring a pair\<close>

definition asking :: "string \<Rightarrow> string \<Rightarrow> token_event \<Rightarrow> bool" where
  "asking account i e \<longleftrightarrow> (\<exists>r. e = looked_up account i r \<or> e = deleted account i r)"

definition retired :: "string outcome \<Rightarrow> bool" where
  "retired out \<longleftrightarrow> out = Val ''revoked'' \<or> out = Val ''forgotten''"

definition forget_log :: "string \<times> string \<Rightarrow> pair_files \<Rightarrow> string outcome \<Rightarrow> token_event list \<Rightarrow> bool" where
  "forget_log paths files out tr \<longleftrightarrow> list_all on_files tr \<and> prefix (unsets tr) (to_unset paths files) \<and>
     (returned out \<longrightarrow> unsets tr = to_unset paths files \<and> list_all fulfilled tr \<and>
       files_holding (reread tr files) (fst paths) = [] \<and> files_holding (reread tr files) (snd paths) = [])"

text \<open>Either nothing but questions and, when applying, deletions of the one token, or the account denied knowing it and the
  files follow.\<close>

definition revoke_log ::
  "string \<Rightarrow> string \<Rightarrow> string \<times> string \<Rightarrow> pair_files \<Rightarrow> bool \<Rightarrow> string outcome \<Rightarrow> token_event list \<Rightarrow> bool" where
  "revoke_log account i paths files apply_it out tr \<longleftrightarrow>
     (\<exists>checks rest. tr = checks @ rest \<and> list_all (asking account i) checks \<and>
        (\<not> apply_it \<longrightarrow> (\<forall>r. deleted account i r \<notin> set checks)) \<and>
        (rest = [] \<and> \<not> retired out \<or>
         apply_it \<and> (\<exists>before. checks = before @ [looked_up account i (Status 404)]) \<and>
         (out = Val ''revoked'' \<longrightarrow> (\<exists>r. deleted account i r \<in> set checks)) \<and> forget_log paths files out rest))"

lemma runs_forget_log:
  "runs (forget_pair srv paths files name) (\<lambda>out tr. forget_log paths files out tr \<and> (out = Val ''revoked'' \<longrightarrow> name \<noteq> None))"
  by (rule runs_mono [OF runs_forget]) (auto simp: forget_log_def elim!: returned.elims split: if_splits)

lemma revoke_log_asks:
  assumes "list_all (asking account i) tr" and "\<not> apply_it \<Longrightarrow> \<forall>r. deleted account i r \<notin> set tr" and "\<not> retired out"
  shows "revoke_log account i paths files apply_it out tr"
  unfolding revoke_log_def using assms by (intro exI [of _ tr] exI [of _ "[]"]) simp

lemma revoke_log_ends:
  assumes "list_all (asking account i) checks" and "\<exists>before. checks = before @ [looked_up account i (Status 404)]"
    and "forget_log paths files out rest" and "out = Val ''revoked'' \<Longrightarrow> \<exists>r. deleted account i r \<in> set checks"
  shows "revoke_log account i paths files True out (checks @ rest)"
  unfolding revoke_log_def using assms by (intro exI [of _ checks] exI [of _ rest]) simp

lemma runs_retire:
  "runs (abind (token_name srv account i) (\<lambda>name.
          if name = None \<and> \<not> forget then throw (RevokeError ''no such token'')
          else if \<not> apply_it then ret ''planned''
          else
            abind (if name \<noteq> None then retire_token srv account i else ret ()) (\<lambda>_.
              forget_pair srv paths files name)))
    (revoke_log account i paths files apply_it)"
  (is "runs (abind _ ?f) ?R")
proof (rule runs_abind [OF runs_token_name])
  have forgets: "logs (forget_pair srv paths files name)" for name by (rule runs_logs [OF runs_forget])
  show "logs (?f name)" for name by (intro emits_intros forgets runs_logs [OF runs_retire_token])
  note asks = revoke_log_asks [of account i _ apply_it _ paths files]
  show "?R (Exn e) tr" if "\<exists>r. tr = [looked_up account i r] \<and> (Exn e = Val None \<longrightarrow> r = Status 404)" for e tr
    by (rule asks) (use that in \<open>auto simp: asking_def retired_def\<close>)
  show "?R Stuck tr" if "\<exists>r. tr = [looked_up account i r] \<and> (Stuck = Val None \<longrightarrow> r = Status 404)" for tr
    by (rule asks) (use that in \<open>auto simp: asking_def retired_def\<close>)
  fix name :: "string option" and tr
  assume "\<exists>r. tr = [looked_up account i r] \<and> (Val name = Val None \<longrightarrow> r = Status 404)"
  then obtain r where tr: "tr = [looked_up account i r]" and gone: "name = None \<Longrightarrow> r = Status 404" by auto
  have asked: "list_all (asking account i) tr" by (simp add: tr asking_def)
  show "runs (?f name) (\<lambda>out tr'. ?R out (tr @ tr'))"
  proof (intro runs_if)
    show "runs (throw (RevokeError ''no such token'')) (\<lambda>out tr'. ?R out (tr @ tr'))"
      by (rule runs_throw, rule asks) (auto simp: tr asking_def retired_def)
    show "runs (ret ''planned'') (\<lambda>out tr'. ?R out (tr @ tr'))"
      by (rule runs_ret, rule asks) (auto simp: tr asking_def retired_def)
    assume "\<not> \<not> apply_it"
    then have apply_it by simp
    show "runs (abind (if name \<noteq> None then retire_token srv account i else ret ()) (\<lambda>_. forget_pair srv paths files name))
      (\<lambda>out tr'. ?R out (tr @ tr'))"
    proof (cases name)
      case None
      have "?R out (tr @ rest)" if "forget_log paths files out rest \<and> (out = Val ''revoked'' \<longrightarrow> name \<noteq> None)" for out rest
        using revoke_log_ends [OF asked, of paths files out rest] that gone None \<open>apply_it\<close> by (simp add: tr)
      then show ?thesis unfolding None by (simp, intro runs_mono [OF runs_forget_log [of _ _ _ None]]) (auto simp: None)
    next
      case (Some what)
      have some: "(Some what \<noteq> None) = True" by simp
      show ?thesis
        unfolding Some some if_True
      proof (rule runs_abind [OF runs_retire_token])
        fix x :: unit and more
        assume "\<exists>r rest. more = deleted account i r # rest \<and> (rest = [] \<and> \<not> returned (Val x) \<or>
          (\<exists>r'. rest = [looked_up account i r'] \<and> (returned (Val x) \<longrightarrow> r' = Status 404)))"
        then obtain r' where more: "more = [deleted account i r', looked_up account i (Status 404)]" by auto
        have "?R out (tr @ more @ rest)" if "forget_log paths files out rest" for out rest
          using revoke_log_ends [of account i "tr @ more", OF _ _ that] asked \<open>apply_it\<close> by (simp add: tr more asking_def)
        then show "runs (forget_pair srv paths files (Some what)) (\<lambda>out rest. ?R out (tr @ more @ rest))"
          by (intro runs_mono [OF runs_forget_log]) auto
      next
        fix out :: "unit outcome" and more and e
        assume "\<exists>r rest. more = deleted account i r # rest \<and> (rest = [] \<and> \<not> returned out \<or>
          (\<exists>r'. rest = [looked_up account i r'] \<and> (returned out \<longrightarrow> r' = Status 404)))"
        then have "list_all (asking account i) (tr @ more)" by (auto simp: tr asking_def)
        then show "?R (Exn e) (tr @ more)" "?R Stuck (tr @ more)"
          using asks [of "tr @ more"] \<open>apply_it\<close> by (simp_all add: retired_def)
      qed (rule forgets)
    qed
  qed
qed

lemma runs_revoke_pair:
  "runs (revoke_pair srv catalog account files pair apply_it forget) (\<lambda>out tr. tr = [] \<and> \<not> retired out \<or>
     fst (pair_paths pair) \<notin> set catalog \<and> snd (pair_paths pair) \<notin> set catalog \<and>
     (\<exists>i. the_id files (fst (pair_paths pair)) (files_holding files (fst (pair_paths pair))) = Inr i \<and>
        revoke_log account i (pair_paths pair) files apply_it out tr))"
  unfolding revoke_pair_def Let_def
  by (intro runs_if runs_throw runs_ret runs_lift_then runs_mono [OF runs_retire]) (auto simp: retired_def)

section \<open>What is guaranteed\<close>

lemma asking_unsets: "list_all (asking account i) tr \<Longrightarrow> unsets tr = []" "list_all (asking account i) tr \<Longrightarrow> reread tr files = files"
  by (induction tr arbitrary: files) (auto simp: asking_def)

text \<open>C24. The id is forgotten last, and only when the token is gone. A key is unset only in a run that applies, of a pair
  no catalog entry owns, and after the account answered 404 for the token whose id the files hold; before that
  answer only this token is asked for or deleted, and after it only the files are touched, the copies of the
  secret before those of the id.\<close>

theorem unset_only_when_gone:
  assumes "unsets (sends (revoke_pair srv catalog account files pair apply_it forget) n) \<noteq> []"
  shows "\<exists>i before rest. sends (revoke_pair srv catalog account files pair apply_it forget) n
      = before @ looked_up account i (Status 404) # rest
    \<and> the_id files (fst (pair_paths pair)) (files_holding files (fst (pair_paths pair))) = Inr i
    \<and> apply_it \<and> fst (pair_paths pair) \<notin> set catalog \<and> snd (pair_paths pair) \<notin> set catalog
    \<and> list_all (asking account i) before \<and> list_all on_files rest
    \<and> prefix (unsets rest) (to_unset (pair_paths pair) files)"
proof -
  let ?tr = "sends (revoke_pair srv catalog account files pair apply_it forget) n"
  from runsD [OF runs_revoke_pair [of srv catalog account files pair apply_it forget], of n] assms obtain i out where
    "fst (pair_paths pair) \<notin> set catalog" "snd (pair_paths pair) \<notin> set catalog"
    "the_id files (fst (pair_paths pair)) (files_holding files (fst (pair_paths pair))) = Inr i"
    and log: "revoke_log account i (pair_paths pair) files apply_it out ?tr" by fastforce
  moreover from log obtain checks rest where tr: "?tr = checks @ rest" "list_all (asking account i) checks"
    and rest: "rest = [] \<or> apply_it \<and> (\<exists>before. checks = before @ [looked_up account i (Status 404)]) \<and> forget_log (pair_paths pair) files out rest"
    unfolding revoke_log_def by blast
  moreover from assms tr asking_unsets(1) [OF tr(2)] have "rest \<noteq> []" by auto
  with rest tr obtain before where "?tr = before @ looked_up account i (Status 404) # rest"
    "apply_it" "list_all (asking account i) before" "forget_log (pair_paths pair) files out rest" by auto
  ultimately show ?thesis unfolding forget_log_def by blast
qed

text \<open>C25. A retired pair is in no file. When a run says that it revoked or forgot the pair, every copy it found was unset
  with success, the files as they read afterwards hold neither key, and a revoked token was sent its deletion.\<close>

theorem retired_pair_is_gone:
  assumes "revoke_pair srv catalog account files pair apply_it forget n = (Val out, n')" and "out = ''revoked'' \<or> out = ''forgotten''"
  shows "\<exists>i. let tr = sends (revoke_pair srv catalog account files pair apply_it forget) n; paths = pair_paths pair in
    unsets tr = to_unset paths files \<and> list_all fulfilled tr
    \<and> files_holding (reread tr files) (fst paths) = [] \<and> files_holding (reread tr files) (snd paths) = []
    \<and> looked_up account i (Status 404) \<in> set tr \<and> (out = ''revoked'' \<longrightarrow> (\<exists>r. deleted account i r \<in> set tr))"
proof -
  let ?tr = "sends (revoke_pair srv catalog account files pair apply_it forget) n"
  have "retired (Val out)" using assms(2) by (simp add: retired_def)
  with runsD [OF runs_revoke_pair [of srv catalog account files pair apply_it forget], of n] assms(1) obtain i where
    "revoke_log account i (pair_paths pair) files apply_it (Val out) ?tr" by fastforce
  with \<open>retired (Val out)\<close> obtain before rest where tr: "?tr = (before @ [looked_up account i (Status 404)]) @ rest"
    "list_all (asking account i) (before @ [looked_up account i (Status 404)])" "forget_log (pair_paths pair) files (Val out) rest"
    "out = ''revoked'' \<longrightarrow> (\<exists>r. deleted account i r \<in> set (before @ [looked_up account i (Status 404)]))"
    unfolding revoke_log_def by blast
  have "list_all fulfilled (before @ [looked_up account i (Status 404)])"
    using tr(2) by (auto simp: list_all_iff asking_def)
  with tr asking_unsets [OF tr(2)] show ?thesis
    unfolding Let_def tr(1) forget_log_def by (intro exI [of _ i]) auto
qed

end
