(* ===== verification/BackupSamples.thy ===== *)
theory BackupSamples
  imports BackupRevokeFacts
begin

text \<open>A small account, and the runs of a mint and of a retirement against it.\<close>

section \<open>The account\<close>

definition ok_reply :: "json \<Rightarrow> http_reply" where
  "ok_reply result = Answered (Some (JObj [(''success'', JBool True), (''result'', result)]))"

text \<open>The state is whether the token was deleted: the account then does not know it, and the files hold no key.\<close>

definition sample_http :: "string \<Rightarrow> string \<Rightarrow> obj option \<Rightarrow> bool \<Rightarrow> http_reply \<times> bool" where
  "sample_http verb path body gone =
     (if verb = ''POST'' then (ok_reply (JObj [(''id'', JStr ''t2''), (''value'', JStr ''v'')]), gone)
      else if verb = ''DELETE'' then (ok_reply JNull, True)
      else if path = ''/accounts/acc/tokens/permission_groups''
      then (ok_reply (JArr [JObj [(''name'', JStr write_group), (''id'', JStr ''g'')]]), gone)
      else (if gone then Status 404 else ok_reply (JObj [(''name'', JStr ''old'')]), gone))"

definition sample_account :: "(string list \<Rightarrow> exn + int \<times> string) \<Rightarrow> json \<Rightarrow> bool token_world" where
  "sample_account client config =
     \<lparr>tw_http = sample_http, tw_run = (\<lambda>argv env w. (client argv, w)), tw_sleep = (\<lambda>w. ((), w)), tw_merged = (\<lambda>w. (Inr config, w)),
      tw_random = (\<lambda>_ w. (''p'', w)), tw_write = (\<lambda>_ _ w. (Inr True, w)), tw_decrypt = (\<lambda>_ w. (Inr (Some (0, JObj [])), w)),
      tw_unset = (\<lambda>_ _ w. (Inr True, w))\<rparr>"

definition scoped_client :: "string list \<Rightarrow> exn + int \<times> string" where
  "scoped_client argv = Inr (if ''kubelab-backup-n1'' \<in> set argv then (0, []) else (254, ''AccessDenied''))"

definition slow_client :: "string list \<Rightarrow> exn + int \<times> string" where
  "slow_client argv = Inl (TimeoutExpired ''aws'')"

definition at_start :: "(token_event, bool) net" where
  "at_start = \<lparr>sent = [], world = False, budget = 0\<rparr>"

abbreviation sample_mint :: "(string list \<Rightarrow> exn + int \<times> string) \<Rightarrow> json \<Rightarrow> bool \<Rightarrow> (bool, string) token_act" where
  "sample_mint client config renew \<equiv>
     mint_node (sample_account client config) id ''n1'' ''acc'' ''e'' ''kubelab-backup-n2'' renew"

definition issue_reply :: http_reply where
  "issue_reply = ok_reply (JObj [(''id'', JStr ''t2''), (''value'', JStr ''v'')])"

definition sample_created :: token_event where
  "sample_created = created ''acc'' (token_request ''n1'' ''acc'' ''g'') issue_reply"

lemma sample_issued: "issued id issue_reply ''t2'' ''v''"
  by (simp add: issued_def issue_reply_def gave_def ok_reply_def)

section \<open>A mint\<close>

lemma new_token_settled_witness:
  "\<forall>r. deleted ''acc'' ''t1'' r \<notin> set (sends (sample_mint scoped_client (JObj []) False) at_start)"
proof -
  have made: "sample_created \<in> set (sends (sample_mint scoped_client (JObj []) False) at_start)" by code_simp
  show ?thesis using new_token_settled [OF made [unfolded sample_created_def] sample_issued] by (auto simp: Let_def)
qed

lemma interrupted_check_strands_token_witness:
  "\<not> returned (fst (sample_mint slow_client (JObj []) False at_start))"
proof -
  have made: "sample_created \<in> set (sends (sample_mint slow_client (JObj []) False) at_start)" by code_simp
  have cut: "Ran (list_argv ''e'' ''kubelab-backup-n1'') (s3_env ''t2'' ''v'') (Inl (TimeoutExpired ''aws''))
      \<in> set (sends (sample_mint slow_client (JObj []) False) at_start)" by code_simp
  show ?thesis using interrupted_check_strands_token [OF made [unfolded sample_created_def] sample_issued cut] by simp
qed

definition half_pair :: json where
  "half_pair = JObj [(''backup'', JObj [(''r2'', JObj [(''nodes'', JObj [(''n1'', JObj [(''access_key_id'', JStr ''t1'')])])])])]"

lemma half_pair_forgets_its_token_witness:
  "Shown (access_key_path ''n1'') (Inr (Some ''t1'')) \<in> set (sends (sample_mint scoped_client half_pair False) at_start)
   \<and> (\<forall>p b r. Api ''DELETE'' p b r \<notin> set (sends (sample_mint scoped_client half_pair False) at_start))"
proof -
  have "fst (sample_mint scoped_client half_pair False at_start) = Val ''minted''" by code_simp
  then have run: "sample_mint scoped_client half_pair False at_start = (Val ''minted'', snd (sample_mint scoped_client half_pair False at_start))"
    by (metis prod.collapse)
  have "Shown (access_key_path ''n1'') (Inr (Some ''t1'')) \<in> set (sends (sample_mint scoped_client half_pair False) at_start)" by code_simp
  then show ?thesis using half_pair_forgets_its_token [OF run] by (auto simp: Let_def)
qed

section \<open>A retirement\<close>

definition sample_pair_files :: pair_files where
  "sample_pair_files = [(''prod'', JObj [(''backup'', JObj [(''r2'', JObj [(''access_key_id'', JStr ''t1''), (''secret_access_key'', JStr ''s'')])])])]"

abbreviation sample_revoke :: "(bool, string) token_act" where
  "sample_revoke \<equiv> revoke_pair (sample_account scoped_client (JObj [])) [] ''acc'' sample_pair_files ''backup.r2'' True False"

lemma sample_revoked: "fst (sample_revoke at_start) = Val ''revoked''"
  by code_simp

lemma unset_only_when_gone_witness: "looked_up ''acc'' ''t1'' (Status 404) \<in> set (sends sample_revoke at_start)"
proof -
  have "unsets (sends sample_revoke at_start) \<noteq> []" by code_simp
  moreover have "the_id sample_pair_files (fst (pair_paths ''backup.r2'')) (files_holding sample_pair_files (fst (pair_paths ''backup.r2''))) = Inr ''t1''"
    by code_simp
  ultimately show ?thesis using unset_only_when_gone [of "sample_account scoped_client (JObj [])" "[]" "''acc''" sample_pair_files "''backup.r2''" True False at_start]
    by auto
qed

lemma retired_pair_is_gone_witness: "list_all fulfilled (sends sample_revoke at_start)"
proof -
  have "sample_revoke at_start = (Val ''revoked'', snd (sample_revoke at_start))" using sample_revoked by (metis prod.collapse)
  from retired_pair_is_gone [OF this] show ?thesis by (auto simp: Let_def)
qed

end
