(* ===== verification/Spec2Isabelle.thy ===== *)
theory Spec2Isabelle
  imports ForgeCliSamples RestoreWindowSamples ArgoFacts CronJobRun SecretsSamples DeploySamples BranchProtectionFacts DockerReclaimFacts MonitorCommandFacts MonitorExportFacts BackupSamples
begin

text \<open>
  A verification library for the toolkit of the kubelab repository (\<open>toolkit/\<close>, Python): the programs that
  reconcile the Gitea forge with its declaration, rotate and deliver credentials, stop and restart
  applications around a restore, repoint Argo CD, run jobs on demand, keep the encrypted secret store, merge
  mechanical deploys, protect branches, synchronise monitors, reclaim Docker residue, and mint and retire backup tokens.
  Every theory translates functions of the files it names, statement by statement and with their errors;
  the world outside (the forges, \<open>kubectl\<close>, \<open>gh\<close>, shells, \<open>sops\<close>, clocks, generators) is a parameter everywhere.

  \<^bold>\<open>Foundations.\<close>
  \<^item> \<open>Prelude\<close>: Python values (\<open>json\<close>), exceptions (\<open>exn\<close>, results of type \<open>exn + 'a\<close>), strings, sets and
    dictionaries as ordered association lists, with the laws the components share.
  \<^item> \<open>Effects\<close>: actions over an outside party. An action returns a value, an exception, or \<open>Stuck\<close> when a
    loop has used its bound; what was sent is logged. \<open>emits\<close>, \<open>sends\<close>, \<open>answers\<close> and \<open>ends\<close> are the
    properties proved of actions, each with a collection of introduction rules.
  \<^item> \<open>Sends\<close>: the exact sequence an action sends, and actions that follow a script.
  \<^item> \<open>Transcript\<close>: what an action was told, call by call, with rules that carry statements about the answers
    read through the code.
  \<^item> \<open>Traces\<close>: actions over several parties, logged with their answers, and rules that compute what holds of an
    outcome together with its log.
  \<^item> \<open>Kubectl\<close>: calls of a command and polling loops under a deadline, with the assumption
    \<open>keeps_time\<close> on the clock and the proof that such loops end by themselves.
  \<^item> \<open>MergePatch\<close>: JSON merge patches (RFC 7386) and \<open>replace_with\<close> of \<open>restore_window.py\<close>.
  \<^item> \<open>Regex\<close>: regular expressions as syntax trees, with a derivative matcher for \<open>re.fullmatch\<close>.

  \<^bold>\<open>The forge\<close> (\<open>toolkit/features/gitea_client.py\<close>, \<open>gitea_repos.py\<close>, \<open>gitea_tokens.py\<close>,
  \<open>gitea_actions_secrets.py\<close>, \<open>toolkit/cli/services.py\<close>).
  \<^item> \<open>GiteaClient\<close>: both API clients, request by request; \<open>GiteaFacts\<close>: pagination is exhaustive.
  \<^item> \<open>ForgeDecl\<close>: loading and validating the declaration. \<open>ForgeChecks\<close>: the predicates that compare it
    with the forge. \<open>Convergence\<close>: a locale for their contract, interpreted for settings, hooks, teams and
    collaborators.
  \<^item> \<open>ForgePlan\<close>: \<open>plan_reconcile\<close>; \<open>ForgePlanFacts\<close>: a plan is empty exactly when the forge matches.
  \<^item> \<open>ForgeEnsure\<close>: the operations that write and read back. \<open>ForgeExecute\<close>: \<open>execute\<close>;
    \<open>ForgeExecuteFacts\<close>: everything planned is accounted for, what is recorded was read back, which client
    may send what, and no webhook goes out unsigned.
  \<^item> \<open>ForgeDrop\<close>: which repository may be deleted. \<open>ForgeCli\<close>, \<open>ForgeCliFacts\<close>: the commands, what they may
    send and what exit code zero means.
  \<^item> \<open>TokenRotation\<close>, \<open>ActionsSecrets\<close>: rotating machine tokens, checking their scopes, delivering secrets.

  \<^bold>\<open>The cluster\<close> (\<open>restore_window.py\<close>, \<open>argo_manager.py\<close>, \<open>cronjob_run.py\<close> of \<open>toolkit/features\<close>).
  \<^item> \<open>RestoreWindow\<close>: opening and closing a window; \<open>RestoreWindowFacts\<close>: the commands end, send only what
    they may, and return only on what they read. \<open>WindowLock\<close>: a step relation for any interleaving of
    window commands with other writers, and its refinement to a lock.
  \<^item> \<open>ArgoManager\<close>, \<open>ArgoFacts\<close>: repointing a revision under optimistic concurrency, and the commit status
    verdicts. \<open>CronJobRun\<close>: one manual job, always removed.

  \<^bold>\<open>Secrets\<close> (\<open>secrets_manager.py\<close>, \<open>configuration.py\<close>, parts of \<open>credentials.py\<close> and
  \<open>backup_node_credentials.py\<close> of \<open>toolkit/features\<close>).
  \<^item> \<open>SecretCatalog\<close>: an entry, its validation and the names derived from it; \<open>SecretData\<close>: the repository's
    catalog, entry by entry.
  \<^item> \<open>ConfigTree\<close>: nested documents, key paths, merging, setting and flattening. Setting values has the contract
    of the locale \<open>assignable\<close>, interpreted for nested mappings.
  \<^item> \<open>SecretVault\<close>: the files behind \<open>sops\<close>; \<open>SecretsManager\<close>: audit, initialise, hash, rotate, orphans.
    \<open>SecretsFacts\<close> and \<open>SecretsRuns\<close> hold what the operations do to any store; \<open>CatalogFacts\<close> applies it to
    the repository's catalog, whose key paths are proved apart by evaluation.

  \<^bold>\<open>Delivery\<close> (\<open>deploy_shape.py\<close>, \<open>deploy_merge.py\<close>, \<open>branch_protection.py\<close> of \<open>toolkit/features\<close>, and
  the commands of \<open>toolkit/cli/tools.py\<close> over the first two).
  \<^item> \<open>DeployShape\<close>: is a pull request a mechanical deploy, from its two versions of two files;
    \<open>DeployShapeFacts\<close>: such a pull request changes nothing but the declared tag and its rendering.
  \<^item> \<open>DeployMerge\<close>: reading a pull request and judging it; \<open>DeployMergeFacts\<close>: on what evidence it is merged.
    \<open>DeployContexts\<close> compares the reading of the required contexts with a reference on reports.
  \<^item> \<open>DeployCommands\<close>, \<open>DeployCommandFacts\<close>: the commands, their exit codes and what they write.
  \<^item> \<open>BranchProtection\<close>: reading, merging and writing a branch's protection; \<open>BranchProtectionFacts\<close>: it
    returns only on a reading that shows what was asked for.

  \<^bold>\<open>Monitors and nodes\<close> (\<open>monitoring_diff.py\<close>, \<open>monitoring.py\<close>, \<open>docker_reclaim.py\<close> and \<open>resolve_ssh_user\<close> of
  \<open>toolkit/features\<close>, \<open>node_reclaim\<close> of \<open>toolkit/cli/infra.py\<close>).
  \<^item> \<open>MonitorDiff\<close>: the plan of a sync; \<open>MonitorDiffFacts\<close>: the plan is a matching, by key where keys are
    stamped; \<open>MonitorMarker\<close>: embedding and reading the key; \<open>MonitorSeedFacts\<close>: tokens and pauses.
  \<^item> \<open>MonitorApply\<close>: applying a plan, the export and the bootstrap, call by call; \<open>MonitorApplyFacts\<close>: no change
    without consent, no write over a delete that may not have landed, and what exit code zero means;
    \<open>MonitorCommandFacts\<close>: the commands end, and the bootstrap leaves a configured instance alone;
    \<open>MonitorExportFacts\<close>: an exported seed plans nothing against the instance it came from.
  \<^item> \<open>DockerReclaim\<close>: parsing, the plan, the unattended run and the command; \<open>DockerReclaimFacts\<close>: what is
    removed, what is sent, and that the runners are started again.

  \<^bold>\<open>Backup tokens\<close> (\<open>backup_node_credentials.py\<close> and \<open>backup_token_revoke.py\<close> of \<open>toolkit/features\<close>, the minting and
  revoking commands of \<open>toolkit/cli/backup.py\<close>).
  \<^item> \<open>BackupTokens\<close>: the requests, the check of a pair by what it can do, minting for nodes and the watcher;
    \<open>BackupTokenFacts\<close>: what is stored was proven, a new token is stored or revoked, and where a token is lost.
  \<^item> \<open>BackupRevoke\<close>: retiring a pair; \<open>BackupRevokeFacts\<close>: keys are unset only once the account denies knowing
    the token, the secret first, and a retired pair is in no file.

  The theories ending in \<open>Samples\<close> evaluate the properties at concrete inputs.

  \<^bold>\<open>Bounds.\<close> A loop that the code does not bound (pagination, polling, retries) runs on the \<open>budget\<close> of
  the world, and yields \<open>Stuck\<close> when it is used up. Pagination needs one more iteration than pages;
  a polling loop needs \<open>poll_bound\<close>, computed from its timeout and interval, and is proved to end within it
  whatever the outside answers. Retries of a patch are bounded by the code's own constant. Recursion on
  documents is structural, so it needs no bound.

  \<^bold>\<open>Parameters.\<close> The forges, \<open>kubectl\<close>, \<open>gh\<close>, \<open>sops\<close>, shells, the file system, the readers of YAML, JSON and
  ISO dates, the compiler of regular expressions and the generators of random values are
  functions from a call and their own state to an answer and the next state, arbitrary unless a property
  names what it needs: \<open>keeps_time\<close> (the clock does not go back), \<open>store\<close> (documents written are the
  documents read), \<open>opens\<close> (reading does not fail), \<open>mints\<close> (generated values are not blank), \<open>stays_gone\<close> (a deleted monitor
  does not come back).

  \<^bold>\<open>Not modelled.\<close> Logging and printing; the rendering of templates; scripts whose outcome is that of the
  \<open>docker\<close>, \<open>restic\<close>, \<open>ssh\<close> or \<open>terraform\<close> commands they run; floats and dates in documents; comments and layout
  of files; the network below a request. The manifest lists every module with its reason.
\<close>

end
